(* ===== verification/Prelude.thy ===== *)
theory Prelude
  imports Complex_Main "HOL-Library.Word" "HOL-Library.Sublist"
begin

text \<open>
  Shared vocabulary of the development: the machine types of the Go code, the parts of the
  Go standard library the code uses on strings and numbers (\<open>fmt\<close> verbs, \<open>strings.ToLower\<close>,
  \<open>strings.Contains\<close>, \<open>math/big\<close>), Go errors as values, and generic lemmas.

  \<^item> \<open>uint64\<close> is \<open>64 word\<close>: block numbers, log indices and depths wrap as in Go.
  \<^item> \<open>common.Address\<close> and \<open>common.Hash\<close> are 160 and 256 bit words (20 and 32 bytes).
  \<^item> \<open>int64\<close> values that are stored in the database are \<open>int\<close>; the conversion
    \<open>int64(x)\<close> of a \<open>uint64\<close> is \<open>sint\<close>, the conversion back is \<open>word_of_int\<close>.
  \<^item> Go strings are \<open>string\<close> (bytes).
\<close>

type_synonym u64 = "64 word"
type_synonym address = "160 word"
type_synonym hash = "256 word"
type_synonym bytes = "8 word list"

named_theorems go_defs \<open>definitions of the effect combinators\<close>

section \<open>Numbers as text\<close>

definition digit_char :: "nat \<Rightarrow> char" where
  "digit_char d = char_of (48 + d)"

fun dec_nat :: "nat \<Rightarrow> string" where
  "dec_nat n = (if n < 10 then [digit_char n] else dec_nat (n div 10) @ [digit_char (n mod 10)])"

declare dec_nat.simps [simp del]

text \<open>The \<open>%d\<close> verb on signed numbers, and \<open>big.Int.String\<close>.\<close>

definition dec_int :: "int \<Rightarrow> string" where
  "dec_int i = (if i < 0 then CHR ''-'' # dec_nat (nat (- i)) else dec_nat (nat i))"

text \<open>The \<open>%d\<close> verb on a \<open>uint64\<close>.\<close>

definition dec_u64 :: "u64 \<Rightarrow> string" where
  "dec_u64 x = dec_nat (unat x)"

definition digit_val :: "char \<Rightarrow> nat" where
  "digit_val c = of_char c - 48"

definition undec :: "string \<Rightarrow> nat" where
  "undec s = foldl (\<lambda>a c. a * 10 + digit_val c) 0 s"

lemma digit_val_char: "d < 10 \<Longrightarrow> digit_val (digit_char d) = d"
  by (simp add: digit_val_def digit_char_def)

lemma undec_dec_nat [simp]: "undec (dec_nat n) = n"
proof (induction n rule: dec_nat.induct)
  case (1 n)
  show ?case
  proof (cases "n < 10")
    case True
    then show ?thesis by (subst dec_nat.simps) (simp add: undec_def digit_val_char)
  next
    case False
    with 1 have "undec (dec_nat (n div 10)) = n div 10" by simp
    with False show ?thesis
      by (subst dec_nat.simps) (simp add: undec_def digit_val_char)
  qed
qed

lemma dec_nat_inj [simp]: "dec_nat m = dec_nat n \<longleftrightarrow> m = n"
  by (metis undec_dec_nat)

definition is_digit :: "char \<Rightarrow> bool" where
  "is_digit c \<longleftrightarrow> 48 \<le> (of_char c :: nat) \<and> (of_char c :: nat) \<le> 57"

lemma is_digit_char: "d < 10 \<Longrightarrow> is_digit (digit_char d)"
  by (simp add: is_digit_def digit_char_def)

lemma dec_nat_digits: "c \<in> set (dec_nat n) \<Longrightarrow> is_digit c"
proof (induction n rule: dec_nat.induct)
  case (1 n)
  then show ?case
    by (subst (asm) (2) dec_nat.simps) (auto simp: is_digit_char split: if_splits)
qed

lemma dec_nat_nonempty [simp]: "dec_nat n \<noteq> []"
  by (subst dec_nat.simps) simp

lemma dec_int_inj [simp]: "dec_int i = dec_int j \<longleftrightarrow> i = j"
proof
  assume eq: "dec_int i = dec_int j"
  have minus: "CHR ''-'' # dec_nat k \<noteq> dec_nat l" for k l
  proof
    assume "CHR ''-'' # dec_nat k = dec_nat l"
    then have "CHR ''-'' \<in> set (dec_nat l)" by (metis list.set_intros(1))
    then have "is_digit (CHR ''-'')" by (rule dec_nat_digits)
    then show False by (simp add: is_digit_def)
  qed
  from eq show "i = j"
    using minus minus [symmetric] by (auto simp: dec_int_def split: if_splits)
qed simp

lemma dec_u64_inj [simp]: "dec_u64 x = dec_u64 y \<longleftrightarrow> x = y"
  by (simp add: dec_u64_def word_unat_eq_iff)

lemma digit_plain: "is_digit c \<Longrightarrow> c \<noteq> CHR '':''"
  by (auto simp: is_digit_def)

lemma dec_u64_no_colon: "CHR '':'' \<notin> set (dec_u64 x)"
  using dec_nat_digits digit_plain by (auto simp: dec_u64_def)

lemma dec_int_no_colon: "CHR '':'' \<notin> set (dec_int i)"
  using dec_nat_digits digit_plain by (auto simp: dec_int_def)

section \<open>Strings\<close>

text \<open>
  \<open>strings.ToLower\<close> on ASCII letters. Bytes outside \<open>A..Z\<close> are left alone; the case
  mapping of non-ASCII letters is not modelled (no text the code compares contains one).
\<close>

definition lower_char :: "char \<Rightarrow> char" where
  "lower_char c = (if 65 \<le> (of_char c :: nat) \<and> (of_char c :: nat) \<le> 90
                   then char_of ((of_char c :: nat) + 32) else c)"

definition to_lower :: "string \<Rightarrow> string" where
  "to_lower s = map lower_char s"

fun contains :: "string \<Rightarrow> string \<Rightarrow> bool" where
  "contains [] p = (p = [])"
| "contains (c # cs) p = (prefix p (c # cs) \<or> contains cs p)"

lemma contains_iff: "contains s p \<longleftrightarrow> (\<exists>us vs. s = us @ p @ vs)"
proof (induction s)
  case Nil
  then show ?case by auto
next
  case (Cons c cs)
  have "(\<exists>us vs. c # cs = us @ p @ vs) \<longleftrightarrow>
        prefix p (c # cs) \<or> (\<exists>us vs. cs = us @ p @ vs)"
    by (metis Cons_eq_append_conv append_Nil prefix_def)
  with Cons show ?case by simp
qed

lemma contains_append2: "contains t p \<Longrightarrow> contains (s @ t) p"
  unfolding contains_iff by (metis append.assoc)

lemma contains_append1: "contains s p \<Longrightarrow> contains (s @ t) p"
  unfolding contains_iff by (metis append.assoc)

lemma to_lower_append [simp]: "to_lower (s @ t) = to_lower s @ to_lower t"
  by (simp add: to_lower_def)

lemma to_lower_simps [simp]:
  "to_lower [] = []" "to_lower (c # s) = lower_char c # to_lower s"
  by (simp_all add: to_lower_def)

lemma lower_digit: "is_digit c \<Longrightarrow> lower_char c = c"
  by (auto simp: lower_char_def is_digit_def)

lemma to_lower_dec_nat [simp]: "to_lower (dec_nat n) = dec_nat n"
  unfolding to_lower_def by (rule map_idI) (auto intro: lower_digit dec_nat_digits)

text \<open>Two texts joined at a separator that occurs in neither left part split uniquely.\<close>

lemma split_at_sep:
  "sep \<notin> set a \<Longrightarrow> sep \<notin> set b \<Longrightarrow> a @ sep # x = b @ sep # y \<Longrightarrow> a = b \<and> x = y"
proof (induction a arbitrary: b)
  case Nil
  then show ?case by (cases b) auto
next
  case (Cons c a)
  then show ?case by (cases b) auto
qed

section \<open>Bytes and big integers\<close>

text \<open>\<open>new(big.Int).SetBytes\<close> (big endian).\<close>

definition set_bytes :: "bytes \<Rightarrow> int" where
  "set_bytes bs = foldl (\<lambda>a b. a * 256 + uint b) 0 bs"

lemma set_bytes_snoc [simp]: "set_bytes (bs @ [b]) = set_bytes bs * 256 + uint b"
  by (simp add: set_bytes_def)

lemma set_bytes_bounds: "0 \<le> set_bytes bs \<and> set_bytes bs < 256 ^ length bs"
proof (induction bs rule: rev_induct)
  case Nil
  then show ?case by (simp add: set_bytes_def)
next
  case (snoc b bs)
  have b: "0 \<le> uint b" "uint b < 256" using uint_lt2p [of b] by simp_all
  have "set_bytes bs * 256 + uint b < (set_bytes bs + 1) * 256" using b by simp
  also have "\<dots> \<le> 256 ^ length bs * 256" using snoc by (intro mult_right_mono) simp_all
  finally show ?case using snoc b by (simp add: mult.commute)
qed

text \<open>\<open>common.BytesToAddress(topic.Bytes())\<close> keeps the last 20 of the 32 bytes.\<close>

definition topic_address :: "hash \<Rightarrow> address" where
  "topic_address h = ucast h"

section \<open>Go errors\<close>

text \<open>
  A Go error is its text and the three facts the code asks of its chain:
  \<open>errors.Is(err, context.Canceled)\<close>, \<open>errors.Is(err, context.DeadlineExceeded)\<close> and
  \<open>errors.As(err, *net.Error)\<close>. Wrapping with \<open>%w\<close> keeps the chain, so it keeps the facts,
  and puts the text in front.
\<close>

record goerror =
  emsg :: string
  is_canceled :: bool
  is_deadline :: bool
  is_net :: bool

definition new_error :: "string \<Rightarrow> goerror" where
  "new_error s = \<lparr>emsg = s, is_canceled = False, is_deadline = False, is_net = False\<rparr>"

definition wrap_error :: "string \<Rightarrow> goerror \<Rightarrow> goerror" where
  "wrap_error s e = e\<lparr>emsg := s @ '': '' @ emsg e\<rparr>"

lemma wrap_error_simps [simp]:
  "emsg (wrap_error s e) = s @ '': '' @ emsg e"
  "is_canceled (wrap_error s e) = is_canceled e"
  "is_deadline (wrap_error s e) = is_deadline e"
  "is_net (wrap_error s e) = is_net e"
  by (simp_all add: wrap_error_def)

lemma new_error_simps [simp]:
  "emsg (new_error s) = s"
  "\<not> is_canceled (new_error s)" "\<not> is_deadline (new_error s)" "\<not> is_net (new_error s)"
  by (simp_all add: new_error_def)

section \<open>Words\<close>

lemma u64_succ_unat: "(x :: u64) \<noteq> - 1 \<Longrightarrow> unat (x + 1) = Suc (unat x)"
  by (metis add.commute unatSuc word_succ_p1 word_pred_m1 word_pred_succ add_eq_0_iff)

lemma u64_le_less_succ: "(x :: u64) < y \<Longrightarrow> x + 1 \<le> y"
  by (rule inc_le)

lemma u64_less_not_max: "(x :: u64) < y \<Longrightarrow> x \<noteq> - 1"
  using word_order.extremum_strict by fastforce

lemma unat_bound: "unat (x :: u64) < 2 ^ 64"
  by (rule order_less_le_trans [OF unsigned_less]) simp

text \<open>The end of a span of \<open>step\<close> blocks, and when it wraps.\<close>

lemma span_end:
  assumes "0 < unat (step :: u64)" "n = unat (lo :: u64) + (unat step - 1)"
  shows "lo + step - 1 < lo \<longleftrightarrow> 2 ^ 64 \<le> n" "n < 2 ^ 64 \<Longrightarrow> unat (lo + step - 1) = n"
proof -
  have eq: "lo + step - 1 = of_nat n"
    using assms(1) by (simp add: assms(2) of_nat_diff)
  have small: "unat lo < 2 ^ 64" "unat step < 2 ^ 64"
    using unat_bound by simp_all
  have hi: "unat (lo + step - 1) = n mod 2 ^ 64"
    unfolding eq by (simp add: unat_of_nat)
  show *: "n < 2 ^ 64 \<Longrightarrow> unat (lo + step - 1) = n" using hi by simp
  show "lo + step - 1 < lo \<longleftrightarrow> 2 ^ 64 \<le> n"
  proof (cases "n < 2 ^ 64")
    case True
    then show ?thesis using * by (simp add: word_less_nat_alt assms(2))
  next
    case False
    then have "n mod 2 ^ 64 = n - 2 ^ 64" using small by (simp add: assms(2) mod_if)
    then have "unat (lo + step - 1) < unat lo" using hi small False by (simp add: assms(2))
    then show ?thesis using False by (simp add: word_less_nat_alt)
  qed
qed

end
