(* ===== verification/Tables.thy ===== *)
theory Tables
  imports Prelude
begin

text \<open>
  SQL tables with a unique key, as lists of rows in insertion order, and the statements the
  repository issues on them: \<open>INSERT ... ON CONFLICT (key) DO UPDATE / DO NOTHING\<close>,
  \<open>UPDATE ... WHERE key = k\<close> and a lookup by key. The locale \<open>sql_table\<close> is the contract of an
  upsert (what a lookup returns afterwards, keys stay unique); the locale \<open>replay_table\<close> adds
  what makes a batch of upserts safe to replay. The tables of the schema interpret them in
  the theory \<open>Database\<close>.
\<close>

section \<open>Statements\<close>

fun upsert :: "('r \<Rightarrow> 'k) \<Rightarrow> ('r \<Rightarrow> 'r \<Rightarrow> 'r) \<Rightarrow> 'r \<Rightarrow> 'r list \<Rightarrow> 'r list" where
  "upsert key merge new [] = [new]"
| "upsert key merge new (r # rs) =
     (if key r = key new then merge r new # rs else r # upsert key merge new rs)"

definition insert_ignore :: "('r \<Rightarrow> 'k) \<Rightarrow> 'r \<Rightarrow> 'r list \<Rightarrow> 'r list" where
  "insert_ignore key new t = upsert key (\<lambda>old _. old) new t"

definition update_row :: "('r \<Rightarrow> 'k) \<Rightarrow> 'k \<Rightarrow> ('r \<Rightarrow> 'r) \<Rightarrow> 'r list \<Rightarrow> 'r list" where
  "update_row key k u t = map (\<lambda>r. if key r = k then u r else r) t"

definition find_row :: "('r \<Rightarrow> 'k) \<Rightarrow> 'k \<Rightarrow> 'r list \<Rightarrow> 'r option" where
  "find_row key k t = find (\<lambda>r. key r = k) t"

definition has_row :: "('r \<Rightarrow> 'k) \<Rightarrow> 'k \<Rightarrow> 'r list \<Rightarrow> bool" where
  "has_row key k t \<longleftrightarrow> k \<in> key ` set t"

definition keys_unique :: "('r \<Rightarrow> 'k) \<Rightarrow> 'r list \<Rightarrow> bool" where
  "keys_unique key t \<longleftrightarrow> distinct (map key t)"

lemma find_row_simps [simp]:
  "find_row key k [] = None"
  "find_row key k (r # t) = (if key r = k then Some r else find_row key k t)"
  by (simp_all add: find_row_def)

lemma find_row_key: "find_row key k t = Some r \<Longrightarrow> key r = k \<and> r \<in> set t"
  by (induction t) (auto split: if_splits)

lemma has_row_find: "has_row key k t \<longleftrightarrow> find_row key k t \<noteq> None"
  by (induction t) (auto simp: has_row_def)

lemma find_row_None: "find_row key k t = None \<longleftrightarrow> k \<notin> key ` set t"
  by (induction t) auto

lemma has_row_simps [simp]:
  "\<not> has_row key k []"
  "has_row key k (r # t) \<longleftrightarrow> key r = k \<or> has_row key k t"
  by (auto simp: has_row_def)

lemma find_row_in: "keys_unique key t \<Longrightarrow> r \<in> set t \<Longrightarrow> find_row key (key r) t = Some r"
  by (induction t) (auto simp: keys_unique_def)

lemma table_ext:
  assumes "map key s = map key t" "keys_unique key s" "\<And>k. find_row key k s = find_row key k t"
  shows "s = t"
  using assms
proof (induction s arbitrary: t)
  case Nil
  then show ?case by simp
next
  case (Cons r s)
  then obtain r' t' where t: "t = r' # t'" "key r' = key r" "map key s = map key t'"
    by (cases t) auto
  have "r = r'" using Cons.prems(3) [of "key r"] t by simp
  moreover have "s = t'"
  proof (rule Cons.IH)
    show "map key s = map key t'" by (rule t)
    show "keys_unique key s" using Cons.prems(2) by (simp add: keys_unique_def)
    fix k
    have keys_eq: "key ` set s = key ` set t'" using arg_cong [OF t(3), of set] by simp
    have "key r \<notin> key ` set s" using Cons.prems(2) by (simp add: keys_unique_def)
    then have fresh: "find_row key (key r) s = None" "find_row key (key r) t' = None"
      using keys_eq by (simp_all add: find_row_None)
    show "find_row key k s = find_row key k t'"
      using Cons.prems(3) [of k] t fresh by (cases "k = key r") simp_all
  qed
  ultimately show ?case using t by simp
qed

text \<open>The row an upsert writes.\<close>

definition written :: "('r \<Rightarrow> 'k) \<Rightarrow> ('r \<Rightarrow> 'r \<Rightarrow> 'r) \<Rightarrow> 'r \<Rightarrow> 'r list \<Rightarrow> 'r" where
  "written key merge n t = (case find_row key (key n) t of None \<Rightarrow> n | Some r \<Rightarrow> merge r n)"

lemma set_upsert: "r \<in> set (upsert key merge n t) \<Longrightarrow> r \<in> set t \<or> r = written key merge n t"
  by (induction t) (auto simp: written_def split: if_splits option.splits)

lemma written_cases:
  obtains "find_row key (key n) t = None" "written key merge n t = n"
  | old where "old \<in> set t" "key old = key n" "written key merge n t = merge old n"
  using find_row_key [of key "key n" t] by (cases "find_row key (key n) t") (auto simp: written_def)

section \<open>The contract of an upsert\<close>

locale sql_table =
  fixes key :: "'r \<Rightarrow> 'k" and merge :: "'r \<Rightarrow> 'r \<Rightarrow> 'r"
  assumes merge_key: "key r = key n \<Longrightarrow> key (merge r n) = key n"
begin

lemma keys_upsert:
  "map key (upsert key merge n t) =
     (if has_row key (key n) t then map key t else map key t @ [key n])"
  by (induction t) (auto simp: merge_key)

lemma unique_upsert: "keys_unique key t \<Longrightarrow> keys_unique key (upsert key merge n t)"
  by (auto simp: keys_unique_def keys_upsert has_row_def)

lemma has_upsert: "has_row key k (upsert key merge n t) \<longleftrightarrow> k = key n \<or> has_row key k t"
  by (induction t) (auto simp: merge_key)

lemma find_upsert:
  "find_row key k (upsert key merge n t) =
     (if k = key n
      then Some (case find_row key k t of None \<Rightarrow> n | Some r \<Rightarrow> merge r n)
      else find_row key k t)"
  by (induction t) (auto simp: merge_key)

lemma upsert_idem:
  assumes "merge n n = n" "\<And>r. key r = key n \<Longrightarrow> merge (merge r n) n = merge r n"
  shows "upsert key merge n (upsert key merge n t) = upsert key merge n t"
  using assms by (induction t) (auto simp: merge_key)

end

text \<open>\<open>ON CONFLICT DO NOTHING\<close> is an upsert that keeps the old row, on any key.\<close>

interpretation ignore: sql_table key "\<lambda>old _. old" for key :: "'r \<Rightarrow> 'k"
  by unfold_locales

lemma has_insert_ignore [simp]:
  "has_row key k (insert_ignore key n t) \<longleftrightarrow> k = key n \<or> has_row key k t"
  by (simp add: insert_ignore_def ignore.has_upsert)

lemma find_insert_ignore:
  "find_row key k (insert_ignore key n t) =
     (if k = key n \<and> find_row key k t = None then Some n else find_row key k t)"
  by (auto simp: insert_ignore_def ignore.find_upsert split: option.split)

lemma unique_insert_ignore:
  "keys_unique key t \<Longrightarrow> keys_unique key (insert_ignore key n t)"
  by (simp add: insert_ignore_def ignore.unique_upsert)

lemma insert_ignore_present: "has_row key (key n) t \<Longrightarrow> insert_ignore key n t = t"
  by (induction t) (auto simp: insert_ignore_def)

lemma insert_ignore_mono: "r \<in> set t \<Longrightarrow> r \<in> set (insert_ignore key n t)"
  by (induction t) (auto simp: insert_ignore_def)

lemma update_row_keys:
  "(\<And>r. key (u r) = key r) \<Longrightarrow> map key (update_row key k u t) = map key t"
  by (induction t) (auto simp: update_row_def)

lemma has_update_row:
  "(\<And>r. key (u r) = key r) \<Longrightarrow> has_row key k' (update_row key k u t) \<longleftrightarrow> has_row key k' t"
  by (induction t) (auto simp: update_row_def)

lemma find_update_row:
  "(\<And>r. key (u r) = key r) \<Longrightarrow>
   find_row key k' (update_row key k u t) =
     (if k' = k then map_option u (find_row key k t) else find_row key k' t)"
  by (induction t) (auto simp: update_row_def)

section \<open>Replaying a batch of upserts\<close>

text \<open>
  An operation on a table is the row to insert and the update to apply when its key is already
  there. A batch is replay safe when the updates come from a set closed under composition in
  which every update is idempotent (assignments of constants, \<open>COALESCE\<close> with a constant),
  and an inserted row already reflects its own update.
\<close>

type_synonym 'r op = "'r \<times> ('r \<Rightarrow> 'r)"

definition apply_op :: "('r \<Rightarrow> 'k) \<Rightarrow> 'r op \<Rightarrow> 'r list \<Rightarrow> 'r list" where
  "apply_op key p t = upsert key (\<lambda>old _. snd p old) (fst p) t"

definition apply_ops :: "('r \<Rightarrow> 'k) \<Rightarrow> 'r op list \<Rightarrow> 'r list \<Rightarrow> 'r list" where
  "apply_ops key ps t = fold (apply_op key) ps t"

definition lift_op :: "'r op \<Rightarrow> 'r option \<Rightarrow> 'r option" where
  "lift_op p x = (case x of None \<Rightarrow> Some (fst p) | Some r \<Rightarrow> Some (snd p r))"

lemma set_apply_op:
  "r \<in> set (apply_op key p t) \<Longrightarrow> r \<in> set t \<or> r = written key (\<lambda>old _. snd p old) (fst p) t"
  unfolding apply_op_def by (rule set_upsert)

lemma apply_ops_simps [simp]:
  "apply_ops key [] t = t"
  "apply_ops key (p # ps) t = apply_ops key ps (apply_op key p t)"
  "apply_ops key (ps @ qs) t = apply_ops key qs (apply_ops key ps t)"
  by (simp_all add: apply_ops_def)

text \<open>
  \<open>skips ps qs\<close>: \<open>qs\<close> is \<open>ps\<close> without some operations whose update does nothing (an insert that
  ignores conflicts); on a table that has all the keys it makes no difference.
\<close>

inductive skips :: "'r op list \<Rightarrow> 'r op list \<Rightarrow> bool" where
  skips_Nil: "skips [] []"
| skips_keep: "skips ps qs \<Longrightarrow> skips (p # ps) (p # qs)"
| skips_drop: "skips ps qs \<Longrightarrow> snd p = (\<lambda>old. old) \<Longrightarrow> skips (p # ps) qs"

lemma skips_refl: "skips ps ps"
  by (induction ps) (auto intro: skips.intros)

lemma skips_append: "skips ps qs \<Longrightarrow> skips ps' qs' \<Longrightarrow> skips (ps @ ps') (qs @ qs')"
  by (induction rule: skips.induct) (auto intro: skips.intros)

lemma apply_ignore_present:
  "snd p = (\<lambda>old. old) \<Longrightarrow> has_row key (key (fst p)) t \<Longrightarrow> apply_op key p t = t"
  by (induction t) (auto simp: apply_op_def)

locale replay_table =
  fixes key :: "'r \<Rightarrow> 'k" and good :: "('r \<Rightarrow> 'r) \<Rightarrow> bool"
  assumes good_id: "good id"
    and good_comp: "good u \<Longrightarrow> good v \<Longrightarrow> good (u \<circ> v)"
    and good_idem: "good u \<Longrightarrow> u (u r) = u r"
    and good_key: "good u \<Longrightarrow> key (u r) = key r"
begin

definition safe_op :: "'r op \<Rightarrow> bool" where
  "safe_op p \<longleftrightarrow> good (snd p) \<and> snd p (fst p) = fst p"

definition safe_ops :: "'r op list \<Rightarrow> bool" where
  "safe_ops ps \<longleftrightarrow> (\<forall>p \<in> set ps. safe_op p)"

lemma op_table: "safe_op p \<Longrightarrow> sql_table key (\<lambda>old _. snd p old)"
  by unfold_locales (simp add: safe_op_def good_key)

lemma has_apply_op:
  "safe_op p \<Longrightarrow> has_row key k (apply_op key p t) \<longleftrightarrow> k = key (fst p) \<or> has_row key k t"
  unfolding apply_op_def by (rule sql_table.has_upsert [OF op_table])

lemma keys_apply_op:
  "safe_op p \<Longrightarrow> map key (apply_op key p t) =
     (if has_row key (key (fst p)) t then map key t else map key t @ [key (fst p)])"
  unfolding apply_op_def by (rule sql_table.keys_upsert [OF op_table])

lemma find_apply_op:
  "safe_op p \<Longrightarrow> find_row key k (apply_op key p t) =
     (if k = key (fst p) then lift_op p (find_row key k t) else find_row key k t)"
  unfolding apply_op_def
  by (subst sql_table.find_upsert [OF op_table]) (auto simp: lift_op_def split: option.split)

lemma unique_apply_ops:
  "safe_ops ps \<Longrightarrow> keys_unique key t \<Longrightarrow> keys_unique key (apply_ops key ps t)"
  unfolding safe_ops_def
proof (induction ps arbitrary: t)
  case (Cons p ps)
  then show ?case
    by (simp add: apply_op_def sql_table.unique_upsert [OF op_table])
qed simp

lemma has_apply_ops:
  "safe_ops ps \<Longrightarrow> has_row key k (apply_ops key ps t) \<longleftrightarrow>
     k \<in> key ` fst ` set ps \<or> has_row key k t"
  unfolding safe_ops_def by (induction ps arbitrary: t) (auto simp: has_apply_op)

lemma keys_apply_ops_present:
  "safe_ops ps \<Longrightarrow> (\<forall>p \<in> set ps. has_row key (key (fst p)) t) \<Longrightarrow>
     map key (apply_ops key ps t) = map key t"
  unfolding safe_ops_def
  by (induction ps arbitrary: t) (auto simp: keys_apply_op has_apply_op)

lemma find_apply_ops:
  "safe_ops ps \<Longrightarrow> find_row key k (apply_ops key ps t) =
     fold lift_op (filter (\<lambda>p. key (fst p) = k) ps) (find_row key k t)"
  unfolding safe_ops_def by (induction ps arbitrary: t) (auto simp: find_apply_op)

text \<open>On a row that exists a batch is the composition of its updates, which is idempotent.\<close>

lemma fold_lift_Some: "fold lift_op ps (Some r) = Some (fold (\<lambda>p. snd p) ps r)"
  by (induction ps arbitrary: r) (simp_all add: lift_op_def)

lemma good_fold: "safe_ops ps \<Longrightarrow> good (fold (\<lambda>p. snd p) ps)"
proof (induction ps rule: rev_induct)
  case Nil
  then show ?case using good_id by (simp add: id_def)
next
  case (snoc p ps)
  then have "good (snd p \<circ> fold (\<lambda>p. snd p) ps)"
    by (intro good_comp) (auto simp: safe_ops_def safe_op_def)
  then show ?case by (simp add: o_def)
qed

lemma fold_lift_idem:
  assumes "safe_ops ps"
  shows "fold lift_op ps (fold lift_op ps x) = fold lift_op ps x"
proof -
  let ?U = "\<lambda>qs. fold (\<lambda>p. snd p) qs"
  have idem: "?U ps (?U ps r) = ?U ps r" for r
    using good_idem [OF good_fold [OF assms]] by simp
  show ?thesis
  proof (cases x)
    case (Some r)
    then show ?thesis by (simp add: fold_lift_Some idem)
  next
    case None
    show ?thesis
    proof (cases ps)
      case Nil
      then show ?thesis by simp
    next
      case (Cons p qs)
      have p: "snd p (fst p) = fst p"
        using assms Cons by (simp add: safe_ops_def safe_op_def)
      have first: "fold lift_op ps None = Some (?U ps (fst p))"
        by (simp add: Cons lift_op_def fold_lift_Some p)
      show ?thesis using None first by (simp only: fold_lift_Some idem)
    qed
  qed
qed

theorem replay_idem:
  assumes "safe_ops ps" "keys_unique key t"
  shows "apply_ops key ps (apply_ops key ps t) = apply_ops key ps t"
proof (rule table_ext [of key])
  let ?t = "apply_ops key ps t"
  show "map key (apply_ops key ps ?t) = map key ?t"
    using assms by (intro keys_apply_ops_present) (auto simp: has_apply_ops)
  show "keys_unique key (apply_ops key ps ?t)"
    using assms by (intro unique_apply_ops)
  show "find_row key k (apply_ops key ps ?t) = find_row key k ?t" for k
    using assms(1) fold_lift_idem [of "filter (\<lambda>p. key (fst p) = k) ps"]
    by (simp add: find_apply_ops safe_ops_def)
qed

lemma apply_skips:
  "skips ps qs \<Longrightarrow> safe_ops ps \<Longrightarrow> (\<forall>p \<in> set ps. has_row key (key (fst p)) t) \<Longrightarrow>
   apply_ops key qs t = apply_ops key ps t"
  by (induction arbitrary: t rule: skips.induct)
     (auto simp: safe_ops_def has_apply_op apply_ignore_present)

theorem replay_skips:
  assumes "safe_ops ps" "skips ps qs" "keys_unique key t"
  shows "apply_ops key qs (apply_ops key ps t) = apply_ops key ps t"
  using apply_skips [OF assms(2,1)] replay_idem [OF assms(1,3)] has_apply_ops [OF assms(1)]
  by (metis imageI)

text \<open>
  Crash and rerun: a run that stopped after any prefix of the batch, followed by the whole
  batch, leaves the table as one clean run does.
\<close>

theorem crash_replay:
  assumes "safe_ops (ps @ qs)" "keys_unique key t"
  shows "apply_ops key (ps @ qs) (apply_ops key ps t) = apply_ops key (ps @ qs) t"
  using assms replay_idem [of ps t] by (simp add: safe_ops_def)

end

section \<open>Replaying inserts that ignore conflicts\<close>

lemma has_insert_all:
  "has_row key k (fold (insert_ignore key) rs t) \<longleftrightarrow> k \<in> key ` set rs \<or> has_row key k t"
  by (induction rs arbitrary: t) auto

lemma insert_all_present:
  "(\<forall>r \<in> set rs. has_row key (key r) t) \<Longrightarrow> fold (insert_ignore key) rs t = t"
  by (induction rs) (simp_all add: insert_ignore_present)

lemma replay_inserts:
  "fold (insert_ignore key) rs (fold (insert_ignore key) rs t) = fold (insert_ignore key) rs t"
  by (rule insert_all_present) (auto simp: has_insert_all)

end
