(* ===== verification/Chain.thy ===== *)
theory Chain
  imports Tables
begin

text \<open>
  What the program receives from an Ethereum node: logs, transaction metadata and block
  headers (\<open>types.Log\<close>, \<open>blockchain.TransactionMetadata\<close>, \<open>blockchain.BlockHeader\<close>), and the
  two event decoders of \<open>internal/decoder\<close> and \<open>internal/abi\<close>. The event ids and the
  unpacking of ABI data belong to go-ethereum and are parameters (records \<open>payroll_abi\<close> and
  \<open>erc20_abi\<close>); the dispatch on the topic, the checks and the assembly are the program's.
\<close>

section \<open>Logs, metadata and headers\<close>

record evm_log =
  l_address :: address
  l_topics :: "hash list"
  l_data :: bytes
  l_block :: u64
  l_tx :: hash
  l_index :: u64
  l_removed :: bool

record tx_metadata =
  tm_hash :: hash
  tm_block :: u64
  tm_sender :: address
  tm_recipient :: "address option"
  tm_gas :: u64
  tm_status :: u64

record block_header =
  h_number :: u64
  h_hash :: hash
  h_parent :: hash
  h_time :: u64

section \<open>MonthlyPayroll events\<close>

datatype event_type =
    EventEmployerAdded | EventEmployerRemoved | EventEmployeeAdded | EventEmployeeRemoved
  | EventPayrollFunded | EventSalaryClaimed | EventOwnershipTransferred

fun event_type_name :: "event_type \<Rightarrow> string" where
  "event_type_name EventEmployerAdded = ''EmployerAdded''"
| "event_type_name EventEmployerRemoved = ''EmployerRemoved''"
| "event_type_name EventEmployeeAdded = ''EmployeeAdded''"
| "event_type_name EventEmployeeRemoved = ''EmployeeRemoved''"
| "event_type_name EventPayrollFunded = ''PayrollFunded''"
| "event_type_name EventSalaryClaimed = ''SalaryClaimed''"
| "event_type_name EventOwnershipTransferred = ''OwnershipTransferred''"

text \<open>The event structs of \<open>internal/abi/abi.go\<close>; a \<open>*big.Int\<close> field may be nil.\<close>

record employee_added_event =
  ea_employee :: address
  ea_employer :: address
  ea_salary :: "int option"
  ea_allocation :: "int option"

record employee_removed_event =
  er_employee :: address
  er_employer :: address

record ownership_event =
  ot_previous :: address
  ot_new :: address

record payroll_funded_event =
  fe_employer :: address
  fe_employee :: address
  fe_paid :: "int option"
  fe_fee :: "int option"
  fe_credited :: "int option"

record salary_claimed_event =
  ce_employee :: address
  ce_amount :: "int option"

text \<open>The dynamic type of \<open>DecodedEvent.Data\<close>.\<close>

datatype payroll_data =
    EmployerAddedData address
  | EmployerRemovedData address
  | EmployeeAddedData employee_added_event
  | EmployeeRemovedData employee_removed_event
  | PayrollFundedData payroll_funded_event
  | SalaryClaimedData salary_claimed_event
  | OwnershipData ownership_event

record decoded_event =
  d_type :: event_type
  d_data :: payroll_data
  d_log :: evm_log

record payroll_abi =
  event_id :: "event_type \<Rightarrow> hash"
  unpack_employer_added :: "evm_log \<Rightarrow> goerror + address"
  unpack_employer_removed :: "evm_log \<Rightarrow> goerror + address"
  unpack_employee_added :: "evm_log \<Rightarrow> goerror + employee_added_event"
  unpack_employee_removed :: "evm_log \<Rightarrow> goerror + employee_removed_event"
  unpack_payroll_funded :: "evm_log \<Rightarrow> goerror + payroll_funded_event"
  unpack_salary_claimed :: "evm_log \<Rightarrow> goerror + salary_claimed_event"
  unpack_ownership :: "evm_log \<Rightarrow> goerror + ownership_event"

text \<open>One case of the switch: parse, wrap the error, build the event.\<close>

definition decoded_as ::
  "event_type \<Rightarrow> evm_log \<Rightarrow> ('a \<Rightarrow> payroll_data) \<Rightarrow> goerror + 'a \<Rightarrow> goerror + decoded_event" where
  "decoded_as ty lg mk r =
     (case r of
        Inl e \<Rightarrow> Inl (wrap_error (''decode '' @ event_type_name ty) e)
      | Inr x \<Rightarrow> Inr \<lparr>d_type = ty, d_data = mk x, d_log = lg\<rparr>)"

text \<open>\<open>Decoder.Decode\<close>: the cases of the switch are tried in the order of the code.\<close>

definition decode_payroll ::
  "payroll_abi \<Rightarrow> (hash \<Rightarrow> string) \<Rightarrow> evm_log \<Rightarrow> goerror + decoded_event" where
  "decode_payroll abi hex lg =
     (case l_topics lg of
        [] \<Rightarrow> Inl (new_error ''log has no topics'')
      | t # _ \<Rightarrow>
          if t = event_id abi EventEmployerAdded then
            decoded_as EventEmployerAdded lg EmployerAddedData (unpack_employer_added abi lg)
          else if t = event_id abi EventEmployerRemoved then
            decoded_as EventEmployerRemoved lg EmployerRemovedData (unpack_employer_removed abi lg)
          else if t = event_id abi EventEmployeeAdded then
            decoded_as EventEmployeeAdded lg EmployeeAddedData (unpack_employee_added abi lg)
          else if t = event_id abi EventEmployeeRemoved then
            decoded_as EventEmployeeRemoved lg EmployeeRemovedData (unpack_employee_removed abi lg)
          else if t = event_id abi EventPayrollFunded then
            decoded_as EventPayrollFunded lg PayrollFundedData (unpack_payroll_funded abi lg)
          else if t = event_id abi EventSalaryClaimed then
            decoded_as EventSalaryClaimed lg SalaryClaimedData (unpack_salary_claimed abi lg)
          else if t = event_id abi EventOwnershipTransferred then
            decoded_as EventOwnershipTransferred lg OwnershipData (unpack_ownership abi lg)
          else Inl (new_error (''unsupported MonthlyPayroll event topic: '' @ hex t)))"

text \<open>Which data constructor belongs to which event type.\<close>

fun data_type :: "payroll_data \<Rightarrow> event_type" where
  "data_type (EmployerAddedData _) = EventEmployerAdded"
| "data_type (EmployerRemovedData _) = EventEmployerRemoved"
| "data_type (EmployeeAddedData _) = EventEmployeeAdded"
| "data_type (EmployeeRemovedData _) = EventEmployeeRemoved"
| "data_type (PayrollFundedData _) = EventPayrollFunded"
| "data_type (SalaryClaimedData _) = EventSalaryClaimed"
| "data_type (OwnershipData _) = EventOwnershipTransferred"

definition well_typed_event :: "decoded_event \<Rightarrow> bool" where
  "well_typed_event ev \<longleftrightarrow> data_type (d_data ev) = d_type ev"

lemma decoded_as_Inr:
  "decoded_as ty lg mk r = Inr ev \<longleftrightarrow>
     (\<exists>x. r = Inr x \<and> ev = \<lparr>d_type = ty, d_data = mk x, d_log = lg\<rparr>)"
  by (auto simp: decoded_as_def split: sum.splits)

lemma decode_payroll_typed:
  "decode_payroll abi hex lg = Inr ev \<Longrightarrow> well_typed_event ev \<and> d_log ev = lg"
  by (auto simp: decode_payroll_def decoded_as_Inr well_typed_event_def
           split: list.splits if_splits)

section \<open>ERC-20 events\<close>

text \<open>
  \<open>GenericERC20Filterer\<close>: the token, the Transfer id, and the Approval id when the ABI has the
  event. \<open>unpack_value\<close> is \<open>Inputs.NonIndexed().Unpack(log.Data)\<close>: the list of unpacked
  values, each either a \<open>*big.Int\<close> or of another dynamic type.
\<close>

datatype abi_value = BigInt int | OtherValue

record erc20_filterer =
  f_token :: address
  f_transfer_id :: hash
  f_has_approval :: bool
  f_approval_id :: hash
  f_unpack_transfer :: "bytes \<Rightarrow> goerror + abi_value list"
  f_unpack_approval :: "bytes \<Rightarrow> goerror + abi_value list"

record erc20_transfer =
  x_token :: address
  x_from :: address
  x_to :: address
  x_value :: int

record erc20_approval =
  a_token :: address
  a_owner :: address
  a_spender :: address
  a_value :: int

definition approval_topic :: "erc20_filterer \<Rightarrow> hash \<times> bool" where
  "approval_topic f = (f_approval_id f, f_has_approval f)"

definition is_transfer_log :: "erc20_filterer \<Rightarrow> evm_log \<Rightarrow> bool" where
  "is_transfer_log f lg \<longleftrightarrow>
     (if l_address lg \<noteq> f_token f then False
      else if length (l_topics lg) < 3 then False
      else hd (l_topics lg) = f_transfer_id f)"

text \<open>The checks on the unpacked value that \<open>ParseTransfer\<close> and \<open>ParseApproval\<close> share.\<close>

definition unpacked_value :: "string \<Rightarrow> goerror + abi_value list \<Rightarrow> goerror + int" where
  "unpacked_value what r =
     (case r of
        Inl e \<Rightarrow> Inl (wrap_error (''failed to unpack '' @ what @ '' value'') e)
      | Inr [] \<Rightarrow> Inl (new_error (''no value unpacked from '' @ what @ '' log data''))
      | Inr (BigInt v # _) \<Rightarrow> Inr v
      | Inr (OtherValue # _) \<Rightarrow> Inl (new_error ''unpacked value is not *big.Int''))"

definition parse_transfer ::
  "(hash \<Rightarrow> string) \<Rightarrow> (address \<Rightarrow> string) \<Rightarrow> erc20_filterer \<Rightarrow> evm_log \<Rightarrow> goerror + erc20_transfer" where
  "parse_transfer hex ahex f lg =
     (if \<not> is_transfer_log f lg then
        Inl (new_error (''log at block '' @ dec_u64 (l_block lg) @ '', tx '' @ hex (l_tx lg) @
                        '', index '' @ dec_u64 (l_index lg) @
                        '' is not a valid Transfer log for token '' @ ahex (f_token f)))
      else
        (case unpacked_value ''Transfer'' (f_unpack_transfer f (l_data lg)) of
           Inl e \<Rightarrow> Inl e
         | Inr v \<Rightarrow> Inr \<lparr>x_token = f_token f,
                         x_from = topic_address (l_topics lg ! 1),
                         x_to = topic_address (l_topics lg ! 2),
                         x_value = v\<rparr>))"

definition parse_approval ::
  "(address \<Rightarrow> string) \<Rightarrow> erc20_filterer \<Rightarrow> evm_log \<Rightarrow> goerror + erc20_approval" where
  "parse_approval ahex f lg =
     (if \<not> f_has_approval f then
        Inl (new_error ''Approval event is not defined in the configured ABI'')
      else if l_address lg \<noteq> f_token f \<or> length (l_topics lg) < 3 \<or> hd (l_topics lg) \<noteq> f_approval_id f then
        Inl (new_error (''log is not a valid Approval log for token '' @ ahex (f_token f)))
      else
        (case unpacked_value ''Approval'' (f_unpack_approval f (l_data lg)) of
           Inl e \<Rightarrow> Inl e
         | Inr v \<Rightarrow> Inr \<lparr>a_token = f_token f,
                         a_owner = topic_address (l_topics lg ! 1),
                         a_spender = topic_address (l_topics lg ! 2),
                         a_value = v\<rparr>))"

text \<open>\<open>models.TokenTransfer\<close> without the columns the database fills in.\<close>

record token_transfer =
  tt_chain :: int
  tt_token :: address
  tt_from :: address
  tt_to :: address
  tt_amount :: int
  tt_tx :: hash
  tt_block :: u64
  tt_time :: int
  tt_index :: u64
  tt_removed :: bool

definition decode_transfer ::
  "(hash \<Rightarrow> string) \<Rightarrow> (address \<Rightarrow> string) \<Rightarrow> erc20_filterer \<Rightarrow> int \<Rightarrow> evm_log \<Rightarrow> int
     \<Rightarrow> goerror + token_transfer" where
  "decode_transfer hex ahex f chain lg time =
     (case parse_transfer hex ahex f lg of
        Inl e \<Rightarrow> Inl (wrap_error (''decode transfer at block '' @ dec_u64 (l_block lg) @ '' tx '' @
                                 hex (l_tx lg) @ '' log '' @ dec_u64 (l_index lg)) e)
      | Inr p \<Rightarrow> Inr \<lparr>tt_chain = chain, tt_token = x_token p, tt_from = x_from p, tt_to = x_to p,
                      tt_amount = x_value p, tt_tx = l_tx lg, tt_block = l_block lg,
                      tt_time = time, tt_index = l_index lg, tt_removed = l_removed lg\<rparr>)"

lemma parse_transfer_Inr:
  "parse_transfer hex ahex f lg = Inr p \<Longrightarrow>
     is_transfer_log f lg \<and> x_token p = f_token f"
  by (auto simp: parse_transfer_def split: if_splits sum.splits)

lemma decode_transfer_Inr:
  "decode_transfer hex ahex f chain lg time = Inr t \<Longrightarrow>
     tt_chain t = chain \<and> tt_token t = f_token f \<and> tt_tx t = l_tx lg \<and> tt_index t = l_index lg \<and>
     tt_block t = l_block lg \<and> tt_removed t = l_removed lg \<and> tt_time t = time"
  by (auto simp: decode_transfer_def dest: parse_transfer_Inr split: sum.splits)

end
