(* ===== verification/Go_Text.thy ===== *)
theory Go_Text
  imports Prelude
begin

text \<open>
  The text functions of the Go standard library that the HTTP layer and the configuration use:
  \<open>strings.TrimSpace\<close>, \<open>TrimPrefix\<close>, \<open>EqualFold\<close>, \<open>strconv.ParseInt\<close>, \<open>ParseUint\<close>, \<open>Atoi\<close>,
  \<open>big.Int.SetString\<close>, \<open>encoding/hex\<close>. Texts are bytes; white space and case are those of ASCII.
  The round trips with the printing functions of \<open>Prelude\<close> are proved here.
\<close>

section \<open>Trimming and comparing\<close>

definition is_space :: "char \<Rightarrow> bool" where
  "is_space c \<longleftrightarrow> (of_char c :: nat) \<in> {9, 10, 11, 12, 13, 32}"

definition trim_space :: "string \<Rightarrow> string" where
  "trim_space s = rev (dropWhile is_space (rev (dropWhile is_space s)))"

definition trim_prefix :: "string \<Rightarrow> string \<Rightarrow> string" where
  "trim_prefix p s = (if prefix p s then drop (length p) s else s)"

definition equal_fold :: "string \<Rightarrow> string \<Rightarrow> bool" where
  "equal_fold s t \<longleftrightarrow> to_lower s = to_lower t"

lemma trim_space_id: "(\<And>c. c \<in> set s \<Longrightarrow> \<not> is_space c) \<Longrightarrow> trim_space s = s"
proof -
  assume *: "\<And>c. c \<in> set s \<Longrightarrow> \<not> is_space c"
  have "dropWhile is_space xs = xs" if "set xs \<subseteq> set s" for xs
    using that * by (cases xs) auto
  then show ?thesis by (simp add: trim_space_def)
qed

section \<open>Digits\<close>

definition digit_of :: "char \<Rightarrow> nat option" where
  "digit_of c = (let n = of_char c :: nat in
     if 48 \<le> n \<and> n \<le> 57 then Some (n - 48)
     else if 97 \<le> n \<and> n \<le> 102 then Some (n - 87)
     else if 65 \<le> n \<and> n \<le> 70 then Some (n - 55)
     else None)"

fun digits_from :: "nat \<Rightarrow> nat \<Rightarrow> string \<Rightarrow> nat option" where
  "digits_from b acc [] = Some acc"
| "digits_from b acc (c # cs) =
     (case digit_of c of
        None \<Rightarrow> None
      | Some d \<Rightarrow> if d < b then digits_from b (acc * b + d) cs else None)"

definition digits_value :: "nat \<Rightarrow> string \<Rightarrow> nat option" where
  "digits_value b s = (if s = [] then None else digits_from b 0 s)"

text \<open>An optional sign in front of the digits.\<close>

definition split_sign :: "string \<Rightarrow> bool \<times> string" where
  "split_sign s = (case s of
       [] \<Rightarrow> (False, [])
     | c # cs \<Rightarrow> if c = CHR ''-'' then (True, cs) else if c = CHR ''+'' then (False, cs) else (False, s))"

definition parse_big :: "nat \<Rightarrow> string \<Rightarrow> int option" where
  "parse_big b s = map_option (\<lambda>n. if fst (split_sign s) then - int n else int n)
     (digits_value b (snd (split_sign s)))"

definition parse_int :: "nat \<Rightarrow> string \<Rightarrow> int option" where
  "parse_int b s = (case parse_big b s of
       None \<Rightarrow> None
     | Some i \<Rightarrow> if - (2 ^ 63) \<le> i \<and> i < 2 ^ 63 then Some i else None)"

definition parse_uint :: "nat \<Rightarrow> string \<Rightarrow> nat option" where
  "parse_uint b s = (case digits_value b s of
       None \<Rightarrow> None
     | Some n \<Rightarrow> if n < 2 ^ 64 then Some n else None)"

lemma parse_int_bounds: "parse_int b s = Some i \<Longrightarrow> - (2 ^ 63) \<le> i \<and> i < 2 ^ 63"
  by (auto simp: parse_int_def split: option.splits if_splits)

lemma digit_of_digit: "d < 10 \<Longrightarrow> digit_of (digit_char d) = Some d"
  by (simp add: digit_of_def digit_char_def Let_def)

lemma digits_from_append:
  "digits_from b acc (s @ t) = (case digits_from b acc s of None \<Rightarrow> None | Some a \<Rightarrow> digits_from b a t)"
  by (induction s arbitrary: acc) (auto split: option.split)

lemma digits_from_members: "c \<in> set s \<Longrightarrow> digits_from b acc s = Some n \<Longrightarrow> digit_of c \<noteq> None"
  by (induction s arbitrary: acc) (auto split: option.splits if_splits)

lemma digits_dec_nat: "digits_from 10 0 (dec_nat n) = Some n"
proof (induction n rule: dec_nat.induct)
  case (1 n)
  show ?case
  proof (cases "n < 10")
    case True
    then show ?thesis by (simp add: dec_nat.simps [of n] digit_of_digit)
  next
    case False
    then show ?thesis using 1 [OF False]
      by (simp add: dec_nat.simps [of n] digits_from_append digit_of_digit)
  qed
qed

lemma digits_value_dec [simp]: "digits_value 10 (dec_nat n) = Some n"
  by (simp add: digits_value_def digits_dec_nat)

lemma sign_not_digit: "is_digit c \<Longrightarrow> c \<noteq> CHR ''-'' \<and> c \<noteq> CHR ''+''"
  by (auto simp: is_digit_def)

lemma split_sign_dec [simp]: "split_sign (dec_nat n) = (False, dec_nat n)"
proof (cases "dec_nat n")
  case (Cons c cs)
  then have "is_digit c" using dec_nat_digits [of c n] by simp
  then show ?thesis using sign_not_digit [of c] Cons by (simp add: split_sign_def)
qed (simp add: split_sign_def)

text \<open>What \<open>%d\<close> printed is read back.\<close>

lemma parse_big_dec [simp]: "parse_big 10 (dec_int i) = Some i"
  by (cases "i < 0") (simp_all add: parse_big_def dec_int_def split_sign_def [of "_ # _"])

lemma parse_int_dec: "- (2 ^ 63) \<le> i \<Longrightarrow> i < 2 ^ 63 \<Longrightarrow> parse_int 10 (dec_int i) = Some i"
  by (simp add: parse_int_def)

lemma parse_uint_dec: "n < 2 ^ 64 \<Longrightarrow> parse_uint 10 (dec_nat n) = Some n"
  by (simp add: parse_uint_def)

section \<open>Hexadecimal text\<close>

definition hex_char :: "nat \<Rightarrow> char" where
  "hex_char d = (if d < 10 then char_of (48 + d) else char_of (87 + d))"

fun hex_nat :: "nat \<Rightarrow> string" where
  "hex_nat n = (if n < 16 then [hex_char n] else hex_nat (n div 16) @ [hex_char (n mod 16)])"

declare hex_nat.simps [simp del]

definition hex_encode :: "bytes \<Rightarrow> string" where
  "hex_encode bs = concat (map (\<lambda>b. [hex_char (unat b div 16), hex_char (unat b mod 16)]) bs)"

fun hex_decode :: "string \<Rightarrow> bytes option" where
  "hex_decode [] = Some []"
| "hex_decode [c] = None"
| "hex_decode (c # d # s) = (case (digit_of c, digit_of d, hex_decode s) of
     (Some x, Some y, Some bs) \<Rightarrow> Some (of_nat (x * 16 + y) # bs)
   | _ \<Rightarrow> None)"

lemma digit_of_hex: "d < 16 \<Longrightarrow> digit_of (hex_char d) = Some d"
  by (simp add: digit_of_def hex_char_def Let_def)

lemma hex_decode_encode [simp]: "hex_decode (hex_encode bs) = Some bs"
proof (induction bs)
  case (Cons b bs)
  have "unat b < 256" using unsigned_less [of b, where 'a = nat] by simp
  then have "unat b div 16 < 16" "unat b mod 16 < 16" by auto
  moreover have "of_nat (unat b div 16 * 16 + unat b mod 16) = b" by (simp add: div_mult_mod_eq)
  ultimately show ?case using Cons by (simp add: hex_encode_def digit_of_hex)
qed (simp add: hex_encode_def)

lemma length_hex_encode [simp]: "length (hex_encode bs) = 2 * length bs"
  by (induction bs) (simp_all add: hex_encode_def)

lemma digits_hex_nat: "digits_from 16 0 (hex_nat n) = Some n"
proof (induction n rule: hex_nat.induct)
  case (1 n)
  show ?case
  proof (cases "n < 16")
    case True
    then show ?thesis by (simp add: hex_nat.simps [of n] digit_of_hex)
  next
    case False
    then show ?thesis using 1 [OF False]
      by (simp add: hex_nat.simps [of n] digits_from_append digit_of_hex)
  qed
qed

lemma hex_nat_nonempty [simp]: "hex_nat n \<noteq> []"
  by (subst hex_nat.simps) simp

lemma digits_from_head: "digits_from b acc (c # cs) \<noteq> None \<Longrightarrow> c \<noteq> CHR ''-'' \<and> c \<noteq> CHR ''+''"
  by (auto simp: digit_of_def)

lemma parse_big_hex [simp]: "parse_big 16 (hex_nat n) = Some (int n)"
proof (cases "hex_nat n")
  case (Cons c cs)
  then have "split_sign (hex_nat n) = (False, hex_nat n)"
    using digits_from_head [of 16 0 c cs] digits_hex_nat [of n] by (auto simp: split_sign_def)
  then show ?thesis by (simp add: parse_big_def digits_value_def digits_hex_nat)
qed simp

lemma parse_int_hex: "n < 2 ^ 63 \<Longrightarrow> parse_int 16 (hex_nat n) = Some (int n)"
  by (simp add: parse_int_def)

end
