(* ===== verification/Database.thy ===== *)
theory Database
  imports Chain Go_Text
begin

text \<open>
  The PostgreSQL schema (\<open>indexer/migrations\<close>) as a record of tables, and the statements that
  \<open>internal/persistence\<close> and \<open>internal/repository\<close> issue, as functions on it. A statement
  that violates a foreign key or a unique index is an error and changes nothing. Columns that
  hold the hexadecimal text of an address or a hash hold the address or hash itself (the text
  determines it); surrogate ids and \<open>created_at\<close>, which no modelled code reads, are left out.
  Timestamps are seconds (\<open>time.Unix\<close>).
\<close>

section \<open>Rows\<close>

record tx_row =
  tx_chain :: int
  tx_hash :: hash
  tx_block :: int
  tx_sender :: address
  tx_recipient :: "address option"
  tx_gas :: int
  tx_status :: string
  tx_confirmations :: int
  tx_first_seen :: int

datatype raw_json = RawPayroll payroll_data | RawPairs "(string \<times> string) list"

record event_row =
  ev_chain :: int
  ev_contract :: address
  ev_name :: string
  ev_tx :: hash
  ev_block :: int
  ev_time :: int
  ev_index :: int
  ev_removed :: bool
  ev_raw :: raw_json

record employer_row =
  em_chain :: int
  em_wallet :: address
  em_active :: bool
  em_deactivation :: "int option"
  em_added_at :: "int option"
  em_removed_at :: "int option"
  em_tx :: hash

record employee_row =
  ee_chain :: int
  ee_wallet :: address
  ee_employer :: address
  ee_salary :: int
  ee_last_withdraw :: "int option"
  ee_active :: bool
  ee_deactivation :: "int option"
  ee_allocation :: "int option"
  ee_added_at :: "int option"
  ee_removed_at :: "int option"
  ee_tx :: hash

record funding_row =
  pf_chain :: int
  pf_employer :: address
  pf_employee :: address
  pf_paid :: int
  pf_fee :: int
  pf_credited :: int
  pf_tx :: hash
  pf_block :: int
  pf_time :: int
  pf_index :: int

record claim_row =
  sc_chain :: int
  sc_employee :: address
  sc_amount :: int
  sc_tx :: hash
  sc_block :: int
  sc_time :: int
  sc_index :: int

record transfer_row =
  tr_chain :: int
  tr_token :: address
  tr_from :: address
  tr_to :: address
  tr_amount :: int
  tr_tx :: hash
  tr_block :: int
  tr_time :: int
  tr_index :: int
  tr_removed :: bool

record escrow_row =
  es_chain :: int
  es_contract :: address
  es_type :: string
  es_tx :: hash
  es_block :: int
  es_time :: int
  es_index :: int
  es_removed :: bool
  es_id :: "string option"
  es_amount :: "string option"
  es_raw :: "(string \<times> string) list"

record checkpoint_row =
  cp_chain :: int
  cp_stream :: string
  cp_block :: int
  cp_hash :: string

text \<open>
  JSONB documents, and the rows of \<open>reconciliation_exceptions\<close> (\<open>models.ReconciliationException\<close>);
  the zero \<open>time.Time\<close> is year 1.
\<close>

datatype json = JString string | JNumber int | JBool bool | JArray "json list" | JObject "(string \<times> json) list"

record exception_row =
  rx_id :: int
  rx_type :: string
  rx_severity :: string
  rx_ref :: string
  rx_expected :: json
  rx_observed :: json
  rx_status :: string
  rx_detected :: int
  rx_resolved :: "int option"

definition zero_time :: int where
  "zero_time = - 62135596800"

record database =
  transactions :: "tx_row list"
  chain_events :: "event_row list"
  employers :: "employer_row list"
  employees :: "employee_row list"
  payroll_fundings :: "funding_row list"
  salary_claims :: "claim_row list"
  token_transfers :: "transfer_row list"
  escrow_events :: "escrow_row list"
  sync_checkpoints :: "checkpoint_row list"
  exceptions :: "exception_row list"

definition empty_database :: database where
  "empty_database = \<lparr>transactions = [], chain_events = [], employers = [], employees = [],
     payroll_fundings = [], salary_claims = [], token_transfers = [], escrow_events = [],
     sync_checkpoints = [], exceptions = []\<rparr>"

section \<open>Unique keys and the DO UPDATE clauses\<close>

definition tx_key :: "tx_row \<Rightarrow> int \<times> hash" where
  "tx_key r = (tx_chain r, tx_hash r)"

definition ev_key :: "event_row \<Rightarrow> int \<times> address \<times> hash \<times> int" where
  "ev_key r = (ev_chain r, ev_contract r, ev_tx r, ev_index r)"

definition em_key :: "employer_row \<Rightarrow> int \<times> address" where
  "em_key r = (em_chain r, em_wallet r)"

definition ee_key :: "employee_row \<Rightarrow> int \<times> address" where
  "ee_key r = (ee_chain r, ee_wallet r)"

definition pf_key :: "funding_row \<Rightarrow> int \<times> hash \<times> int" where
  "pf_key r = (pf_chain r, pf_tx r, pf_index r)"

definition sc_key :: "claim_row \<Rightarrow> int \<times> hash \<times> int" where
  "sc_key r = (sc_chain r, sc_tx r, sc_index r)"

definition tr_key :: "transfer_row \<Rightarrow> int \<times> address \<times> hash \<times> int" where
  "tr_key r = (tr_chain r, tr_token r, tr_tx r, tr_index r)"

definition es_key :: "escrow_row \<Rightarrow> int \<times> address \<times> hash \<times> int" where
  "es_key r = (es_chain r, es_contract r, es_tx r, es_index r)"

definition cp_key :: "checkpoint_row \<Rightarrow> int \<times> string" where
  "cp_key r = (cp_chain r, cp_stream r)"

lemmas key_defs = tx_key_def ev_key_def em_key_def ee_key_def pf_key_def sc_key_def tr_key_def
  es_key_def cp_key_def

text \<open>\<open>transactions.go\<close>: the conflict update keeps confirmations and \<open>first_seen_at\<close>.\<close>

definition tx_merge :: "tx_row \<Rightarrow> tx_row \<Rightarrow> tx_row" where
  "tx_merge old new = old\<lparr>tx_block := tx_block new, tx_sender := tx_sender new,
     tx_recipient := tx_recipient new, tx_gas := tx_gas new, tx_status := tx_status new\<rparr>"

definition ev_merge :: "event_row \<Rightarrow> event_row \<Rightarrow> event_row" where
  "ev_merge old new = old\<lparr>ev_removed := ev_removed new, ev_time := ev_time new\<rparr>"

definition tr_merge :: "transfer_row \<Rightarrow> transfer_row \<Rightarrow> transfer_row" where
  "tr_merge old new = old\<lparr>tr_removed := tr_removed new, tr_time := tr_time new\<rparr>"

text \<open>\<open>persistence.SaveEscrowEvent\<close> leaves the event type and the escrow id of the old row;
  \<open>SaveEscrowBatch\<close> and the repository of the webhook overwrite them.\<close>

definition es_merge_single :: "escrow_row \<Rightarrow> escrow_row \<Rightarrow> escrow_row" where
  "es_merge_single old new = old\<lparr>es_removed := es_removed new, es_time := es_time new,
     es_amount := es_amount new, es_raw := es_raw new\<rparr>"

definition es_merge :: "escrow_row \<Rightarrow> escrow_row \<Rightarrow> escrow_row" where
  "es_merge old new = old\<lparr>es_type := es_type new, es_removed := es_removed new,
     es_time := es_time new, es_id := es_id new, es_amount := es_amount new, es_raw := es_raw new\<rparr>"

definition cp_merge :: "checkpoint_row \<Rightarrow> checkpoint_row \<Rightarrow> checkpoint_row" where
  "cp_merge old new = old\<lparr>cp_block := cp_block new, cp_hash := cp_hash new\<rparr>"

interpretation tx_table: sql_table tx_key tx_merge
  by unfold_locales (simp add: tx_key_def tx_merge_def)

interpretation ev_table: sql_table ev_key ev_merge
  by unfold_locales (simp add: ev_key_def ev_merge_def)

interpretation tr_table: sql_table tr_key tr_merge
  by unfold_locales (simp add: tr_key_def tr_merge_def)

interpretation es_table: sql_table es_key es_merge
  by unfold_locales (simp add: es_key_def es_merge_def)

interpretation es_single: sql_table es_key es_merge_single
  by unfold_locales (simp add: es_key_def es_merge_single_def)

interpretation cp_table: sql_table cp_key cp_merge
  by unfold_locales (simp add: cp_key_def cp_merge_def)

section \<open>Constraints\<close>

text \<open>
  Column types: BIGINT, INTEGER and NUMERIC(78,0). The escrow id and amount are sent as text, which
  PostgreSQL converts to a number and reads back in its canonical decimal form (\<open>007\<close> becomes
  \<open>7\<close>). The texts of the code are integers, printed by \<open>big.Int\<close>; of what else the type accepts
  (fractions, exponents, white space, \<open>NaN\<close>) nothing is modelled, such a text is refused.
\<close>

definition in_bigint :: "int \<Rightarrow> bool" where
  "in_bigint i \<longleftrightarrow> - (2 ^ 63) \<le> i \<and> i < 2 ^ 63"

definition in_integer :: "int \<Rightarrow> bool" where
  "in_integer i \<longleftrightarrow> - (2 ^ 31) \<le> i \<and> i < 2 ^ 31"

definition in_numeric :: "int \<Rightarrow> bool" where
  "in_numeric i \<longleftrightarrow> \<bar>i\<bar> < 10 ^ 78"

definition numeric_text :: "string option \<Rightarrow> bool" where
  "numeric_text s = (case s of None \<Rightarrow> True | Some t \<Rightarrow>
     (case parse_big 10 t of None \<Rightarrow> False | Some v \<Rightarrow> in_numeric v))"

definition numeric_canonical :: "string option \<Rightarrow> string option" where
  "numeric_canonical = map_option (\<lambda>t. case parse_big 10 t of None \<Rightarrow> t | Some v \<Rightarrow> dec_int v)"

lemma numeric_canonical_dec [simp]: "numeric_canonical (map_option dec_int v) = map_option dec_int v"
  by (cases v) (simp_all add: numeric_canonical_def)

definition range_violation :: goerror where
  "range_violation = new_error ''value out of range for the column type''"

definition fk_violation :: "string \<Rightarrow> goerror" where
  "fk_violation c = new_error (''insert or update violates foreign key constraint '' @ c)"

definition unique_violation :: goerror where
  "unique_violation = new_error ''duplicate key value violates unique constraint uq_escrow_events_tx_log''"

definition has_tx :: "database \<Rightarrow> int \<Rightarrow> hash \<Rightarrow> bool" where
  "has_tx d c h \<longleftrightarrow> has_row tx_key (c, h) (transactions d)"

definition has_employer :: "database \<Rightarrow> int \<Rightarrow> address \<Rightarrow> bool" where
  "has_employer d c a \<longleftrightarrow> has_row em_key (c, a) (employers d)"

definition has_employee :: "database \<Rightarrow> int \<Rightarrow> address \<Rightarrow> bool" where
  "has_employee d c a \<longleftrightarrow> has_row ee_key (c, a) (employees d)"

text \<open>Migration 000004: the foreign keys, as an invariant of the tables.\<close>

definition fk_ok :: "database \<Rightarrow> bool" where
  "fk_ok d \<longleftrightarrow>
     (\<forall>r \<in> set (employees d). has_employer d (ee_chain r) (ee_employer r)) \<and>
     (\<forall>r \<in> set (chain_events d). has_tx d (ev_chain r) (ev_tx r)) \<and>
     (\<forall>r \<in> set (payroll_fundings d). has_employer d (pf_chain r) (pf_employer r) \<and>
        has_employee d (pf_chain r) (pf_employee r) \<and> has_tx d (pf_chain r) (pf_tx r)) \<and>
     (\<forall>r \<in> set (salary_claims d). has_employee d (sc_chain r) (sc_employee r))"

text \<open>The primary keys and unique constraints of the tables.\<close>

definition uniq_ok :: "database \<Rightarrow> bool" where
  "uniq_ok d \<longleftrightarrow>
     keys_unique tx_key (transactions d) \<and> keys_unique ev_key (chain_events d) \<and>
     keys_unique em_key (employers d) \<and> keys_unique ee_key (employees d) \<and>
     keys_unique pf_key (payroll_fundings d) \<and> keys_unique sc_key (salary_claims d) \<and>
     keys_unique tr_key (token_transfers d) \<and> keys_unique es_key (escrow_events d) \<and>
     keys_unique cp_key (sync_checkpoints d)"

text \<open>The numeric columns of the employee profiles hold values of their type.\<close>

definition range_ok :: "database \<Rightarrow> bool" where
  "range_ok d \<longleftrightarrow> (\<forall>r \<in> set (employees d).
     in_numeric (ee_salary r) \<and> (case ee_allocation r of None \<Rightarrow> True | Some v \<Rightarrow> in_numeric v))"

definition db_ok :: "database \<Rightarrow> bool" where
  "db_ok d \<longleftrightarrow> fk_ok d \<and> uniq_ok d \<and> range_ok d"

section \<open>Statements on transactions, events and checkpoints\<close>

definition stmt_transaction :: "tx_row \<Rightarrow> database \<Rightarrow> goerror + database" where
  "stmt_transaction r d =
     (if \<not> (in_bigint (tx_block r) \<and> in_bigint (tx_gas r)) then Inl range_violation
      else Inr (d\<lparr>transactions := upsert tx_key tx_merge r (transactions d)\<rparr>))"

definition stmt_chain_event :: "event_row \<Rightarrow> database \<Rightarrow> goerror + database" where
  "stmt_chain_event r d =
     (if \<not> (in_bigint (ev_block r) \<and> in_integer (ev_index r)) then Inl range_violation
      else if \<not> has_row ev_key (ev_key r) (chain_events d) \<and> \<not> has_tx d (ev_chain r) (ev_tx r)
      then Inl (fk_violation ''fk_chain_event_transaction'')
      else Inr (d\<lparr>chain_events := upsert ev_key ev_merge r (chain_events d)\<rparr>))"

definition stmt_transfer :: "transfer_row \<Rightarrow> database \<Rightarrow> goerror + database" where
  "stmt_transfer r d =
     (if \<not> (in_bigint (tr_block r) \<and> in_integer (tr_index r) \<and> in_numeric (tr_amount r))
      then Inl range_violation
      else Inr (d\<lparr>token_transfers := upsert tr_key tr_merge r (token_transfers d)\<rparr>))"

text \<open>Migration 000006 adds a second unique index, on the transaction hash and log index alone.\<close>

definition stored_escrow :: "escrow_row \<Rightarrow> escrow_row" where
  "stored_escrow r = r\<lparr>es_id := numeric_canonical (es_id r), es_amount := numeric_canonical (es_amount r)\<rparr>"

lemma stored_escrow_simps [simp]:
  "es_key (stored_escrow r) = es_key r" "es_tx (stored_escrow r) = es_tx r" "es_index (stored_escrow r) = es_index r"
  by (simp_all add: stored_escrow_def es_key_def)

definition stmt_escrow ::
  "(escrow_row \<Rightarrow> escrow_row \<Rightarrow> escrow_row) \<Rightarrow> escrow_row \<Rightarrow> database \<Rightarrow> goerror + database" where
  "stmt_escrow merge r d =
     (if \<not> (in_bigint (es_block r) \<and> in_integer (es_index r) \<and>
            numeric_text (es_id r) \<and> numeric_text (es_amount r))
      then Inl range_violation
      else if \<not> has_row es_key (es_key r) (escrow_events d) \<and>
         (\<exists>x \<in> set (escrow_events d). es_tx x = es_tx r \<and> es_index x = es_index r)
      then Inl unique_violation
      else Inr (d\<lparr>escrow_events := upsert es_key merge (stored_escrow r) (escrow_events d)\<rparr>))"

definition stmt_checkpoint :: "checkpoint_row \<Rightarrow> database \<Rightarrow> goerror + database" where
  "stmt_checkpoint r d =
     (if \<not> in_bigint (cp_block r) then Inl range_violation
      else Inr (d\<lparr>sync_checkpoints := upsert cp_key cp_merge r (sync_checkpoints d)\<rparr>))"

lemmas stmt_defs = stmt_transaction_def stmt_chain_event_def stmt_transfer_def stmt_escrow_def
  stmt_checkpoint_def

lemma in_bigint_sint [simp]: "in_bigint (sint (x :: u64))"
  using sint_range_size [of x] by (simp add: in_bigint_def word_size)

section \<open>Growth\<close>

text \<open>No statement of the program deletes a row: every table only gains keys.\<close>

definition db_grows :: "database \<Rightarrow> database \<Rightarrow> bool" where
  "db_grows d d' \<longleftrightarrow>
     (\<forall>k. has_row tx_key k (transactions d) \<longrightarrow> has_row tx_key k (transactions d')) \<and>
     (\<forall>k. has_row ev_key k (chain_events d) \<longrightarrow> has_row ev_key k (chain_events d')) \<and>
     (\<forall>k. has_row em_key k (employers d) \<longrightarrow> has_row em_key k (employers d')) \<and>
     (\<forall>k. has_row ee_key k (employees d) \<longrightarrow> has_row ee_key k (employees d')) \<and>
     (\<forall>k. has_row pf_key k (payroll_fundings d) \<longrightarrow> has_row pf_key k (payroll_fundings d')) \<and>
     (\<forall>k. has_row sc_key k (salary_claims d) \<longrightarrow> has_row sc_key k (salary_claims d')) \<and>
     (\<forall>k. has_row tr_key k (token_transfers d) \<longrightarrow> has_row tr_key k (token_transfers d')) \<and>
     (\<forall>k. has_row es_key k (escrow_events d) \<longrightarrow> has_row es_key k (escrow_events d')) \<and>
     (\<forall>k. has_row cp_key k (sync_checkpoints d) \<longrightarrow> has_row cp_key k (sync_checkpoints d'))"

lemma db_grows_refl: "db_grows d d"
  by (simp add: db_grows_def)

lemma db_grows_trans: "db_grows a b \<Longrightarrow> db_grows b c \<Longrightarrow> db_grows a c"
  unfolding db_grows_def by blast

text \<open>
  What every statement of the program does to a database: it grows, and when the constraints
  held before they hold afterwards. A statement on one table leaves the checkpoints alone unless
  it is the checkpoint statement.
\<close>

definition legal :: "database \<Rightarrow> database \<Rightarrow> bool" where
  "legal d d' \<longleftrightarrow> db_grows d d' \<and> (db_ok d \<longrightarrow> db_ok d')"

lemma legal_refl: "legal d d"
  by (simp add: legal_def db_grows_refl)

lemma legal_trans: "legal a b \<Longrightarrow> legal b c \<Longrightarrow> legal a c"
  unfolding legal_def using db_grows_trans by blast

definition same_checkpoints :: "database \<Rightarrow> database \<Rightarrow> bool" where
  "same_checkpoints d d' \<longleftrightarrow> sync_checkpoints d' = sync_checkpoints d"

lemma stmt_transaction_legal:
  "stmt_transaction r d = Inr d' \<Longrightarrow> legal d d' \<and> same_checkpoints d d'"
  by (auto simp: stmt_transaction_def legal_def same_checkpoints_def db_grows_def db_ok_def fk_ok_def
      uniq_ok_def range_ok_def has_tx_def has_employer_def has_employee_def tx_table.has_upsert
      tx_table.unique_upsert split: if_splits)

lemma stmt_transfer_legal:
  "stmt_transfer r d = Inr d' \<Longrightarrow> legal d d' \<and> same_checkpoints d d'"
  by (auto simp: stmt_transfer_def legal_def same_checkpoints_def db_grows_def db_ok_def fk_ok_def
      uniq_ok_def range_ok_def has_tx_def has_employer_def has_employee_def tr_table.has_upsert
      tr_table.unique_upsert split: if_splits)

lemma stmt_escrow_legal:
  assumes "sql_table es_key merge" "stmt_escrow merge r d = Inr d'"
  shows "legal d d' \<and> same_checkpoints d d'"
  using assms(2)
  by (auto simp: stmt_escrow_def legal_def same_checkpoints_def db_grows_def db_ok_def fk_ok_def
      uniq_ok_def range_ok_def has_tx_def has_employer_def has_employee_def
      sql_table.has_upsert [OF assms(1)] sql_table.unique_upsert [OF assms(1)] split: if_splits)

lemma stmt_checkpoint_legal: "stmt_checkpoint r d = Inr d' \<Longrightarrow> legal d d'"
  by (auto simp: stmt_checkpoint_def legal_def db_grows_def db_ok_def fk_ok_def
      uniq_ok_def range_ok_def has_tx_def has_employer_def has_employee_def cp_table.has_upsert
      cp_table.unique_upsert split: if_splits)

lemma event_written_tx:
  assumes "stmt_chain_event r d = Inr d'" "fk_ok d" "x \<in> set (chain_events d')"
  shows "has_tx d (ev_chain x) (ev_tx x)"
proof -
  have d': "chain_events d' = upsert ev_key ev_merge r (chain_events d)"
    using assms(1) by (auto simp: stmt_chain_event_def split: if_splits)
  from assms(3) consider "x \<in> set (chain_events d)" | "x = written ev_key ev_merge r (chain_events d)"
    unfolding d' using set_upsert by fast
  then show ?thesis
  proof cases
    case 1
    then show ?thesis using assms(2) by (simp add: fk_ok_def)
  next
    case 2
    show ?thesis
    proof (cases rule: written_cases [of ev_key r "chain_events d" ev_merge])
      case 1
      then show ?thesis using assms(1) 2
        by (auto simp: stmt_chain_event_def has_row_find split: if_splits)
    next
      case (2 old)
      then show ?thesis using assms(2) \<open>x = _\<close> by (simp add: fk_ok_def ev_merge_def)
    qed
  qed
qed

lemma stmt_chain_event_legal:
  assumes "stmt_chain_event r d = Inr d'"
  shows "legal d d' \<and> same_checkpoints d d'"
proof -
  have d': "d' = d\<lparr>chain_events := upsert ev_key ev_merge r (chain_events d)\<rparr>"
    using assms by (auto simp: stmt_chain_event_def split: if_splits)
  have "fk_ok d \<Longrightarrow> fk_ok d'"
    using event_written_tx [OF assms]
    by (auto simp: fk_ok_def d' has_tx_def has_employer_def has_employee_def)
  then show ?thesis
    by (auto simp: d' legal_def same_checkpoints_def db_grows_def db_ok_def uniq_ok_def range_ok_def
        ev_table.has_upsert ev_table.unique_upsert)
qed

section \<open>Checkpoints\<close>

definition checkpoint_of :: "database \<Rightarrow> int \<Rightarrow> string \<Rightarrow> u64 option" where
  "checkpoint_of d chain stream =
     map_option (\<lambda>r. word_of_int (cp_block r)) (find_row cp_key (chain, stream) (sync_checkpoints d))"

lemma stmt_checkpoint_find:
  "stmt_checkpoint r d = Inr d' \<Longrightarrow> checkpoint_of d' c s =
     (if cp_key r = (c, s) then Some (word_of_int (cp_block r)) else checkpoint_of d c s)"
  by (auto simp: stmt_checkpoint_def checkpoint_of_def cp_table.find_upsert cp_merge_def
      split: if_splits option.splits)

lemma checkpoint_of_same: "same_checkpoints d d' \<Longrightarrow> checkpoint_of d' c s = checkpoint_of d c s"
  by (simp add: same_checkpoints_def checkpoint_of_def)

end
