(* ===== verification/World.thy ===== *)
theory World
  imports Database
begin

text \<open>
  Effects. A Go method that calls the node, the database, Redis or the clock is a function
  \<open>'a go\<close> from the world to a Go error or a value and the new world. The world holds the
  database, the Redis keys, the trace of observable effects and a tick that every external
  call advances; the environment answers the calls and injects faults as a function of the
  tick, so a theorem about all environments covers every sequence of answers, failures,
  cancellations and retries. A statement or a commit that fails has not taken effect: the outcome
  in which the server applies it and the answer is lost is not modelled. The locale \<open>effect_relation\<close> lifts a relation between worlds that
  single effects respect through the combinators.
\<close>

section \<open>The world and its environment\<close>

datatype effect =
    Slept int
  | Publish string "(string \<times> string) list"

record world =
  w_db :: database
  w_redis :: "string \<Rightarrow> int option"
  w_trace :: "effect list"
  w_tick :: nat

record env =
  rpc_latest :: "nat \<Rightarrow> goerror + u64"
  rpc_logs :: "nat \<Rightarrow> address \<Rightarrow> u64 \<Rightarrow> u64 \<Rightarrow> goerror + evm_log list"
  rpc_token_logs :: "nat \<Rightarrow> address \<Rightarrow> hash \<Rightarrow> u64 \<Rightarrow> u64 \<Rightarrow> goerror + evm_log list"
  rpc_tx :: "nat \<Rightarrow> hash \<Rightarrow> goerror + tx_metadata option"
  rpc_timestamp :: "nat \<Rightarrow> u64 \<Rightarrow> goerror + u64"
  rpc_header :: "nat \<Rightarrow> u64 \<Rightarrow> goerror + block_header"
  rpc_call :: "nat \<Rightarrow> address \<Rightarrow> bytes \<Rightarrow> u64 \<Rightarrow> goerror + bytes"
  db_fault :: "nat \<Rightarrow> goerror option"
  redis_fault :: "nat \<Rightarrow> goerror option"
  ctx_err :: "nat \<Rightarrow> goerror option"
  sleep_err :: "nat \<Rightarrow> goerror option"
  clock :: "nat \<Rightarrow> int"
  map_order :: "nat \<Rightarrow> hash list \<Rightarrow> hash list"
  hash_hex :: "hash \<Rightarrow> string"
  addr_hex :: "address \<Rightarrow> string"

type_synonym 'a go = "world \<Rightarrow> (goerror + 'a) \<times> world"

definition next_tick :: "world \<Rightarrow> world" where
  "next_tick w = w\<lparr>w_tick := Suc (w_tick w)\<rparr>"

definition emit :: "effect \<Rightarrow> world \<Rightarrow> world" where
  "emit x w = w\<lparr>w_trace := w_trace w @ [x]\<rparr>"

section \<open>Combinators\<close>

definition ret :: "'a \<Rightarrow> 'a go" where
  "ret x = (\<lambda>w. (Inr x, w))"

definition fail :: "goerror \<Rightarrow> 'a go" where
  "fail e = (\<lambda>w. (Inl e, w))"

definition bind_go :: "'a go \<Rightarrow> ('a \<Rightarrow> 'b go) \<Rightarrow> 'b go" where
  "bind_go m k = (\<lambda>w. case m w of (Inl e, w') \<Rightarrow> (Inl e, w') | (Inr x, w') \<Rightarrow> k x w')"

text \<open>\<open>return nil, fmt.Errorf("...: %w", err)\<close>.\<close>

definition wrapping :: "string \<Rightarrow> 'a go \<Rightarrow> 'a go" where
  "wrapping s m = (\<lambda>w. case m w of (Inl e, w') \<Rightarrow> (Inl (wrap_error s e), w') | (Inr x, w') \<Rightarrow> (Inr x, w'))"

text \<open>An error that the caller looks at instead of returning it.\<close>

definition attempt :: "'a go \<Rightarrow> (goerror + 'a) go" where
  "attempt m = (\<lambda>w. case m w of (r, w') \<Rightarrow> (Inr r, w'))"

definition of_sum :: "goerror + 'a \<Rightarrow> 'a go" where
  "of_sum r = (\<lambda>w. (r, w))"

text \<open>A \<open>for range\<close> loop whose body returns early on an error and carries local variables.\<close>

fun for_each :: "('a \<Rightarrow> 's \<Rightarrow> 's go) \<Rightarrow> 'a list \<Rightarrow> 's \<Rightarrow> 's go" where
  "for_each f [] s = ret s"
| "for_each f (x # xs) s = bind_go (f x s) (\<lambda>s'. for_each f xs s')"

lemmas go_unfold = ret_def fail_def bind_go_def wrapping_def attempt_def of_sum_def

section \<open>External calls\<close>

definition rpc :: "(nat \<Rightarrow> goerror + 'a) \<Rightarrow> 'a go" where
  "rpc f = (\<lambda>w. (f (w_tick w), next_tick w))"

definition latest_block :: "env \<Rightarrow> u64 go" where
  "latest_block env = rpc (rpc_latest env)"

definition get_logs :: "env \<Rightarrow> address \<Rightarrow> u64 \<Rightarrow> u64 \<Rightarrow> evm_log list go" where
  "get_logs env c f t = rpc (\<lambda>n. rpc_logs env n c f t)"

definition get_token_logs :: "env \<Rightarrow> address \<Rightarrow> hash \<Rightarrow> u64 \<Rightarrow> u64 \<Rightarrow> evm_log list go" where
  "get_token_logs env c topic f t = rpc (\<lambda>n. rpc_token_logs env n c topic f t)"

definition transaction_metadata :: "env \<Rightarrow> hash \<Rightarrow> tx_metadata option go" where
  "transaction_metadata env h = rpc (\<lambda>n. rpc_tx env n h)"

definition block_timestamp :: "env \<Rightarrow> u64 \<Rightarrow> u64 go" where
  "block_timestamp env b = rpc (\<lambda>n. rpc_timestamp env n b)"

definition block_header :: "env \<Rightarrow> u64 \<Rightarrow> block_header go" where
  "block_header env b = rpc (\<lambda>n. rpc_header env n b)"

definition call_contract :: "env \<Rightarrow> address \<Rightarrow> bytes \<Rightarrow> u64 \<Rightarrow> bytes go" where
  "call_contract env c data b = rpc (\<lambda>n. rpc_call env n c data b)"

definition ctx_error :: "env \<Rightarrow> world \<Rightarrow> goerror option" where
  "ctx_error env w = ctx_err env (w_tick w)"

definition now :: "env \<Rightarrow> world \<Rightarrow> int" where
  "now env w = clock env (w_tick w)"

text \<open>\<open>time.Now()\<close> as an argument.\<close>

definition with_now :: "env \<Rightarrow> (int \<Rightarrow> 'a go) \<Rightarrow> 'a go" where
  "with_now env m = (\<lambda>w. m (now env w) w)"

text \<open>
  One statement on the database. A connection fault, or a constraint the statement violates,
  is an error and the statement has no effect.
\<close>

definition exec_sql :: "env \<Rightarrow> (database \<Rightarrow> goerror + database) \<Rightarrow> unit go" where
  "exec_sql env f = (\<lambda>w.
     case db_fault env (w_tick w) of
       Some e \<Rightarrow> (Inl e, next_tick w)
     | None \<Rightarrow>
         (case f (w_db w) of
            Inl e \<Rightarrow> (Inl e, next_tick w)
          | Inr d \<Rightarrow> (Inr (), (next_tick w)\<lparr>w_db := d\<rparr>)))"

definition query_sql :: "env \<Rightarrow> (database \<Rightarrow> 'a) \<Rightarrow> 'a go" where
  "query_sql env f = (\<lambda>w.
     case db_fault env (w_tick w) of
       Some e \<Rightarrow> (Inl e, next_tick w)
     | None \<Rightarrow> (Inr (f (w_db w)), next_tick w))"

text \<open>
  \<open>pool.Begin ... defer tx.Rollback ... tx.Commit\<close>: the statements of \<open>m\<close> run inside the
  transaction; when one fails, or the commit does, the deferred rollback restores the tables.
\<close>

definition in_transaction :: "env \<Rightarrow> string \<Rightarrow> string \<Rightarrow> unit go \<Rightarrow> unit go" where
  "in_transaction env begin_msg commit_msg m = (\<lambda>w.
     case db_fault env (w_tick w) of
       Some e \<Rightarrow> (Inl (wrap_error begin_msg e), next_tick w)
     | None \<Rightarrow>
         (case m (next_tick w) of
            (Inl e, w1) \<Rightarrow> (Inl e, w1\<lparr>w_db := w_db w\<rparr>)
          | (Inr _, w1) \<Rightarrow>
              (case db_fault env (w_tick w1) of
                 Some e \<Rightarrow> (Inl (wrap_error commit_msg e), (next_tick w1)\<lparr>w_db := w_db w\<rparr>)
               | None \<Rightarrow> (Inr (), next_tick w1))))"

lemmas call_unfold = rpc_def latest_block_def get_logs_def get_token_logs_def
  transaction_metadata_def block_timestamp_def block_header_def call_contract_def

lemma next_tick_simps [simp]:
  "w_db (next_tick w) = w_db w" "w_redis (next_tick w) = w_redis w"
  "w_trace (next_tick w) = w_trace w" "w_tick (next_tick w) = Suc (w_tick w)"
  by (simp_all add: next_tick_def)

lemma emit_simps [simp]:
  "w_db (emit x w) = w_db w" "w_redis (emit x w) = w_redis w"
  "w_trace (emit x w) = w_trace w @ [x]" "w_tick (emit x w) = w_tick w"
  by (simp_all add: emit_def)

section \<open>Laws of the combinators\<close>

lemma bind_ret [simp]: "bind_go (ret x) k = k x"
  by (simp add: go_unfold)

lemma bind_fail [simp]: "bind_go (fail e) k = fail e"
  by (simp add: go_unfold)

lemma bind_Inr:
  "bind_go m k w = (Inr y, w') \<longleftrightarrow> (\<exists>x w1. m w = (Inr x, w1) \<and> k x w1 = (Inr y, w'))"
  by (auto simp: bind_go_def split: prod.splits sum.splits)

lemma wrapping_Inr: "wrapping s m w = (Inr y, w') \<longleftrightarrow> m w = (Inr y, w')"
  by (auto simp: wrapping_def split: prod.splits sum.splits)

lemma wrapping_Inl:
  "wrapping s m w = (Inl e, w') \<longleftrightarrow> (\<exists>e0. m w = (Inl e0, w') \<and> e = wrap_error s e0)"
  by (auto simp: wrapping_def split: prod.splits sum.splits)

lemma ret_eq: "ret x w = (r, w') \<longleftrightarrow> r = Inr x \<and> w' = w"
  by (auto simp: ret_def)

lemma fail_eq: "fail e w = (r, w') \<longleftrightarrow> r = Inl e \<and> w' = w"
  by (auto simp: fail_def)

lemma rpc_eq: "rpc f w = (r, w') \<longleftrightarrow> r = f (w_tick w) \<and> w' = next_tick w"
  by (auto simp: rpc_def)

lemma exec_sql_Inr:
  "exec_sql env f w = (Inr u, w') \<longleftrightarrow>
     db_fault env (w_tick w) = None \<and> (\<exists>d. f (w_db w) = Inr d \<and> w' = (next_tick w)\<lparr>w_db := d\<rparr>)"
  by (auto simp: exec_sql_def split: option.splits sum.splits)

lemma fail_not_Inr: "fail e w = (Inr x, w') \<longleftrightarrow> False"
  by (simp add: fail_def)

lemma query_sql_Inr:
  "query_sql env f w = (Inr x, w') \<longleftrightarrow>
     db_fault env (w_tick w) = None \<and> x = f (w_db w) \<and> w' = next_tick w"
  by (auto simp: query_sql_def split: option.splits)

lemma query_sql_db: "query_sql env f w = (r, w') \<Longrightarrow> w_db w' = w_db w"
  by (auto simp: query_sql_def split: option.splits)

lemma in_transaction_Inl: "in_transaction env b c m w = (Inl e, w') \<Longrightarrow> w_db w' = w_db w"
  by (auto simp: in_transaction_def split: option.splits sum.splits prod.splits)

lemma in_transaction_Inr:
  "in_transaction env b c m w = (Inr u, w') \<Longrightarrow>
     \<exists>w1. m (next_tick w) = (Inr (), w1) \<and> w_db w' = w_db w1"
  by (auto simp: in_transaction_def split: option.splits sum.splits prod.splits)

lemma with_now_eq: "with_now env m w = m (now env w) w"
  by (simp add: with_now_def)

lemma for_each_append:
  "for_each f (xs @ ys) s = bind_go (for_each f xs s) (for_each f ys)"
  by (induction xs arbitrary: s) (auto simp: go_unfold fun_eq_iff split: prod.splits sum.splits)

text \<open>Inversion rules for successful runs.\<close>

lemmas Inr_iffs = bind_Inr wrapping_Inr ret_eq fail_eq rpc_eq exec_sql_Inr

section \<open>Relations respected by every effect\<close>

text \<open>
  A preorder on worlds. \<open>keeps m\<close> says every run of \<open>m\<close>, successful or not, stays inside
  the relation. The rules let the relation climb from single effects through the combinators;
  an invariant of the database is the special case \<open>P (w_db w) \<longrightarrow> P (w_db w')\<close>.
\<close>

locale effect_relation =
  fixes R :: "world \<Rightarrow> world \<Rightarrow> bool"
  assumes R_refl: "R w w"
    and R_trans: "R a b \<Longrightarrow> R b c \<Longrightarrow> R a c"
    and R_tick: "R w (next_tick w)"
begin

definition keeps :: "'a go \<Rightarrow> bool" where
  "keeps m \<longleftrightarrow> (\<forall>w. R w (snd (m w)))"

lemma keepsD: "keeps m \<Longrightarrow> m w = (r, w') \<Longrightarrow> R w w'"
  unfolding keeps_def by (metis snd_conv)

lemma keeps_ret: "keeps (ret x)"
  by (simp add: keeps_def ret_def R_refl)

lemma keeps_fail: "keeps (fail e)"
  by (simp add: keeps_def fail_def R_refl)

lemma keeps_of_sum: "keeps (of_sum r)"
  by (simp add: keeps_def of_sum_def R_refl)

lemma keeps_bind:
  assumes "keeps m" "\<And>x. keeps (k x)"
  shows "keeps (bind_go m k)"
  unfolding keeps_def
proof
  fix w
  obtain r w1 where m: "m w = (r, w1)" by (cases "m w") auto
  then have step: "R w w1" using assms(1) by (rule keepsD [rotated])
  show "R w (snd (bind_go m k w))"
  proof (cases r)
    case (Inl e)
    with m step show ?thesis by (simp add: bind_go_def)
  next
    case (Inr x)
    have "R w1 (snd (k x w1))" using assms(2) by (simp add: keeps_def)
    with m Inr step show ?thesis by (simp add: bind_go_def) (rule R_trans)
  qed
qed

lemma keeps_wrapping: "keeps m \<Longrightarrow> keeps (wrapping s m)"
  unfolding keeps_def wrapping_def by (simp add: case_prod_beta split: sum.splits)

lemma keeps_attempt: "keeps m \<Longrightarrow> keeps (attempt m)"
  unfolding keeps_def attempt_def by (simp add: case_prod_beta)

lemma keeps_for_each: "(\<And>x s. keeps (f x s)) \<Longrightarrow> keeps (for_each f xs s)"
  by (induction xs arbitrary: s) (auto intro: keeps_ret keeps_bind)

lemma keeps_rpc: "keeps (rpc f)"
  by (simp add: keeps_def rpc_def R_tick)

lemma keeps_query: "keeps (query_sql env f)"
  by (auto simp: keeps_def query_sql_def R_tick split: option.splits)

lemma keeps_with_now: "(\<And>t. keeps (m t)) \<Longrightarrow> keeps (with_now env m)"
  by (simp add: keeps_def with_now_def)

lemma keeps_call:
  "keeps (latest_block env)" "keeps (get_logs env c lo hi)" "keeps (get_token_logs env c p lo hi)"
  "keeps (transaction_metadata env h)" "keeps (block_timestamp env b)" "keeps (block_header env b)"
  "keeps (call_contract env c data b)"
  unfolding latest_block_def get_logs_def get_token_logs_def transaction_metadata_def
    block_timestamp_def block_header_def call_contract_def by (rule keeps_rpc)+

lemmas keeps_rules = keeps_ret keeps_fail keeps_of_sum keeps_bind
  keeps_wrapping keeps_attempt keeps_for_each keeps_with_now keeps_query keeps_call keeps_rpc

end

text \<open>Relations that also ignore the trace, for methods that sleep or publish.\<close>

locale state_relation = effect_relation +
  assumes R_emit: "R w (emit x w)"

text \<open>
  A preorder on databases: what the statements respect, every method respects; a transaction
  that is rolled back respects it trivially.
\<close>

locale db_relation =
  fixes D :: "database \<Rightarrow> database \<Rightarrow> bool"
  assumes D_refl: "D d d"
    and D_trans: "D a b \<Longrightarrow> D b c \<Longrightarrow> D a c"

sublocale db_relation \<subseteq> state_relation "\<lambda>w w'. D (w_db w) (w_db w')"
  by unfold_locales (auto intro: D_refl D_trans)

context db_relation
begin

lemma keeps_exec: "(\<And>d d'. f d = Inr d' \<Longrightarrow> D d d') \<Longrightarrow> keeps (exec_sql env f)"
  by (auto simp: keeps_def exec_sql_def D_refl split: option.splits sum.splits)

lemma keeps_transaction:
  assumes "keeps m"
  shows "keeps (in_transaction env b c m)"
  unfolding keeps_def
proof
  fix w
  obtain r w1 where m: "m (next_tick w) = (r, w1)" by (cases "m (next_tick w)") auto
  have "D (w_db w) (w_db w1)" using keepsD [OF assms m] by simp
  with m show "D (w_db w) (w_db (snd (in_transaction env b c m w)))"
    by (auto simp: in_transaction_def D_refl split: option.splits sum.splits)
qed

end

end
