(* ===== verification/Retry.thy ===== *)
theory Retry
  imports World
begin

text \<open>
  \<open>internal/indexer/retry.go\<close>: the classification of errors, the policy with its defaults, and
  the retry loop around an RPC operation. Sleeping is an effect recorded in the trace; the
  sleeper may return the error of a cancelled context. Durations are nanoseconds, integers of any size; the backoff factor is a rational number
  and the product is exact, where Go multiplies as \<open>float64\<close> and converts to a 64-bit \<open>Duration\<close>.
\<close>

section \<open>Classification of errors\<close>

definition contains_any :: "string \<Rightarrow> string list \<Rightarrow> bool" where
  "contains_any s ps \<longleftrightarrow> list_ex (contains s) ps"

definition is_429_error :: "goerror \<Rightarrow> bool" where
  "is_429_error e \<longleftrightarrow> contains_any (to_lower (emsg e))
     [''429'', ''too many requests'', ''rate limit'', ''ratelimit'', ''request limit reached'',
      ''daily request count exceeded'', ''-32005'', ''compute units per second'',
      ''exceeded its compute units'']"

definition is_retryable_rpc_error :: "goerror \<Rightarrow> bool" where
  "is_retryable_rpc_error e =
     (if is_canceled e then False
      else if is_429_error e then True
      else
        let msg = to_lower (emsg e) in
        if contains_any msg [''simulated rpc failure'', ''simulated rpc network failure''] then True
        else if contains_any msg
          [''connection reset'', ''connection refused'', ''broken pipe'', ''eof'', ''i/o timeout'',
           ''tls handshake timeout'', ''network is unreachable'', ''no such host'',
           ''temporary failure in name resolution''] then True
        else if is_deadline e \<or> contains_any msg [''timeout'', ''timed out''] then True
        else if contains_any msg
          [''502'', ''bad gateway'', ''503'', ''service unavailable'', ''504'', ''gateway timeout'',
           ''500'', ''internal server error'', ''over capacity'', ''backend error'',
           ''server error''] then True
        else is_net e)"

lemma contains_any_iff: "contains_any s ps \<longleftrightarrow> (\<exists>p \<in> set ps. contains s p)"
  by (simp add: contains_any_def list_ex_iff)

lemma contains_any_wrap:
  "contains_any t ps \<Longrightarrow> contains_any (s @ t) ps" "contains_any s ps \<Longrightarrow> contains_any (s @ t) ps"
  by (auto simp: contains_any_iff intro: contains_append1 contains_append2)

text \<open>Wrapping never turns a retryable error into a permanent one.\<close>

lemma retryable_wrap:
  assumes "is_retryable_rpc_error e"
  shows "is_retryable_rpc_error (wrap_error s e)"
proof -
  have up: "contains_any (to_lower (emsg (wrap_error s e))) ps"
    if "contains_any (to_lower (emsg e)) ps" for ps
    using contains_any_wrap(1) [OF that, of "to_lower s @ to_lower '': ''"] by simp
  show ?thesis
    using assms
    by (auto simp: is_retryable_rpc_error_def is_429_error_def Let_def dest: up split: if_splits)
qed

section \<open>Policy\<close>

text \<open>The factor is the exact rational value; the product is truncated towards zero.\<close>

record retry_policy =
  max_retries :: int
  initial_backoff :: int
  max_backoff :: int
  backoff_factor :: rat

definition millisecond :: int where "millisecond = 1000000"
definition second :: int where "second = 1000000000"

definition default_retry_policy :: "bool \<Rightarrow> retry_policy" where
  "default_retry_policy under_test =
     (if under_test
      then \<lparr>max_retries = 5, initial_backoff = millisecond, max_backoff = 10 * millisecond,
            backoff_factor = 2\<rparr>
      else \<lparr>max_retries = 5, initial_backoff = second, max_backoff = 30 * second,
            backoff_factor = 2\<rparr>)"

definition new_retryer :: "retry_policy \<Rightarrow> retry_policy" where
  "new_retryer p =
     \<lparr>max_retries = (if max_retries p \<le> 0 then 5 else max_retries p),
      initial_backoff = (if initial_backoff p \<le> 0 then second else initial_backoff p),
      max_backoff = (if max_backoff p \<le> 0 then 30 * second else max_backoff p),
      backoff_factor = (if backoff_factor p \<le> 0 then 2 else backoff_factor p)\<rparr>"

definition policy_ok :: "retry_policy \<Rightarrow> bool" where
  "policy_ok p \<longleftrightarrow> 0 < max_retries p \<and> 0 < initial_backoff p \<and> 0 < max_backoff p \<and> 0 < backoff_factor p"

lemma new_retryer_ok: "policy_ok (new_retryer p)"
  by (simp add: policy_ok_def new_retryer_def second_def)

definition next_backoff :: "retry_policy \<Rightarrow> int \<Rightarrow> int" where
  "next_backoff p b =
     (let nb = (if of_int b * backoff_factor p < 0 then \<lceil>of_int b * backoff_factor p\<rceil>
                else \<lfloor>of_int b * backoff_factor p\<rfloor>)
      in if nb > max_backoff p then max_backoff p else nb)"

section \<open>The loop\<close>

definition sleep :: "env \<Rightarrow> int \<Rightarrow> unit go" where
  "sleep env d = (\<lambda>w.
     case sleep_err env (w_tick w) of
       Some e \<Rightarrow> (Inl e, next_tick (emit (Slept d) w))
     | None \<Rightarrow> (Inr (), next_tick (emit (Slept d) w)))"

definition exceeded :: "retry_policy \<Rightarrow> string \<Rightarrow> u64 \<Rightarrow> u64 \<Rightarrow> goerror option \<Rightarrow> goerror" where
  "exceeded p stream lo hi prev =
     (let s = ''exceeded max retries ('' @ dec_int (max_retries p) @ '') for stream '' @ stream @
              '' range ['' @ dec_u64 lo @ '', '' @ dec_u64 hi @ '']''
      in case prev of Some e \<Rightarrow> wrap_error s e | None \<Rightarrow> new_error (s @ '': %!w(<nil>)''))"

function retry_loop ::
  "env \<Rightarrow> retry_policy \<Rightarrow> string \<Rightarrow> u64 \<Rightarrow> u64 \<Rightarrow> 'a go \<Rightarrow> int \<Rightarrow> int \<Rightarrow> goerror option \<Rightarrow> 'a go" where
  "retry_loop env p stream lo hi op att backoff prev w =
     (if att \<le> max_retries p then
        (case ctx_error env w of
           Some e \<Rightarrow> (Inl e, w)
         | None \<Rightarrow>
             (case op w of
                (Inr x, w1) \<Rightarrow> (Inr x, w1)
              | (Inl err, w1) \<Rightarrow>
                  (case ctx_error env w1 of
                     Some e \<Rightarrow> (Inl e, w1)
                   | None \<Rightarrow>
                       (if \<not> is_retryable_rpc_error err then (Inl err, w1)
                        else if att < max_retries p then
                          (case sleep env backoff w1 of
                             (Inl e, w2) \<Rightarrow> (Inl e, w2)
                           | (Inr _, w2) \<Rightarrow>
                               retry_loop env p stream lo hi op (att + 1)
                                 (next_backoff p backoff) (Some err) w2)
                        else retry_loop env p stream lo hi op (att + 1) backoff (Some err) w1))))
      else (Inl (exceeded p stream lo hi prev), w))"
  by pat_completeness auto
termination
  by (relation "measure (\<lambda>(env, p, stream, lo, hi, op, att, backoff, last, w).
        nat (max_retries p - att + 1))") auto

declare retry_loop.simps [simp del]

lemma retry_loop_induct [case_names step]:
  assumes "\<And>att backoff prev w.
     (\<And>backoff prev w. att \<le> max_retries p \<Longrightarrow> P (att + 1) backoff prev w) \<Longrightarrow> P att backoff prev w"
  shows "P (att :: int) (backoff :: int) (prev :: goerror option) (w :: world)"
proof (induction "nat (max_retries p - att + 1)" arbitrary: att backoff prev w rule: less_induct)
  case less
  show ?case by (rule assms) (rule less, simp)
qed

lemma retry_loop_stop:
  "max_retries p < att \<Longrightarrow>
   retry_loop env p stream lo hi op att backoff prev w = (Inl (exceeded p stream lo hi prev), w)"
  by (simp add: retry_loop.simps)

text \<open>One round of the loop: it ends before or after the attempt, ends in the sleeper, or goes on.\<close>

lemma retry_loop_round [consumes 2, case_names before_op after_op slept again]:
  assumes run: "retry_loop env p stream lo hi op att backoff prev w = (r, w')"
    and op: "op w = (r1, w1)"
  obtains e where "r = Inl e" "w' = w"
  | "w' = w1" "r = r1 \<or> (\<exists>e. r = Inl e)" "att \<le> max_retries p"
  | e err where "att < max_retries p" "r1 = Inl err" "sleep env backoff w1 = (Inl e, w')" "r = Inl e"
  | err w2 where "att < max_retries p" "r1 = Inl err" "is_retryable_rpc_error err"
      "sleep env backoff w1 = (Inr (), w2)"
      "retry_loop env p stream lo hi op (att + 1) (next_backoff p backoff) (Some err) w2 = (r, w')"
  using run op
  by (simp add: retry_loop.simps [of env p stream lo hi op att backoff prev w])
     (auto simp: retry_loop_stop split: option.splits sum.splits if_splits prod.splits)

definition retry_range :: "env \<Rightarrow> retry_policy \<Rightarrow> string \<Rightarrow> u64 \<Rightarrow> u64 \<Rightarrow> 'a go \<Rightarrow> 'a go" where
  "retry_range env p stream lo hi op =
     retry_loop env p stream lo hi op 1 (initial_backoff p) None"

section \<open>What a retried operation leaves behind\<close>

context state_relation
begin

lemma sleep_R: "sleep env d w = (r, w') \<Longrightarrow> R w w'"
  by (auto simp: sleep_def split: option.splits intro: R_trans [OF R_emit R_tick])

lemma keeps_sleep: "keeps (sleep env d)"
  unfolding keeps_def using sleep_R by (metis prod.collapse)

lemma retry_loop_R:
  assumes "keeps op"
  shows "retry_loop env p stream lo hi op att backoff prev w = (r, w') \<Longrightarrow> R w w'"
proof (induction att backoff prev w arbitrary: r w'
         rule: retry_loop_induct [where p = p])
  case (step att backoff prev w)
  obtain r1 w1 where op: "op w = (r1, w1)" by (cases "op w") auto
  have R1: "R w w1" using assms op by (rule keepsD)
  from step.prems op show ?case
  proof (cases rule: retry_loop_round)
    case before_op
    then show ?thesis by (simp add: R_refl)
  next
    case after_op
    then show ?thesis using R1 by simp
  next
    case slept
    then show ?thesis using R_trans [OF R1] sleep_R by blast
  next
    case (again err w2)
    then show ?thesis using R_trans [OF R1] sleep_R step.IH R_trans by (meson less_imp_le)
  qed
qed

lemma keeps_retry: "keeps op \<Longrightarrow> keeps (retry_range env p stream lo hi op)"
  using retry_loop_R unfolding retry_range_def keeps_def [of "retry_loop _ _ _ _ _ _ _ _ _"]
  by (metis prod.collapse)

text \<open>
  Operations that stay inside the relation when they fail: so does every failed retry, and the
  final state of a retry that succeeds is the one its successful attempt left.
\<close>

definition keeps_err :: "'a go \<Rightarrow> bool" where
  "keeps_err m \<longleftrightarrow> (\<forall>w e w'. m w = (Inl e, w') \<longrightarrow> R w w')"

lemma keeps_keeps_err: "keeps m \<Longrightarrow> keeps_err m"
  unfolding keeps_err_def using keepsD by blast

lemma retry_loop_err:
  assumes "keeps_err op"
  shows "retry_loop env p stream lo hi op att backoff prev w = (r, w') \<Longrightarrow>
         (\<exists>e. r = Inl e) \<and> R w w' \<or> (\<exists>w1. R w w1 \<and> op w1 = (r, w'))"
proof (induction att backoff prev w arbitrary: r w' rule: retry_loop_induct [where p = p])
  case (step att backoff prev w)
  obtain r1 w1 where op: "op w = (r1, w1)" by (cases "op w") auto
  show ?case
  proof (cases "\<exists>x. r1 = Inr x")
    case True
    then have "(\<exists>e. r = Inl e) \<and> w' = w \<or> (r, w') = (r1, w1)"
      using step.prems op
      by (simp add: retry_loop.simps [of env p stream lo hi op att backoff prev w]
          split: option.splits if_splits) auto
    then show ?thesis using op R_refl by auto
  next
    case False
    then obtain e1 where "r1 = Inl e1" by (cases r1) auto
    with assms op have R1: "R w w1" by (simp add: keeps_err_def)
    from step.prems op show ?thesis
    proof (cases rule: retry_loop_round)
      case before_op
      then show ?thesis by (simp add: R_refl)
    next
      case after_op
      then show ?thesis using R1 \<open>r1 = Inl e1\<close> by auto
    next
      case slept
      then show ?thesis using R_trans [OF R1] sleep_R by blast
    next
      case (again err w2)
      have "R w w2" using R_trans [OF R1] sleep_R again(4) by blast
      moreover have "(\<exists>e. r = Inl e) \<and> R w2 w' \<or> (\<exists>w1. R w2 w1 \<and> op w1 = (r, w'))"
        using step.IH [OF _ again(5)] again(1) by simp
      ultimately show ?thesis using R_trans by blast
    qed
  qed
qed

lemma retry_range_Inr:
  assumes "keeps_err op" "retry_range env p stream lo hi op w = (Inr x, w')"
  shows "\<exists>w1. R w w1 \<and> op w1 = (Inr x, w')"
  using retry_loop_err [OF assms(1) assms(2) [unfolded retry_range_def]] by simp

lemma retry_range_Inl:
  assumes "keeps_err op" "retry_range env p stream lo hi op w = (Inl e, w')"
  shows "R w w'"
  using retry_loop_err [OF assms(1) assms(2) [unfolded retry_range_def]]
proof
  assume "\<exists>w1. R w w1 \<and> op w1 = (Inl e, w')"
  then obtain w1 where w1: "R w w1" "op w1 = (Inl e, w')" by blast
  have "R w1 w'" using assms(1) w1(2) by (simp add: keeps_err_def)
  with w1(1) show ?thesis by (rule R_trans)
qed simp

lemmas keeps_retry_rules = keeps_rules keeps_sleep keeps_retry

end

section \<open>How long it waits\<close>

fun backoffs :: "retry_policy \<Rightarrow> nat \<Rightarrow> int \<Rightarrow> int list" where
  "backoffs p 0 b = []"
| "backoffs p (Suc n) b = b # backoffs p n (next_backoff p b)"

lemma next_backoff_le: "next_backoff p b \<le> max_backoff p"
  by (simp add: next_backoff_def Let_def)

lemma backoffs_bounded: "d \<in> set (backoffs p n b) \<Longrightarrow> d \<le> max b (max_backoff p)"
proof (induction n arbitrary: b)
  case (Suc n)
  then show ?case using next_backoff_le [of p b] by fastforce
qed simp

lemma length_backoffs [simp]: "length (backoffs p n b) = n"
  by (induction n arbitrary: b) auto

definition trace_free :: "'a go \<Rightarrow> bool" where
  "trace_free m \<longleftrightarrow> (\<forall>w. w_trace (snd (m w)) = w_trace w)"

lemma trace_freeD: "trace_free m \<Longrightarrow> m w = (r, w') \<Longrightarrow> w_trace w' = w_trace w"
  unfolding trace_free_def by (metis snd_conv)

lemma sleep_trace: "sleep env d w = (r, w') \<Longrightarrow> w_trace w' = w_trace w @ [Slept d]"
  by (auto simp: sleep_def split: option.splits)

lemma retry_loop_trace:
  assumes "trace_free op"
  shows "retry_loop env p stream lo hi op att backoff prev w = (r, w') \<Longrightarrow> att \<le> max_retries p \<Longrightarrow>
         \<exists>k. int k \<le> max_retries p - att \<and> w_trace w' = w_trace w @ map Slept (backoffs p k backoff)"
proof (induction att backoff prev w rule: retry_loop_induct [where p = p])
  case (step att backoff prev w)
  obtain r1 w1 where op: "op w = (r1, w1)" by (cases "op w") auto
  have tr: "w_trace w1 = w_trace w" using assms op by (rule trace_freeD)
  from step.prems(1) op show ?case
  proof (cases rule: retry_loop_round)
    case before_op
    then show ?thesis using step.prems(2) by (intro exI [of _ 0]) simp
  next
    case after_op
    then show ?thesis using step.prems(2) tr by (intro exI [of _ 0]) simp
  next
    case slept
    then show ?thesis using tr sleep_trace by (intro exI [of _ 1]) fastforce
  next
    case (again err w2)
    with step.IH [of "next_backoff p backoff" "Some err" w2] obtain k where
      "int k \<le> max_retries p - (att + 1)"
      "w_trace w' = w_trace w2 @ map Slept (backoffs p k (next_backoff p backoff))"
      by auto
    then show ?thesis using sleep_trace [OF again(4)] tr by (intro exI [of _ "Suc k"]) simp
  qed
qed

lemma retry_loop_exhausts:
  assumes "\<And>n. ctx_err env n = None" "\<And>n. sleep_err env n = None"
    and "is_retryable_rpc_error err" "\<And>w. fst (op w) = Inl err" "trace_free op"
  shows "att \<le> max_retries p \<Longrightarrow> retry_loop env p stream lo hi op att backoff prev w = (r, w') \<Longrightarrow>
    r = Inl (exceeded p stream lo hi (Some err)) \<and>
    w_trace w' = w_trace w @ map Slept (backoffs p (nat (max_retries p - att)) backoff)"
proof (induction att backoff prev w rule: retry_loop_induct [where p = p])
  case (step att backoff prev w)
  obtain w1 where op: "op w = (Inl err, w1)" using assms(4) [of w] by (cases "op w") auto
  have tr: "w_trace w1 = w_trace w" using assms(5) op by (rule trace_freeD)
  obtain w2 where sl: "sleep env backoff w1 = (Inr (), w2)"
    using assms(2) by (simp add: sleep_def)
  note unfold = retry_loop.simps [of env p stream lo hi op att backoff prev w]
  show ?case
  proof (cases "att < max_retries p")
    case True
    then have more: "nat (max_retries p - att) = Suc (nat (max_retries p - (att + 1)))" by simp
    have "retry_loop env p stream lo hi op (att + 1) (next_backoff p backoff) (Some err) w2 = (r, w')"
      using step.prems(2) True op sl assms(1,3) by (simp add: unfold ctx_error_def)
    with step.IH step.prems(1) True sleep_trace [OF sl] tr show ?thesis by (simp add: more)
  next
    case False
    then show ?thesis
      using step.prems op assms(1,3) tr
      by (simp add: retry_loop.simps [of env p stream lo hi op "max_retries p" backoff prev w]
            ctx_error_def retry_loop_stop)
  qed
qed

section \<open>Properties\<close>

text \<open>
  C22. The retry loop is bounded: whatever the node, the context and the sleeper do, a call of
  \<open>RetryRange\<close> with any policy that went through \<open>NewRetryer\<close> sleeps fewer than \<open>MaxRetries\<close>
  times, the waits are exactly a prefix of the exponential sequence that starts at
  \<open>InitialBackoff\<close>, and no wait exceeds the larger of \<open>InitialBackoff\<close> and \<open>MaxBackoff\<close>.
\<close>

theorem retry_waits_bounded:
  assumes "trace_free op" "retry_range env (new_retryer p) stream lo hi op w = (r, w')"
  shows "\<exists>k. int k < max_retries (new_retryer p) \<and>
    w_trace w' = w_trace w @ map Slept (backoffs (new_retryer p) k (initial_backoff (new_retryer p))) \<and>
    (\<forall>d \<in> set (backoffs (new_retryer p) k (initial_backoff (new_retryer p))).
       d \<le> max (initial_backoff (new_retryer p)) (max_backoff (new_retryer p)))"
proof -
  have "1 \<le> max_retries (new_retryer p)" using new_retryer_ok [of p] by (simp add: policy_ok_def)
  with retry_loop_trace [OF assms(1) assms(2) [unfolded retry_range_def]] show ?thesis
    using backoffs_bounded by fastforce
qed

text \<open>A node that always answers 429 with the default policy, in an environment without faults.\<close>

definition calm_env :: env where
  "calm_env = \<lparr>rpc_latest = (\<lambda>_. Inr 0), rpc_logs = (\<lambda>_ _ _ _. Inr []),
     rpc_token_logs = (\<lambda>_ _ _ _ _. Inr []), rpc_tx = (\<lambda>_ _. Inr None),
     rpc_timestamp = (\<lambda>_ _. Inr 0),
     rpc_header = (\<lambda>_ b. Inr \<lparr>h_number = b, h_hash = ucast b, h_parent = 0, h_time = 0\<rparr>),
     rpc_call = (\<lambda>_ _ _ _. Inr []),
     db_fault = (\<lambda>_. None), redis_fault = (\<lambda>_. None), ctx_err = (\<lambda>_. None),
     sleep_err = (\<lambda>_. None), clock = int, map_order = (\<lambda>_ hs. hs),
     hash_hex = (\<lambda>h. dec_nat (unat h)), addr_hex = (\<lambda>a. dec_nat (unat a))\<rparr>"

definition empty_world :: world where
  "empty_world = \<lparr>w_db = empty_database, w_redis = (\<lambda>_. None), w_trace = [], w_tick = 0\<rparr>"

definition throttled_op :: "unit go" where
  "throttled_op = rpc (\<lambda>_. Inl (new_error ''429''))"

lemma throttled_trace_free: "trace_free throttled_op"
  by (simp add: trace_free_def throttled_op_def rpc_def)

lemma calm_env_simps [simp]:
  "ctx_err calm_env n = None" "sleep_err calm_env n = None" "db_fault calm_env n = None"
  "redis_fault calm_env n = None"
  by (simp_all add: calm_env_def)

theorem retry_waits_bounded_witness:
  "\<exists>k. int k < 5 \<and>
    w_trace (snd (retry_range calm_env (new_retryer (default_retry_policy False)) ''s'' 1 2
                    throttled_op empty_world)) =
      map Slept (backoffs (default_retry_policy False) k second)"
proof -
  have p: "new_retryer (default_retry_policy False) = default_retry_policy False"
    by (simp add: new_retryer_def default_retry_policy_def second_def)
  obtain r w' where run: "retry_range calm_env (new_retryer (default_retry_policy False)) ''s'' 1 2
      throttled_op empty_world = (r, w')" by (meson surj_pair)
  show ?thesis
    using retry_waits_bounded [OF throttled_trace_free run] unfolding run unfolding p
    by (auto simp: empty_world_def default_retry_policy_def)
qed

text \<open>
  Permanent errors are not retried: when the first attempt fails with an error that is not
  retryable and the context is alive, \<open>RetryRange\<close> returns that error after exactly one call
  of the operation and without sleeping.
\<close>

theorem retry_permanent_error:
  assumes "op w = (Inl err, w1)" "\<not> is_retryable_rpc_error err"
    and "ctx_error env w = None" "ctx_error env w1 = None"
  shows "retry_range env (new_retryer p) stream lo hi op w = (Inl err, w1)"
  using assms new_retryer_ok [of p]
  by (simp add: retry_range_def retry_loop.simps policy_ok_def)

theorem retry_permanent_error_witness:
  "retry_range calm_env (new_retryer (default_retry_policy False)) ''s'' 1 2
     (rpc (\<lambda>_. Inl (new_error ''bad'')) :: unit go) empty_world =
   (Inl (new_error ''bad''), next_tick empty_world)"
  by (rule retry_permanent_error)
     (simp_all add: rpc_def is_retryable_rpc_error_def is_429_error_def contains_any_def
       lower_char_def ctx_error_def)

text \<open>
  A persistent transient failure ends: an operation that always fails with the same
  retryable error is tried \<open>MaxRetries\<close> times with the full backoff sequence between the
  attempts, and the caller gets the \<open>exceeded max retries\<close> error wrapping it.
\<close>

theorem retry_exhausts:
  assumes "\<And>n. ctx_err env n = None" "\<And>n. sleep_err env n = None"
    and "is_retryable_rpc_error err" "\<And>w. fst (op w) = Inl err" "trace_free op"
  shows "fst (retry_range env (new_retryer p) stream lo hi op w) =
           Inl (exceeded (new_retryer p) stream lo hi (Some err)) \<and>
         w_trace (snd (retry_range env (new_retryer p) stream lo hi op w)) =
           w_trace w @ map Slept (backoffs (new_retryer p) (nat (max_retries (new_retryer p) - 1))
                                   (initial_backoff (new_retryer p)))"
proof -
  have "1 \<le> max_retries (new_retryer p)" using new_retryer_ok [of p] by (simp add: policy_ok_def)
  then show ?thesis
    using retry_loop_exhausts [OF assms, of 1 "new_retryer p" stream lo hi
        "initial_backoff (new_retryer p)" None w]
    by (metis prod.collapse retry_range_def)
qed

theorem retry_exhausts_witness:
  "w_trace (snd (retry_range calm_env (new_retryer (default_retry_policy False)) ''s'' 1 2
                   throttled_op empty_world)) =
   map Slept [second, 2 * second, 4 * second, 8 * second]"
proof -
  have p: "new_retryer (default_retry_policy False) = default_retry_policy False"
    by (simp add: new_retryer_def default_retry_policy_def second_def)
  have b: "backoffs (default_retry_policy False) (nat (max_retries (default_retry_policy False) - 1))
             (initial_backoff (default_retry_policy False)) =
           [second, 2 * second, 4 * second, 8 * second]"
    by (simp add: default_retry_policy_def second_def next_backoff_def eval_nat_numeral)
  have err: "is_retryable_rpc_error (new_error ''429'')"
    by (simp add: is_retryable_rpc_error_def is_429_error_def contains_any_def lower_char_def)
  have op: "fst (throttled_op w) = Inl (new_error ''429'')" for w
    by (simp add: throttled_op_def rpc_def)
  show ?thesis
    using retry_exhausts [of calm_env "new_error ''429''" throttled_op "default_retry_policy False"
        "''s''" 1 2 empty_world, OF _ _ err op throttled_trace_free]
    unfolding p b by (simp add: empty_world_def)
qed

end
