(* ===== verification/Persistence.thy ===== *)
theory Persistence
  imports Retry
begin

text \<open>
  The write path of \<open>internal/persistence\<close>: transactions, raw chain events, checkpoints, the
  escrow events and the token batch. Each method of \<open>Postgres\<close> is one definition; methods that
  use a database transaction run their statements inside \<open>in_transaction\<close>. Pointers that may
  be nil are options.
\<close>

section \<open>transactions.go\<close>

definition tx_status_text :: "u64 \<Rightarrow> string" where
  "tx_status_text s = (if s = 0 then ''failed'' else ''confirmed'')"

definition tx_row_of :: "int \<Rightarrow> tx_metadata \<Rightarrow> int \<Rightarrow> tx_row" where
  "tx_row_of chain m t = \<lparr>tx_chain = chain, tx_hash = tm_hash m, tx_block = uint (tm_block m),
     tx_sender = tm_sender m, tx_recipient = tm_recipient m, tx_gas = uint (tm_gas m),
     tx_status = tx_status_text (tm_status m), tx_confirmations = 1, tx_first_seen = t\<rparr>"

definition save_transaction :: "env \<Rightarrow> int \<Rightarrow> tx_metadata option \<Rightarrow> unit go" where
  "save_transaction env chain meta =
     (case meta of
        None \<Rightarrow> fail (new_error ''transaction metadata is nil'')
      | Some m \<Rightarrow>
          wrapping (''failed to save transaction '' @ hash_hex env (tm_hash m))
            (with_now env (\<lambda>t. exec_sql env (stmt_transaction (tx_row_of chain m t)))))"

text \<open>\<open>GetExistingTxHashes\<close>: which of the hashes are in the table.\<close>

definition get_existing_tx_hashes :: "env \<Rightarrow> int \<Rightarrow> hash list \<Rightarrow> hash list go" where
  "get_existing_tx_hashes env chain hs =
     (if hs = [] then ret []
      else wrapping ''failed to query existing tx hashes''
             (query_sql env (\<lambda>d. filter (has_tx d chain) hs)))"

section \<open>chain_events.go\<close>

definition event_row_of :: "int \<Rightarrow> address \<Rightarrow> u64 \<Rightarrow> decoded_event \<Rightarrow> event_row" where
  "event_row_of chain contract ts ev = \<lparr>ev_chain = chain, ev_contract = contract,
     ev_name = event_type_name (d_type ev), ev_tx = l_tx (d_log ev),
     ev_block = uint (l_block (d_log ev)), ev_time = sint ts, ev_index = uint (l_index (d_log ev)),
     ev_removed = l_removed (d_log ev), ev_raw = RawPayroll (d_data ev)\<rparr>"

definition save_chain_event ::
  "env \<Rightarrow> int \<Rightarrow> address \<Rightarrow> u64 \<Rightarrow> decoded_event option \<Rightarrow> unit go" where
  "save_chain_event env chain contract ts event =
     (case event of
        None \<Rightarrow> fail (new_error ''decoded event is nil'')
      | Some ev \<Rightarrow>
          wrapping (''failed to save chain event '' @ event_type_name (d_type ev) @
                    '' at block '' @ dec_u64 (l_block (d_log ev)))
            (exec_sql env (stmt_chain_event (event_row_of chain contract ts ev))))"

section \<open>checkpoints.go\<close>

definition get_checkpoint :: "env \<Rightarrow> int \<Rightarrow> string \<Rightarrow> (u64 \<times> bool) go" where
  "get_checkpoint env chain stream =
     wrapping (''failed to query checkpoint for '' @ stream @ '' (chain '' @ dec_int chain @ '')'')
       (query_sql env (\<lambda>d. case find_row cp_key (chain, stream) (sync_checkpoints d) of
                             None \<Rightarrow> (0, False)
                           | Some r \<Rightarrow> (word_of_int (cp_block r), True)))"

text \<open>\<open>GetCheckpointWithHash\<close>.\<close>

definition get_checkpoint_with_hash :: "env \<Rightarrow> int \<Rightarrow> string \<Rightarrow> (u64 \<times> string) option go" where
  "get_checkpoint_with_hash env chain stream =
     wrapping (''failed to query checkpoint with hash for '' @ stream @ '' (chain '' @ dec_int chain @ '')'')
       (query_sql env (\<lambda>d. map_option (\<lambda>r. (word_of_int (cp_block r), cp_hash r))
                             (find_row cp_key (chain, stream) (sync_checkpoints d))))"

definition checkpoint_row_of :: "int \<Rightarrow> string \<Rightarrow> u64 \<Rightarrow> string \<Rightarrow> checkpoint_row" where
  "checkpoint_row_of chain stream b h =
     \<lparr>cp_chain = chain, cp_stream = stream, cp_block = sint b, cp_hash = h\<rparr>"

definition save_checkpoint :: "env \<Rightarrow> int \<Rightarrow> string \<Rightarrow> u64 \<Rightarrow> string \<Rightarrow> unit go" where
  "save_checkpoint env chain stream b h =
     wrapping (''failed to save checkpoint for '' @ stream @ '' at block '' @ dec_u64 b)
       (exec_sql env (stmt_checkpoint (checkpoint_row_of chain stream b h)))"

section \<open>escrow_events.go\<close>

text \<open>\<open>models.EscrowEvent\<close>; the block timestamp in seconds.\<close>

record escrow_event =
  e_chain :: int
  e_contract :: address
  e_type :: string
  e_tx :: hash
  e_block :: u64
  e_time :: int
  e_index :: u64
  e_removed :: bool
  e_id :: "string option"
  e_amount :: "string option"
  e_raw :: "(string \<times> string) list"

text \<open>\<open>EscrowEventFromLog\<close>.\<close>

definition escrow_event_from_log ::
  "int \<Rightarrow> address \<Rightarrow> string \<Rightarrow> hash \<Rightarrow> u64 \<Rightarrow> int \<Rightarrow> u64 \<Rightarrow> bool \<Rightarrow> string option \<Rightarrow> string option
     \<Rightarrow> (string \<times> string) list \<Rightarrow> escrow_event" where
  "escrow_event_from_log chain contract ty tx b t i rm eid amt raw =
     \<lparr>e_chain = chain, e_contract = contract, e_type = ty, e_tx = tx, e_block = b, e_time = t,
      e_index = i, e_removed = rm, e_id = eid, e_amount = amt, e_raw = raw\<rparr>"

definition escrow_row_of :: "escrow_event \<Rightarrow> escrow_row" where
  "escrow_row_of ev = \<lparr>es_chain = e_chain ev, es_contract = e_contract ev, es_type = e_type ev,
     es_tx = e_tx ev, es_block = sint (e_block ev), es_time = e_time ev,
     es_index = sint (e_index ev), es_removed = e_removed ev, es_id = e_id ev,
     es_amount = e_amount ev, es_raw = e_raw ev\<rparr>"

text \<open>The single-event upserts: \<open>persistence.SaveEscrowEvent\<close> and the repository of the API.\<close>

definition save_escrow_event :: "env \<Rightarrow> escrow_event option \<Rightarrow> unit go" where
  "save_escrow_event env event =
     (case event of
        None \<Rightarrow> fail (new_error ''escrow event is nil'')
      | Some ev \<Rightarrow>
          wrapping (''failed to save escrow event '' @ e_type ev @ '' tx '' @ hash_hex env (e_tx ev) @
                    '' log '' @ dec_u64 (e_index ev))
            (exec_sql env (stmt_escrow es_merge_single (escrow_row_of ev))))"

definition repo_save_escrow_event :: "env \<Rightarrow> escrow_event option \<Rightarrow> unit go" where
  "repo_save_escrow_event env event =
     (case event of
        None \<Rightarrow> fail (new_error ''escrow event is nil'')
      | Some ev \<Rightarrow>
          wrapping ''failed to save escrow event''
            (exec_sql env (stmt_escrow es_merge (escrow_row_of ev))))"

definition checkpoint_in_batch :: "env \<Rightarrow> string \<Rightarrow> int \<Rightarrow> string \<Rightarrow> u64 \<Rightarrow> string \<Rightarrow> unit go" where
  "checkpoint_in_batch env msg chain stream b h =
     (if stream \<noteq> [] \<and> 0 < b
      then wrapping msg (exec_sql env (stmt_checkpoint (checkpoint_row_of chain stream b h)))
      else ret ())"

definition save_escrow_batch ::
  "env \<Rightarrow> int \<Rightarrow> string \<Rightarrow> escrow_event option list \<Rightarrow> u64 \<Rightarrow> string \<Rightarrow> unit go" where
  "save_escrow_batch env chain stream events b h =
     in_transaction env ''escrow batch: begin transaction'' ''escrow batch: commit''
       (bind_go
         (for_each
           (\<lambda>ev _. case ev of
                     None \<Rightarrow> ret ()
                   | Some ev \<Rightarrow>
                       wrapping (''escrow batch: insert event '' @ e_type ev @ '' tx '' @
                                 hash_hex env (e_tx ev) @ '' log '' @ dec_u64 (e_index ev))
                         (exec_sql env (stmt_escrow es_merge (escrow_row_of ev))))
           events ())
         (\<lambda>_. checkpoint_in_batch env
                (''escrow batch: checkpoint update to block '' @ dec_u64 b) chain stream b h))"

section \<open>token_transfers.go\<close>

record raw_event_input =
  ri_contract :: address
  ri_name :: string
  ri_tx :: hash
  ri_block :: u64
  ri_time :: int
  ri_index :: u64
  ri_removed :: bool
  ri_raw :: "(string \<times> string) list"

definition raw_event_row :: "int \<Rightarrow> raw_event_input \<Rightarrow> event_row" where
  "raw_event_row chain re = \<lparr>ev_chain = chain, ev_contract = ri_contract re, ev_name = ri_name re,
     ev_tx = ri_tx re, ev_block = sint (ri_block re), ev_time = ri_time re,
     ev_index = sint (ri_index re), ev_removed = ri_removed re, ev_raw = RawPairs (ri_raw re)\<rparr>"

definition transfer_row_of :: "token_transfer \<Rightarrow> transfer_row" where
  "transfer_row_of t = \<lparr>tr_chain = tt_chain t, tr_token = tt_token t, tr_from = tt_from t,
     tr_to = tt_to t, tr_amount = tt_amount t, tr_tx = tt_tx t, tr_block = sint (tt_block t),
     tr_time = tt_time t, tr_index = sint (tt_index t), tr_removed = tt_removed t\<rparr>"

definition save_token_transfer :: "env \<Rightarrow> token_transfer option \<Rightarrow> unit go" where
  "save_token_transfer env transfer =
     (case transfer of
        None \<Rightarrow> fail (new_error ''transfer is nil'')
      | Some t \<Rightarrow>
          wrapping (''failed to save token transfer tx '' @ hash_hex env (tt_tx t) @ '' log '' @
                    dec_u64 (tt_index t))
            (exec_sql env (stmt_transfer (transfer_row_of t))))"

definition save_token_transfers :: "env \<Rightarrow> token_transfer option list \<Rightarrow> unit go" where
  "save_token_transfers env ts = for_each (\<lambda>t _. save_token_transfer env t) ts ()"

definition batch_transaction :: "env \<Rightarrow> int \<Rightarrow> tx_metadata option \<Rightarrow> unit go" where
  "batch_transaction env chain meta =
     (case meta of
        None \<Rightarrow> ret ()
      | Some m \<Rightarrow>
          wrapping (''failed to save transaction '' @ hash_hex env (tm_hash m) @ '' in batch'')
            (with_now env (\<lambda>t. exec_sql env (stmt_transaction (tx_row_of chain m t)))))"

definition batch_raw_event :: "env \<Rightarrow> int \<Rightarrow> raw_event_input option \<Rightarrow> unit go" where
  "batch_raw_event env chain raw =
     (case raw of
        None \<Rightarrow> ret ()
      | Some re \<Rightarrow>
          wrapping (''failed to save raw chain event '' @ ri_name re @ '' in batch'')
            (exec_sql env (stmt_chain_event (raw_event_row chain re))))"

definition batch_transfer :: "env \<Rightarrow> token_transfer option \<Rightarrow> unit go" where
  "batch_transfer env transfer =
     (case transfer of
        None \<Rightarrow> ret ()
      | Some t \<Rightarrow>
          wrapping (''failed to save transfer tx '' @ hash_hex env (tt_tx t) @ '' log '' @
                    dec_u64 (tt_index t) @ '' in batch'')
            (exec_sql env (stmt_transfer (transfer_row_of t))))"

definition save_token_batch ::
  "env \<Rightarrow> int \<Rightarrow> string \<Rightarrow> tx_metadata option list \<Rightarrow> raw_event_input option list \<Rightarrow>
   token_transfer option list \<Rightarrow> u64 \<Rightarrow> string \<Rightarrow> unit go" where
  "save_token_batch env chain stream txs raws transfers b h =
     in_transaction env ''failed to begin transaction'' ''failed to commit batch transaction''
       (bind_go (for_each (\<lambda>m _. batch_transaction env chain m) txs ()) (\<lambda>_.
        bind_go (for_each (\<lambda>re _. batch_raw_event env chain re) raws ()) (\<lambda>_.
        bind_go (for_each (\<lambda>t _. batch_transfer env t) transfers ()) (\<lambda>_.
        checkpoint_in_batch env
          (''failed to update checkpoint for '' @ stream @ '' to block '' @ dec_u64 b @ '' in batch'')
          chain stream b h))))"

lemmas persistence_defs = save_transaction_def get_existing_tx_hashes_def save_chain_event_def
  get_checkpoint_def save_checkpoint_def save_escrow_event_def repo_save_escrow_event_def
  checkpoint_in_batch_def save_escrow_batch_def save_token_transfer_def save_token_transfers_def
  batch_transaction_def batch_raw_event_def batch_transfer_def save_token_batch_def

section \<open>What the methods keep\<close>

interpretation law: db_relation legal
  by unfold_locales (auto intro: legal_refl legal_trans)

interpretation frame: db_relation same_checkpoints
  by unfold_locales (auto simp: same_checkpoints_def)

interpretation untouched: db_relation "\<lambda>d d'. d' = d"
  by unfold_locales simp_all

lemma law_keeps:
  "law.keeps (save_transaction env chain meta)"
  "law.keeps (save_chain_event env chain contract ts event)"
  "law.keeps (save_checkpoint env chain stream b h)"
  "law.keeps (save_escrow_event env ev)"
  "law.keeps (repo_save_escrow_event env ev)"
  "law.keeps (save_token_transfer env t)"
  "law.keeps (get_checkpoint env chain stream)"
  "law.keeps (get_existing_tx_hashes env chain hs)"
  by (auto simp: persistence_defs split: option.split
      intro!: law.keeps_rules law.keeps_exec
      dest: stmt_transaction_legal stmt_chain_event_legal stmt_checkpoint_legal
        stmt_escrow_legal [OF es_table.sql_table_axioms]
        stmt_escrow_legal [OF es_single.sql_table_axioms] stmt_transfer_legal)

lemma law_keeps_parts:
  "law.keeps (checkpoint_in_batch env msg chain stream b h)"
  "law.keeps (batch_transaction env chain meta)"
  "law.keeps (batch_raw_event env chain raw)"
  "law.keeps (batch_transfer env t)"
  by (auto simp: persistence_defs split: option.split
      intro!: law.keeps_rules law.keeps_exec
      dest: stmt_transaction_legal stmt_chain_event_legal stmt_checkpoint_legal stmt_transfer_legal)

lemma law_keeps_batches:
  "law.keeps (save_escrow_batch env chain stream evs b h)"
  "law.keeps (save_token_batch env chain stream txs raws ts b h)"
  by (auto simp: save_escrow_batch_def save_token_batch_def split: option.split
      intro!: law.keeps_transaction law.keeps_rules law.keeps_exec law_keeps_parts
      dest: stmt_escrow_legal [OF es_table.sql_table_axioms])

lemma frame_keeps:
  "frame.keeps (save_transaction env chain meta)"
  "frame.keeps (save_chain_event env chain contract ts event)"
  "frame.keeps (save_escrow_event env ev)"
  "frame.keeps (repo_save_escrow_event env ev)"
  "frame.keeps (save_token_transfer env t)"
  "frame.keeps (get_checkpoint env chain stream)"
  "frame.keeps (get_existing_tx_hashes env chain hs)"
  by (auto simp: persistence_defs split: option.split
      intro!: frame.keeps_rules frame.keeps_exec
      dest: stmt_transaction_legal stmt_chain_event_legal
        stmt_escrow_legal [OF es_table.sql_table_axioms]
        stmt_escrow_legal [OF es_single.sql_table_axioms] stmt_transfer_legal)

lemma checkpoint_row_key [simp]: "cp_key (checkpoint_row_of chain stream b h) = (chain, stream)"
  by (simp add: cp_key_def checkpoint_row_of_def)

lemma checkpoint_row_block [simp]: "cp_block (checkpoint_row_of chain stream b h) = sint b"
  by (simp add: checkpoint_row_of_def)

text \<open>A checkpoint that was saved is read back: the detour through BIGINT loses nothing.\<close>

lemma save_checkpoint_Inr:
  "save_checkpoint env chain stream b h w = (Inr u, w') \<Longrightarrow>
     checkpoint_of (w_db w') chain stream = Some b"
  by (auto simp: save_checkpoint_def Inr_iffs stmt_checkpoint_find)

lemma save_checkpoint_Inl:
  "save_checkpoint env chain stream b h w = (Inl e, w') \<Longrightarrow> w_db w' = w_db w"
  by (auto simp: save_checkpoint_def wrapping_def exec_sql_def split: option.splits sum.splits prod.splits)

lemma get_checkpoint_Inr:
  "get_checkpoint env chain stream w = (Inr (b, found), w') \<Longrightarrow>
     w_db w' = w_db w \<and>
     (if found then checkpoint_of (w_db w) chain stream = Some b
      else checkpoint_of (w_db w) chain stream = None)"
  by (auto simp: get_checkpoint_def wrapping_Inr query_sql_Inr checkpoint_of_def split: option.splits)

lemma save_chain_event_Inr:
  "save_chain_event env chain contract ts (Some ev) w = (Inr u, w') \<Longrightarrow>
     has_row ev_key (ev_key (event_row_of chain contract ts ev)) (chain_events (w_db w'))"
  by (auto simp: save_chain_event_def Inr_iffs stmt_chain_event_def ev_table.has_upsert split: if_splits)

lemma grows_of: "law.keeps m \<Longrightarrow> m w = (r, w') \<Longrightarrow> db_grows (w_db w) (w_db w')"
  using law.keepsD unfolding legal_def by blast

end
