(* ===== verification/Backfill.thy ===== *)
theory Backfill
  imports Persistence
begin

text \<open>
  The loops that drive the three indexers: \<open>for from := fromBlock; from <= target; { ... }\<close> of the
  backfills and its variant of the live monitor that also stops after \<open>MaxBatchesPerPoll\<close>
  chunks or when the context ends. The body of a loop is one chunk. Block arithmetic wraps as
  on \<open>uint64\<close>; the backfill loop may run forever (a target of \<open>2^64 - 1\<close>), so it is a partial
  function and that it returns is a theorem. The locale \<open>indexed_stream\<close> states what one chunk
  promises (record the logs of the range before the checkpoint moves to its end) and derives
  checkpoint safety of both loops; every indexer interprets it.
\<close>

section \<open>The loops\<close>

definition chunk_end :: "u64 \<Rightarrow> u64 \<Rightarrow> u64 \<Rightarrow> u64" where
  "chunk_end batch target lo = (if lo + batch - 1 > target then target else lo + batch - 1)"

text \<open>A block range in an error text.\<close>

definition range_text :: "u64 \<Rightarrow> u64 \<Rightarrow> string" where
  "range_text lo hi = ''['' @ dec_u64 lo @ '', '' @ dec_u64 hi @ '']''"

partial_function (option) chunk_loop ::
  "(u64 \<Rightarrow> u64 \<Rightarrow> 's \<Rightarrow> 's go) \<Rightarrow> u64 \<Rightarrow> u64 \<Rightarrow> u64 \<Rightarrow> u64 \<Rightarrow> 's \<Rightarrow> world
     \<Rightarrow> ((u64 \<times> 's \<times> goerror option) \<times> world) option" where
  "chunk_loop body batch target lo prev s w =
     (if lo \<le> target then
        (case body lo (chunk_end batch target lo) s w of
           (Inl e, w') \<Rightarrow> Some ((prev, s, Some e), w')
         | (Inr s', w') \<Rightarrow>
             chunk_loop body batch target (chunk_end batch target lo + 1) (chunk_end batch target lo) s' w')
      else Some ((prev, s, None), w))"

function poll_loop ::
  "env \<Rightarrow> (u64 \<Rightarrow> u64 \<Rightarrow> 's \<Rightarrow> 's go) \<Rightarrow> u64 \<Rightarrow> u64 \<Rightarrow> u64 \<Rightarrow> u64 \<Rightarrow> u64 \<Rightarrow> 's \<Rightarrow> world
     \<Rightarrow> ('s \<times> goerror option) \<times> world" where
  "poll_loop env body batch limit target lo k s w =
     (if lo \<le> target \<and> k < limit then
        (case ctx_error env w of
           Some e \<Rightarrow> ((s, Some e), w)
         | None \<Rightarrow>
             (case body lo (chunk_end batch target lo) s w of
                (Inl e, w') \<Rightarrow> ((s, Some e), w')
              | (Inr s', w') \<Rightarrow>
                  poll_loop env body batch limit target (chunk_end batch target lo + 1) (k + 1) s' w'))
      else ((s, None), w))"
  by pat_completeness auto
termination
proof (relation "measure (\<lambda>(env, body, batch, limit, target, lo, k, s, w). unat limit - unat k)")
  fix env :: env and body :: "u64 \<Rightarrow> u64 \<Rightarrow> 's \<Rightarrow> 's go" and batch limit target lo k :: u64
    and s :: 's and w w' :: world and s' :: 's and x
  assume "lo \<le> target \<and> k < limit"
  then have "k < limit" by simp
  then have "unat (k + 1) = Suc (unat k)" "unat k < unat limit"
    by (simp_all add: u64_succ_unat u64_less_not_max word_less_nat_alt)
  then show "((env, body, batch, limit, target, chunk_end batch target lo + 1, k + 1, s', w'),
      (env, body, batch, limit, target, lo, k, s, w))
      \<in> measure (\<lambda>(env, body, batch, limit, target, lo, k, s, w). unat limit - unat k)"
    by simp
qed simp

declare poll_loop.simps [simp del]
declare chunk_loop.simps [code]

lemma chunk_end_le: "lo \<le> target \<Longrightarrow> chunk_end batch target lo \<le> target"
  by (auto simp: chunk_end_def not_less)

lemma less_succ_le: "(b :: u64) < h + 1 \<Longrightarrow> b \<le> h"
  by unat_arith

text \<open>Induction over a run that returns: past the target, a chunk that failed, one more chunk.\<close>

lemma chunk_loop_induct [consumes 1, case_names over failed more]:
  assumes "chunk_loop body batch target lo prev s w = Some y"
    and "\<And>lo prev s w. \<not> lo \<le> target \<Longrightarrow> Q lo prev s w ((prev, s, None), w)"
    and "\<And>lo prev s w e w'. lo \<le> target \<Longrightarrow> body lo (chunk_end batch target lo) s w = (Inl e, w') \<Longrightarrow>
           Q lo prev s w ((prev, s, Some e), w')"
    and "\<And>lo prev s w s' w' y. lo \<le> target \<Longrightarrow> body lo (chunk_end batch target lo) s w = (Inr s', w') \<Longrightarrow>
           Q (chunk_end batch target lo + 1) (chunk_end batch target lo) s' w' y \<Longrightarrow> Q lo prev s w y"
  shows "Q lo prev s w y"
proof -
  let ?P = "\<lambda>b n t lo prev s w y. b = body \<and> n = batch \<and> t = target \<longrightarrow> Q lo prev s w y"
  have "?P body batch target lo prev s w y"
  proof (rule chunk_loop.raw_induct [where P = ?P, OF _ assms(1)], intro impI, elim conjE)
    fix f b n t lo prev s w y
    assume IH: "\<And>b n t lo prev s w y. f b n t lo prev s w = Some y \<Longrightarrow> ?P b n t lo prev s w y"
      and run: "(if lo \<le> t then case b lo (chunk_end n t lo) s w of
           (Inl e, w') \<Rightarrow> Some ((prev, s, Some e), w')
         | (Inr s', w') \<Rightarrow> f b n t (chunk_end n t lo + 1) (chunk_end n t lo) s' w'
         else Some ((prev, s, None), w)) = Some y"
      and eqs: "b = body" "n = batch" "t = target"
    show "Q lo prev s w y"
    proof (cases "lo \<le> target")
      case False
      then show ?thesis using run assms(2) by (auto simp: eqs)
    next
      case True
      obtain r w' where body: "body lo (chunk_end batch target lo) s w = (r, w')"
        by (cases "body lo (chunk_end batch target lo) s w") auto
      show ?thesis
      proof (cases r)
        case (Inl e)
        then show ?thesis using run True body assms(3) by (auto simp: eqs)
      next
        case (Inr s')
        then have "f body batch target (chunk_end batch target lo + 1) (chunk_end batch target lo) s' w' = Some y"
          using run True body by (simp add: eqs)
        then show ?thesis using IH assms(4) [OF True] body Inr by blast
      qed
    qed
  qed
  then show ?thesis by simp
qed

lemma poll_loop_induct [consumes 1, case_names over cancelled failed more]:
  assumes run: "poll_loop env body batch limit target lo k s w = y"
    and "\<And>lo k s w. \<not> (lo \<le> target \<and> k < limit) \<Longrightarrow> Q lo k s w ((s, None), w)"
    and "\<And>lo k s w e. ctx_error env w = Some e \<Longrightarrow> Q lo k s w ((s, Some e), w)"
    and "\<And>lo k s w e w'. lo \<le> target \<Longrightarrow> body lo (chunk_end batch target lo) s w = (Inl e, w') \<Longrightarrow>
           Q lo k s w ((s, Some e), w')"
    and "\<And>lo k s w s' w' y. lo \<le> target \<Longrightarrow> k < limit \<Longrightarrow> body lo (chunk_end batch target lo) s w = (Inr s', w') \<Longrightarrow>
           Q (chunk_end batch target lo + 1) (k + 1) s' w' y \<Longrightarrow> Q lo k s w y"
  shows "Q lo k s w y"
  using run
proof (induction "unat limit - unat k" arbitrary: lo k s w y rule: less_induct)
  case less
  note unfold = poll_loop.simps [of env body batch limit target lo k s w]
  show ?case
  proof (cases "lo \<le> target \<and> k < limit")
    case False
    then show ?thesis using less(2) assms(2) by (auto simp: unfold)
  next
    case True
    obtain r w' where body: "body lo (chunk_end batch target lo) s w = (r, w')"
      by (cases "body lo (chunk_end batch target lo) s w") auto
    have "k < limit" using True by simp
    then have "unat limit - unat (k + 1) < unat limit - unat k"
      by (simp add: u64_succ_unat u64_less_not_max word_less_nat_alt diff_less_mono2)
    note IH = less(1) [OF this]
    show ?thesis
    proof (cases "ctx_error env w")
      case None
      then show ?thesis
        using less(2) True body assms(4) assms(5) [OF _ _ _ IH [OF refl]] by (cases r) (auto simp: unfold)
    qed (use less(2) True assms(3) in \<open>auto simp: unfold\<close>)
  qed
qed

text \<open>
  An honest node: whatever it answers to a log query contains every log of the contract's
  history in the range. It may fail, answer late or return more.
\<close>

definition honest :: "env \<Rightarrow> address \<Rightarrow> evm_log list \<Rightarrow> bool" where
  "honest env contract logs \<longleftrightarrow>
     (\<forall>n lo hi lgs. rpc_logs env n contract lo hi = Inr lgs \<longrightarrow>
        (\<forall>lg \<in> set logs. lo \<le> l_block lg \<and> l_block lg \<le> hi \<longrightarrow> lg \<in> set lgs))"

section \<open>What a chunk promises\<close>

locale indexed_stream =
  fixes chain :: int and stream :: string and start :: u64 and logs :: "evm_log list"
    and recorded :: "database \<Rightarrow> evm_log \<Rightarrow> bool"
    and durable :: bool and body :: "u64 \<Rightarrow> u64 \<Rightarrow> 's \<Rightarrow> 's go"
  assumes recorded_mono: "db_grows d d' \<Longrightarrow> recorded d lg \<Longrightarrow> recorded d' lg"
    and body_legal: "body lo hi s w = (r, w') \<Longrightarrow> legal (w_db w) (w_db w')"
    and body_Inl: "body lo hi s w = (Inl e, w') \<Longrightarrow>
      checkpoint_of (w_db w') chain stream = checkpoint_of (w_db w) chain stream"
    and body_Inr: "body lo hi s w = (Inr s', w') \<Longrightarrow> lo \<le> hi \<and>
      (\<forall>lg \<in> set logs. lo \<le> l_block lg \<and> l_block lg \<le> hi \<longrightarrow> recorded (w_db w') lg)"
    and body_checkpoint: "body lo hi s w = (Inr s', w') \<Longrightarrow>
      checkpoint_of (w_db w') chain stream = Some hi \<or>
      \<not> (durable \<and> 0 < hi) \<and> checkpoint_of (w_db w') chain stream = checkpoint_of (w_db w) chain stream"
begin

definition covered :: "u64 \<Rightarrow> database \<Rightarrow> bool" where
  "covered lo d \<longleftrightarrow>
     (\<forall>lg \<in> set logs. start \<le> l_block lg \<and> l_block lg < lo \<longrightarrow> recorded d lg)"

text \<open>Checkpoint safety: every log from the start block up to the checkpoint is recorded.\<close>

definition safe :: "database \<Rightarrow> bool" where
  "safe d \<longleftrightarrow> (\<forall>c. checkpoint_of d chain stream = Some c \<longrightarrow>
     (\<forall>lg \<in> set logs. start \<le> l_block lg \<and> l_block lg \<le> c \<longrightarrow> recorded d lg))"

lemma body_grows: "body lo hi s w = (r, w') \<Longrightarrow> db_grows (w_db w) (w_db w')"
  using body_legal by (simp add: legal_def)

lemma covered_mono: "db_grows d d' \<Longrightarrow> covered lo d \<Longrightarrow> covered lo d'"
  unfolding covered_def using recorded_mono by blast

lemma covered_start: "covered start d"
  by (auto simp: covered_def)

lemma covered_resume:
  "safe d \<Longrightarrow> checkpoint_of d chain stream = Some c \<Longrightarrow> covered (c + 1) d"
  unfolding safe_def covered_def using less_succ_le by blast

lemma safe_keep:
  "safe d \<Longrightarrow> db_grows d d' \<Longrightarrow> checkpoint_of d' chain stream = checkpoint_of d chain stream \<Longrightarrow> safe d'"
  unfolding safe_def using recorded_mono by metis

lemma body_covers:
  assumes "body lo hi s w = (Inr s', w')" "covered lo (w_db w)"
  shows "covered (hi + 1) (w_db w')"
  unfolding covered_def
proof (intro ballI impI)
  fix lg assume lg: "lg \<in> set logs" "start \<le> l_block lg \<and> l_block lg < hi + 1"
  then have le: "l_block lg \<le> hi" using less_succ_le by blast
  show "recorded (w_db w') lg"
  proof (cases "l_block lg < lo")
    case True
    then show ?thesis
      using assms(2) lg recorded_mono [OF body_grows [OF assms(1)]] by (simp add: covered_def)
  next
    case False
    then show ?thesis using body_Inr [OF assms(1)] lg(1) le by simp
  qed
qed

lemma body_safe:
  assumes "body lo hi s w = (r, w')" "covered lo (w_db w)" "safe (w_db w)"
  shows "safe (w_db w')"
proof (cases r)
  case (Inl e)
  with assms(1) have run: "body lo hi s w = (Inl e, w')" by simp
  show ?thesis by (rule safe_keep [OF assms(3) body_grows [OF run] body_Inl [OF run]])
next
  case (Inr s')
  with assms(1) have run: "body lo hi s w = (Inr s', w')" by simp
  from body_checkpoint [OF run] show ?thesis
  proof
    assume cp: "checkpoint_of (w_db w') chain stream = Some hi"
    have "recorded (w_db w') lg" if lg: "lg \<in> set logs" "start \<le> l_block lg" "l_block lg \<le> hi" for lg
    proof (cases "l_block lg < lo")
      case True
      then show ?thesis
        using assms(2) lg recorded_mono [OF body_grows [OF run]] by (simp add: covered_def)
    next
      case False
      then show ?thesis using body_Inr [OF run] lg by simp
    qed
    then show ?thesis using cp by (simp add: safe_def)
  next
    assume "\<not> (durable \<and> 0 < hi) \<and> checkpoint_of (w_db w') chain stream = checkpoint_of (w_db w) chain stream"
    then show ?thesis using safe_keep [OF assms(3) body_grows [OF run]] by blast
  qed
qed

definition good_result :: "u64 \<Rightarrow> u64 \<Rightarrow> u64 \<Rightarrow> world \<Rightarrow> (u64 \<times> 's \<times> goerror option) \<times> world \<Rightarrow> bool" where
  "good_result target lo prev w y \<longleftrightarrow>
     safe (w_db (snd y)) \<and> legal (w_db w) (w_db (snd y)) \<and>
     covered (fst (fst y) + 1) (w_db (snd y)) \<and>
     (\<not> lo \<le> target \<longrightarrow> snd y = w) \<and>
     (snd (snd (fst y)) = None \<longrightarrow>
       (\<forall>lg \<in> set logs. start \<le> l_block lg \<and> l_block lg \<le> target \<longrightarrow> recorded (w_db (snd y)) lg) \<and>
       fst (fst y) = (if lo \<le> target then target else prev) \<and>
       (durable \<and> lo \<le> target \<and> 0 < target \<longrightarrow> checkpoint_of (w_db (snd y)) chain stream = Some target))"

theorem chunk_loop_safe:
  assumes "chunk_loop body batch target lo prev s w = Some y"
    "safe (w_db w)" "covered lo (w_db w)" "prev + 1 = lo"
  shows "good_result target lo prev w y"
  using assms
proof (induction rule: chunk_loop_induct)
  case (over lo prev s w)
  then show ?case by (auto simp: good_result_def legal_refl covered_def)
next
  case (failed lo prev s w e w')
  have "covered (prev + 1) (w_db w')"
    using failed covered_mono [OF body_grows [OF failed(2)]] by simp
  then show ?case
    using failed body_safe [OF failed(2)] body_legal [OF failed(2)] by (simp add: good_result_def)
next
  case (more lo prev s w s' w' y)
  let ?hi = "chunk_end batch target lo"
  have safe': "safe (w_db w')" and cov: "covered (?hi + 1) (w_db w')"
    using body_safe [OF more(2)] body_covers [OF more(2)] more by auto
  then have IH: "good_result target (?hi + 1) ?hi w' y" using more.IH by simp
  have grows: "legal (w_db w) (w_db (snd y))"
    using body_legal [OF more(2)] IH legal_trans by (auto simp: good_result_def)
  have end_target: "?hi = target" if "\<not> ?hi + 1 \<le> target"
    using that chunk_end_le [OF more(1)] less_succ_le [of target ?hi] by (metis not_le order.antisym)
  have cp: "checkpoint_of (w_db w') chain stream = Some target"
    if "\<not> ?hi + 1 \<le> target" "durable" "0 < target"
    using body_checkpoint [OF more(2)] end_target [OF that(1)] that(2,3) by auto
  show ?case
    using IH more(1) grows end_target cp
    by (cases "?hi + 1 \<le> target") (auto simp: good_result_def)
qed

lemma chunk_loop_legal:
  assumes "chunk_loop body batch target lo prev s w = Some y"
  shows "legal (w_db w) (w_db (snd y))"
  using assms
proof (induction rule: chunk_loop_induct)
  case (failed lo prev s w e w')
  then show ?case using body_legal by simp
next
  case (more lo prev s w s' w' y)
  then show ?case using body_legal legal_trans by blast
qed (simp add: legal_refl)

lemma poll_loop_legal:
  assumes "poll_loop env body batch limit target lo k s w = y"
  shows "legal (w_db w) (w_db (snd y))"
  using assms
proof (induction rule: poll_loop_induct)
  case (failed lo k s w e w')
  then show ?case using body_legal by simp
next
  case (more lo k s w s' w' y)
  then show ?case using body_legal legal_trans by blast
qed (simp_all add: legal_refl)

theorem poll_loop_safe:
  assumes "poll_loop env body batch limit target lo k s w = y" "safe (w_db w)" "covered lo (w_db w)"
  shows "safe (w_db (snd y)) \<and> legal (w_db w) (w_db (snd y))"
  using assms
proof (induction rule: poll_loop_induct)
  case (failed lo k s w e w')
  then show ?case using body_safe body_legal by auto
next
  case (more lo k s w s' w' y)
  then show ?case
    using body_safe [OF more(3)] body_covers [OF more(3)] body_legal [OF more(3)] legal_trans by blast
qed (simp_all add: legal_refl)

text \<open>Termination: a target below \<open>2^64 - 1\<close> is reached or a chunk fails.\<close>

theorem chunk_loop_returns:
  assumes "target \<noteq> - 1"
  shows "\<exists>y. chunk_loop body batch target lo prev s w = Some y"
proof (induction "Suc (unat target) - unat lo" arbitrary: lo prev s w rule: less_induct)
  case less
  let ?hi = "chunk_end batch target lo"
  show ?case
  proof (cases "lo \<le> target")
    case False
    then show ?thesis by (simp add: chunk_loop.simps)
  next
    case True
    obtain r w' where run: "body lo ?hi s w = (r, w')" by fastforce
    show ?thesis
    proof (cases r)
      case (Inl e)
      with run True show ?thesis by (simp add: chunk_loop.simps)
    next
      case (Inr s')
      then have "lo \<le> ?hi" using body_Inr run by blast
      moreover have "?hi \<le> target" by (rule chunk_end_le [OF True])
      moreover from this have "?hi \<noteq> - 1" using assms word_order.extremum_unique by metis
      then have "unat (?hi + 1) = Suc (unat ?hi)" by (rule u64_succ_unat)
      ultimately have "Suc (unat target) - unat (?hi + 1) < Suc (unat target) - unat lo"
        by (simp add: word_le_nat_alt)
      from less [OF this] obtain y where "chunk_loop body batch target (?hi + 1) ?hi s' w' = Some y"
        by blast
      with run True Inr show ?thesis by (simp add: chunk_loop.simps)
    qed
  qed
qed

end

end
