(* ===== verification/Escrow_Indexer.thy ===== *)
theory Escrow_Indexer
  imports Backfill
begin

text \<open>
  \<open>internal/indexer/escrow_indexer.go\<close> and \<open>internal/abi/escrow_abi.go\<close>: the WTFEscrow indexer. A log
  is decoded by hand from its topics and data; a log that does not decode is skipped; the events
  of a range and the checkpoint are committed in one transaction; notifications are published
  after the commit. The lookup of the ABI event by its id (go-ethereum) is the parameter
  \<open>ei_event_by_id\<close>.
\<close>

section \<open>Topics\<close>

definition topic_escrow_created :: hash where
  "topic_escrow_created = 0x9405ad0a6208539879349284d71265479b1623846f70303da1f9890d6e8c10a7"
definition topic_escrow_released :: hash where
  "topic_escrow_released = 0x10ce17ae7e78eb775b13182ea618b201c2c81afc8fee55c287291f8686f17eac"
definition topic_escrow_refunded :: hash where
  "topic_escrow_refunded = 0x8e09fed7623ad9f8d5a701dd9f3233197147d0043c564dfb1a6c0023ab568c20"
definition topic_dispute_resolved :: hash where
  "topic_dispute_resolved = 0xdf0baf5489595ea17a097d16827d60793e2f57f3b85a982e5d7e02838b841ee6"
definition topic_delivery_acknowledged :: hash where
  "topic_delivery_acknowledged = 0x56f374d542ae03669d32ab9defbebfc87cfe94f6cf83f46cdb60822b744af892"
definition topic_dispute_raised :: hash where
  "topic_dispute_raised = 0xe0e58e9cc5ed7ef092d3e14cff6136d23ebf75a16cf3c8257ef8804811d8b0f3"

lemmas topic_defs = topic_escrow_created_def topic_escrow_released_def topic_escrow_refunded_def
  topic_dispute_resolved_def topic_delivery_acknowledged_def topic_dispute_raised_def

definition is_known_escrow_topic :: "hash \<Rightarrow> bool" where
  "is_known_escrow_topic t \<longleftrightarrow> t \<in> set [topic_escrow_created, topic_escrow_released,
     topic_escrow_refunded, topic_dispute_resolved, topic_delivery_acknowledged, topic_dispute_raised]"

section \<open>The indexer\<close>

record escrow_indexer =
  ei_event_by_id :: "hash \<Rightarrow> goerror + string"
  ei_redis :: bool
  ei_contract :: address
  ei_chain :: int
  ei_stream :: string
  ei_start :: u64
  ei_batch :: u64
  ei_policy :: retry_policy

text \<open>
  \<open>NewEscrowIndexer\<close> checks that client and persistence layer are there and fills in the defaults; the
  embedded ABI is a constant that parses.
\<close>

definition escrow_defaults :: "escrow_indexer \<Rightarrow> escrow_indexer" where
  "escrow_defaults ei = ei\<lparr>ei_stream := (if ei_stream ei = [] then ''wtf_escrow'' else ei_stream ei),
     ei_batch := (if ei_batch ei = 0 then 50 else ei_batch ei),
     ei_policy := new_retryer (default_retry_policy False)\<rparr>"

definition new_escrow_indexer :: "bool \<Rightarrow> bool \<Rightarrow> escrow_indexer \<Rightarrow> goerror + escrow_indexer" where
  "new_escrow_indexer client db ei =
     (if \<not> client then Inl (new_error ''escrow indexer: blockchain client is nil'')
      else if \<not> db then Inl (new_error ''escrow indexer: persistence layer is nil'')
      else Inr (escrow_defaults ei))"

definition set_escrow_policy :: "retry_policy \<Rightarrow> escrow_indexer \<Rightarrow> escrow_indexer" where
  "set_escrow_policy p ei = ei\<lparr>ei_policy := new_retryer p\<rparr>"

definition escrow_start_block :: "env \<Rightarrow> escrow_indexer \<Rightarrow> u64 go" where
  "escrow_start_block env ei =
     bind_go (wrapping ''escrow checkpoint'' (get_checkpoint env (ei_chain ei) (ei_stream ei)))
       (\<lambda>(block, found).
          ret (if found then (if block + 1 < ei_start ei then ei_start ei else block + 1)
               else ei_start ei))"

section \<open>Decoding\<close>

text \<open>The first word of the data as decimal text, and the fields of each event.\<close>

definition first_word :: "bytes \<Rightarrow> string option" where
  "first_word data = (if 32 \<le> length data then Some (dec_int (set_bytes (take 32 data))) else None)"

definition topic_field ::
  "env \<Rightarrow> string \<Rightarrow> nat \<Rightarrow> hash list \<Rightarrow> (string \<times> string) list" where
  "topic_field env name i topics =
     (if i < length topics then [(name, addr_hex env (topic_address (topics ! i)))] else [])"

definition word_fields :: "string list \<Rightarrow> bytes \<Rightarrow> (string \<times> string) list" where
  "word_fields names data =
     (case first_word data of None \<Rightarrow> [] | Some s \<Rightarrow> map (\<lambda>n. (n, s)) names)"

definition escrow_fields ::
  "env \<Rightarrow> hash list \<Rightarrow> bytes \<Rightarrow> string option \<times> (string \<times> string) list" where
  "escrow_fields env topics data =
     (let t = hd topics in
      if t = topic_escrow_created then
        (first_word data,
         topic_field env ''buyer'' 2 topics @ topic_field env ''seller'' 3 topics @
         word_fields [''amount''] data)
      else if t = topic_escrow_released then (first_word data, word_fields [''amount''] data)
      else if t = topic_escrow_refunded then (first_word data, word_fields [''amount''] data)
      else if t = topic_dispute_resolved then
        (first_word data,
         topic_field env ''winner'' 2 topics @ word_fields [''amountReleased'', ''amount''] data)
      else if t = topic_delivery_acknowledged then (None, word_fields [''deliveryTime''] data)
      else if t = topic_dispute_raised then
        (None, topic_field env ''raisedBy'' 2 topics @ word_fields [''disputeFee''] data)
      else (None, []))"

definition escrow_id_of :: "hash list \<Rightarrow> string option" where
  "escrow_id_of topics = (if 1 < length topics then Some (dec_int (uint (topics ! 1))) else None)"

text \<open>The closure \<open>getTimestamp\<close> over \<open>tsCache\<close>.\<close>

definition escrow_timestamp :: "env \<Rightarrow> (u64 \<rightharpoonup> int) \<Rightarrow> u64 \<Rightarrow> (int \<times> (u64 \<rightharpoonup> int)) go" where
  "escrow_timestamp env cache b =
     (case cache b of
        Some t \<Rightarrow> ret (t, cache)
      | None \<Rightarrow> bind_go (wrapping (''block timestamp for '' @ dec_u64 b) (block_timestamp env b))
                 (\<lambda>ts. ret (sint ts, cache(b \<mapsto> sint ts))))"

text \<open>\<open>decodeLog\<close> (and \<open>ProcessLog\<close>, which only calls it).\<close>

definition decode_escrow_log ::
  "env \<Rightarrow> escrow_indexer \<Rightarrow> evm_log \<Rightarrow> (u64 \<rightharpoonup> int) \<Rightarrow> (escrow_event \<times> (u64 \<rightharpoonup> int)) go" where
  "decode_escrow_log env ei lg cache =
     (if l_topics lg = [] then fail (new_error ''log has no topics'')
      else
        (case ei_event_by_id ei (hd (l_topics lg)) of
           Inl e \<Rightarrow> fail (wrap_error (''unknown event topic '' @ hash_hex env (hd (l_topics lg))) e)
         | Inr name \<Rightarrow>
             bind_go (escrow_timestamp env cache (l_block lg)) (\<lambda>(t, cache').
             ret (escrow_event_from_log (ei_chain ei) (ei_contract ei) name (l_tx lg) (l_block lg) t
                    (l_index lg) (l_removed lg) (escrow_id_of (l_topics lg))
                    (fst (escrow_fields env (l_topics lg) (l_data lg)))
                    ((case escrow_id_of (l_topics lg) of None \<Rightarrow> [] | Some s \<Rightarrow> [(''escrowId'', s)]) @
                     snd (escrow_fields env (l_topics lg) (l_data lg))),
                  cache'))))"

section \<open>IndexRange\<close>

text \<open>An undecodable log is logged and skipped.\<close>

definition escrow_step ::
  "env \<Rightarrow> escrow_indexer \<Rightarrow> evm_log \<Rightarrow> escrow_event list \<times> (u64 \<rightharpoonup> int)
     \<Rightarrow> (escrow_event list \<times> (u64 \<rightharpoonup> int)) go" where
  "escrow_step env ei lg st =
     bind_go (attempt (decode_escrow_log env ei lg (snd st))) (\<lambda>r.
       case r of
         Inl _ \<Rightarrow> ret st
       | Inr (ev, cache) \<Rightarrow> ret (fst st @ [ev], cache))"

text \<open>\<open>redis.Publish\<close>; its error is logged.\<close>

definition publish :: "env \<Rightarrow> string \<Rightarrow> (string \<times> string) list \<Rightarrow> unit go" where
  "publish env channel payload = (\<lambda>w.
     case redis_fault env (w_tick w) of
       Some _ \<Rightarrow> (Inr (), next_tick w)
     | None \<Rightarrow> (Inr (), next_tick (emit (Publish channel payload) w)))"

definition text_or_empty :: "string option \<Rightarrow> string" where
  "text_or_empty s = (case s of None \<Rightarrow> [] | Some t \<Rightarrow> t)"

definition escrow_payload :: "env \<Rightarrow> escrow_event \<Rightarrow> (string \<times> string) list" where
  "escrow_payload env ev =
     [(''escrowId'', text_or_empty (e_id ev)), (''txHash'', hash_hex env (e_tx ev)),
      (''eventType'', e_type ev), (''amount'', text_or_empty (e_amount ev))]"

definition publish_escrow :: "env \<Rightarrow> escrow_event \<Rightarrow> unit go" where
  "publish_escrow env ev =
     bind_go (publish env ''wtf:chain:events'' (escrow_payload env ev))
       (\<lambda>_. publish env ''wtf:chain:settled'' (escrow_payload env ev))"

definition escrow_range_text :: "string \<Rightarrow> u64 \<Rightarrow> u64 \<Rightarrow> string" where
  "escrow_range_text s lo hi = s @ '' ['' @ dec_u64 lo @ '', '' @ dec_u64 hi @ '']''"

definition escrow_collect ::
  "env \<Rightarrow> escrow_indexer \<Rightarrow> u64 \<Rightarrow> u64 \<Rightarrow> (escrow_event list \<times> block_header) go" where
  "escrow_collect env ei lo hi =
     bind_go (wrapping (escrow_range_text ''escrow fetch logs'' lo hi)
               (get_logs env (ei_contract ei) lo hi)) (\<lambda>logs.
     bind_go (for_each (escrow_step env ei) logs ([], Map.empty)) (\<lambda>st.
     bind_go (wrapping (''escrow fetch block header '' @ dec_u64 hi) (block_header env hi)) (\<lambda>h.
     ret (fst st, h))))"

definition escrow_index_range ::
  "env \<Rightarrow> escrow_indexer \<Rightarrow> u64 \<Rightarrow> u64 \<Rightarrow> escrow_event list go" where
  "escrow_index_range env ei lo hi =
     (if lo > hi then
        fail (new_error (''escrow index range: from '' @ dec_u64 lo @ '' > to '' @ dec_u64 hi))
      else
        bind_go (escrow_collect env ei lo hi) (\<lambda>(evs, h).
        bind_go (wrapping (escrow_range_text ''escrow save batch'' lo hi)
                  (save_escrow_batch env (ei_chain ei) (ei_stream ei) (map Some evs) hi
                     (hash_hex env (h_hash h)))) (\<lambda>_.
        bind_go (if ei_redis ei then for_each (\<lambda>ev _. publish_escrow env ev) evs () else ret ()) (\<lambda>_.
        ret evs))))"

definition escrow_index_range_with_retry ::
  "env \<Rightarrow> escrow_indexer \<Rightarrow> u64 \<Rightarrow> u64 \<Rightarrow> escrow_event list go" where
  "escrow_index_range_with_retry env ei lo hi =
     retry_range env (ei_policy ei) (ei_stream ei) lo hi (escrow_index_range env ei lo hi)"

section \<open>RunBackfill\<close>

definition escrow_chunk :: "env \<Rightarrow> string \<Rightarrow> escrow_indexer \<Rightarrow> u64 \<Rightarrow> u64 \<Rightarrow> int \<Rightarrow> int go" where
  "escrow_chunk env what ei lo hi acc =
     bind_go (wrapping (escrow_range_text what lo hi) (escrow_index_range_with_retry env ei lo hi))
       (\<lambda>evs. ret (acc + int (length evs)))"

definition escrow_run_backfill ::
  "env \<Rightarrow> escrow_indexer \<Rightarrow> u64 \<Rightarrow> world \<Rightarrow> ((u64 \<times> int \<times> goerror option) \<times> world) option" where
  "escrow_run_backfill env ei target w =
     (case escrow_start_block env ei w of
        (Inl e, w1) \<Rightarrow> Some ((0, 0, Some e), w1)
      | (Inr lo, w1) \<Rightarrow>
          if lo > target then Some ((target, 0, None), w1)
          else chunk_loop (escrow_chunk env ''escrow backfill'' ei) (ei_batch ei) target lo (lo - 1) 0 w1)"

section \<open>What the methods keep\<close>

text \<open>Methods that publish nothing and do not sleep.\<close>

lemma untouched_keeps_decode: "untouched.keeps (decode_escrow_log env ei lg cache)"
  unfolding decode_escrow_log_def escrow_timestamp_def
  by (auto intro!: untouched.keeps_rules split: option.split prod.split sum.split)

lemma untouched_keeps_step: "untouched.keeps (escrow_step env ei lg st)"
  unfolding escrow_step_def
  by (auto intro!: untouched.keeps_rules untouched_keeps_decode split: prod.split sum.split)

lemma untouched_keeps_collect: "untouched.keeps (escrow_collect env ei lo hi)"
  unfolding escrow_collect_def by (auto intro!: untouched.keeps_rules untouched_keeps_step)

lemma untouched_keeps_publish: "untouched.keeps (publish env ch payload)"
  by (auto simp: untouched.keeps_def publish_def split: option.split)

lemma untouched_keeps_notify:
  "untouched.keeps (if b then for_each (\<lambda>ev _. publish_escrow env ev) evs () else ret ())"
  by (auto simp: publish_escrow_def intro!: untouched.keeps_rules untouched_keeps_publish)

lemma untouched_law: "untouched.keeps m \<Longrightarrow> law.keeps m"
  unfolding untouched.keeps_def law.keeps_def by (metis legal_refl)

lemma law_keeps_escrow_range: "law.keeps (escrow_index_range env ei lo hi)"
  unfolding escrow_index_range_def
  by (auto intro!: law.keeps_rules law_keeps_batches untouched_law [OF untouched_keeps_collect]
      untouched_law [OF untouched_keeps_notify] split: prod.split)

lemma law_keeps_escrow_chunk: "law.keeps (escrow_chunk env what ei lo hi acc)"
  unfolding escrow_chunk_def escrow_index_range_with_retry_def
  by (auto intro!: law.keeps_retry_rules law_keeps_escrow_range)

section \<open>The batch\<close>

lemma notify_Inr: "fst ((if b then for_each (\<lambda>ev _. publish_escrow env ev) evs () else ret ()) w) = Inr ()"
proof -
  have "fst (for_each (\<lambda>ev _. publish_escrow env ev) evs () w) = Inr ()" for evs w
    by (induction evs arbitrary: w)
       (auto simp: publish_escrow_def publish_def go_unfold split: option.split prod.splits sum.splits)
  then show ?thesis by (simp add: ret_def)
qed

definition escrow_present :: "database \<Rightarrow> escrow_event \<Rightarrow> bool" where
  "escrow_present d ev \<longleftrightarrow> has_row es_key (es_key (escrow_row_of ev)) (escrow_events d)"

lemma escrow_present_mono: "db_grows d d' \<Longrightarrow> escrow_present d ev \<Longrightarrow> escrow_present d' ev"
  unfolding escrow_present_def db_grows_def by blast

definition escrow_insert :: "env \<Rightarrow> escrow_event option \<Rightarrow> unit go" where
  "escrow_insert env ev = (case ev of
      None \<Rightarrow> ret ()
    | Some ev \<Rightarrow> wrapping (''escrow batch: insert event '' @ e_type ev @ '' tx '' @
          hash_hex env (e_tx ev) @ '' log '' @ dec_u64 (e_index ev))
        (exec_sql env (stmt_escrow es_merge (escrow_row_of ev))))"

lemma law_keeps_insert: "law.keeps (escrow_insert env ev)"
  unfolding escrow_insert_def
  by (auto intro!: law.keeps_rules law.keeps_exec dest: stmt_escrow_legal [OF es_table.sql_table_axioms]
      split: option.split)

lemma save_escrow_batch_eq:
  "save_escrow_batch env chain stream events b h =
     in_transaction env ''escrow batch: begin transaction'' ''escrow batch: commit''
       (bind_go (for_each (\<lambda>ev _. escrow_insert env ev) events ())
         (\<lambda>_. checkpoint_in_batch env
                (''escrow batch: checkpoint update to block '' @ dec_u64 b) chain stream b h))"
  by (simp add: save_escrow_batch_def escrow_insert_def)

lemma escrow_inserts_Inr:
  "for_each (\<lambda>ev _. escrow_insert env ev) events () w = (Inr u, w') \<Longrightarrow> Some ev \<in> set events \<Longrightarrow>
     escrow_present (w_db w') ev"
proof (induction events arbitrary: w)
  case (Cons x events)
  then obtain w1 where one: "escrow_insert env x w = (Inr (), w1)"
    and run: "for_each (\<lambda>ev _. escrow_insert env ev) events () w1 = (Inr u, w')"
    by (auto simp: bind_Inr)
  have "law.keeps (for_each (\<lambda>ev _. escrow_insert env ev) events ())"
    by (intro law.keeps_for_each law_keeps_insert)
  then have grows: "db_grows (w_db w1) (w_db w')" using run by (rule grows_of)
  show ?case
  proof (cases "x = Some ev")
    case True
    then have "escrow_present (w_db w1) ev"
      using one by (auto simp: escrow_insert_def Inr_iffs stmt_escrow_def escrow_present_def
          es_table.has_upsert split: if_splits)
    then show ?thesis by (rule escrow_present_mono [OF grows])
  next
    case False
    then show ?thesis using Cons.IH [OF run] Cons.prems(2) by auto
  qed
qed simp

lemma checkpoint_in_batch_Inr:
  "checkpoint_in_batch env msg chain stream b h w = (Inr u, w') \<Longrightarrow>
     checkpoint_of (w_db w') chain stream =
       (if stream \<noteq> [] \<and> 0 < b then Some b else checkpoint_of (w_db w) chain stream)"
  by (auto simp: checkpoint_in_batch_def Inr_iffs stmt_checkpoint_find split: if_splits)

lemma frame_keeps_insert: "frame.keeps (escrow_insert env ev)"
  unfolding escrow_insert_def
  by (auto intro!: frame.keeps_rules frame.keeps_exec dest: stmt_escrow_legal [OF es_table.sql_table_axioms]
      split: option.split)

lemma save_escrow_batch_Inr:
  assumes "save_escrow_batch env chain stream events b h w = (Inr u, w')"
  shows "(\<forall>ev. Some ev \<in> set events \<longrightarrow> escrow_present (w_db w') ev) \<and>
    checkpoint_of (w_db w') chain stream =
      (if stream \<noteq> [] \<and> 0 < b then Some b else checkpoint_of (w_db w) chain stream)"
proof -
  let ?cp = "checkpoint_in_batch env (''escrow batch: checkpoint update to block '' @ dec_u64 b) chain stream b h"
  obtain w1 w2 where ins: "for_each (\<lambda>ev _. escrow_insert env ev) events () (next_tick w) = (Inr (), w1)"
    and cp: "?cp w1 = (Inr (), w2)" and db: "w_db w' = w_db w2"
    using in_transaction_Inr [OF assms [unfolded save_escrow_batch_eq]] by (auto simp: bind_Inr)
  have "frame.keeps (for_each (\<lambda>ev _. escrow_insert env ev) events ())"
    by (intro frame.keeps_for_each frame_keeps_insert)
  note same = frame.keepsD [OF this ins]
  have "db_grows (w_db w1) (w_db w2)" by (rule grows_of [OF law_keeps_parts(1) cp])
  then have "\<forall>ev. Some ev \<in> set events \<longrightarrow> escrow_present (w_db w') ev"
    using escrow_inserts_Inr [OF ins] escrow_present_mono unfolding db by blast
  moreover have "same_checkpoints (w_db w) (w_db w1)" using same by simp
  ultimately show ?thesis
    using checkpoint_in_batch_Inr [OF cp] checkpoint_of_same unfolding db by simp
qed

text \<open>A range is atomic: it fails without a trace in the database, or commits all of it.\<close>

lemma escrow_range_cases:
  assumes "escrow_index_range env ei lo hi w = (r, w')"
  obtains (failed) e where "r = Inl e" "w_db w' = w_db w"
  | (stored) evs h w1 w2 where "r = Inr evs" "lo \<le> hi" "escrow_collect env ei lo hi w = (Inr (evs, h), w1)"
      "save_escrow_batch env (ei_chain ei) (ei_stream ei) (map Some evs) hi (hash_hex env (h_hash h)) w1
         = (Inr (), w2)"
      "(if ei_redis ei then for_each (\<lambda>ev _. publish_escrow env ev) evs () else ret ()) w2 = (Inr (), w')"
proof (cases "lo > hi")
  case True
  then show ?thesis using assms failed by (auto simp: escrow_index_range_def fail_def)
next
  case False
  obtain c w1 where col: "escrow_collect env ei lo hi w = (c, w1)" by fastforce
  have db1: "w_db w1 = w_db w" using untouched.keepsD [OF untouched_keeps_collect col] .
  show ?thesis
  proof (cases c)
    case (Inl e)
    then show ?thesis using assms False col db1 failed by (auto simp: escrow_index_range_def bind_go_def)
  next
    case (Inr p)
    obtain evs h where p: "p = (evs, h)" by fastforce
    obtain s w2 where save: "save_escrow_batch env (ei_chain ei) (ei_stream ei) (map Some evs) hi
        (hash_hex env (h_hash h)) w1 = (s, w2)" by fastforce
    show ?thesis
    proof (cases s)
      case (Inl e)
      then have "w_db w2 = w_db w1" using save in_transaction_Inl by (auto simp: save_escrow_batch_def)
      then show ?thesis
        using assms False col Inr p save Inl db1 failed
        by (auto simp: escrow_index_range_def bind_go_def wrapping_def)
    next
      case s: (Inr u)
      obtain n w3 where "(if ei_redis ei then for_each (\<lambda>ev _. publish_escrow env ev) evs () else ret ()) w2 = (n, w3)"
        by fastforce
      moreover from this have "n = Inr ()"
        using notify_Inr [of "ei_redis ei" env evs w2] by simp
      ultimately show ?thesis
        using assms False col Inr p save s stored [of evs h w1 w2]
        by (auto simp: escrow_index_range_def bind_go_def wrapping_def ret_def)
    qed
  qed
qed

section \<open>Which logs a range records\<close>

definition escrow_known :: "escrow_indexer \<Rightarrow> evm_log \<Rightarrow> bool" where
  "escrow_known ei lg \<longleftrightarrow> l_topics lg \<noteq> [] \<and> (\<exists>name. ei_event_by_id ei (hd (l_topics lg)) = Inr name)"

definition escrow_recorded :: "int \<Rightarrow> address \<Rightarrow> database \<Rightarrow> evm_log \<Rightarrow> bool" where
  "escrow_recorded chain contract d lg \<longleftrightarrow>
     has_row es_key (chain, contract, l_tx lg, sint (l_index lg)) (escrow_events d)"

definition timestamps_answered :: "env \<Rightarrow> bool" where
  "timestamps_answered env \<longleftrightarrow> (\<forall>n b. \<exists>ts. rpc_timestamp env n b = Inr ts)"

lemma escrow_recorded_mono:
  "db_grows d d' \<Longrightarrow> escrow_recorded chain contract d lg \<Longrightarrow> escrow_recorded chain contract d' lg"
  unfolding escrow_recorded_def db_grows_def by blast

definition event_of_log :: "escrow_indexer \<Rightarrow> evm_log \<Rightarrow> escrow_event \<Rightarrow> bool" where
  "event_of_log ei lg ev \<longleftrightarrow> e_chain ev = ei_chain ei \<and> e_contract ev = ei_contract ei \<and>
     e_tx ev = l_tx lg \<and> e_block ev = l_block lg \<and> e_index ev = l_index lg \<and>
     e_removed ev = l_removed lg \<and> Inr (e_type ev) = ei_event_by_id ei (hd (l_topics lg)) \<and>
     e_id ev = escrow_id_of (l_topics lg)"

lemma decode_escrow_Inr:
  "decode_escrow_log env ei lg cache w = (Inr (ev, cache'), w') \<Longrightarrow> escrow_known ei lg \<and> event_of_log ei lg ev \<and>
     e_amount ev = fst (escrow_fields env (l_topics lg) (l_data lg))"
  by (auto simp: decode_escrow_log_def fail_eq bind_Inr ret_eq event_of_log_def escrow_event_from_log_def
      escrow_known_def split: if_splits sum.splits)

lemma decode_escrow_known:
  assumes "timestamps_answered env" "escrow_known ei lg"
  shows "\<exists>p. fst (decode_escrow_log env ei lg cache w) = Inr p"
proof -
  obtain name where name: "l_topics lg \<noteq> []" "ei_event_by_id ei (hd (l_topics lg)) = Inr name"
    using assms(2) by (auto simp: escrow_known_def)
  obtain ts where "rpc_timestamp env (w_tick w) (l_block lg) = Inr ts"
    using assms(1) by (auto simp: timestamps_answered_def)
  with name show ?thesis
    by (cases "cache (l_block lg)")
       (simp_all add: decode_escrow_log_def escrow_timestamp_def go_unfold block_timestamp_def rpc_def)
qed

lemma escrow_step_result:
  "escrow_step env ei lg st w =
     (case decode_escrow_log env ei lg (snd st) w of
        (Inl _, w') \<Rightarrow> (Inr st, w')
      | (Inr (ev, cache), w') \<Rightarrow> (Inr (fst st @ [ev], cache), w'))"
  by (simp add: escrow_step_def go_unfold split: prod.split sum.split)

lemma escrow_steps_Inr:
  "for_each (escrow_step env ei) lgs st w = (Inr st', w') \<Longrightarrow>
     \<exists>evs. fst st' = fst st @ evs \<and>
       (\<forall>ev \<in> set evs. \<exists>lg \<in> set lgs. escrow_known ei lg \<and> event_of_log ei lg ev) \<and>
       (timestamps_answered env \<longrightarrow>
          list_all2 (event_of_log ei) (filter (escrow_known ei) lgs) evs)"
proof (induction lgs arbitrary: st w)
  case Nil
  then show ?case by (simp add: ret_eq)
next
  case (Cons lg lgs)
  obtain r w1 where dec: "decode_escrow_log env ei lg (snd st) w = (r, w1)" by fastforce
  show ?case
  proof (cases r)
    case (Inl e)
    then have "for_each (escrow_step env ei) lgs st w1 = (Inr st', w')"
      using Cons.prems dec by (simp add: bind_go_def escrow_step_result [of env ei lg st w])
    from Cons.IH [OF this] show ?thesis
      using decode_escrow_known [of env ei lg "snd st" w] dec Inl by auto
  next
    case (Inr p)
    obtain ev cache where p: "p = (ev, cache)" by fastforce
    note ev = decode_escrow_Inr [OF dec [unfolded Inr p]]
    have "for_each (escrow_step env ei) lgs (fst st @ [ev], cache) w1 = (Inr st', w')"
      using Cons.prems dec Inr p by (simp add: bind_go_def escrow_step_result [of env ei lg st w])
    from Cons.IH [OF this] obtain evs where "fst st' = fst st @ ev # evs"
      "\<forall>ev \<in> set evs. \<exists>lg \<in> set lgs. escrow_known ei lg \<and> event_of_log ei lg ev"
      "timestamps_answered env \<longrightarrow> list_all2 (event_of_log ei) (filter (escrow_known ei) lgs) evs"
      by auto
    then show ?thesis using ev by (intro exI [of _ "ev # evs"]) auto
  qed
qed

lemma escrow_collect_Inr:
  assumes "escrow_collect env ei lo hi w = (Inr (evs, h), w')"
  shows "\<exists>lgs. rpc_logs env (w_tick w) (ei_contract ei) lo hi = Inr lgs \<and>
     (\<forall>ev \<in> set evs. \<exists>lg \<in> set lgs. escrow_known ei lg \<and> event_of_log ei lg ev) \<and>
     (timestamps_answered env \<longrightarrow> list_all2 (event_of_log ei) (filter (escrow_known ei) lgs) evs)"
proof -
  from assms obtain lgs st w1 where "Inr lgs = rpc_logs env (w_tick w) (ei_contract ei) lo hi"
    and run: "for_each (escrow_step env ei) lgs ([], Map.empty) (next_tick w) = (Inr st, w1)"
    and "evs = fst st"
    by (auto simp: escrow_collect_def bind_Inr wrapping_Inr ret_eq get_logs_def rpc_eq)
  with escrow_steps_Inr [OF run] show ?thesis by (intro exI [of _ lgs]) auto
qed

lemma list_all2_left: "list_all2 P xs ys \<Longrightarrow> x \<in> set xs \<Longrightarrow> \<exists>y \<in> set ys. P x y"
  by (induction rule: list_all2_induct) auto

lemma escrow_range_Inr:
  assumes "escrow_index_range env ei lo hi w = (Inr evs, w')"
  shows "lo \<le> hi \<and>
    (\<exists>lgs. rpc_logs env (w_tick w) (ei_contract ei) lo hi = Inr lgs \<and>
       (timestamps_answered env \<longrightarrow> (\<forall>lg \<in> set lgs. escrow_known ei lg \<longrightarrow>
          escrow_recorded (ei_chain ei) (ei_contract ei) (w_db w') lg))) \<and>
    checkpoint_of (w_db w') (ei_chain ei) (ei_stream ei) =
      (if ei_stream ei \<noteq> [] \<and> 0 < hi then Some hi
       else checkpoint_of (w_db w) (ei_chain ei) (ei_stream ei))"
  using assms
proof (cases rule: escrow_range_cases)
  case (stored evs' h w1 w2)
  then have evs: "evs' = evs" by simp
  note saved = save_escrow_batch_Inr [OF stored(4)]
  have db: "w_db w' = w_db w2" "w_db w1 = w_db w"
    using untouched.keepsD [OF untouched_keeps_notify stored(5)]
      untouched.keepsD [OF untouched_keeps_collect stored(3)] by simp_all
  obtain lgs where lgs: "rpc_logs env (w_tick w) (ei_contract ei) lo hi = Inr lgs"
    "timestamps_answered env \<longrightarrow> list_all2 (event_of_log ei) (filter (escrow_known ei) lgs) evs"
    using escrow_collect_Inr [OF stored(3)] unfolding evs by blast
  have "escrow_recorded (ei_chain ei) (ei_contract ei) (w_db w2) lg"
    if "timestamps_answered env" "lg \<in> set lgs" "escrow_known ei lg" for lg
  proof -
    have "\<exists>ev \<in> set evs. event_of_log ei lg ev"
      using lgs(2) that list_all2_left [of "event_of_log ei" "filter (escrow_known ei) lgs" evs lg] by simp
    then obtain ev where "ev \<in> set evs" "event_of_log ei lg ev" by blast
    then show ?thesis
      using saved by (auto simp: evs escrow_present_def escrow_recorded_def event_of_log_def escrow_row_of_def es_key_def)
  qed
  then show ?thesis using saved lgs stored(2) unfolding db by auto
qed simp

section \<open>The indexer as a stream\<close>

lemma escrow_keeps_err: "untouched.keeps_err (escrow_index_range env ei lo hi)"
  unfolding untouched.keeps_err_def
proof (intro allI impI)
  fix w e w' assume "escrow_index_range env ei lo hi w = (Inl e, w')"
  then show "w_db w' = w_db w" by (cases rule: escrow_range_cases) auto
qed

lemma escrow_chunk_cases:
  assumes "escrow_chunk env what ei lo hi acc w = (r, w')"
  obtains (failed) e where "r = Inl e" "w_db w' = w_db w"
  | (indexed) evs w1 where "r = Inr (acc + int (length evs))" "w_db w1 = w_db w"
      "escrow_index_range env ei lo hi w1 = (Inr evs, w')"
proof -
  obtain s w2 where run: "escrow_index_range_with_retry env ei lo hi w = (s, w2)" by fastforce
  show ?thesis
  proof (cases s)
    case (Inl e)
    then have "w_db w2 = w_db w"
      using run untouched.retry_range_Inl [OF escrow_keeps_err]
      by (simp add: escrow_index_range_with_retry_def)
    then show ?thesis using assms run Inl failed by (auto simp: escrow_chunk_def go_unfold)
  next
    case (Inr evs)
    obtain w1 where "w_db w1 = w_db w" "escrow_index_range env ei lo hi w1 = (Inr evs, w2)"
      using untouched.retry_range_Inr [OF escrow_keeps_err run [unfolded Inr escrow_index_range_with_retry_def]]
      by blast
    then show ?thesis using assms run Inr indexed [of evs w1] by (auto simp: escrow_chunk_def go_unfold)
  qed
qed

interpretation escrow_stream: indexed_stream "ei_chain ei" "ei_stream ei" start logs
    "\<lambda>d lg. honest env (ei_contract ei) logs \<and> timestamps_answered env \<and> escrow_known ei lg \<longrightarrow>
       escrow_recorded (ei_chain ei) (ei_contract ei) d lg" "ei_stream ei \<noteq> []"
    "escrow_chunk env what ei"
  for ei :: escrow_indexer and start :: u64 and logs :: "evm_log list" and env :: env and what :: string
proof unfold_locales
  fix lo hi :: u64 and s s' :: int and w w' :: world and r e
  let ?m = "escrow_chunk env what ei lo hi s"
  let ?cp = "\<lambda>w. checkpoint_of (w_db w) (ei_chain ei) (ei_stream ei)"
  show "legal (w_db w) (w_db w')" if "?m w = (r, w')"
    by (rule law.keepsD [OF law_keeps_escrow_chunk that])
  show "?cp w' = ?cp w" if "?m w = (Inl e, w')"
    using that by (cases rule: escrow_chunk_cases) auto
  show "?cp w' = Some hi \<or> \<not> (ei_stream ei \<noteq> [] \<and> 0 < hi) \<and> ?cp w' = ?cp w" if "?m w = (Inr s', w')"
    using that
  proof (cases rule: escrow_chunk_cases)
    case (indexed evs w1)
    then show ?thesis using escrow_range_Inr [OF indexed(3)] by (auto split: if_splits)
  qed simp
  show "lo \<le> hi \<and> (\<forall>lg \<in> set logs. lo \<le> l_block lg \<and> l_block lg \<le> hi \<longrightarrow>
      honest env (ei_contract ei) logs \<and> timestamps_answered env \<and> escrow_known ei lg \<longrightarrow>
      escrow_recorded (ei_chain ei) (ei_contract ei) (w_db w') lg)" if "?m w = (Inr s', w')"
    using that
  proof (cases rule: escrow_chunk_cases)
    case (indexed evs w1)
    then show ?thesis using escrow_range_Inr [OF indexed(3)] unfolding honest_def by blast
  qed simp
qed (use escrow_recorded_mono in blast)

lemma escrow_start_Inr:
  assumes "escrow_start_block env ei w = (Inr lo, w1)"
  shows "w_db w1 = w_db w \<and> (lo = ei_start ei \<or>
    (\<exists>c. checkpoint_of (w_db w) (ei_chain ei) (ei_stream ei) = Some c \<and> lo = c + 1))"
proof -
  from assms obtain b found where "get_checkpoint env (ei_chain ei) (ei_stream ei) w = (Inr (b, found), w1)"
    "lo = (if found then (if b + 1 < ei_start ei then ei_start ei else b + 1) else ei_start ei)"
    by (auto simp: escrow_start_block_def bind_Inr wrapping_Inr ret_eq)
  then show ?thesis using get_checkpoint_Inr by (fastforce split: if_splits)
qed

lemma escrow_start_Inl: "escrow_start_block env ei w = (Inl e, w1) \<Longrightarrow> w_db w1 = w_db w"
  by (auto simp: escrow_start_block_def get_checkpoint_def query_sql_def go_unfold
      split: sum.splits prod.splits option.splits if_splits)

end
