(* ===== verification/Token_Indexer.thy ===== *)
theory Token_Indexer
  imports Escrow_Indexer "HOL-Library.Product_Lexorder"
begin

text \<open>
  \<open>internal/indexer/token_indexer.go\<close>: the ERC-20 indexer. A range asks for the Transfer logs and,
  when the ABI has the event, the Approval logs, merges them by block and log index, fetches the
  timestamps, decodes, fetches the metadata of the transactions that are not stored yet, and
  persists everything with the checkpoint in one database transaction. The worker pool that
  fetches metadata hands its results over in some order; the iteration order of a Go map is
  arbitrary as well: both are an order that the environment chooses (\<open>map_iteration\<close>). The
  decoder is the record \<open>erc20_filterer\<close> of \<open>Chain\<close>.
\<close>

section \<open>The indexer\<close>

record token_indexer =
  ti_filterer :: erc20_filterer
  ti_chain :: int
  ti_stream :: string
  ti_start :: u64
  ti_batch :: u64
  ti_depth :: u64
  ti_policy :: retry_policy

definition ti_token :: "token_indexer \<Rightarrow> address" where
  "ti_token ti = f_token (ti_filterer ti)"

definition new_token_indexer ::
  "env \<Rightarrow> bool \<Rightarrow> erc20_filterer option \<Rightarrow> bool \<Rightarrow> int \<Rightarrow> u64 \<Rightarrow> u64 \<Rightarrow> u64 \<Rightarrow> string
     \<Rightarrow> goerror + token_indexer" where
  "new_token_indexer env client filterer db chain start batch depth stream =
     (if \<not> client then Inl (new_error ''blockchain client is nil'')
      else case filterer of
        None \<Rightarrow> Inl (new_error ''event decoder is nil'')
      | Some f \<Rightarrow>
          if \<not> db then Inl (new_error ''persistence layer is nil'')
          else Inr \<lparr>ti_filterer = f, ti_chain = chain,
                 ti_stream = (if stream = [] \<or> stream = ''erc20_transfers''
                   then ''erc20_transfers_'' @ to_lower (addr_hex env (f_token f)) else stream),
                 ti_start = start, ti_batch = (if batch = 0 then 50 else batch), ti_depth = depth,
                 ti_policy = new_retryer (default_retry_policy False)\<rparr>)"

definition set_token_policy :: "retry_policy \<Rightarrow> token_indexer \<Rightarrow> token_indexer" where
  "set_token_policy p ti = ti\<lparr>ti_policy := new_retryer p\<rparr>"

definition token_start_block :: "env \<Rightarrow> token_indexer \<Rightarrow> u64 go" where
  "token_start_block env ti =
     bind_go (wrapping (''failed to get checkpoint for stream '' @ ti_stream ti)
               (get_checkpoint env (ti_chain ti) (ti_stream ti)))
       (\<lambda>(block, found).
         if found then ret (if block + 1 < ti_start ti then ti_start ti else block + 1)
         else ret (ti_start ti))"

section \<open>IndexRange\<close>

text \<open>\<open>ERC20Decoder.HasApproval\<close>, and the predicate given to \<open>sort.SliceStable\<close> as a sort key.\<close>

definition has_approval :: "token_indexer \<Rightarrow> bool" where
  "has_approval ti \<longleftrightarrow> snd (approval_topic (ti_filterer ti))"

definition log_position :: "evm_log \<Rightarrow> u64 \<times> u64" where
  "log_position lg = (l_block lg, l_index lg)"

definition sort_logs :: "evm_log list \<Rightarrow> evm_log list" where
  "sort_logs = sort_key log_position"

definition token_logs :: "env \<Rightarrow> token_indexer \<Rightarrow> u64 \<Rightarrow> u64 \<Rightarrow> evm_log list go" where
  "token_logs env ti lo hi =
     bind_go (get_token_logs env (ti_token ti) (f_transfer_id (ti_filterer ti)) lo hi) (\<lambda>logs.
       if has_approval ti then
         bind_go (get_token_logs env (ti_token ti) (fst (approval_topic (ti_filterer ti))) lo hi) (\<lambda>apprs.
           ret (if apprs = [] then logs else sort_logs (logs @ apprs)))
       else ret logs)"

definition token_timestamps :: "env \<Rightarrow> evm_log list \<Rightarrow> (u64 \<rightharpoonup> int) go" where
  "token_timestamps env logs =
     for_each (\<lambda>lg cache.
       case cache (l_block lg) of
         Some _ \<Rightarrow> ret cache
       | None \<Rightarrow>
           bind_go (wrapping (''failed to fetch timestamp for block '' @ dec_u64 (l_block lg))
                     (block_timestamp env (l_block lg)))
             (\<lambda>ts. ret (cache(l_block lg \<mapsto> sint ts)))) logs Map.empty"

definition log_text :: "env \<Rightarrow> string \<Rightarrow> evm_log \<Rightarrow> string" where
  "log_text env what lg = ''decode '' @ what @ '' log at block '' @ dec_u64 (l_block lg) @ '' tx '' @
     hash_hex env (l_tx lg) @ '' log index '' @ dec_u64 (l_index lg)"

definition raw_event_of ::
  "token_indexer \<Rightarrow> string \<Rightarrow> evm_log \<Rightarrow> int \<Rightarrow> (string \<times> string) list \<Rightarrow> raw_event_input" where
  "raw_event_of ti name lg time raw = \<lparr>ri_contract = ti_token ti, ri_name = name, ri_tx = l_tx lg,
     ri_block = l_block lg, ri_time = time, ri_index = l_index lg, ri_removed = l_removed lg, ri_raw = raw\<rparr>"

text \<open>The body of the decoding loop; the state is the transfers, the raw events and the keys of
  \<open>txHashMap\<close> in the order of their insertion.\<close>

type_synonym token_state = "token_transfer list \<times> raw_event_input list \<times> hash list"

definition token_step ::
  "env \<Rightarrow> token_indexer \<Rightarrow> (u64 \<rightharpoonup> int) \<Rightarrow> evm_log \<Rightarrow> token_state \<Rightarrow> goerror + token_state" where
  "token_step env ti stamps lg = (\<lambda>(transfers, raws, txs).
     let f = ti_filterer ti; time = the (stamps (l_block lg)) in
     if l_topics lg \<noteq> [] \<and> hd (l_topics lg) = f_transfer_id f then
       (case decode_transfer (hash_hex env) (addr_hex env) f (ti_chain ti) lg time of
          Inl e \<Rightarrow> Inl (wrap_error (log_text env ''transfer'' lg) e)
        | Inr t \<Rightarrow> Inr (transfers @ [t],
            raws @ [raw_event_of ti ''Transfer'' lg time
              [(''from'', addr_hex env (tt_from t)), (''to'', addr_hex env (tt_to t)),
               (''amount'', dec_int (tt_amount t))]],
            List.insert (l_tx lg) txs))
     else if has_approval ti \<and> l_topics lg \<noteq> [] \<and> hd (l_topics lg) = fst (approval_topic f) then
       (case parse_approval (addr_hex env) f lg of
          Inl e \<Rightarrow> Inl (wrap_error (log_text env ''approval'' lg) e)
        | Inr a \<Rightarrow> Inr (transfers,
            raws @ [raw_event_of ti ''Approval'' lg time
              [(''owner'', addr_hex env (a_owner a)), (''spender'', addr_hex env (a_spender a)),
               (''value'', dec_int (a_value a))]],
            List.insert (l_tx lg) txs))
     else Inr (transfers, raws, txs))"

text \<open>\<open>range\<close> over a map: every key once, in the order of the environment.\<close>

definition map_iteration :: "env \<Rightarrow> hash list \<Rightarrow> world \<Rightarrow> hash list" where
  "map_iteration env keys w =
     (let ks = map_order env (w_tick w) keys in
      if distinct ks \<and> set ks = set keys then ks else keys)"

definition iterating :: "env \<Rightarrow> hash list \<Rightarrow> (hash list \<Rightarrow> 'a go) \<Rightarrow> 'a go" where
  "iterating env keys m = (\<lambda>w. m (map_iteration env keys w) w)"

text \<open>The collector of the worker pool: for each needed hash the next result, or the first error,
  or the end of the context.\<close>

definition fetch_metadata :: "env \<Rightarrow> hash \<Rightarrow> tx_metadata option list \<Rightarrow> tx_metadata option list go" where
  "fetch_metadata env h metas =
     bind_go (wrapping (''fetch metadata for tx '' @ hash_hex env h) (transaction_metadata env h)) (\<lambda>m w.
       case ctx_error env w of
         Some e \<Rightarrow> (Inl e, w)
       | None \<Rightarrow> (Inr (metas @ [m]), w))"

definition needed_metadata :: "env \<Rightarrow> token_indexer \<Rightarrow> hash list \<Rightarrow> tx_metadata option list go" where
  "needed_metadata env ti txs =
     bind_go (iterating env txs (\<lambda>hs. attempt (get_existing_tx_hashes env (ti_chain ti) hs))) (\<lambda>found.
       let existing = (case found of Inl _ \<Rightarrow> [] | Inr hs \<Rightarrow> hs) in
       iterating env txs (\<lambda>hs. for_each (fetch_metadata env) (filter (\<lambda>h. h \<notin> set existing) hs) []))"

definition token_collect ::
  "env \<Rightarrow> token_indexer \<Rightarrow> u64 \<Rightarrow> u64 \<Rightarrow>
     (token_transfer list \<times> raw_event_input list \<times> tx_metadata option list \<times> block_header) go" where
  "token_collect env ti lo hi =
     bind_go (token_logs env ti lo hi) (\<lambda>logs.
     bind_go (token_timestamps env logs) (\<lambda>stamps.
     bind_go (for_each (\<lambda>lg st. of_sum (token_step env ti stamps lg st)) logs ([], [], []))
       (\<lambda>(transfers, raws, txs).
     bind_go (needed_metadata env ti txs) (\<lambda>metas.
     bind_go (wrapping (''fetch block header for checkpoint block '' @ dec_u64 hi) (block_header env hi)) (\<lambda>h.
     ret (transfers, raws, metas, h))))))"

definition token_index_range :: "env \<Rightarrow> token_indexer \<Rightarrow> u64 \<Rightarrow> u64 \<Rightarrow> token_transfer list go" where
  "token_index_range env ti lo hi =
     (if lo > hi then
        fail (new_error (''invalid block range: from '' @ dec_u64 lo @ '' is greater than to '' @ dec_u64 hi))
      else
        bind_go (token_collect env ti lo hi) (\<lambda>(transfers, raws, metas, h).
        bind_go (save_token_batch env (ti_chain ti) (ti_stream ti) metas (map Some raws)
                   (map Some transfers) hi (hash_hex env (h_hash h))) (\<lambda>_.
        ret transfers)))"

definition token_index_range_with_retry ::
  "env \<Rightarrow> token_indexer \<Rightarrow> u64 \<Rightarrow> u64 \<Rightarrow> token_transfer list go" where
  "token_index_range_with_retry env ti lo hi =
     retry_range env (ti_policy ti) (ti_stream ti) lo hi (token_index_range env ti lo hi)"

section \<open>ProcessNextBatch and RunBackfill\<close>

definition token_safe_block :: "u64 \<Rightarrow> u64 \<Rightarrow> u64" where
  "token_safe_block depth latest = (if depth > 0 \<and> latest \<ge> depth then latest - depth else latest)"

definition process_next_batch ::
  "env \<Rightarrow> token_indexer \<Rightarrow> world \<Rightarrow> (bool \<times> u64 \<times> u64 \<times> int \<times> goerror option) \<times> world" where
  "process_next_batch env ti w =
     (case token_start_block env ti w of
        (Inl e, w1) \<Rightarrow> ((False, 0, 0, 0, Some e), w1)
      | (Inr lo, w1) \<Rightarrow>
     (case wrapping ''failed to fetch latest block'' (latest_block env) w1 of
        (Inl e, w2) \<Rightarrow> ((False, 0, 0, 0, Some e), w2)
      | (Inr latest, w2) \<Rightarrow>
          let safe = token_safe_block (ti_depth ti) latest in
          if lo > safe then ((False, lo, safe, 0, None), w2)
          else
            let hi = chunk_end (ti_batch ti) safe lo in
            (case token_index_range_with_retry env ti lo hi w2 of
               (Inl e, w3) \<Rightarrow> ((False, lo, hi, 0, Some e), w3)
             | (Inr ts, w3) \<Rightarrow> ((True, lo, hi, int (length ts), None), w3))))"

definition token_chunk :: "env \<Rightarrow> string \<Rightarrow> token_indexer \<Rightarrow> u64 \<Rightarrow> u64 \<Rightarrow> int \<Rightarrow> int go" where
  "token_chunk env what ti lo hi acc =
     bind_go (wrapping (what @ '' '' @ range_text lo hi) (token_index_range_with_retry env ti lo hi))
       (\<lambda>ts. ret (acc + int (length ts)))"

definition token_target :: "u64 \<Rightarrow> u64 \<Rightarrow> u64" where
  "token_target target safe = (if target > 0 \<and> target \<le> safe then target else safe)"

definition token_run_backfill ::
  "env \<Rightarrow> token_indexer \<Rightarrow> u64 \<Rightarrow> world \<Rightarrow> ((u64 \<times> int \<times> goerror option) \<times> world) option" where
  "token_run_backfill env ti target w =
     (case token_start_block env ti w of
        (Inl e, w1) \<Rightarrow> Some ((0, 0, Some e), w1)
      | (Inr lo, w1) \<Rightarrow>
     (case wrapping ''failed to fetch latest block'' (latest_block env) w1 of
        (Inl e, w2) \<Rightarrow> Some ((0, 0, Some e), w2)
      | (Inr latest, w2) \<Rightarrow>
          let goal = token_target target (token_safe_block (ti_depth ti) latest) in
          if lo > goal then Some ((goal, 0, None), w2)
          else chunk_loop (token_chunk env ''token index range'' ti) (ti_batch ti) goal lo (lo - 1) 0 w2))"

section \<open>What the methods keep\<close>

context effect_relation
begin

lemma keeps_iterating: "(\<And>hs. keeps (m hs)) \<Longrightarrow> keeps (iterating env keys m)"
  by (simp add: keeps_def iterating_def)

lemma keeps_fetch: "keeps (fetch_metadata env h metas)"
  unfolding fetch_metadata_def
  by (intro keeps_bind keeps_wrapping keeps_call) (simp add: keeps_def R_refl split: option.split)

end

lemma untouched_keeps_token_collect: "untouched.keeps (token_collect env ti lo hi)"
  unfolding token_collect_def token_logs_def token_timestamps_def needed_metadata_def
    get_existing_tx_hashes_def
  by (auto simp: Let_def intro!: untouched.keeps_rules untouched.keeps_iterating untouched.keeps_fetch
      split: prod.split option.split sum.split)

lemma law_keeps_token_range: "law.keeps (token_index_range env ti lo hi)"
  unfolding token_index_range_def
  by (auto intro!: law.keeps_rules law_keeps_batches untouched_law [OF untouched_keeps_token_collect]
      split: prod.split)

lemma law_keeps_token_chunk: "law.keeps (token_chunk env what ti lo hi acc)"
  unfolding token_chunk_def token_index_range_with_retry_def
  by (auto intro!: law.keeps_retry_rules law_keeps_token_range)

text \<open>A range is atomic: it fails without a trace in the database, or commits all of it.\<close>

lemma token_range_cases:
  assumes "token_index_range env ti lo hi w = (r, w')"
  obtains (failed) e where "r = Inl e" "w_db w' = w_db w"
  | (stored) ts raws metas h w1 where "r = Inr ts" "lo \<le> hi" "w_db w1 = w_db w"
      "token_collect env ti lo hi w = (Inr (ts, raws, metas, h), w1)"
      "save_token_batch env (ti_chain ti) (ti_stream ti) metas (map Some raws) (map Some ts) hi
         (hash_hex env (h_hash h)) w1 = (Inr (), w')"
proof (cases "lo > hi")
  case True
  then show ?thesis using assms failed by (auto simp: token_index_range_def fail_def)
next
  case False
  obtain c w1 where col: "token_collect env ti lo hi w = (c, w1)" by fastforce
  have db1: "w_db w1 = w_db w" using untouched.keepsD [OF untouched_keeps_token_collect col] .
  show ?thesis
  proof (cases c)
    case (Inl e)
    then show ?thesis using assms False col db1 failed by (auto simp: token_index_range_def bind_go_def)
  next
    case (Inr p)
    obtain ts raws metas h where p: "p = (ts, raws, metas, h)" using prod_cases4 by blast
    obtain s w2 where save: "save_token_batch env (ti_chain ti) (ti_stream ti) metas (map Some raws)
        (map Some ts) hi (hash_hex env (h_hash h)) w1 = (s, w2)" by fastforce
    have run: "r = (case s of Inl e \<Rightarrow> Inl e | Inr u \<Rightarrow> Inr ts) \<and> w' = w2"
      using assms False by (simp add: token_index_range_def bind_go_def col Inr p save ret_def split: sum.splits)
    show ?thesis
    proof (cases s)
      case (Inl e)
      then have "w_db w2 = w_db w1" using save in_transaction_Inl by (auto simp: save_token_batch_def)
      then show ?thesis using run Inl db1 failed by simp
    next
      case s: (Inr u)
      then show ?thesis using run False db1 stored [of ts w1 raws metas h] col Inr p save by simp
    qed
  qed
qed

lemma token_keeps_err: "untouched.keeps_err (token_index_range env ti lo hi)"
  unfolding untouched.keeps_err_def
proof (intro allI impI)
  fix w e w' assume "token_index_range env ti lo hi w = (Inl e, w')"
  then show "w_db w' = w_db w" by (cases rule: token_range_cases) auto
qed

section \<open>What a range records\<close>

definition token_transfer_log :: "token_indexer \<Rightarrow> evm_log \<Rightarrow> bool" where
  "token_transfer_log ti lg \<longleftrightarrow> l_topics lg \<noteq> [] \<and> hd (l_topics lg) = f_transfer_id (ti_filterer ti)"

definition token_known :: "token_indexer \<Rightarrow> evm_log \<Rightarrow> bool" where
  "token_known ti lg \<longleftrightarrow> token_transfer_log ti lg \<or>
     has_approval ti \<and> l_topics lg \<noteq> [] \<and> hd (l_topics lg) = fst (approval_topic (ti_filterer ti))"

definition log_key :: "token_indexer \<Rightarrow> evm_log \<Rightarrow> int \<times> address \<times> hash \<times> int" where
  "log_key ti lg = (ti_chain ti, ti_token ti, l_tx lg, sint (l_index lg))"

definition token_recorded :: "token_indexer \<Rightarrow> database \<Rightarrow> evm_log \<Rightarrow> bool" where
  "token_recorded ti d lg \<longleftrightarrow> has_row ev_key (log_key ti lg) (chain_events d) \<and>
     (token_transfer_log ti lg \<longrightarrow> has_row tr_key (log_key ti lg) (token_transfers d))"

lemma token_recorded_mono: "db_grows d d' \<Longrightarrow> token_recorded ti d lg \<Longrightarrow> token_recorded ti d' lg"
  unfolding token_recorded_def db_grows_def by blast

definition transfer_of_log :: "env \<Rightarrow> token_indexer \<Rightarrow> (u64 \<rightharpoonup> int) \<Rightarrow> evm_log \<Rightarrow> token_transfer \<Rightarrow> bool" where
  "transfer_of_log env ti stamps lg t \<longleftrightarrow>
     decode_transfer (hash_hex env) (addr_hex env) (ti_filterer ti) (ti_chain ti) lg
       (the (stamps (l_block lg))) = Inr t"

definition raw_of_log :: "token_indexer \<Rightarrow> evm_log \<Rightarrow> raw_event_input \<Rightarrow> bool" where
  "raw_of_log ti lg re \<longleftrightarrow> ri_contract re = ti_token ti \<and> ri_tx re = l_tx lg \<and>
     ri_index re = l_index lg \<and> ri_block re = l_block lg \<and> ri_removed re = l_removed lg"

lemma token_step_Inr:
  assumes "token_step env ti stamps lg (ts, rs, hs) = Inr (ts', rs', hs')"
  shows "(\<exists>new. ts' = ts @ new \<and>
      list_all2 (transfer_of_log env ti stamps) (if token_transfer_log ti lg then [lg] else []) new) \<and>
    (\<exists>new. rs' = rs @ new \<and> list_all2 (raw_of_log ti) (if token_known ti lg then [lg] else []) new) \<and>
    set hs' = set hs \<union> (if token_known ti lg then {l_tx lg} else {})"
  using assms
  by (auto simp: token_step_def Let_def transfer_of_log_def raw_of_log_def raw_event_of_def
      token_known_def token_transfer_log_def split: if_splits sum.splits)

lemma token_steps_Inr:
  assumes "for_each (\<lambda>lg st. of_sum (token_step env ti stamps lg st)) lgs (ts, rs, hs) w = (Inr (ts', rs', hs'), w')"
  shows "(\<exists>new. ts' = ts @ new \<and>
      list_all2 (transfer_of_log env ti stamps) (filter (token_transfer_log ti) lgs) new) \<and>
    (\<exists>new. rs' = rs @ new \<and> list_all2 (raw_of_log ti) (filter (token_known ti) lgs) new) \<and>
    set hs' = set hs \<union> l_tx ` set (filter (token_known ti) lgs)"
  using assms
proof (induction lgs arbitrary: ts rs hs)
  case Nil
  then show ?case by (simp add: ret_eq)
next
  case (Cons lg lgs)
  obtain ts1 rs1 hs1 where step: "token_step env ti stamps lg (ts, rs, hs) = Inr (ts1, rs1, hs1)"
    and rest: "for_each (\<lambda>lg st. of_sum (token_step env ti stamps lg st)) lgs (ts1, rs1, hs1) w
      = (Inr (ts', rs', hs'), w')"
    using Cons.prems by (auto simp: bind_Inr of_sum_def)
  obtain n1 n2 where "ts1 = ts @ n1" "rs1 = rs @ n2"
    "list_all2 (transfer_of_log env ti stamps) (if token_transfer_log ti lg then [lg] else []) n1"
    "list_all2 (raw_of_log ti) (if token_known ti lg then [lg] else []) n2"
    "set hs1 = set hs \<union> (if token_known ti lg then {l_tx lg} else {})"
    using token_step_Inr [OF step] by blast
  moreover obtain m1 m2 where "ts' = ts1 @ m1" "rs' = rs1 @ m2"
    "list_all2 (transfer_of_log env ti stamps) (filter (token_transfer_log ti) lgs) m1"
    "list_all2 (raw_of_log ti) (filter (token_known ti) lgs) m2"
    "set hs' = set hs1 \<union> l_tx ` set (filter (token_known ti) lgs)"
    using Cons.IH [OF rest] by blast
  ultimately show ?case
    using list_all2_appendI [of "transfer_of_log env ti stamps" "if token_transfer_log ti lg then [lg] else []"
        n1 "filter (token_transfer_log ti) lgs" m1]
      list_all2_appendI [of "raw_of_log ti" "if token_known ti lg then [lg] else []"
        n2 "filter (token_known ti) lgs" m2]
    by (auto split: if_splits)
qed

section \<open>The batch\<close>

text \<open>Rows that a loop of statements inserts are there when it ends.\<close>

lemma inserts_Inr:
  assumes "for_each (\<lambda>x _. ins x) xs () w = (Inr u, w')" "x \<in> set xs"
    and "\<And>x. law.keeps (ins x)" "\<And>d d'. db_grows d d' \<Longrightarrow> P d \<Longrightarrow> P d'"
    and "\<And>w v w'. ins x w = (Inr v, w') \<Longrightarrow> P (w_db w')"
  shows "P (w_db w')"
  using assms(1,2)
proof (induction xs arbitrary: w)
  case (Cons y xs)
  then obtain v w1 where one: "ins y w = (Inr v, w1)"
    and run: "for_each (\<lambda>x _. ins x) xs () w1 = (Inr u, w')" by (auto simp: bind_Inr)
  have "law.keeps (for_each (\<lambda>x _. ins x) xs ())" by (intro law.keeps_for_each assms(3))
  then have "db_grows (w_db w1) (w_db w')" using run by (rule grows_of)
  then show ?case using Cons assms(4,5) one run by (cases "x = y") auto
qed simp

lemma frame_keeps_parts:
  "frame.keeps (batch_transaction env chain meta)"
  "frame.keeps (batch_raw_event env chain raw)"
  "frame.keeps (batch_transfer env t)"
  by (auto simp: persistence_defs split: option.split
      intro!: frame.keeps_rules frame.keeps_exec
      dest: stmt_transaction_legal stmt_chain_event_legal stmt_transfer_legal)

lemma batch_raw_event_Inr:
  "batch_raw_event env chain (Some re) w = (Inr u, w') \<Longrightarrow>
     has_row ev_key (chain, ri_contract re, ri_tx re, sint (ri_index re)) (chain_events (w_db w'))"
  by (auto simp: batch_raw_event_def Inr_iffs stmt_chain_event_def ev_table.has_upsert raw_event_row_def
      ev_key_def split: if_splits)

lemma batch_transfer_Inr:
  "batch_transfer env (Some t) w = (Inr u, w') \<Longrightarrow>
     has_row tr_key (tt_chain t, tt_token t, tt_tx t, sint (tt_index t)) (token_transfers (w_db w'))"
  by (auto simp: batch_transfer_def Inr_iffs stmt_transfer_def tr_table.has_upsert transfer_row_of_def
      tr_key_def split: if_splits)

lemma save_token_batch_Inr:
  assumes "save_token_batch env chain stream metas raws ts b h w = (Inr u, w')"
  shows "(\<forall>re. Some re \<in> set raws \<longrightarrow>
      has_row ev_key (chain, ri_contract re, ri_tx re, sint (ri_index re)) (chain_events (w_db w')))"
    and "\<forall>t. Some t \<in> set ts \<longrightarrow>
      has_row tr_key (tt_chain t, tt_token t, tt_tx t, sint (tt_index t)) (token_transfers (w_db w'))"
    and "checkpoint_of (w_db w') chain stream =
      (if stream \<noteq> [] \<and> 0 < b then Some b else checkpoint_of (w_db w) chain stream)"
proof -
  let ?msg = "''failed to update checkpoint for '' @ stream @ '' to block '' @ dec_u64 b @ '' in batch''"
  obtain w1 w2 w3 w4 where m: "for_each (\<lambda>m _. batch_transaction env chain m) metas () (next_tick w) = (Inr (), w1)"
    and r: "for_each (\<lambda>re _. batch_raw_event env chain re) raws () w1 = (Inr (), w2)"
    and t: "for_each (\<lambda>t _. batch_transfer env t) ts () w2 = (Inr (), w3)"
    and cp: "checkpoint_in_batch env ?msg chain stream b h w3 = (Inr (), w4)" and db: "w_db w' = w_db w4"
    using in_transaction_Inr [OF assms [unfolded save_token_batch_def]] by (auto simp: bind_Inr)
  have grows34: "db_grows (w_db w3) (w_db w4)" by (rule grows_of [OF law_keeps_parts(1) cp])
  have "law.keeps (for_each (\<lambda>t _. batch_transfer env t) ts ())"
    by (intro law.keeps_for_each law_keeps_parts)
  then have grows23: "db_grows (w_db w2) (w_db w3)" using t by (rule grows_of)
  have grows24: "db_grows (w_db w2) (w_db w4)" using grows23 grows34 by (rule db_grows_trans)
  show "\<forall>re. Some re \<in> set raws \<longrightarrow>
      has_row ev_key (chain, ri_contract re, ri_tx re, sint (ri_index re)) (chain_events (w_db w'))"
  proof (intro allI impI)
    fix re assume "Some re \<in> set raws"
    note present = inserts_Inr [OF r this law_keeps_parts(3), where P = "\<lambda>d.
        has_row ev_key (chain, ri_contract re, ri_tx re, sint (ri_index re)) (chain_events d)"]
    have "has_row ev_key (chain, ri_contract re, ri_tx re, sint (ri_index re)) (chain_events (w_db w2))"
      by (rule present) (use batch_raw_event_Inr in \<open>auto simp: db_grows_def\<close>)
    then show "has_row ev_key (chain, ri_contract re, ri_tx re, sint (ri_index re)) (chain_events (w_db w'))"
      using grows24 by (simp add: db db_grows_def)
  qed
  show "\<forall>t. Some t \<in> set ts \<longrightarrow>
      has_row tr_key (tt_chain t, tt_token t, tt_tx t, sint (tt_index t)) (token_transfers (w_db w'))"
  proof (intro allI impI)
    fix x assume "Some x \<in> set ts"
    note present = inserts_Inr [OF t this law_keeps_parts(4), where P = "\<lambda>d.
        has_row tr_key (tt_chain x, tt_token x, tt_tx x, sint (tt_index x)) (token_transfers d)"]
    have "has_row tr_key (tt_chain x, tt_token x, tt_tx x, sint (tt_index x)) (token_transfers (w_db w3))"
      by (rule present) (use batch_transfer_Inr in \<open>auto simp: db_grows_def\<close>)
    then show "has_row tr_key (tt_chain x, tt_token x, tt_tx x, sint (tt_index x)) (token_transfers (w_db w'))"
      using grows34 by (simp add: db db_grows_def)
  qed
  have f: "frame.keeps (for_each (\<lambda>m _. batch_transaction env chain m) metas ())"
    "frame.keeps (for_each (\<lambda>re _. batch_raw_event env chain re) raws ())"
    "frame.keeps (for_each (\<lambda>t _. batch_transfer env t) ts ())"
    by (intro frame.keeps_for_each frame_keeps_parts)+
  have "same_checkpoints (w_db w) (w_db w3)"
    using frame.keepsD [OF f(1) m] frame.keepsD [OF f(2) r] frame.keepsD [OF f(3) t]
    by (simp add: same_checkpoints_def)
  then show "checkpoint_of (w_db w') chain stream =
      (if stream \<noteq> [] \<and> 0 < b then Some b else checkpoint_of (w_db w) chain stream)"
    using checkpoint_in_batch_Inr [OF cp] checkpoint_of_same unfolding db by simp
qed

section \<open>The range as a whole\<close>

text \<open>An honest node answers a query for logs with a topic with every such log of the history.\<close>

definition honest_topics :: "env \<Rightarrow> address \<Rightarrow> evm_log list \<Rightarrow> bool" where
  "honest_topics env token logs \<longleftrightarrow>
     (\<forall>n topic lo hi lgs. rpc_token_logs env n token topic lo hi = Inr lgs \<longrightarrow>
        (\<forall>lg \<in> set logs. lo \<le> l_block lg \<and> l_block lg \<le> hi \<and> l_topics lg \<noteq> [] \<and> hd (l_topics lg) = topic
           \<longrightarrow> lg \<in> set lgs))"

lemma set_sort_logs [simp]: "set (sort_logs lgs) = set lgs"
  by (simp add: sort_logs_def)

lemma token_logs_Inr:
  assumes "token_logs env ti lo hi w = (Inr lgs, w')" "honest_topics env (ti_token ti) logs"
    and "lg \<in> set logs" "lo \<le> l_block lg" "l_block lg \<le> hi" "token_known ti lg"
  shows "lg \<in> set lgs"
proof -
  obtain ls where ls: "Inr ls = rpc_token_logs env (w_tick w) (ti_token ti) (f_transfer_id (ti_filterer ti)) lo hi"
    and rest: "if has_approval ti then \<exists>as. Inr as = rpc_token_logs env (Suc (w_tick w)) (ti_token ti)
        (fst (approval_topic (ti_filterer ti))) lo hi \<and> set lgs = set ls \<union> set as
      else lgs = ls"
    using assms(1) by (fastforce simp: token_logs_def bind_Inr get_token_logs_def rpc_eq ret_eq split: if_splits)
  show ?thesis
  proof (cases "token_transfer_log ti lg")
    case True
    then have "lg \<in> set ls"
      using assms ls [symmetric] unfolding honest_topics_def token_transfer_log_def by blast
    then show ?thesis using rest by (auto split: if_splits)
  next
    case False
    then have appr: "has_approval ti" "l_topics lg \<noteq> []" "hd (l_topics lg) = fst (approval_topic (ti_filterer ti))"
      using assms(6) by (auto simp: token_known_def)
    then obtain as where "Inr as = rpc_token_logs env (Suc (w_tick w)) (ti_token ti)
        (fst (approval_topic (ti_filterer ti))) lo hi" "set lgs = set ls \<union> set as"
      using rest by auto
    then show ?thesis using assms appr unfolding honest_topics_def by (metis UnCI)
  qed
qed

lemma token_collect_Inr:
  assumes "token_collect env ti lo hi w = (Inr (ts, raws, metas, h), w')"
  obtains lgs stamps w1 w2 where "token_logs env ti lo hi w = (Inr lgs, w1)"
    "token_timestamps env lgs w1 = (Inr stamps, w2)"
    "list_all2 (transfer_of_log env ti stamps) (filter (token_transfer_log ti) lgs) ts"
    "list_all2 (raw_of_log ti) (filter (token_known ti) lgs) raws"
proof -
  from assms obtain lgs w1 stamps w2 hs w3 where
    "token_logs env ti lo hi w = (Inr lgs, w1)" "token_timestamps env lgs w1 = (Inr stamps, w2)"
    and "for_each (\<lambda>lg st. of_sum (token_step env ti stamps lg st)) lgs ([], [], []) w2
           = (Inr (ts, raws, hs), w3)"
    by (auto simp: token_collect_def bind_Inr ret_eq)
  with token_steps_Inr [OF this(3)] that show ?thesis by auto
qed

lemma token_range_Inr:
  assumes "token_index_range env ti lo hi w = (Inr ts, w')"
  shows "lo \<le> hi" (is ?A)
    and "honest_topics env (ti_token ti) logs \<Longrightarrow> lg \<in> set logs \<Longrightarrow> lo \<le> l_block lg \<Longrightarrow>
      l_block lg \<le> hi \<Longrightarrow> token_known ti lg \<Longrightarrow> token_recorded ti (w_db w') lg" (is "PROP ?B")
    and "checkpoint_of (w_db w') (ti_chain ti) (ti_stream ti) =
      (if ti_stream ti \<noteq> [] \<and> 0 < hi then Some hi
       else checkpoint_of (w_db w) (ti_chain ti) (ti_stream ti))" (is ?C)
proof -
  obtain raws metas h w1 where "lo \<le> hi" and db: "w_db w1 = w_db w"
    and col: "token_collect env ti lo hi w = (Inr (ts, raws, metas, h), w1)"
    and save: "save_token_batch env (ti_chain ti) (ti_stream ti) metas (map Some raws) (map Some ts) hi
      (hash_hex env (h_hash h)) w1 = (Inr (), w')"
    using assms by (cases rule: token_range_cases) auto
  then show ?A by simp
  show ?C using save_token_batch_Inr(3) [OF save] db by simp
  show "PROP ?B"
  proof -
    assume lg: "honest_topics env (ti_token ti) logs" "lg \<in> set logs" "lo \<le> l_block lg" "l_block lg \<le> hi"
      "token_known ti lg"
    obtain lgs stamps w2 where got: "token_logs env ti lo hi w = (Inr lgs, w2)"
      and ts: "list_all2 (transfer_of_log env ti stamps) (filter (token_transfer_log ti) lgs) ts"
      and raws: "list_all2 (raw_of_log ti) (filter (token_known ti) lgs) raws"
      by (rule token_collect_Inr [OF col]) blast
    have mem: "lg \<in> set lgs" by (rule token_logs_Inr [OF got lg])
    have "\<exists>re \<in> set raws. raw_of_log ti lg re"
      using list_all2_left [OF raws] mem lg(5) by simp
    then have "has_row ev_key (log_key ti lg) (chain_events (w_db w'))"
      using save_token_batch_Inr(1) [OF save] by (auto simp: raw_of_log_def log_key_def)
    moreover have "has_row tr_key (log_key ti lg) (token_transfers (w_db w'))" if "token_transfer_log ti lg"
    proof -
      obtain t where "t \<in> set ts" "transfer_of_log env ti stamps lg t"
        using list_all2_left [OF ts] mem \<open>token_transfer_log ti lg\<close> by auto
      moreover from this(2) have "tt_chain t = ti_chain ti" "tt_token t = ti_token ti" "tt_tx t = l_tx lg"
        "tt_index t = l_index lg"
        using decode_transfer_Inr by (auto simp: transfer_of_log_def ti_token_def)
      ultimately show ?thesis
        using save_token_batch_Inr(2) [OF save] by (fastforce simp: log_key_def)
    qed
    ultimately show "token_recorded ti (w_db w') lg" by (simp add: token_recorded_def)
  qed
qed

lemma token_chunk_cases:
  assumes "token_chunk env what ti lo hi acc w = (r, w')"
  obtains (failed) e where "r = Inl e" "w_db w' = w_db w"
  | (indexed) ts w1 where "r = Inr (acc + int (length ts))" "w_db w1 = w_db w"
      "token_index_range env ti lo hi w1 = (Inr ts, w')"
proof -
  obtain s w2 where run: "token_index_range_with_retry env ti lo hi w = (s, w2)" by fastforce
  show ?thesis
  proof (cases s)
    case (Inl e)
    then have "w_db w2 = w_db w"
      using run untouched.retry_range_Inl [OF token_keeps_err]
      by (simp add: token_index_range_with_retry_def)
    then show ?thesis using assms run Inl failed by (auto simp: token_chunk_def go_unfold)
  next
    case (Inr ts)
    obtain w1 where "w_db w1 = w_db w" "token_index_range env ti lo hi w1 = (Inr ts, w2)"
      using untouched.retry_range_Inr [OF token_keeps_err run [unfolded Inr token_index_range_with_retry_def]]
      by blast
    then show ?thesis using assms run Inr indexed [of ts w1] by (auto simp: token_chunk_def go_unfold)
  qed
qed

interpretation token_stream: indexed_stream "ti_chain ti" "ti_stream ti" start logs
    "\<lambda>d lg. honest_topics env (ti_token ti) logs \<and> token_known ti lg \<longrightarrow> token_recorded ti d lg"
    "ti_stream ti \<noteq> []" "token_chunk env what ti"
  for ti :: token_indexer and start :: u64 and logs :: "evm_log list" and env :: env and what :: string
proof unfold_locales
  fix lo hi :: u64 and s s' :: int and w w' :: world and r e
  let ?m = "token_chunk env what ti lo hi s"
  let ?cp = "\<lambda>w. checkpoint_of (w_db w) (ti_chain ti) (ti_stream ti)"
  show "legal (w_db w) (w_db w')" if "?m w = (r, w')"
    by (rule law.keepsD [OF law_keeps_token_chunk that])
  show "?cp w' = ?cp w" if "?m w = (Inl e, w')"
    using that by (cases rule: token_chunk_cases) auto
  show "?cp w' = Some hi \<or> \<not> (ti_stream ti \<noteq> [] \<and> 0 < hi) \<and> ?cp w' = ?cp w" if "?m w = (Inr s', w')"
    using that
  proof (cases rule: token_chunk_cases)
    case (indexed ts w1)
    then show ?thesis using token_range_Inr(3) [OF indexed(3)] by (auto split: if_splits)
  qed simp
  show "lo \<le> hi \<and> (\<forall>lg \<in> set logs. lo \<le> l_block lg \<and> l_block lg \<le> hi \<longrightarrow>
      honest_topics env (ti_token ti) logs \<and> token_known ti lg \<longrightarrow> token_recorded ti (w_db w') lg)"
    if "?m w = (Inr s', w')"
    using that
  proof (cases rule: token_chunk_cases)
    case (indexed ts w1)
    then show ?thesis using token_range_Inr(1,2) [OF indexed(3)] by blast
  qed simp
qed (use token_recorded_mono in blast)

lemma token_start_Inr:
  assumes "token_start_block env ti w = (Inr lo, w1)"
  shows "w_db w1 = w_db w \<and> (lo = ti_start ti \<or>
    (\<exists>c. checkpoint_of (w_db w) (ti_chain ti) (ti_stream ti) = Some c \<and> lo = c + 1))"
proof -
  from assms obtain b found where "get_checkpoint env (ti_chain ti) (ti_stream ti) w = (Inr (b, found), w1)"
    "lo = (if found then (if b + 1 < ti_start ti then ti_start ti else b + 1) else ti_start ti)"
    by (auto simp: token_start_block_def bind_Inr wrapping_Inr ret_eq split: if_splits)
  then show ?thesis using get_checkpoint_Inr by (fastforce split: if_splits)
qed

lemma token_start_Inl: "token_start_block env ti w = (Inl e, w1) \<Longrightarrow> w_db w1 = w_db w"
  by (auto simp: token_start_block_def get_checkpoint_def query_sql_def go_unfold
      split: sum.splits prod.splits option.splits if_splits)

end
