(* ===== verification/Token_Properties.thy ===== *)
theory Token_Properties
  imports Token_Indexer "HOL-Library.Multiset"
begin

text \<open>
  What the token indexer guarantees: checkpoint safety of \<open>RunBackfill\<close> and of
  \<open>ProcessNextBatch\<close>, the exact content of a range (the rows of the Transfer logs the node
  returned, in order, nothing else, and nothing at all when it fails), and which transactions
  it asks the node for.
\<close>

section \<open>Checkpoint safety\<close>

definition token_safe :: "token_indexer \<Rightarrow> evm_log list \<Rightarrow> database \<Rightarrow> bool" where
  "token_safe ti logs d \<longleftrightarrow>
     (\<forall>c. checkpoint_of d (ti_chain ti) (ti_stream ti) = Some c \<longrightarrow>
        (\<forall>lg \<in> set logs. ti_start ti \<le> l_block lg \<and> l_block lg \<le> c \<and> token_known ti lg \<longrightarrow>
           token_recorded ti d lg))"

lemma token_safe_iff:
  assumes "honest_topics env (ti_token ti) logs"
  shows "token_stream.safe ti (ti_start ti) logs env d \<longleftrightarrow> token_safe ti logs d"
  using assms unfolding token_stream.safe_def token_safe_def by blast

lemma token_resume:
  assumes "honest_topics env (ti_token ti) logs"
    and "token_start_block env ti w = (Inr lo, w1)" "token_safe ti logs (w_db w)"
  shows "token_stream.safe ti (ti_start ti) logs env (w_db w1) \<and>
    token_stream.covered (ti_start ti) logs env ti lo (w_db w1)"
proof -
  note st = token_start_Inr [OF assms(2)]
  have safe: "token_stream.safe ti (ti_start ti) logs env (w_db w1)"
    using st assms(3) by (simp add: token_safe_iff [OF assms(1)])
  then show ?thesis
    using st token_stream.covered_resume [OF safe] token_stream.covered_start by auto
qed

text \<open>The two calls with which a run begins: the resume block and the head of the chain.\<close>

lemma latest_cases:
  assumes "wrapping s (latest_block env) w = (r, w')"
  shows "w_db w' = w_db w"
  using assms by (auto simp: wrapping_def latest_block_def rpc_def split: sum.splits)

lemma token_backfill_cases:
  assumes "token_run_backfill env ti target w = Some ((prev, n, err), w')"
  obtains (failed) "err \<noteq> None" "prev = 0" "w_db w' = w_db w"
  | (looped) lo w1 w2 goal where "token_start_block env ti w = (Inr lo, w1)" "w_db w2 = w_db w1"
      "if lo > goal then prev = goal \<and> err = None \<and> w' = w2
       else chunk_loop (token_chunk env ''token index range'' ti) (ti_batch ti) goal lo (lo - 1) 0 w2
              = Some ((prev, n, err), w')"
proof -
  obtain r w1 where st: "token_start_block env ti w = (r, w1)" by fastforce
  obtain l w2 where lt: "wrapping ''failed to fetch latest block'' (latest_block env) w1 = (l, w2)" by fastforce
  show ?thesis
  proof (cases r)
    case (Inl e)
    then show ?thesis using assms st failed token_start_Inl [of env ti w e w1] by (auto simp: token_run_backfill_def)
  next
    case (Inr lo)
    have db: "w_db w2 = w_db w1" by (rule latest_cases [OF lt])
    show ?thesis
    proof (cases l)
      case (Inl e)
      then show ?thesis using assms st Inr lt db failed token_start_Inr [of env ti w lo w1]
        by (auto simp: token_run_backfill_def)
    next
      case l: (Inr latest)
      show ?thesis
        by (rule looped [of lo w1 w2 "token_target target (token_safe_block (ti_depth ti) latest)"])
           (use assms st Inr lt db l in \<open>auto simp: token_run_backfill_def Let_def split: if_splits\<close>)
    qed
  qed
qed

lemma token_backfill_safe:
  assumes node: "honest_topics env (ti_token ti) logs"
    and safe: "token_safe ti logs (w_db w)"
    and run: "token_run_backfill env ti target w = Some ((prev, n, err), w')"
  shows "token_safe ti logs (w_db w') \<and>
    (err = None \<longrightarrow>
       (\<forall>lg \<in> set logs. ti_start ti \<le> l_block lg \<and> l_block lg \<le> prev \<and> token_known ti lg \<longrightarrow>
          token_recorded ti (w_db w') lg))"
  using run
proof (cases rule: token_backfill_cases)
  case failed
  then show ?thesis using safe by auto
next
  case (looped lo w1 w2 goal)
  note res = token_resume [OF node looped(1) safe, folded looped(2)]
  show ?thesis
  proof (cases "goal < lo")
    case True
    then have eqs: "prev = goal" "w' = w2" using looped(3) by simp_all
    have "token_recorded ti (w_db w2) lg"
      if "lg \<in> set logs" "ti_start ti \<le> l_block lg" "l_block lg \<le> goal" "token_known ti lg" for lg
      using res node that le_less_trans [OF that(3) True] unfolding token_stream.covered_def by blast
    then show ?thesis using res unfolding token_safe_iff [OF node] eqs by blast
  next
    case False
    then have "chunk_loop (token_chunk env ''token index range'' ti) (ti_batch ti) goal lo (lo - 1) 0 w2
        = Some ((prev, n, err), w')" using looped(3) by simp
    from token_stream.chunk_loop_safe [OF this conjunct1 [OF res] conjunct2 [OF res]]
    have good: "token_stream.good_result ti (ti_start ti) logs env goal lo (lo - 1) w2 ((prev, n, err), w')"
      by simp
    have "token_safe ti logs (w_db w')"
      using good unfolding token_stream.good_result_def token_safe_iff [OF node] by simp
    moreover have "\<forall>lg \<in> set logs. ti_start ti \<le> l_block lg \<and> l_block lg \<le> prev \<and> token_known ti lg \<longrightarrow>
        token_recorded ti (w_db w') lg" if "err = None"
      using good node that False unfolding token_stream.good_result_def by (simp add: not_less)
    ultimately show ?thesis by blast
  qed
qed

text \<open>
  C12. Checkpoint safety of the token backfill. Against an honest node, whatever fails on the way,
  after \<open>RunBackfill\<close> every Transfer log, and every Approval log when the ABI has the event, from
  the start block up to the saved checkpoint has its row in \<open>chain_events\<close>, and a Transfer its row
  in \<open>token_transfers\<close>, if it was so before. A run without error recorded every such log up to the
  block it reports.
\<close>

theorem token_checkpoint_safety:
  assumes node: "honest_topics env (ti_token ti) logs"
    and safe: "token_safe ti logs (w_db w)"
    and run: "token_run_backfill env ti target w = Some ((prev, n, err), w')"
  shows "token_safe ti logs (w_db w') \<and>
    (err = None \<longrightarrow>
       (\<forall>lg \<in> set logs. ti_start ti \<le> l_block lg \<and> l_block lg \<le> prev \<and> token_known ti lg \<longrightarrow>
          token_recorded ti (w_db w') lg))"
  by (rule token_backfill_safe [OF assms])

text \<open>A token with a Transfer in block 10, an Approval in the same block before it, head at 20.\<close>

definition sample_filterer :: erc20_filterer where
  "sample_filterer = \<lparr>f_token = 9, f_transfer_id = 100, f_has_approval = True, f_approval_id = 200,
     f_unpack_transfer = (\<lambda>d. Inr [BigInt (set_bytes d)]), f_unpack_approval = (\<lambda>d. Inr [BigInt (set_bytes d)])\<rparr>"

definition sample_transfer_log :: evm_log where
  "sample_transfer_log = \<lparr>l_address = 9, l_topics = [100, 1, 2], l_data = [7], l_block = 10, l_tx = 77,
     l_index = 4, l_removed = False\<rparr>"

definition sample_approval_log :: evm_log where
  "sample_approval_log = \<lparr>l_address = 9, l_topics = [200, 1, 2], l_data = [8], l_block = 10, l_tx = 77,
     l_index = 3, l_removed = False\<rparr>"

definition sample_token :: token_indexer where
  "sample_token = \<lparr>ti_filterer = sample_filterer, ti_chain = 1, ti_stream = ''t'', ti_start = 8, ti_batch = 3,
     ti_depth = 6, ti_policy = new_retryer (default_retry_policy False)\<rparr>"

definition token_env :: env where
  "token_env = calm_env\<lparr>rpc_latest := (\<lambda>_. Inr 20),
     rpc_token_logs := (\<lambda>n c topic lo hi. Inr (filter (\<lambda>lg. lo \<le> l_block lg \<and> l_block lg \<le> hi \<and>
        l_topics lg \<noteq> [] \<and> hd (l_topics lg) = topic) [sample_transfer_log, sample_approval_log])),
     rpc_tx := (\<lambda>_ h. Inr (Some \<lparr>tm_hash = h, tm_block = 10, tm_sender = 1, tm_recipient = None,
        tm_gas = 21000, tm_status = 1\<rparr>)),
     rpc_timestamp := (\<lambda>_ _. Inr 1000)\<rparr>"

lemma token_env_honest: "honest_topics token_env (ti_token sample_token) [sample_transfer_log, sample_approval_log]"
  by (auto simp: honest_topics_def token_env_def)

lemma token_safe_empty: "token_safe sample_token logs (w_db empty_world)"
  by (simp add: token_safe_def empty_world_def empty_database_def checkpoint_of_def)

theorem token_checkpoint_safety_witness:
  "\<exists>w'. token_run_backfill token_env sample_token 0 empty_world = Some ((14, 1, None), w') \<and>
     token_safe sample_token [sample_transfer_log, sample_approval_log] (w_db w') \<and>
     token_recorded sample_token (w_db w') sample_transfer_log \<and>
     token_recorded sample_token (w_db w') sample_approval_log"
proof -
  have "map_option fst (token_run_backfill token_env sample_token 0 empty_world) = Some (14, 1, None)"
    by code_simp
  then obtain w' where run: "token_run_backfill token_env sample_token 0 empty_world = Some ((14, 1, None), w')"
    by auto
  have "token_known sample_token sample_transfer_log" "token_known sample_token sample_approval_log"
    "ti_start sample_token \<le> 10" "l_block sample_transfer_log = 10" "l_block sample_approval_log = 10"
    by (simp_all add: token_known_def token_transfer_log_def has_approval_def approval_topic_def
        sample_token_def sample_filterer_def sample_transfer_log_def sample_approval_log_def)
  then show ?thesis
    using token_checkpoint_safety [OF token_env_honest token_safe_empty run] run by simp
qed

section \<open>The content of a range\<close>

text \<open>Statements that leave the transfers, or the profiles, fundings, claims and escrow events, alone.\<close>

definition same_transfers :: "database \<Rightarrow> database \<Rightarrow> bool" where
  "same_transfers d d' \<longleftrightarrow> token_transfers d' = token_transfers d"

definition same_others :: "database \<Rightarrow> database \<Rightarrow> bool" where
  "same_others d d' \<longleftrightarrow> employers d' = employers d \<and> employees d' = employees d \<and>
     payroll_fundings d' = payroll_fundings d \<and> salary_claims d' = salary_claims d \<and>
     escrow_events d' = escrow_events d"

interpretation transfers_kept: db_relation same_transfers
  by unfold_locales (auto simp: same_transfers_def)

interpretation others_kept: db_relation same_others
  by unfold_locales (auto simp: same_others_def)

lemma stmt_same:
  "stmt_transaction r d = Inr d' \<Longrightarrow> same_transfers d d' \<and> same_others d d'"
  "stmt_chain_event e d = Inr d' \<Longrightarrow> same_transfers d d' \<and> same_others d d'"
  "stmt_checkpoint c d = Inr d' \<Longrightarrow> same_transfers d d' \<and> same_others d d'"
  "stmt_transfer t d = Inr d' \<Longrightarrow> same_others d d'"
  by (auto simp: stmt_defs same_transfers_def same_others_def split: if_splits)

lemma transfers_kept_parts:
  "transfers_kept.keeps (batch_transaction env chain meta)"
  "transfers_kept.keeps (batch_raw_event env chain raw)"
  "transfers_kept.keeps (checkpoint_in_batch env msg chain stream b h)"
  by (auto simp: persistence_defs dest: stmt_same split: option.split
      intro!: transfers_kept.keeps_rules transfers_kept.keeps_exec)

lemma others_kept_parts:
  "others_kept.keeps (batch_transaction env chain meta)"
  "others_kept.keeps (batch_raw_event env chain raw)"
  "others_kept.keeps (batch_transfer env t)"
  "others_kept.keeps (checkpoint_in_batch env msg chain stream b h)"
  by (auto simp: persistence_defs dest: stmt_same split: option.split
      intro!: others_kept.keeps_rules others_kept.keeps_exec)

definition insert_transfers :: "token_transfer list \<Rightarrow> transfer_row list \<Rightarrow> transfer_row list" where
  "insert_transfers ts rows = fold (\<lambda>t. upsert tr_key tr_merge (transfer_row_of t)) ts rows"

lemma batch_transfers_exact:
  "for_each (\<lambda>t _. batch_transfer env t) (map Some ts) () w = (Inr u, w') \<Longrightarrow>
     token_transfers (w_db w') = insert_transfers ts (token_transfers (w_db w))"
proof (induction ts arbitrary: w)
  case Nil
  then show ?case by (simp add: ret_eq insert_transfers_def)
next
  case (Cons t ts)
  then obtain v w1 where one: "batch_transfer env (Some t) w = (Inr v, w1)"
    and rest: "for_each (\<lambda>t _. batch_transfer env t) (map Some ts) () w1 = (Inr u, w')"
    by (auto simp: bind_Inr)
  have "token_transfers (w_db w1) = upsert tr_key tr_merge (transfer_row_of t) (token_transfers (w_db w))"
    using one by (auto simp: batch_transfer_def Inr_iffs stmt_transfer_def split: if_splits)
  then show ?case using Cons.IH [OF rest] by (simp add: insert_transfers_def)
qed

lemma save_token_batch_exact:
  assumes "save_token_batch env chain stream metas raws (map Some ts) b h w = (Inr u, w')"
  shows "token_transfers (w_db w') = insert_transfers ts (token_transfers (w_db w)) \<and>
    same_others (w_db w) (w_db w')"
proof -
  let ?msg = "''failed to update checkpoint for '' @ stream @ '' to block '' @ dec_u64 b @ '' in batch''"
  obtain w1 w2 w3 w4 where m: "for_each (\<lambda>m _. batch_transaction env chain m) metas () (next_tick w) = (Inr (), w1)"
    and r: "for_each (\<lambda>re _. batch_raw_event env chain re) raws () w1 = (Inr (), w2)"
    and t: "for_each (\<lambda>t _. batch_transfer env t) (map Some ts) () w2 = (Inr (), w3)"
    and cp: "checkpoint_in_batch env ?msg chain stream b h w3 = (Inr (), w4)" and db: "w_db w' = w_db w4"
    using in_transaction_Inr [OF assms [unfolded save_token_batch_def]] by (auto simp: bind_Inr)
  have k: "transfers_kept.keeps (for_each (\<lambda>m _. batch_transaction env chain m) metas ())"
    "transfers_kept.keeps (for_each (\<lambda>re _. batch_raw_event env chain re) raws ())"
    by (intro transfers_kept.keeps_for_each transfers_kept_parts)+
  have o: "others_kept.keeps (for_each (\<lambda>m _. batch_transaction env chain m) metas ())"
    "others_kept.keeps (for_each (\<lambda>re _. batch_raw_event env chain re) raws ())"
    "others_kept.keeps (for_each (\<lambda>t _. batch_transfer env t) (map Some ts) ())"
    by (intro others_kept.keeps_for_each others_kept_parts)+
  show ?thesis
    using transfers_kept.keepsD [OF k(1) m] transfers_kept.keepsD [OF k(2) r] batch_transfers_exact [OF t]
      transfers_kept.keepsD [OF transfers_kept_parts(3) cp]
      others_kept.keepsD [OF o(1) m] others_kept.keepsD [OF o(2) r] others_kept.keepsD [OF o(3) t]
      others_kept.keepsD [OF others_kept_parts(4) cp]
    by (simp add: db same_transfers_def same_others_def)
qed

text \<open>Sorting keeps the logs and orders them.\<close>

definition in_chain_order :: "evm_log list \<Rightarrow> bool" where
  "in_chain_order lgs \<longleftrightarrow> sorted (map log_position lgs)"

lemma sort_logs_order [simp]: "in_chain_order (sort_logs lgs)"
  by (simp add: in_chain_order_def sort_logs_def)

text \<open>
  What \<open>collectLogs\<close> makes of the two answers of the node: \<open>sort.Slice\<close> is reached only when approvals came
  back; the answer to the transfer query alone keeps the order the node gave it.
\<close>

lemma token_logs_collected:
  assumes "token_logs env ti lo hi w = (Inr lgs, w')"
  shows "\<exists>trs apprs.
    rpc_token_logs env (w_tick w) (ti_token ti) (f_transfer_id (ti_filterer ti)) lo hi = Inr trs \<and>
    (if has_approval ti then rpc_token_logs env (Suc (w_tick w)) (ti_token ti)
        (fst (approval_topic (ti_filterer ti))) lo hi = Inr apprs else apprs = []) \<and>
    mset lgs = mset (trs @ apprs) \<and> (apprs = [] \<longrightarrow> lgs = trs) \<and>
    (apprs \<noteq> [] \<or> in_chain_order trs \<longrightarrow> in_chain_order lgs)"
proof -
  obtain trs where trs: "Inr trs = rpc_token_logs env (w_tick w) (ti_token ti) (f_transfer_id (ti_filterer ti)) lo hi"
    and rest: "if has_approval ti then \<exists>apprs. Inr apprs = rpc_token_logs env (Suc (w_tick w)) (ti_token ti)
        (fst (approval_topic (ti_filterer ti))) lo hi \<and> lgs = (if apprs = [] then trs else sort_logs (trs @ apprs))
      else lgs = trs"
    using assms by (fastforce simp: token_logs_def bind_Inr get_token_logs_def rpc_eq ret_eq split: if_splits)
  show ?thesis
  proof (cases "has_approval ti")
    case True
    then obtain apprs where "Inr apprs = rpc_token_logs env (Suc (w_tick w)) (ti_token ti)
        (fst (approval_topic (ti_filterer ti))) lo hi" "lgs = (if apprs = [] then trs else sort_logs (trs @ apprs))"
      using rest by auto
    then show ?thesis using True trs [symmetric]
      by (intro exI [of _ trs] exI [of _ apprs]) (auto simp: sort_logs_def in_chain_order_def)
  next
    case False
    then show ?thesis using rest trs [symmetric] by (intro exI [of _ trs] exI [of _ "[]"]) simp
  qed
qed

text \<open>
  C13. A token range is exact. When \<open>IndexRange\<close> fails, no row and no checkpoint has changed. When it
  succeeds, it has collected the node's answer to the transfer query and, with an approval event in
  the ABI, to the approval query, no log lost or doubled; the returned transfers are the decoded
  Transfer logs of that collection, each once and in its order, and \<open>token_transfers\<close> is the old table
  with exactly their rows upserted in that order; the tables of the other indexers are untouched.
  The order is chain order when approvals came back, for then the code sorts; without any it is the
  order of the node's answer, so chain order when the node answers in chain order.
\<close>

theorem token_range_exact:
  assumes run: "token_index_range env ti lo hi w = (r, w')"
  shows "case r of
      Inl e \<Rightarrow> w_db w' = w_db w
    | Inr ts \<Rightarrow> token_transfers (w_db w') = insert_transfers ts (token_transfers (w_db w)) \<and>
        same_others (w_db w) (w_db w') \<and>
        (\<exists>trs apprs lgs stamps.
           rpc_token_logs env (w_tick w) (ti_token ti) (f_transfer_id (ti_filterer ti)) lo hi = Inr trs \<and>
           (if has_approval ti then rpc_token_logs env (Suc (w_tick w)) (ti_token ti)
               (fst (approval_topic (ti_filterer ti))) lo hi = Inr apprs else apprs = []) \<and>
           mset lgs = mset (trs @ apprs) \<and> (apprs = [] \<longrightarrow> lgs = trs) \<and>
           (apprs \<noteq> [] \<or> in_chain_order trs \<longrightarrow> in_chain_order lgs) \<and>
           list_all2 (transfer_of_log env ti stamps) (filter (token_transfer_log ti) lgs) ts)"
  using run
proof (cases rule: token_range_cases)
  case (failed e)
  then show ?thesis by simp
next
  case (stored ts raws metas h w1)
  obtain lgs stamps w2 where got: "token_logs env ti lo hi w = (Inr lgs, w2)"
    and decoded: "list_all2 (transfer_of_log env ti stamps) (filter (token_transfer_log ti) lgs) ts"
    by (rule token_collect_Inr [OF stored(4)]) blast
  have saved: "token_transfers (w_db w') = insert_transfers ts (token_transfers (w_db w)) \<and> same_others (w_db w) (w_db w')"
    using save_token_batch_exact [OF stored(5)] stored(3) by simp
  show ?thesis
    unfolding stored(1) sum.case using saved token_logs_collected [OF got] decoded by blast
qed

theorem token_range_exact_witness:
  "case token_index_range token_env sample_token 10 12 empty_world of (r, w') \<Rightarrow>
     (case r of Inl e \<Rightarrow> False
      | Inr ts \<Rightarrow> token_transfers (w_db w') = insert_transfers ts [] \<and> length ts = 1)"
proof -
  have "(case fst (token_index_range token_env sample_token 10 12 empty_world) of Inl _ \<Rightarrow> 0 | Inr ts \<Rightarrow> length ts) = 1"
    by code_simp
  then obtain ts w' where run: "token_index_range token_env sample_token 10 12 empty_world = (Inr ts, w')" "length ts = 1"
    by (cases "token_index_range token_env sample_token 10 12 empty_world"; cases "fst (token_index_range token_env sample_token 10 12 empty_world)") auto
  show ?thesis
    using token_range_exact [OF run(1)] run by (simp add: empty_world_def empty_database_def)
qed

section \<open>One step at a time\<close>

lemma process_next_batch_cases:
  assumes "process_next_batch env ti w = ((b, lo, hi, n, err), w')"
  obtains (idle) "\<not> b" "w_db w' = w_db w"
  | (failed) e where "\<not> b" "err = Some e" "w_db w' = w_db w"
  | (indexed) w1 w2 ts latest where "b" "err = None" "w_db w1 = w_db w" "token_start_block env ti w = (Inr lo, w1)"
      "token_index_range env ti lo hi w2 = (Inr ts, w')" "w_db w2 = w_db w" "n = int (length ts)"
      "rpc_latest env (w_tick w1) = Inr latest" "hi = chunk_end (ti_batch ti) (token_safe_block (ti_depth ti) latest) lo"
      "lo \<le> token_safe_block (ti_depth ti) latest"
proof -
  obtain r w1 where st: "token_start_block env ti w = (r, w1)" by fastforce
  show ?thesis
  proof (cases r)
    case (Inl e)
    then show ?thesis using assms st idle token_start_Inl [of env ti w e w1] by (auto simp: process_next_batch_def)
  next
    case (Inr from')
    note db1 = conjunct1 [OF token_start_Inr [OF st [unfolded Inr]]]
    show ?thesis
    proof (cases "rpc_latest env (w_tick w1)")
      case (Inl e)
      then show ?thesis using assms st \<open>r = Inr from'\<close> db1 idle
        by (auto simp: process_next_batch_def wrapping_def latest_block_def rpc_def)
    next
      case l: (Inr latest)
      let ?safe = "token_safe_block (ti_depth ti) latest"
      let ?hi = "chunk_end (ti_batch ti) ?safe from'"
      have unf: "process_next_batch env ti w =
          (if from' > ?safe then ((False, from', ?safe, 0, None), next_tick w1)
           else case token_index_range_with_retry env ti from' ?hi (next_tick w1) of
               (Inl e, w3) \<Rightarrow> ((False, from', ?hi, 0, Some e), w3)
             | (Inr ts, w3) \<Rightarrow> ((True, from', ?hi, int (length ts), None), w3))"
        using st Inr l by (simp add: process_next_batch_def wrapping_def latest_block_def rpc_def Let_def)
      show ?thesis
      proof (cases "from' > ?safe")
        case True
        then show ?thesis using assms unf db1 idle by auto
      next
        case False
        obtain s w3 where run: "token_index_range_with_retry env ti from' ?hi (next_tick w1) = (s, w3)" by fastforce
        show ?thesis
        proof (cases s)
          case (Inl e)
          then have "w_db w3 = w_db w"
            using untouched.retry_range_Inl [OF token_keeps_err run [unfolded Inl token_index_range_with_retry_def]] db1
            by simp
          then show ?thesis using assms unf False run Inl failed [of e] by auto
        next
          case s: (Inr ts)
          obtain w2 where w2: "w_db w2 = w_db (next_tick w1)" "token_index_range env ti from' ?hi w2 = (Inr ts, w3)"
            using untouched.retry_range_Inr [OF token_keeps_err run [unfolded s token_index_range_with_retry_def]]
            by blast
          have eqs: "b" "lo = from'" "hi = ?hi" "n = int (length ts)" "err = None" "w' = w3"
            using assms unf False run s by auto
          show ?thesis
            by (rule indexed [of w1 w2 ts latest]) (use eqs(1,4,5,6) st Inr l w2 db1 False in \<open>simp_all add: not_less eqs(2,3)\<close>)
        qed
      qed
    qed
  qed
qed

text \<open>
  One step of the token indexer. When \<open>ProcessNextBatch\<close> reports a batch, the batch starts at
  the resume block, ends at or below the safe block of the head it saw, spans at most the batch
  size, and the checkpoint of the stream is its end; when it reports none, with or without an
  error, the database has not changed. Checkpoint safety is kept in every case.
\<close>

theorem process_next_batch_step:
  assumes node: "honest_topics env (ti_token ti) logs" and safe: "token_safe ti logs (w_db w)"
    and run: "process_next_batch env ti w = ((b, lo, hi, n, err), w')"
  shows "token_safe ti logs (w_db w') \<and> (\<not> b \<longrightarrow> w_db w' = w_db w) \<and>
    (b \<longrightarrow> err = None \<and> lo \<le> hi \<and> hi \<le> lo + ti_batch ti - 1 \<and>
       (\<exists>k latest. rpc_latest env k = Inr latest \<and> hi \<le> token_safe_block (ti_depth ti) latest) \<and>
       (ti_stream ti \<noteq> [] \<and> 0 < hi \<longrightarrow> checkpoint_of (w_db w') (ti_chain ti) (ti_stream ti) = Some hi))"
  using run
proof (cases rule: process_next_batch_cases)
  case (indexed w1 w2 ts latest)
  note rng = token_range_Inr [OF indexed(5)]
  note res = token_resume [OF node indexed(4) safe]
  have cov: "token_recorded ti (w_db w') lg"
    if "lg \<in> set logs" "ti_start ti \<le> l_block lg" "l_block lg \<le> hi" "token_known ti lg" for lg
  proof (cases "lo \<le> l_block lg")
    case True
    then show ?thesis using rng(2) [OF node that(1) True that(3,4)] by simp
  next
    case False
    then have "token_recorded ti (w_db w1) lg"
      using res node that unfolding token_stream.covered_def by (simp add: not_le)
    moreover have "db_grows (w_db w1) (w_db w')"
      using grows_of [OF law_keeps_token_range indexed(5)] indexed(3,6) by simp
    ultimately show ?thesis using token_recorded_mono by blast
  qed
  have grows: "db_grows (w_db w) (w_db w')"
    using grows_of [OF law_keeps_token_range indexed(5)] indexed(6) by simp
  have "token_safe ti logs (w_db w')"
  proof (cases "ti_stream ti \<noteq> [] \<and> 0 < hi")
    case True
    then show ?thesis using rng(3) cov by (simp add: token_safe_def)
  next
    case False
    then have "checkpoint_of (w_db w') (ti_chain ti) (ti_stream ti) = checkpoint_of (w_db w) (ti_chain ti) (ti_stream ti)"
      using rng(3) indexed(6) by auto
    then show ?thesis using safe token_recorded_mono [OF grows] unfolding token_safe_def by simp
  qed
  moreover have "hi \<le> token_safe_block (ti_depth ti) latest" "hi \<le> lo + ti_batch ti - 1"
    using indexed(9,10) chunk_end_le [OF indexed(10)] by (auto simp: chunk_end_def not_less)
  ultimately show ?thesis using indexed(1,2,8) rng(1,3) by auto
qed (use safe in simp_all)

theorem process_next_batch_step_witness:
  "\<exists>w'. process_next_batch token_env sample_token empty_world = ((True, 8, 10, 1, None), w') \<and>
     token_safe sample_token [sample_transfer_log, sample_approval_log] (w_db w') \<and>
     checkpoint_of (w_db w') 1 ''t'' = Some 10"
proof -
  have "fst (process_next_batch token_env sample_token empty_world) = (True, 8, 10, 1, None)"
    by code_simp
  then obtain w' where run: "process_next_batch token_env sample_token empty_world = ((True, 8, 10, 1, None), w')"
    by (metis prod.collapse)
  show ?thesis
    using process_next_batch_step [OF token_env_honest token_safe_empty run] run
    by (simp add: sample_token_def)
qed

end
