(* ===== verification/Escrow_Properties.thy ===== *)
theory Escrow_Properties
  imports Escrow_Indexer
begin

text \<open>
  What the escrow indexer guarantees: checkpoint safety of its backfill, atomicity of a range
  with respect to database and notifications, the numeric bounds of the decoded fields, and the
  loss of events when a block timestamp cannot be fetched.
\<close>

section \<open>Checkpoint safety\<close>

definition escrow_safe :: "escrow_indexer \<Rightarrow> evm_log list \<Rightarrow> database \<Rightarrow> bool" where
  "escrow_safe ei logs d \<longleftrightarrow>
     (\<forall>c. checkpoint_of d (ei_chain ei) (ei_stream ei) = Some c \<longrightarrow>
        (\<forall>lg \<in> set logs. ei_start ei \<le> l_block lg \<and> l_block lg \<le> c \<and> escrow_known ei lg \<longrightarrow>
           escrow_recorded (ei_chain ei) (ei_contract ei) d lg))"

lemma escrow_safe_iff:
  assumes "honest env (ei_contract ei) logs" "timestamps_answered env"
  shows "escrow_stream.safe ei (ei_start ei) logs env d \<longleftrightarrow> escrow_safe ei logs d"
  using assms unfolding escrow_stream.safe_def escrow_safe_def by blast

lemma escrow_resume:
  assumes "honest env (ei_contract ei) logs" "timestamps_answered env"
    and "escrow_start_block env ei w = (Inr lo, w1)" "escrow_safe ei logs (w_db w)"
  shows "escrow_stream.safe ei (ei_start ei) logs env (w_db w1) \<and>
    escrow_stream.covered (ei_start ei) logs env ei lo (w_db w1)"
proof -
  note st = escrow_start_Inr [OF assms(3)]
  have safe: "escrow_stream.safe ei (ei_start ei) logs env (w_db w1)"
    using st assms(4) by (simp add: escrow_safe_iff [OF assms(1,2)])
  then show ?thesis
    using st escrow_stream.covered_resume [OF safe] escrow_stream.covered_start by auto
qed

lemma escrow_backfill_safe:
  assumes node: "honest env (ei_contract ei) logs" "timestamps_answered env"
    and safe: "escrow_safe ei logs (w_db w)"
    and run: "escrow_run_backfill env ei target w = Some ((prev, n, err), w')"
  shows "escrow_safe ei logs (w_db w') \<and>
    (err = None \<longrightarrow> prev = target \<and>
       (\<forall>lg \<in> set logs. ei_start ei \<le> l_block lg \<and> l_block lg \<le> target \<and> escrow_known ei lg \<longrightarrow>
          escrow_recorded (ei_chain ei) (ei_contract ei) (w_db w') lg))"
proof -
  obtain r w1 where st: "escrow_start_block env ei w = (r, w1)" by fastforce
  show ?thesis
  proof (cases r)
    case (Inl e)
    then have "err \<noteq> None" "w' = w1" using run st by (auto simp: escrow_run_backfill_def)
    then show ?thesis using st Inl escrow_start_Inl [of env ei w e w1] safe by auto
  next
    case (Inr lo)
    note res = escrow_resume [OF node st [unfolded Inr] safe]
    have db: "w_db w1 = w_db w" using escrow_start_Inr [OF st [unfolded Inr]] by simp
    show ?thesis
    proof (cases "target < lo")
      case True
      then have "prev = target" "w' = w1" using run st Inr by (simp_all add: escrow_run_backfill_def)
      moreover have "escrow_recorded (ei_chain ei) (ei_contract ei) (w_db w1) lg"
        if "lg \<in> set logs" "ei_start ei \<le> l_block lg" "l_block lg \<le> target" "escrow_known ei lg" for lg
        using res node that le_less_trans [OF that(3) True] unfolding escrow_stream.covered_def by blast
      ultimately show ?thesis using safe db by simp
    next
      case False
      then have "chunk_loop (escrow_chunk env ''escrow backfill'' ei) (ei_batch ei) target lo (lo - 1) 0 w1
          = Some ((prev, n, err), w')"
        using run st Inr by (simp add: escrow_run_backfill_def)
      from escrow_stream.chunk_loop_safe [OF this conjunct1 [OF res] conjunct2 [OF res]]
      have good: "escrow_stream.good_result ei (ei_start ei) logs env target lo (lo - 1) w1 ((prev, n, err), w')"
        by simp
      have "escrow_safe ei logs (w_db w')"
        using good unfolding escrow_stream.good_result_def escrow_safe_iff [OF node] by simp
      moreover have "prev = target \<and>
         (\<forall>lg \<in> set logs. ei_start ei \<le> l_block lg \<and> l_block lg \<le> target \<and> escrow_known ei lg \<longrightarrow>
          escrow_recorded (ei_chain ei) (ei_contract ei) (w_db w') lg)" if "err = None"
        using good node that False unfolding escrow_stream.good_result_def by (simp add: not_less)
      ultimately show ?thesis by blast
    qed
  qed
qed

text \<open>
  C2. Checkpoint safety of the escrow backfill. Against an honest node that answers every request
  for a block timestamp, whatever else fails, after \<open>RunBackfill\<close> every log of the contract with an
  event of the ABI, from the start block up to the saved checkpoint, is in \<open>escrow_events\<close>, if
  it was so before; a run without error has reached its target and recorded everything up to it.
\<close>

theorem escrow_checkpoint_safety:
  assumes node: "honest env (ei_contract ei) logs" "timestamps_answered env"
    and safe: "escrow_safe ei logs (w_db w)"
    and run: "escrow_run_backfill env ei target w = Some ((prev, n, err), w')"
  shows "escrow_safe ei logs (w_db w') \<and>
    (err = None \<longrightarrow> prev = target \<and>
       (\<forall>lg \<in> set logs. ei_start ei \<le> l_block lg \<and> l_block lg \<le> target \<and> escrow_known ei lg \<longrightarrow>
          escrow_recorded (ei_chain ei) (ei_contract ei) (w_db w') lg))"
  by (rule escrow_backfill_safe [OF assms])

text \<open>An escrow created in block 10, of 5 units, with the canonical topics.\<close>

definition sample_escrow_log :: evm_log where
  "sample_escrow_log = \<lparr>l_address = 9, l_topics = [topic_escrow_created, 42, 1, 2],
     l_data = replicate 31 0 @ [5], l_block = 10, l_tx = 77, l_index = 3, l_removed = False\<rparr>"

definition sample_escrow :: escrow_indexer where
  "sample_escrow = escrow_defaults \<lparr>
     ei_event_by_id = (\<lambda>t. if t = topic_escrow_created then Inr ''EscrowCreated'' else Inl (new_error ''no event'')),
     ei_redis = True, ei_contract = 9, ei_chain = 1, ei_stream = [], ei_start = 8, ei_batch = 3,
     ei_policy = default_retry_policy True\<rparr>"

definition escrow_env :: env where
  "escrow_env = calm_env\<lparr>rpc_logs := (\<lambda>n c lo hi.
     Inr (filter (\<lambda>lg. lo \<le> l_block lg \<and> l_block lg \<le> hi) [sample_escrow_log]))\<rparr>"

theorem escrow_checkpoint_safety_witness:
  "\<exists>w'. escrow_run_backfill escrow_env sample_escrow 12 empty_world = Some ((12, 1, None), w') \<and>
     escrow_safe sample_escrow [sample_escrow_log] (w_db w') \<and>
     escrow_recorded 1 9 (w_db w') sample_escrow_log"
proof -
  have "map_option fst (escrow_run_backfill escrow_env sample_escrow 12 empty_world) = Some (12, 1, None)"
    by code_simp
  then obtain w' where run: "escrow_run_backfill escrow_env sample_escrow 12 empty_world = Some ((12, 1, None), w')"
    by auto
  have ei: "ei_contract sample_escrow = 9" "ei_chain sample_escrow = 1" "ei_start sample_escrow = 8"
    by (simp_all add: sample_escrow_def escrow_defaults_def)
  have node: "honest escrow_env (ei_contract sample_escrow) [sample_escrow_log]" "timestamps_answered escrow_env"
    by (auto simp: honest_def escrow_env_def timestamps_answered_def calm_env_def)
  have init: "escrow_safe sample_escrow [sample_escrow_log] (w_db empty_world)"
    by (simp add: escrow_safe_def empty_world_def empty_database_def checkpoint_of_def)
  have "escrow_known sample_escrow sample_escrow_log"
    by (simp add: escrow_known_def sample_escrow_def escrow_defaults_def sample_escrow_log_def)
  then show ?thesis
    using escrow_checkpoint_safety [OF node init run] run by (simp add: ei sample_escrow_log_def)
qed

section \<open>Atomicity and notifications\<close>

text \<open>Methods that leave the trace of sleeps and notifications alone.\<close>

interpretation quiet: effect_relation "\<lambda>w w'. w_trace w' = w_trace w"
  by unfold_locales simp_all

lemma quiet_keeps_exec: "quiet.keeps (exec_sql env f)"
  by (auto simp: quiet.keeps_def exec_sql_def split: option.splits sum.splits)

lemma quiet_keeps_transaction:
  assumes "quiet.keeps m"
  shows "quiet.keeps (in_transaction env b c m)"
  unfolding quiet.keeps_def
proof
  fix w
  obtain r w1 where m: "m (next_tick w) = (r, w1)" by (cases "m (next_tick w)") auto
  have "w_trace w1 = w_trace w" using quiet.keepsD [OF assms m] by simp
  with m show "w_trace (snd (in_transaction env b c m w)) = w_trace w"
    by (auto simp: in_transaction_def split: option.splits sum.splits)
qed

lemma quiet_keeps_collect: "quiet.keeps (escrow_collect env ei lo hi)"
  unfolding escrow_collect_def escrow_step_def decode_escrow_log_def escrow_timestamp_def
  by (auto intro!: quiet.keeps_rules split: option.split prod.split sum.split)

lemma quiet_keeps_batch: "quiet.keeps (save_escrow_batch env chain stream evs b h)"
  unfolding save_escrow_batch_def checkpoint_in_batch_def
  by (auto intro!: quiet_keeps_transaction quiet.keeps_rules quiet_keeps_exec split: option.split)

definition escrow_notices :: "env \<Rightarrow> escrow_event list \<Rightarrow> effect list" where
  "escrow_notices env evs =
     concat (map (\<lambda>ev. [Publish ''wtf:chain:events'' (escrow_payload env ev),
                      Publish ''wtf:chain:settled'' (escrow_payload env ev)]) evs)"

lemma publish_all_trace:
  assumes "\<And>n. redis_fault env n = None"
  shows "for_each (\<lambda>ev _. publish_escrow env ev) evs () w = (r, w') \<Longrightarrow>
    w_trace w' = w_trace w @ escrow_notices env evs"
  by (induction evs arbitrary: w)
     (auto simp: publish_escrow_def publish_def assms go_unfold escrow_notices_def)

text \<open>Without these faults some of them are missing, in no other order.\<close>

lemma publish_trace:
  "fst (publish env ch msg w) = Inr () \<and> (\<exists>sent. subseq sent [Publish ch msg] \<and>
     w_trace (snd (publish env ch msg w)) = w_trace w @ sent)"
  by (auto simp: publish_def split: option.split intro: exI [of _ "[]"] exI [of _ "[Publish ch msg]"])

lemma publish_escrow_trace:
  assumes "publish_escrow env ev w = (r, w')"
  shows "r = Inr () \<and> (\<exists>sent. subseq sent (escrow_notices env [ev]) \<and> w_trace w' = w_trace w @ sent)"
proof -
  let ?p = "escrow_payload env ev"
  obtain w1 where one: "publish env ''wtf:chain:events'' ?p w = (Inr (), w1)"
    using publish_trace [of env "''wtf:chain:events''" ?p w] by (metis prod.collapse)
  obtain a where a: "subseq a [Publish ''wtf:chain:events'' ?p]" "w_trace w1 = w_trace w @ a"
    using publish_trace [of env "''wtf:chain:events''" ?p w] one by auto
  obtain w2 where two: "publish env ''wtf:chain:settled'' ?p w1 = (Inr (), w2)"
    using publish_trace [of env "''wtf:chain:settled''" ?p w1] by (metis prod.collapse)
  obtain b where b: "subseq b [Publish ''wtf:chain:settled'' ?p]" "w_trace w2 = w_trace w1 @ b"
    using publish_trace [of env "''wtf:chain:settled''" ?p w1] two by auto
  have "subseq (a @ b) (escrow_notices env [ev])"
    using list_emb_append_mono [OF a(1) b(1)] by (simp add: escrow_notices_def)
  moreover have "r = Inr ()" "w' = w2" using assms one two by (simp_all add: publish_escrow_def bind_go_def)
  ultimately show ?thesis using a(2) b(2) by auto
qed

lemma publish_all_some:
  "for_each (\<lambda>ev _. publish_escrow env ev) evs () w = (r, w') \<Longrightarrow>
    \<exists>sent. subseq sent (escrow_notices env evs) \<and> w_trace w' = w_trace w @ sent"
proof (induction evs arbitrary: w)
  case Nil
  then show ?case by (simp add: go_unfold escrow_notices_def)
next
  case (Cons ev evs)
  obtain q w1 where one: "publish_escrow env ev w = (q, w1)" by fastforce
  note first = publish_escrow_trace [OF one]
  then obtain a where a: "subseq a (escrow_notices env [ev])" "w_trace w1 = w_trace w @ a" by blast
  have "for_each (\<lambda>ev _. publish_escrow env ev) evs () w1 = (r, w')"
    using Cons.prems one first by (simp add: go_unfold)
  from Cons.IH [OF this] obtain b where b: "subseq b (escrow_notices env evs)" "w_trace w' = w_trace w1 @ b" by blast
  have "subseq (a @ b) (escrow_notices env (ev # evs))"
    using list_emb_append_mono [OF a(1) b(1)] by (simp add: escrow_notices_def)
  then show ?case using a(2) b(2) by auto
qed

lemma failed_range_silent:
  assumes run: "escrow_index_range env ei lo hi w = (Inl e, w')"
  shows "w_trace w' = w_trace w"
proof (cases "lo > hi")
  case True
  then show ?thesis using run by (auto simp: escrow_index_range_def fail_def)
next
  case False
  obtain c w1 where col: "escrow_collect env ei lo hi w = (c, w1)" by fastforce
  note t1 = quiet.keepsD [OF quiet_keeps_collect col]
  show ?thesis
  proof (cases c)
    case (Inl e')
    then show ?thesis using run False col t1 by (auto simp: escrow_index_range_def bind_go_def)
  next
    case (Inr p)
    obtain evs h where p: "p = (evs, h)" by fastforce
    obtain s w2 where save: "save_escrow_batch env (ei_chain ei) (ei_stream ei) (map Some evs) hi
        (hash_hex env (h_hash h)) w1 = (s, w2)" by fastforce
    note t2 = quiet.keepsD [OF quiet_keeps_batch save]
    obtain n w3 where ann: "(if ei_redis ei then for_each (\<lambda>ev _. publish_escrow env ev) evs () else ret ()) w2 = (n, w3)"
      by fastforce
    have "n = Inr ()" using notify_Inr [of "ei_redis ei" env evs w2] ann by simp
    then show ?thesis
      using run False col Inr p save t1 t2 ann
      by (cases s) (auto simp: escrow_index_range_def bind_go_def wrapping_def ret_def)
  qed
qed

text \<open>
  C20. A range of escrow events is atomic. When \<open>IndexRange\<close> fails, at the node, in a statement or at
  the commit, neither the events nor the checkpoint have changed and nothing was published. When it
  succeeds, the returned events are stored, and nothing was published but their announcements, one on
  each of the two channels, in log order: none when no Redis is configured, all of them when Redis is
  configured and accepts them, and otherwise those Redis accepted, since \<open>IndexRange\<close> ignores the
  errors of \<open>Publish\<close>.
\<close>

theorem escrow_range_atomic:
  assumes run: "escrow_index_range env ei lo hi w = (r, w')"
  shows "case r of
      Inl e \<Rightarrow> w_db w' = w_db w \<and> w_trace w' = w_trace w
    | Inr evs \<Rightarrow> (\<forall>ev \<in> set evs. escrow_present (w_db w') ev) \<and>
        (\<exists>sent. w_trace w' = w_trace w @ sent \<and> subseq sent (escrow_notices env evs) \<and>
           (\<not> ei_redis ei \<longrightarrow> sent = []) \<and>
           (ei_redis ei \<and> (\<forall>n. redis_fault env n = None) \<longrightarrow> sent = escrow_notices env evs))"
proof (cases r)
  case (Inl e)
  then have failed: "escrow_index_range env ei lo hi w = (Inl e, w')" using run by simp
  then have "w_db w' = w_db w" by (cases rule: escrow_range_cases) auto
  then show ?thesis using failed_range_silent [OF failed] Inl by simp
next
  case (Inr evs)
  then have "escrow_index_range env ei lo hi w = (Inr evs, w')" using run by simp
  then show ?thesis
  proof (cases rule: escrow_range_cases)
    case (stored evs' h w1 w2)
    have evs: "evs' = evs" using stored(1) by simp
    have before: "w_trace w2 = w_trace w"
      using quiet.keepsD [OF quiet_keeps_batch stored(4)] quiet.keepsD [OF quiet_keeps_collect stored(3)] by simp
    have "w_db w' = w_db w2" using untouched.keepsD [OF untouched_keeps_notify stored(5)] .
    then have present: "\<forall>ev \<in> set evs. escrow_present (w_db w') ev"
      using save_escrow_batch_Inr [OF stored(4)] evs by simp
    show ?thesis
    proof (cases "ei_redis ei")
      case False
      then have "w' = w2" using stored(5) by (simp add: ret_eq)
      then show ?thesis using present before Inr False by simp
    next
      case True
      then have ann: "for_each (\<lambda>ev _. publish_escrow env ev) evs () w2 = (Inr (), w')"
        using stored(5) evs by simp
      obtain sent where sent: "subseq sent (escrow_notices env evs)" "w_trace w' = w_trace w2 @ sent"
        using publish_all_some [OF ann] by blast
      have "sent = escrow_notices env evs" if "\<forall>n. redis_fault env n = None"
        using publish_all_trace [OF that [rule_format] ann] sent(2) by simp
      then show ?thesis using present before sent True Inr by auto
    qed
  qed simp
qed

theorem escrow_range_atomic_witness:
  "case escrow_index_range escrow_env sample_escrow 9 12 empty_world of (r, w') \<Rightarrow>
     (case r of Inl e \<Rightarrow> False
      | Inr evs \<Rightarrow> w_trace w' = escrow_notices escrow_env evs \<and> length evs = 1)"
proof -
  have "(case fst (escrow_index_range escrow_env sample_escrow 9 12 empty_world) of Inl _ \<Rightarrow> 0 | Inr evs \<Rightarrow> length evs) = 1"
    by code_simp
  then obtain evs w' where run: "escrow_index_range escrow_env sample_escrow 9 12 empty_world = (Inr evs, w')" "length evs = 1"
    by (cases "escrow_index_range escrow_env sample_escrow 9 12 empty_world"; cases "fst (escrow_index_range escrow_env sample_escrow 9 12 empty_world)") auto
  show ?thesis
    using escrow_range_atomic [OF run(1)] run
    by (simp add: escrow_env_def calm_env_def sample_escrow_def escrow_defaults_def empty_world_def)
qed

section \<open>Decoded numbers\<close>

lemma dec_nat_length: "n < 10 ^ k \<Longrightarrow> 0 < k \<Longrightarrow> length (dec_nat n) \<le> k"
proof (induction k arbitrary: n)
  case (Suc k)
  show ?case
  proof (cases "n < 10")
    case True
    then show ?thesis by (subst dec_nat.simps) simp
  next
    case False
    then have "0 < k" using Suc.prems(1) by (cases k) auto
    moreover have "n div 10 < 10 ^ k" using Suc.prems(1) by (simp add: less_mult_imp_div_less mult.commute)
    ultimately have "length (dec_nat (n div 10)) \<le> k" by (intro Suc.IH)
    then show ?thesis using False by (subst dec_nat.simps) simp
  qed
qed simp

lemma numeric_textI: "(\<And>s. x = Some s \<Longrightarrow> s = dec_int v \<and> 0 \<le> v \<and> v < 2 ^ 256) \<Longrightarrow> numeric_text x"
  by (cases x) (auto simp: numeric_text_def in_numeric_def)

lemma uint256_digits:
  assumes "0 \<le> v" "v < 2 ^ 256"
  shows "length (dec_int v) \<le> 78"
proof -
  have "nat v < 10 ^ 78" using assms by simp
  then show ?thesis using assms(1) dec_nat_length [of "nat v" 78] by (simp add: dec_int_def)
qed

lemma dec_int_value: "0 \<le> v \<Longrightarrow> undec (dec_int v) = nat v"
  by (simp add: dec_int_def)

lemma first_word_value:
  assumes "first_word data = Some s"
  shows "s = dec_int (set_bytes (take 32 data)) \<and> 0 \<le> set_bytes (take 32 data) \<and> set_bytes (take 32 data) < 2 ^ 256"
proof -
  have "0 \<le> set_bytes (take 32 data)" "set_bytes (take 32 data) < 256 ^ 32"
    using set_bytes_bounds [of "take 32 data"] assms by (auto simp: first_word_def split: if_splits)
  then show ?thesis using assms by (auto simp: first_word_def split: if_splits)
qed

lemma escrow_amount_word: "fst (escrow_fields env topics data) \<in> {None, first_word data}"
  by (simp add: escrow_fields_def Let_def)

text \<open>
  C23. Decoded numbers are exact and fit their columns: for any log, malformed ones included, the
  escrow id and amount that \<open>decodeLog\<close> produces are canonical decimal texts of at most 78 digits (the
  NUMERIC(78,0) columns never overflow and return them unchanged), the id reads back as the 256-bit
  topic and the amount as the first 32-byte word of the data.
\<close>

theorem escrow_numbers_exact:
  assumes "decode_escrow_log env ei lg cache w = (Inr (ev, cache'), w')"
  shows "numeric_text (e_id ev) \<and> numeric_text (e_amount ev) \<and>
    numeric_canonical (e_id ev) = e_id ev \<and> numeric_canonical (e_amount ev) = e_amount ev \<and>
    (\<forall>s. e_id ev = Some s \<longrightarrow> length s \<le> 78 \<and> undec s = nat (uint (l_topics lg ! 1))) \<and>
    (\<forall>s. e_amount ev = Some s \<longrightarrow> length s \<le> 78 \<and> undec s = nat (set_bytes (take 32 (l_data lg))))"
proof -
  have ev: "e_id ev = escrow_id_of (l_topics lg)" "e_amount ev = fst (escrow_fields env (l_topics lg) (l_data lg))"
    using decode_escrow_Inr [OF assms] by (auto simp: event_of_log_def)
  have id_text: "s = dec_int (uint (l_topics lg ! 1)) \<and> 0 \<le> uint (l_topics lg ! 1) \<and> uint (l_topics lg ! 1) < 2 ^ 256"
    if "e_id ev = Some s" for s
    using that ev(1) uint_lt2p [of "l_topics lg ! 1"] by (auto simp: escrow_id_of_def split: if_splits)
  have amount: "s = dec_int (set_bytes (take 32 (l_data lg))) \<and> 0 \<le> set_bytes (take 32 (l_data lg)) \<and>
      set_bytes (take 32 (l_data lg)) < 2 ^ 256" if "e_amount ev = Some s" for s
    using that ev(2) escrow_amount_word [of env "l_topics lg" "l_data lg"] first_word_value [of "l_data lg" s] by auto
  have canonical: "numeric_canonical x = x" if "\<And>s. x = Some s \<Longrightarrow> \<exists>v. s = dec_int v" for x
    using that by (cases x) (auto simp: numeric_canonical_def)
  show ?thesis
  proof (intro conjI allI impI)
    show "numeric_text (e_id ev)" "numeric_text (e_amount ev)"
      by (rule numeric_textI, rule id_text, assumption) (rule numeric_textI, rule amount, assumption)
    show "numeric_canonical (e_id ev) = e_id ev" "numeric_canonical (e_amount ev) = e_amount ev"
      by (rule canonical, use id_text amount in blast)+
    show "length s \<le> 78" "undec s = nat (uint (l_topics lg ! 1))" if "e_id ev = Some s" for s
      using id_text [OF that] uint256_digits [of "uint (l_topics lg ! 1)"] dec_int_value by simp_all
    show "length s \<le> 78" "undec s = nat (set_bytes (take 32 (l_data lg)))" if "e_amount ev = Some s" for s
      using amount [OF that] uint256_digits [of "set_bytes (take 32 (l_data lg))"] dec_int_value by simp_all
  qed
qed

theorem escrow_numbers_exact_witness:
  "\<exists>ev cache'. fst (decode_escrow_log escrow_env sample_escrow sample_escrow_log Map.empty empty_world) = Inr (ev, cache') \<and>
     numeric_text (e_amount ev) \<and> e_id ev = Some ''42'' \<and> undec ''42'' = 42"
proof -
  have "(case fst (decode_escrow_log escrow_env sample_escrow sample_escrow_log Map.empty empty_world) of
      Inl _ \<Rightarrow> None | Inr (ev, _) \<Rightarrow> e_id ev) = Some ''42''" by code_simp
  then obtain ev cache' w' where run:
    "decode_escrow_log escrow_env sample_escrow sample_escrow_log Map.empty empty_world = (Inr (ev, cache'), w')"
    "e_id ev = Some ''42''"
    by (cases "decode_escrow_log escrow_env sample_escrow sample_escrow_log Map.empty empty_world")
       (auto split: sum.splits)
  show ?thesis
    using escrow_numbers_exact [OF run(1)] run by (auto simp: sample_escrow_log_def)
qed

section \<open>A lost timestamp loses the event\<close>

lemma escrow_steps_dropped:
  assumes "\<And>n b. \<exists>e. rpc_timestamp env n b = Inl e"
  shows "\<exists>w'. for_each (escrow_step env ei) lgs (evs, Map.empty) w = (Inr (evs, Map.empty), w') \<and> w_db w' = w_db w"
proof (induction lgs arbitrary: w)
  case (Cons lg lgs)
  obtain e w1 where dec: "decode_escrow_log env ei lg Map.empty w = (Inl e, w1)"
  proof -
    obtain e where "rpc_timestamp env (w_tick w) (l_block lg) = Inl e" using assms by blast
    then have "\<exists>e. fst (decode_escrow_log env ei lg Map.empty w) = Inl e"
      by (cases "ei_event_by_id ei (hd (l_topics lg))")
         (simp_all add: decode_escrow_log_def escrow_timestamp_def go_unfold block_timestamp_def rpc_def)
    then show ?thesis using that by (metis prod.collapse)
  qed
  have "w_db w1 = w_db w" using untouched.keepsD [OF untouched_keeps_decode dec] .
  then show ?case
    using Cons.IH [of w1] dec by (simp add: bind_go_def escrow_step_result [of env ei lg "(evs, Map.empty)" w])
qed (simp add: ret_def)

text \<open>
  C24. Events are lost when block timestamps cannot be fetched: \<open>decodeLog\<close> reports the failed RPC as
  a decoding error, \<open>IndexRange\<close> skips the log as unknown, and the checkpoint still moves to the
  end of the range, so no later run will ask for the log again. (The MonthlyPayroll indexer and
  the token indexer fail the range instead.)
\<close>

theorem escrow_timestamp_failure_loses_events:
  assumes "rpc_logs env (w_tick w) (ei_contract ei) lo hi = Inr lgs"
    and "\<And>n b. \<exists>e. rpc_timestamp env n b = Inl e" "\<And>n. rpc_header env n hi = Inr h"
    and "\<And>n. db_fault env n = None" "lo \<le> hi" "0 < hi" "ei_stream ei \<noteq> []"
  shows "\<exists>w'. escrow_index_range env ei lo hi w = (Inr [], w') \<and>
    escrow_events (w_db w') = escrow_events (w_db w) \<and>
    checkpoint_of (w_db w') (ei_chain ei) (ei_stream ei) = Some hi"
proof -
  obtain w1 where steps: "for_each (escrow_step env ei) lgs ([], Map.empty) (next_tick w) = (Inr ([], Map.empty), w1)"
    "w_db w1 = w_db w"
    using escrow_steps_dropped [OF assms(2), of ei lgs "[]" "next_tick w"] by auto
  have col: "escrow_collect env ei lo hi w = (Inr ([], h), next_tick w1)"
    using assms(1,3) steps
    by (simp add: escrow_collect_def go_unfold get_logs_def block_header_def rpc_def)
  obtain w2 where save: "save_escrow_batch env (ei_chain ei) (ei_stream ei) [] hi (hash_hex env (h_hash h)) (next_tick w1)
      = (Inr (), w2)" "escrow_events (w_db w2) = escrow_events (w_db w1)"
    using assms(4,6,7)
    by (simp add: save_escrow_batch_def in_transaction_def go_unfold checkpoint_in_batch_def exec_sql_def
        stmt_checkpoint_def)
  obtain w3 where ann: "(if ei_redis ei then for_each (\<lambda>ev _. publish_escrow env ev) [] () else ret ()) w2 = (Inr (), w3)"
    "w3 = w2" by (simp add: ret_def)
  have "escrow_index_range env ei lo hi w = (Inr [], w2)"
    using assms(5) col save(1) by (simp add: escrow_index_range_def go_unfold)
  then show ?thesis
    using save steps(2) save_escrow_batch_Inr [OF save(1)] assms(6,7) by auto
qed

definition lost_env :: env where
  "lost_env = escrow_env\<lparr>rpc_timestamp := (\<lambda>_ _. Inl (new_error ''header not found''))\<rparr>"

theorem escrow_timestamp_failure_loses_events_witness:
  "\<exists>w'. escrow_index_range lost_env sample_escrow 9 12 empty_world = (Inr [], w') \<and>
    escrow_events (w_db w') = [] \<and> checkpoint_of (w_db w') 1 ''wtf_escrow'' = Some 12"
proof -
  have ei: "ei_chain sample_escrow = 1" "ei_stream sample_escrow = ''wtf_escrow''"
    by (simp_all add: sample_escrow_def escrow_defaults_def)
  have "rpc_logs lost_env (w_tick empty_world) (ei_contract sample_escrow) 9 12 = Inr [sample_escrow_log]"
    by (simp add: lost_env_def escrow_env_def sample_escrow_log_def)
  from escrow_timestamp_failure_loses_events [OF this, of "\<lparr>h_number = 12, h_hash = ucast (12 :: u64), h_parent = 0, h_time = 0\<rparr>"]
  show ?thesis
    by (simp add: lost_env_def escrow_env_def calm_env_def ei empty_world_def empty_database_def)
qed

end
