(* ===== verification/Payroll_Projection.thy ===== *)
theory Payroll_Projection
  imports Persistence
begin

text \<open>
  \<open>internal/persistence/payroll.go\<close>: the projection of decoded MonthlyPayroll events into the
  domain tables \<open>employers\<close>, \<open>employees\<close>, \<open>payroll_fundings\<close> and \<open>salary_claims\<close>. Every statement is
  an upsert given as the row to insert and the \<open>DO UPDATE\<close> clause. The abstract specification
  of an event and the replay theorems are in the theory \<open>Projection_Replay\<close>.
\<close>

section \<open>Statements\<close>

definition coalesce :: "'a option \<Rightarrow> 'a option \<Rightarrow> 'a option" where
  "coalesce x y = (case x of None \<Rightarrow> y | Some _ \<Rightarrow> x)"

definition big_or_zero :: "int option \<Rightarrow> int" where
  "big_or_zero x = (case x of None \<Rightarrow> 0 | Some v \<Rightarrow> v)"

definition new_employer :: "int \<Rightarrow> address \<Rightarrow> int \<Rightarrow> hash \<Rightarrow> employer_row" where
  "new_employer chain a t tx = \<lparr>em_chain = chain, em_wallet = a, em_active = True,
     em_deactivation = None, em_added_at = Some t, em_removed_at = None, em_tx = tx\<rparr>"

definition new_employee :: "int \<Rightarrow> address \<Rightarrow> address \<Rightarrow> int \<Rightarrow> hash \<Rightarrow> employee_row" where
  "new_employee chain a emp t tx = \<lparr>ee_chain = chain, ee_wallet = a, ee_employer = emp,
     ee_salary = 0, ee_last_withdraw = None, ee_active = True, ee_deactivation = None,
     ee_allocation = None, ee_added_at = Some t, ee_removed_at = None, ee_tx = tx\<rparr>"

definition employer_added_op :: "int \<Rightarrow> address \<Rightarrow> int \<Rightarrow> hash \<Rightarrow> employer_row op" where
  "employer_added_op chain a t tx =
     (new_employer chain a t tx,
      \<lambda>old. old\<lparr>em_active := True, em_added_at := coalesce (em_added_at old) (Some t), em_tx := tx\<rparr>)"

definition employer_removed_op :: "int \<Rightarrow> address \<Rightarrow> int \<Rightarrow> int \<Rightarrow> hash \<Rightarrow> employer_row op" where
  "employer_removed_op chain a t dt tx =
     (\<lparr>em_chain = chain, em_wallet = a, em_active = False, em_deactivation = Some dt,
       em_added_at = None, em_removed_at = Some t, em_tx = tx\<rparr>,
      \<lambda>old. old\<lparr>em_active := False, em_removed_at := Some t, em_deactivation := Some dt, em_tx := tx\<rparr>)"

definition ensure_employer_op :: "int \<Rightarrow> address \<Rightarrow> int \<Rightarrow> hash \<Rightarrow> employer_row op" where
  "ensure_employer_op chain a t tx = (new_employer chain a t tx, \<lambda>old. old)"

definition employee_added_op ::
  "int \<Rightarrow> employee_added_event \<Rightarrow> int \<Rightarrow> hash \<Rightarrow> employee_row op" where
  "employee_added_op chain ev t tx =
     ((new_employee chain (ea_employee ev) (ea_employer ev) t tx)
        \<lparr>ee_salary := big_or_zero (ea_salary ev), ee_allocation := Some (big_or_zero (ea_allocation ev))\<rparr>,
      \<lambda>old. old\<lparr>ee_employer := ea_employer ev, ee_salary := big_or_zero (ea_salary ev),
        ee_allocation := Some (big_or_zero (ea_allocation ev)), ee_active := True,
        ee_added_at := coalesce (ee_added_at old) (Some t), ee_tx := tx\<rparr>)"

definition employee_removed_op ::
  "int \<Rightarrow> employee_removed_event \<Rightarrow> int \<Rightarrow> int \<Rightarrow> hash \<Rightarrow> employee_row op" where
  "employee_removed_op chain ev t dt tx =
     ((new_employee chain (er_employee ev) (er_employer ev) t tx)
        \<lparr>ee_active := False, ee_added_at := None, ee_removed_at := Some t, ee_deactivation := Some dt\<rparr>,
      \<lambda>old. old\<lparr>ee_active := False, ee_removed_at := Some t, ee_deactivation := Some dt, ee_tx := tx\<rparr>)"

definition ensure_employee_op :: "int \<Rightarrow> address \<Rightarrow> address \<Rightarrow> int \<Rightarrow> hash \<Rightarrow> employee_row op" where
  "ensure_employee_op chain a emp t tx = (new_employee chain a emp t tx, \<lambda>old. old)"

definition stmt_employer :: "employer_row op \<Rightarrow> database \<Rightarrow> goerror + database" where
  "stmt_employer p d = Inr (d\<lparr>employers := apply_op em_key p (employers d)\<rparr>)"

text \<open>The row an upsert writes must name an employer that exists (\<open>fk_employee_employer\<close>).\<close>

definition stmt_employee :: "employee_row op \<Rightarrow> database \<Rightarrow> goerror + database" where
  "stmt_employee p d =
     (let r = written ee_key (\<lambda>old _. snd p old) (fst p) (employees d) in
      if \<not> in_numeric (ee_salary r) \<or> (case ee_allocation r of None \<Rightarrow> False | Some v \<Rightarrow> \<not> in_numeric v)
      then Inl range_violation
      else if \<not> has_employer d (ee_chain r) (ee_employer r)
      then Inl (fk_violation ''fk_employee_employer'')
      else Inr (d\<lparr>employees := apply_op ee_key p (employees d)\<rparr>))"

definition stmt_funding :: "funding_row \<Rightarrow> database \<Rightarrow> goerror + database" where
  "stmt_funding r d =
     (if \<not> (in_numeric (pf_paid r) \<and> in_numeric (pf_fee r) \<and> in_numeric (pf_credited r) \<and>
            in_bigint (pf_block r) \<and> in_integer (pf_index r))
      then Inl range_violation
      else if has_row pf_key (pf_key r) (payroll_fundings d) then Inr d
      else if \<not> has_employer d (pf_chain r) (pf_employer r)
      then Inl (fk_violation ''fk_payroll_funding_employer'')
      else if \<not> has_employee d (pf_chain r) (pf_employee r)
      then Inl (fk_violation ''fk_payroll_funding_employee'')
      else if \<not> has_tx d (pf_chain r) (pf_tx r)
      then Inl (fk_violation ''fk_payroll_funding_transaction'')
      else Inr (d\<lparr>payroll_fundings := insert_ignore pf_key r (payroll_fundings d)\<rparr>))"

definition stmt_claim :: "claim_row \<Rightarrow> database \<Rightarrow> goerror + database" where
  "stmt_claim r d =
     (if \<not> (in_numeric (sc_amount r) \<and> in_bigint (sc_block r) \<and> in_integer (sc_index r))
      then Inl range_violation
      else if has_row sc_key (sc_key r) (salary_claims d) then Inr d
      else if \<not> has_employee d (sc_chain r) (sc_employee r)
      then Inl (fk_violation ''fk_salary_claim_employee'')
      else Inr (d\<lparr>salary_claims := insert_ignore sc_key r (salary_claims d)\<rparr>))"

definition stmt_last_withdraw :: "int \<Rightarrow> address \<Rightarrow> int \<Rightarrow> hash \<Rightarrow> database \<Rightarrow> goerror + database" where
  "stmt_last_withdraw chain a wt tx d =
     Inr (d\<lparr>employees := update_row ee_key (chain, a)
              (\<lambda>r. r\<lparr>ee_last_withdraw := Some wt, ee_tx := tx\<rparr>) (employees d)\<rparr>)"

section \<open>The save methods\<close>

definition save_employer_added :: "env \<Rightarrow> int \<Rightarrow> address \<Rightarrow> int \<Rightarrow> hash \<Rightarrow> unit go" where
  "save_employer_added env chain a t tx =
     wrapping (''failed to save employer '' @ addr_hex env a)
       (exec_sql env (stmt_employer (employer_added_op chain a t tx)))"

definition save_employer_removed :: "env \<Rightarrow> int \<Rightarrow> address \<Rightarrow> int \<Rightarrow> int \<Rightarrow> hash \<Rightarrow> unit go" where
  "save_employer_removed env chain a t dt tx =
     wrapping (''failed to deactivate employer '' @ addr_hex env a)
       (exec_sql env (stmt_employer (employer_removed_op chain a t dt tx)))"

definition save_employee_added ::
  "env \<Rightarrow> int \<Rightarrow> employee_added_event \<Rightarrow> int \<Rightarrow> hash \<Rightarrow> unit go" where
  "save_employee_added env chain ev t tx =
     bind_go
       (wrapping (''failed to ensure employer '' @ addr_hex env (ea_employer ev) @ '' for employee '' @
                  addr_hex env (ea_employee ev))
          (exec_sql env (stmt_employer (ensure_employer_op chain (ea_employer ev) t tx))))
       (\<lambda>_. wrapping (''failed to save employee '' @ addr_hex env (ea_employee ev))
              (exec_sql env (stmt_employee (employee_added_op chain ev t tx))))"

definition save_employee_removed ::
  "env \<Rightarrow> int \<Rightarrow> employee_removed_event \<Rightarrow> int \<Rightarrow> int \<Rightarrow> hash \<Rightarrow> unit go" where
  "save_employee_removed env chain ev t dt tx =
     bind_go
       (wrapping (''failed to ensure employer '' @ addr_hex env (er_employer ev))
          (exec_sql env (stmt_employer (ensure_employer_op chain (er_employer ev) t tx))))
       (\<lambda>_. wrapping (''failed to deactivate employee '' @ addr_hex env (er_employee ev))
              (exec_sql env (stmt_employee (employee_removed_op chain ev t dt tx))))"

definition funding_row_of ::
  "int \<Rightarrow> payroll_funded_event \<Rightarrow> hash \<Rightarrow> u64 \<Rightarrow> int \<Rightarrow> u64 \<Rightarrow> funding_row" where
  "funding_row_of chain ev tx b t i = \<lparr>pf_chain = chain, pf_employer = fe_employer ev,
     pf_employee = fe_employee ev, pf_paid = big_or_zero (fe_paid ev),
     pf_fee = big_or_zero (fe_fee ev), pf_credited = big_or_zero (fe_credited ev), pf_tx = tx,
     pf_block = sint b, pf_time = t, pf_index = sint i\<rparr>"

definition save_payroll_funded ::
  "env \<Rightarrow> int \<Rightarrow> payroll_funded_event \<Rightarrow> hash \<Rightarrow> u64 \<Rightarrow> int \<Rightarrow> u64 \<Rightarrow> unit go" where
  "save_payroll_funded env chain ev tx b t i =
     bind_go
       (wrapping (''failed to ensure employer '' @ addr_hex env (fe_employer ev) @ '' for funding'')
          (exec_sql env (stmt_employer (ensure_employer_op chain (fe_employer ev) t tx))))
       (\<lambda>_. bind_go
         (wrapping (''failed to ensure employee '' @ addr_hex env (fe_employee ev) @ '' for funding'')
            (exec_sql env (stmt_employee
               (ensure_employee_op chain (fe_employee ev) (fe_employer ev) t tx))))
         (\<lambda>_. wrapping (''failed to save payroll funding tx '' @ hash_hex env tx @ '' log '' @ dec_u64 i)
                (exec_sql env (stmt_funding (funding_row_of chain ev tx b t i)))))"

definition claim_row_of ::
  "int \<Rightarrow> salary_claimed_event \<Rightarrow> hash \<Rightarrow> u64 \<Rightarrow> int \<Rightarrow> u64 \<Rightarrow> claim_row" where
  "claim_row_of chain ev tx b t i = \<lparr>sc_chain = chain, sc_employee = ce_employee ev,
     sc_amount = big_or_zero (ce_amount ev), sc_tx = tx, sc_block = sint b, sc_time = t,
     sc_index = sint i\<rparr>"

text \<open>
  \<open>saveSalaryClaimed\<close>: the existence check, the two placeholder inserts and the final update
  discard their errors (\<open>_ = ...\<close>, \<open>_, _ = ...\<close>); only the claim itself can fail.
\<close>

definition ensure_claimant :: "env \<Rightarrow> int \<Rightarrow> address \<Rightarrow> int \<Rightarrow> hash \<Rightarrow> unit go" where
  "ensure_claimant env chain a t tx =
     bind_go (attempt (query_sql env (\<lambda>d. has_employee d chain a))) (\<lambda>r.
       if r = Inr True then ret ()
       else
         bind_go (attempt (exec_sql env (stmt_employer (ensure_employer_op chain 0 t tx)))) (\<lambda>_.
         bind_go (attempt (exec_sql env (stmt_employee (ensure_employee_op chain a 0 t tx)))) (\<lambda>_.
         ret ())))"

definition save_salary_claimed ::
  "env \<Rightarrow> int \<Rightarrow> salary_claimed_event \<Rightarrow> hash \<Rightarrow> u64 \<Rightarrow> int \<Rightarrow> u64 \<Rightarrow> int \<Rightarrow> unit go" where
  "save_salary_claimed env chain ev tx b t i wt =
     bind_go (ensure_claimant env chain (ce_employee ev) t tx) (\<lambda>_.
     bind_go
       (wrapping (''failed to save salary claim tx '' @ hash_hex env tx @ '' log '' @ dec_u64 i)
          (exec_sql env (stmt_claim (claim_row_of chain ev tx b t i)))) (\<lambda>_.
     bind_go
       (attempt (exec_sql env (stmt_last_withdraw chain (ce_employee ev) wt tx))) (\<lambda>_.
     ret ())))"

definition bad_event_data :: "event_type \<Rightarrow> goerror" where
  "bad_event_data ty = new_error (''invalid event data type for '' @ event_type_name ty)"

text \<open>\<open>ProjectPayrollEvent\<close>: the switch on the type and the type assertion on the data.\<close>

definition project_payroll_event ::
  "env \<Rightarrow> int \<Rightarrow> u64 \<Rightarrow> decoded_event option \<Rightarrow> unit go" where
  "project_payroll_event env chain ts event =
     (case event of
        None \<Rightarrow> fail (new_error ''decoded event is nil'')
      | Some ev \<Rightarrow>
          let t = sint ts; tx = l_tx (d_log ev); b = l_block (d_log ev); i = l_index (d_log ev) in
          (case d_type ev of
             EventEmployerAdded \<Rightarrow>
               (case d_data ev of
                  EmployerAddedData a \<Rightarrow> save_employer_added env chain a t tx
                | _ \<Rightarrow> fail (bad_event_data (d_type ev)))
           | EventEmployerRemoved \<Rightarrow>
               (case d_data ev of
                  EmployerRemovedData a \<Rightarrow> save_employer_removed env chain a t (sint ts) tx
                | _ \<Rightarrow> fail (bad_event_data (d_type ev)))
           | EventEmployeeAdded \<Rightarrow>
               (case d_data ev of
                  EmployeeAddedData x \<Rightarrow> save_employee_added env chain x t tx
                | _ \<Rightarrow> fail (bad_event_data (d_type ev)))
           | EventEmployeeRemoved \<Rightarrow>
               (case d_data ev of
                  EmployeeRemovedData x \<Rightarrow> save_employee_removed env chain x t (sint ts) tx
                | _ \<Rightarrow> fail (bad_event_data (d_type ev)))
           | EventPayrollFunded \<Rightarrow>
               (case d_data ev of
                  PayrollFundedData x \<Rightarrow> save_payroll_funded env chain x tx b t i
                | _ \<Rightarrow> fail (bad_event_data (d_type ev)))
           | EventSalaryClaimed \<Rightarrow>
               (case d_data ev of
                  SalaryClaimedData x \<Rightarrow> save_salary_claimed env chain x tx b t i (sint ts)
                | _ \<Rightarrow> fail (bad_event_data (d_type ev)))
           | EventOwnershipTransferred \<Rightarrow> ret ()))"

lemmas projection_defs = save_employer_added_def save_employer_removed_def save_employee_added_def
  save_employee_removed_def save_payroll_funded_def ensure_claimant_def save_salary_claimed_def

section \<open>What the projection keeps\<close>

lemma op_is_table:
  "(\<And>r. key (snd p r) = key r) \<Longrightarrow> sql_table key (\<lambda>old _. snd p old)"
  by unfold_locales simp

lemma stmt_employer_legal:
  assumes "\<And>r. em_key (snd p r) = em_key r" "stmt_employer p d = Inr d'"
  shows "legal d d' \<and> same_checkpoints d d'"
proof -
  note t = op_is_table [of em_key p, OF assms(1)]
  show ?thesis using assms(2)
    by (auto simp: stmt_employer_def apply_op_def legal_def same_checkpoints_def db_grows_def
        db_ok_def fk_ok_def uniq_ok_def range_ok_def has_tx_def has_employer_def has_employee_def
        sql_table.has_upsert [OF t] sql_table.unique_upsert [OF t])
qed

lemma stmt_employee_legal:
  assumes "\<And>r. ee_key (snd p r) = ee_key r" "stmt_employee p d = Inr d'"
  shows "legal d d' \<and> same_checkpoints d d'"
proof -
  note t = op_is_table [of ee_key p, OF assms(1)]
  let ?r = "written ee_key (\<lambda>old _. snd p old) (fst p) (employees d)"
  have d': "d' = d\<lparr>employees := apply_op ee_key p (employees d)\<rparr>"
    and emp: "has_employer d (ee_chain ?r) (ee_employer ?r)"
    and range: "in_numeric (ee_salary ?r) \<and>
      (case ee_allocation ?r of None \<Rightarrow> True | Some v \<Rightarrow> in_numeric v)"
    using assms(2) by (auto simp: stmt_employee_def Let_def split: if_splits option.splits)
  have "fk_ok d \<Longrightarrow> fk_ok d'"
    using emp by (auto simp: fk_ok_def d' has_tx_def has_employer_def has_employee_def apply_op_def
        sql_table.has_upsert [OF t] dest: set_upsert)
  moreover have "range_ok d \<Longrightarrow> range_ok d'"
    using range by (auto simp: range_ok_def d' dest: set_apply_op)
  ultimately show ?thesis
    by (auto simp: d' apply_op_def legal_def same_checkpoints_def db_grows_def db_ok_def uniq_ok_def
        sql_table.has_upsert [OF t] sql_table.unique_upsert [OF t])
qed

lemma set_insert_ignore: "r \<in> set (insert_ignore key n t) \<Longrightarrow> r \<in> set t \<or> r = n"
  by (induction t) (auto simp: insert_ignore_def split: if_splits)

lemma stmt_funding_legal:
  "stmt_funding r d = Inr d' \<Longrightarrow> legal d d' \<and> same_checkpoints d d'"
  by (auto simp: stmt_funding_def legal_refl same_checkpoints_def legal_def db_grows_def db_ok_def
      fk_ok_def uniq_ok_def range_ok_def has_tx_def has_employer_def has_employee_def unique_insert_ignore
      dest!: set_insert_ignore split: if_splits)

lemma stmt_claim_legal:
  "stmt_claim r d = Inr d' \<Longrightarrow> legal d d' \<and> same_checkpoints d d'"
  by (auto simp: stmt_claim_def legal_refl same_checkpoints_def legal_def db_grows_def db_ok_def
      fk_ok_def uniq_ok_def range_ok_def has_tx_def has_employer_def has_employee_def unique_insert_ignore
      dest!: set_insert_ignore split: if_splits)

lemma withdraw_keys:
  "has_row ee_key k (update_row ee_key k' (\<lambda>r. r\<lparr>ee_last_withdraw := wt, ee_tx := tx\<rparr>) t)
     \<longleftrightarrow> has_row ee_key k t"
  "map ee_key (update_row ee_key k' (\<lambda>r. r\<lparr>ee_last_withdraw := wt, ee_tx := tx\<rparr>) t) = map ee_key t"
  by (simp_all add: has_update_row update_row_keys ee_key_def)

lemma stmt_last_withdraw_legal:
  "stmt_last_withdraw chain a wt tx d = Inr d' \<Longrightarrow> legal d d' \<and> same_checkpoints d d'"
  by (auto simp: stmt_last_withdraw_def legal_def same_checkpoints_def db_grows_def db_ok_def
      fk_ok_def uniq_ok_def range_ok_def has_tx_def has_employer_def has_employee_def keys_unique_def
      withdraw_keys) (auto simp: update_row_def)

lemmas op_defs = employer_added_op_def employer_removed_op_def ensure_employer_op_def
  employee_added_op_def employee_removed_op_def ensure_employee_op_def

lemma op_keys [simp]:
  "em_key (snd (employer_added_op chain a t tx) r) = em_key r"
  "em_key (snd (employer_removed_op chain a t dt tx) r) = em_key r"
  "em_key (snd (ensure_employer_op chain a t tx) r) = em_key r"
  "ee_key (snd (employee_added_op chain ea t tx) e) = ee_key e"
  "ee_key (snd (employee_removed_op chain er t dt tx) e) = ee_key e"
  "ee_key (snd (ensure_employee_op chain a emp t tx) e) = ee_key e"
  by (simp_all add: op_defs em_key_def ee_key_def)

lemma ops_legal:
  "stmt_employer (employer_added_op chain a t tx) d = Inr d' \<Longrightarrow> legal d d' \<and> same_checkpoints d d'"
  "stmt_employer (employer_removed_op chain a t dt tx) d = Inr d' \<Longrightarrow> legal d d' \<and> same_checkpoints d d'"
  "stmt_employer (ensure_employer_op chain a t tx) d = Inr d' \<Longrightarrow> legal d d' \<and> same_checkpoints d d'"
  "stmt_employee (employee_added_op chain ea t tx) d = Inr d' \<Longrightarrow> legal d d' \<and> same_checkpoints d d'"
  "stmt_employee (employee_removed_op chain er t dt tx) d = Inr d' \<Longrightarrow> legal d d' \<and> same_checkpoints d d'"
  "stmt_employee (ensure_employee_op chain a emp t tx) d = Inr d' \<Longrightarrow> legal d d' \<and> same_checkpoints d d'"
  by (rule stmt_employer_legal stmt_employee_legal; simp; fail)+

lemmas projection_legal = ops_legal stmt_funding_legal stmt_claim_legal stmt_last_withdraw_legal

lemma law_keeps_save:
  "law.keeps (save_employer_added env chain a t tx)"
  "law.keeps (save_employer_removed env chain a t dt tx)"
  "law.keeps (save_employee_added env chain ea t tx)"
  "law.keeps (save_employee_removed env chain er t dt tx)"
  "law.keeps (save_payroll_funded env chain fe tx b t i)"
  "law.keeps (save_salary_claimed env chain ce tx b t i wt)"
  by (auto simp: projection_defs intro!: law.keeps_rules law.keeps_exec dest: projection_legal)

lemma frame_keeps_save:
  "frame.keeps (save_employer_added env chain a t tx)"
  "frame.keeps (save_employer_removed env chain a t dt tx)"
  "frame.keeps (save_employee_added env chain ea t tx)"
  "frame.keeps (save_employee_removed env chain er t dt tx)"
  "frame.keeps (save_payroll_funded env chain fe tx b t i)"
  "frame.keeps (save_salary_claimed env chain ce tx b t i wt)"
  by (auto simp: projection_defs intro!: frame.keeps_rules frame.keeps_exec dest: projection_legal)

lemma law_keeps_project: "law.keeps (project_payroll_event env chain ts ev)"
  by (auto simp: project_payroll_event_def Let_def
      split: option.split event_type.split payroll_data.split
      intro: law_keeps_save law.keeps_ret law.keeps_fail)

lemma frame_keeps_project: "frame.keeps (project_payroll_event env chain ts ev)"
  by (auto simp: project_payroll_event_def Let_def
      split: option.split event_type.split payroll_data.split
      intro: frame_keeps_save frame.keeps_ret frame.keeps_fail)

end
