(* ===== verification/Projection_Replay.thy ===== *)
theory Projection_Replay
  imports Payroll_Projection
begin

text \<open>
  What the projection of payroll events promises. The abstract specification
  \<open>apply_projection\<close> gives the effect of one event as a list of upserts per table, without
  errors, effects or intermediate states; the refinement theorem shows that the code computes
  it whenever the database answers. On the specification, replaying any list of events, or
  replaying it after a crash inside it, changes nothing.
\<close>

section \<open>Abstract specification\<close>

definition claimed_op :: "int \<Rightarrow> address \<Rightarrow> int \<Rightarrow> int \<Rightarrow> hash \<Rightarrow> employee_row op" where
  "claimed_op chain a t wt tx =
     ((new_employee chain a 0 t tx)\<lparr>ee_last_withdraw := Some wt\<rparr>,
      \<lambda>old. old\<lparr>ee_last_withdraw := Some wt, ee_tx := tx\<rparr>)"

definition employer_ops :: "int \<Rightarrow> bool \<Rightarrow> u64 \<Rightarrow> decoded_event \<Rightarrow> employer_row op list" where
  "employer_ops chain known ts ev =
     (let t = sint ts; tx = l_tx (d_log ev) in
      case d_data ev of
        EmployerAddedData a \<Rightarrow> [employer_added_op chain a t tx]
      | EmployerRemovedData a \<Rightarrow> [employer_removed_op chain a t t tx]
      | EmployeeAddedData x \<Rightarrow> [ensure_employer_op chain (ea_employer x) t tx]
      | EmployeeRemovedData x \<Rightarrow> [ensure_employer_op chain (er_employer x) t tx]
      | PayrollFundedData x \<Rightarrow> [ensure_employer_op chain (fe_employer x) t tx]
      | SalaryClaimedData x \<Rightarrow> (if known then [] else [ensure_employer_op chain 0 t tx])
      | OwnershipData _ \<Rightarrow> [])"

definition employee_ops :: "int \<Rightarrow> u64 \<Rightarrow> decoded_event \<Rightarrow> employee_row op list" where
  "employee_ops chain ts ev =
     (let t = sint ts; tx = l_tx (d_log ev) in
      case d_data ev of
        EmployeeAddedData x \<Rightarrow> [employee_added_op chain x t tx]
      | EmployeeRemovedData x \<Rightarrow> [employee_removed_op chain x t t tx]
      | PayrollFundedData x \<Rightarrow> [ensure_employee_op chain (fe_employee x) (fe_employer x) t tx]
      | SalaryClaimedData x \<Rightarrow> [claimed_op chain (ce_employee x) t t tx]
      | _ \<Rightarrow> [])"

definition funding_rows :: "int \<Rightarrow> u64 \<Rightarrow> decoded_event \<Rightarrow> funding_row list" where
  "funding_rows chain ts ev =
     (case d_data ev of
        PayrollFundedData x \<Rightarrow>
          [funding_row_of chain x (l_tx (d_log ev)) (l_block (d_log ev)) (sint ts) (l_index (d_log ev))]
      | _ \<Rightarrow> [])"

definition claim_rows :: "int \<Rightarrow> u64 \<Rightarrow> decoded_event \<Rightarrow> claim_row list" where
  "claim_rows chain ts ev =
     (case d_data ev of
        SalaryClaimedData x \<Rightarrow>
          [claim_row_of chain x (l_tx (d_log ev)) (l_block (d_log ev)) (sint ts) (l_index (d_log ev))]
      | _ \<Rightarrow> [])"

definition knows_claimant :: "int \<Rightarrow> decoded_event \<Rightarrow> database \<Rightarrow> bool" where
  "knows_claimant chain ev d =
     (case d_data ev of SalaryClaimedData x \<Rightarrow> has_employee d chain (ce_employee x) | _ \<Rightarrow> True)"

definition apply_projection :: "int \<Rightarrow> u64 \<times> decoded_event \<Rightarrow> database \<Rightarrow> database" where
  "apply_projection chain p d =
     d\<lparr>employers := apply_ops em_key
          (employer_ops chain (knows_claimant chain (snd p) d) (fst p) (snd p)) (employers d),
       employees := apply_ops ee_key (employee_ops chain (fst p) (snd p)) (employees d),
       payroll_fundings := fold (insert_ignore pf_key) (funding_rows chain (fst p) (snd p)) (payroll_fundings d),
       salary_claims := fold (insert_ignore sc_key) (claim_rows chain (fst p) (snd p)) (salary_claims d)\<rparr>"

definition amount_ok :: "int option \<Rightarrow> bool" where
  "amount_ok x \<longleftrightarrow> in_numeric (big_or_zero x)"

definition event_in_range :: "decoded_event \<Rightarrow> bool" where
  "event_in_range ev \<longleftrightarrow> in_integer (sint (l_index (d_log ev))) \<and>
     (case d_data ev of
        EmployeeAddedData x \<Rightarrow> amount_ok (ea_salary x) \<and> amount_ok (ea_allocation x)
      | PayrollFundedData x \<Rightarrow> amount_ok (fe_paid x) \<and> amount_ok (fe_fee x) \<and> amount_ok (fe_credited x)
      | SalaryClaimedData x \<Rightarrow> amount_ok (ce_amount x)
      | _ \<Rightarrow> True)"

section \<open>The code refines the specification\<close>

lemma exec_answered:
  assumes "db_fault env (w_tick w) = None" "f (w_db w) = Inr d"
  shows "exec_sql env f w = (Inr (), (next_tick w)\<lparr>w_db := d\<rparr>)"
  using assms by (simp add: exec_sql_def)

lemma stmt_employee_Inr:
  assumes "db_ok d" "\<And>r. ee_key (snd p r) = ee_key r"
    and "in_numeric (ee_salary (fst p))"
    and "case ee_allocation (fst p) of None \<Rightarrow> True | Some v \<Rightarrow> in_numeric v"
    and "has_employer d (ee_chain (fst p)) (ee_employer (fst p))"
    and "\<And>r. (in_numeric (ee_salary r) \<and> (case ee_allocation r of None \<Rightarrow> True | Some v \<Rightarrow> in_numeric v) \<and>
         has_employer d (ee_chain r) (ee_employer r)) \<and> ee_key r = ee_key (fst p) \<Longrightarrow>
         in_numeric (ee_salary (snd p r)) \<and>
         (case ee_allocation (snd p r) of None \<Rightarrow> True | Some v \<Rightarrow> in_numeric v) \<and>
         has_employer d (ee_chain (snd p r)) (ee_employer (snd p r))"
  shows "stmt_employee p d = Inr (d\<lparr>employees := apply_op ee_key p (employees d)\<rparr>)"
proof (cases rule: written_cases [of ee_key "fst p" "employees d" "\<lambda>old _. snd p old"])
  case 1
  then show ?thesis using assms(3-5) by (auto simp: stmt_employee_def split: option.splits)
next
  case (2 old)
  then have "in_numeric (ee_salary old)" "has_employer d (ee_chain old) (ee_employer old)"
    "case ee_allocation old of None \<Rightarrow> True | Some v \<Rightarrow> in_numeric v"
    using assms(1) by (auto simp: db_ok_def fk_ok_def range_ok_def)
  then show ?thesis using assms(6) [of old] 2 by (auto simp: stmt_employee_def split: option.splits)
qed

lemma has_employer_op:
  "(\<And>r. em_key (snd p r) = em_key r) \<Longrightarrow>
   has_employer (d\<lparr>employers := apply_op em_key p (employers d)\<rparr>) c a \<longleftrightarrow>
     em_key (fst p) = (c, a) \<or> has_employer d c a"
  using sql_table.has_upsert [OF op_is_table [of em_key p]] by (auto simp: has_employer_def apply_op_def)

lemma employer_op_ok:
  "(\<And>r. em_key (snd p r) = em_key r) \<Longrightarrow> db_ok d \<Longrightarrow>
   db_ok (d\<lparr>employers := apply_op em_key p (employers d)\<rparr>)"
  using stmt_employer_legal [of p d] by (simp add: stmt_employer_def legal_def)

lemma last_withdraw_claimed:
  assumes "keys_unique ee_key E"
  shows "update_row ee_key (chain, a) (\<lambda>r. r\<lparr>ee_last_withdraw := Some wt, ee_tx := tx\<rparr>)
           (if has_row ee_key (chain, a) E then E else apply_op ee_key (ensure_employee_op chain a 0 t tx) E)
         = apply_op ee_key (claimed_op chain a t wt tx) E"
proof -
  let ?u = "\<lambda>r. r\<lparr>ee_last_withdraw := Some wt, ee_tx := tx\<rparr>"
  have key: "ee_key (fst (claimed_op chain a t wt tx)) = (chain, a)"
    "ee_key (fst (ensure_employee_op chain a 0 t tx)) = (chain, a)"
    by (simp_all add: claimed_op_def ensure_employee_op_def new_employee_def ee_key_def)
  have fresh: "update_row ee_key (chain, a) ?u E = E" if "(chain, a) \<notin> ee_key ` set E" for E
    using that by (induction E) (auto simp: update_row_def)
  have absent: "update_row ee_key (chain, a) ?u (apply_op ee_key (ensure_employee_op chain a 0 t tx) E)
      = apply_op ee_key (claimed_op chain a t wt tx) E" if "\<not> has_row ee_key (chain, a) E" for E
    using that
    by (induction E)
       (auto simp: apply_op_def update_row_def key claimed_op_def ensure_employee_op_def ee_key_def
         new_employee_def)
  have present: "update_row ee_key (chain, a) ?u E = apply_op ee_key (claimed_op chain a t wt tx) E"
    if "has_row ee_key (chain, a) E" "keys_unique ee_key E" for E
    using that
  proof (induction E)
    case (Cons r E)
    show ?case
    proof (cases "ee_key r = (chain, a)")
      case True
      then have "(chain, a) \<notin> ee_key ` set E" using Cons.prems(2) by (auto simp: keys_unique_def)
      with True fresh [of E] show ?thesis
        by (simp add: apply_op_def update_row_def key) (simp add: claimed_op_def)
    next
      case False
      with Cons show ?thesis by (simp add: apply_op_def update_row_def key keys_unique_def)
    qed
  qed simp
  show ?thesis using absent present assms by auto
qed

text \<open>One fault-free statement each, as a step of a run.\<close>

definition runs_to :: "unit go \<Rightarrow> world \<Rightarrow> database \<Rightarrow> bool" where
  "runs_to m w d \<longleftrightarrow> fst (m w) = Inr () \<and> w_db (snd (m w)) = d"

lemma runs_exec:
  "(\<And>n. db_fault env n = None) \<Longrightarrow> f (w_db w) = Inr d \<Longrightarrow> runs_to (exec_sql env f) w d"
  by (simp add: runs_to_def exec_answered)

lemma runs_wrapping: "runs_to m w d \<Longrightarrow> runs_to (wrapping s m) w d"
  by (auto simp: runs_to_def wrapping_def split: prod.splits sum.splits)

lemma runs_bind:
  "runs_to m w d \<Longrightarrow> (\<And>w'. w_db w' = d \<Longrightarrow> runs_to (k ()) w' d') \<Longrightarrow> runs_to (bind_go m k) w d'"
  by (auto simp: runs_to_def bind_go_def split: prod.splits sum.splits)

lemma runs_attempt:
  "runs_to m w d \<Longrightarrow> (\<And>r w'. w_db w' = d \<Longrightarrow> runs_to (k r) w' d') \<Longrightarrow>
   runs_to (bind_go (attempt m) k) w d'"
  by (auto simp: runs_to_def bind_go_def attempt_def split: prod.splits sum.splits)

lemma runs_query:
  "(\<And>n. db_fault env n = None) \<Longrightarrow>
   (\<And>w'. w_db w' = w_db w \<Longrightarrow> runs_to (k (Inr (f (w_db w)))) w' d') \<Longrightarrow>
   runs_to (bind_go (attempt (query_sql env f)) k) w d'"
  by (simp add: runs_to_def bind_go_def attempt_def query_sql_def)

lemma runs_ret: "w_db w = d \<Longrightarrow> runs_to (ret ()) w d"
  by (simp add: runs_to_def ret_def)

lemmas runs_intros = runs_exec runs_wrapping runs_bind

lemma runs_employer:
  "(\<And>n. db_fault env n = None) \<Longrightarrow>
   runs_to (exec_sql env (stmt_employer p)) w
     ((w_db w)\<lparr>employers := apply_op em_key p (employers (w_db w))\<rparr>)"
  by (intro runs_exec) (simp_all add: stmt_employer_def)

text \<open>Ensure the employer first, then write the employee.\<close>

lemma runs_ensure_then:
  assumes answers: "\<And>n. db_fault env n = None" and ok: "db_ok (w_db w)"
    and k: "\<And>w'. w_db w' = d \<Longrightarrow> runs_to (k ()) w' d'"
    and p: "em_key (fst (ensure_employer_op chain a t tx)) = (ee_chain (fst p), ee_employer (fst p))"
      "\<And>r. ee_key (snd p r) = ee_key r"
      "in_numeric (ee_salary (fst p))"
      "case ee_allocation (fst p) of None \<Rightarrow> True | Some v \<Rightarrow> in_numeric v"
    and upd: "\<And>r. in_numeric (ee_salary r) \<Longrightarrow>
       (case ee_allocation r of None \<Rightarrow> True | Some v \<Rightarrow> in_numeric v) \<Longrightarrow> ee_key r = ee_key (fst p) \<Longrightarrow>
       in_numeric (ee_salary (snd p r)) \<and>
       (case ee_allocation (snd p r) of None \<Rightarrow> True | Some v \<Rightarrow> in_numeric v) \<and>
       ee_chain (snd p r) = ee_chain r \<and>
       (ee_employer (snd p r) = ee_employer r \<or>
        ee_employer (snd p r) = ee_employer (fst p))"
    and d: "d = (w_db w)\<lparr>employers := apply_op em_key (ensure_employer_op chain a t tx) (employers (w_db w)),
                 employees := apply_op ee_key p (employees (w_db w))\<rparr>"
  shows "runs_to (bind_go (wrapping s1 (exec_sql env (stmt_employer (ensure_employer_op chain a t tx))))
           (\<lambda>_. bind_go (wrapping s2 (exec_sql env (stmt_employee p))) k)) w d'"
proof (intro runs_bind runs_wrapping)
  let ?d1 = "(w_db w)\<lparr>employers := apply_op em_key (ensure_employer_op chain a t tx) (employers (w_db w))\<rparr>"
  show "runs_to (exec_sql env (stmt_employer (ensure_employer_op chain a t tx))) w ?d1"
    using answers by (rule runs_employer)
  fix w1 :: world assume w1: "w_db w1 = ?d1"
  have ok1: "db_ok ?d1" using ok by (intro employer_op_ok) simp_all
  have emp: "has_employer ?d1 (ee_chain (fst p)) (ee_employer (fst p))"
    using p(1) by (simp add: has_employer_op)
  have "stmt_employee p ?d1 = Inr (?d1\<lparr>employees := apply_op ee_key p (employees ?d1)\<rparr>)"
  proof (rule stmt_employee_Inr [OF ok1 p(2-4) emp])
    fix r
    assume r: "(in_numeric (ee_salary r) \<and>
        (case ee_allocation r of None \<Rightarrow> True | Some v \<Rightarrow> in_numeric v) \<and>
        has_employer ?d1 (ee_chain r) (ee_employer r)) \<and> ee_key r = ee_key (fst p)"
    then have "ee_chain r = ee_chain (fst p)" by (simp add: ee_key_def)
    with r emp upd [of r] show "in_numeric (ee_salary (snd p r)) \<and>
        (case ee_allocation (snd p r) of None \<Rightarrow> True | Some v \<Rightarrow> in_numeric v) \<and>
        has_employer ?d1 (ee_chain (snd p r)) (ee_employer (snd p r))"
      by auto
  qed
  then show "runs_to (exec_sql env (stmt_employee p)) w1 d"
    using answers by (intro runs_exec) (simp_all add: w1 d)
  show "\<And>w'. w_db w' = d \<Longrightarrow> runs_to (k ()) w' d'" by (rule k)
qed

lemma bind_ret_right: "bind_go m ret = m"
  by (auto simp: go_unfold fun_eq_iff split: prod.splits sum.splits)

lemma runs_employee_added:
  assumes "\<And>n. db_fault env n = None" "db_ok (w_db w)" "amount_ok (ea_salary x)" "amount_ok (ea_allocation x)"
  shows "runs_to (save_employee_added env chain x t tx) w
    ((w_db w)\<lparr>employers := apply_op em_key (ensure_employer_op chain (ea_employer x) t tx) (employers (w_db w)),
              employees := apply_op ee_key (employee_added_op chain x t tx) (employees (w_db w))\<rparr>)"
  unfolding save_employee_added_def
  by (subst (2) bind_ret_right [symmetric], rule runs_ensure_then [OF assms(1,2)])
     (use assms(3,4) in \<open>auto simp: ensure_employer_op_def new_employer_def employee_added_op_def
       new_employee_def em_key_def ee_key_def amount_ok_def intro: runs_ret\<close>)

lemma runs_employee_removed:
  assumes "\<And>n. db_fault env n = None" "db_ok (w_db w)"
  shows "runs_to (save_employee_removed env chain x t dt tx) w
    ((w_db w)\<lparr>employers := apply_op em_key (ensure_employer_op chain (er_employer x) t tx) (employers (w_db w)),
              employees := apply_op ee_key (employee_removed_op chain x t dt tx) (employees (w_db w))\<rparr>)"
  unfolding save_employee_removed_def
  by (subst (2) bind_ret_right [symmetric], rule runs_ensure_then [OF assms])
     (auto simp: ensure_employer_op_def new_employer_def employee_removed_op_def
       new_employee_def em_key_def ee_key_def in_numeric_def intro: runs_ret)

lemma has_op:
  "(\<And>r. key (snd p r) = key r) \<Longrightarrow>
   has_row key k (apply_op key p t) \<longleftrightarrow> k = key (fst p) \<or> has_row key k t"
  unfolding apply_op_def by (rule sql_table.has_upsert [OF op_is_table])

lemma ensure_keys [simp]:
  "em_key (fst (ensure_employer_op chain a t tx)) = (chain, a)"
  "ee_key (fst (ensure_employee_op chain a emp t tx)) = (chain, a)"
  by (simp_all add: ensure_employer_op_def ensure_employee_op_def new_employer_def new_employee_def
      em_key_def ee_key_def)

lemma runs_payroll_funded:
  assumes "\<And>n. db_fault env n = None" "db_ok (w_db w)" "has_tx (w_db w) chain tx"
    and "amount_ok (fe_paid x)" "amount_ok (fe_fee x)" "amount_ok (fe_credited x)"
    and "in_integer (sint i)"
  shows "runs_to (save_payroll_funded env chain x tx b t i) w
    ((w_db w)\<lparr>employers := apply_op em_key (ensure_employer_op chain (fe_employer x) t tx) (employers (w_db w)),
              employees := apply_op ee_key (ensure_employee_op chain (fe_employee x) (fe_employer x) t tx)
                             (employees (w_db w)),
              payroll_fundings := insert_ignore pf_key (funding_row_of chain x tx b t i)
                             (payroll_fundings (w_db w))\<rparr>)"
  unfolding save_payroll_funded_def
proof (rule runs_ensure_then [OF assms(1,2)])
  let ?d = "(w_db w)\<lparr>employers := apply_op em_key (ensure_employer_op chain (fe_employer x) t tx) (employers (w_db w)),
              employees := apply_op ee_key (ensure_employee_op chain (fe_employee x) (fe_employer x) t tx)
                             (employees (w_db w))\<rparr>"
  fix w' :: world assume w': "w_db w' = ?d"
  have "stmt_funding (funding_row_of chain x tx b t i) ?d =
      Inr (?d\<lparr>payroll_fundings := insert_ignore pf_key (funding_row_of chain x tx b t i) (payroll_fundings ?d)\<rparr>)"
    using assms(3-7) insert_ignore_present [of pf_key "funding_row_of chain x tx b t i"]
    by (simp add: stmt_funding_def funding_row_of_def amount_ok_def has_employer_def has_employee_def
        has_op has_tx_def)
  then show "runs_to (wrapping (''failed to save payroll funding tx '' @ hash_hex env tx @ '' log '' @ dec_u64 i)
      (exec_sql env (stmt_funding (funding_row_of chain x tx b t i)))) w'
      ((w_db w)\<lparr>employers := apply_op em_key (ensure_employer_op chain (fe_employer x) t tx) (employers (w_db w)),
              employees := apply_op ee_key (ensure_employee_op chain (fe_employee x) (fe_employer x) t tx)
                             (employees (w_db w)),
              payroll_fundings := insert_ignore pf_key (funding_row_of chain x tx b t i)
                             (payroll_fundings (w_db w))\<rparr>)"
    using assms(1) by (intro runs_wrapping runs_exec) (simp_all add: w')
qed (auto simp: ensure_employee_op_def new_employee_def ensure_employer_op_def new_employer_def
       em_key_def ee_key_def in_numeric_def)

lemma runs_claimant:
  assumes "\<And>n. db_fault env n = None" "db_ok (w_db w)"
  shows "runs_to (ensure_claimant env chain a t tx) w
    (if has_employee (w_db w) chain a then w_db w
     else (w_db w)\<lparr>employers := apply_op em_key (ensure_employer_op chain 0 t tx) (employers (w_db w)),
                   employees := apply_op ee_key (ensure_employee_op chain a 0 t tx) (employees (w_db w))\<rparr>)"
proof -
  let ?d1 = "(w_db w)\<lparr>employers := apply_op em_key (ensure_employer_op chain 0 t tx) (employers (w_db w))\<rparr>"
  have ok1: "db_ok ?d1" using assms(2) by (intro employer_op_ok) simp_all
  have "stmt_employee (ensure_employee_op chain a 0 t tx) ?d1 =
      Inr (?d1\<lparr>employees := apply_op ee_key (ensure_employee_op chain a 0 t tx) (employees ?d1)\<rparr>)"
    by (rule stmt_employee_Inr [OF ok1])
       (auto simp: has_employer_op, auto simp: ensure_employee_op_def new_employee_def ee_key_def in_numeric_def)
  with assms(1) show ?thesis
    unfolding ensure_claimant_def
    by (intro runs_query)
       (auto intro!: runs_ret runs_attempt runs_exec runs_employer [where p = "ensure_employer_op chain 0 t tx"]
         simp: stmt_employer_def)
qed

lemma runs_salary_claimed:
  assumes answers: "\<And>n. db_fault env n = None" and ok: "db_ok (w_db w)"
    and rng: "amount_ok (ce_amount x)" "in_integer (sint i)"
  shows "runs_to (save_salary_claimed env chain x tx b t i wt) w
    ((w_db w)\<lparr>employers := (if has_employee (w_db w) chain (ce_employee x) then employers (w_db w)
                 else apply_op em_key (ensure_employer_op chain 0 t tx) (employers (w_db w))),
              employees := apply_op ee_key (claimed_op chain (ce_employee x) t wt tx) (employees (w_db w)),
              salary_claims := insert_ignore sc_key (claim_row_of chain x tx b t i) (salary_claims (w_db w))\<rparr>)"
    (is "runs_to _ _ ?goal")
  unfolding save_salary_claimed_def
proof (rule runs_bind [OF runs_claimant [OF answers ok]])
  let ?a = "ce_employee x"
  let ?d = "if has_employee (w_db w) chain ?a then w_db w
     else (w_db w)\<lparr>employers := apply_op em_key (ensure_employer_op chain 0 t tx) (employers (w_db w)),
                   employees := apply_op ee_key (ensure_employee_op chain ?a 0 t tx) (employees (w_db w))\<rparr>"
  define D where "D = ?d"
  let ?d2 = "D\<lparr>salary_claims := insert_ignore sc_key (claim_row_of chain x tx b t i) (salary_claims D)\<rparr>"
  fix w1 :: world assume "w_db w1 = ?d"
  then have w1: "w_db w1 = D" by (simp only: D_def)
  have "has_employee D chain ?a"
    by (simp add: D_def has_employee_def has_op)
  then have claim: "stmt_claim (claim_row_of chain x tx b t i) D = Inr ?d2"
    using rng insert_ignore_present [of sc_key "claim_row_of chain x tx b t i"]
    by (simp add: stmt_claim_def claim_row_of_def amount_ok_def)
  have "keys_unique ee_key (employees (w_db w))"
    using ok by (simp add: db_ok_def uniq_ok_def)
  note withdraw = last_withdraw_claimed [OF this, where chain = chain and a = ?a and wt = wt and tx = tx and t = t]
  have "stmt_last_withdraw chain ?a wt tx ?d2 = Inr ?goal"
    using withdraw by (auto simp: D_def stmt_last_withdraw_def has_employee_def)
  then obtain G where G: "stmt_last_withdraw chain ?a wt tx ?d2 = Inr G" "G = ?goal" by blast
  have "runs_to (bind_go (wrapping (''failed to save salary claim tx '' @ hash_hex env tx @ '' log '' @ dec_u64 i)
          (exec_sql env (stmt_claim (claim_row_of chain x tx b t i)))) (\<lambda>_.
        bind_go (attempt (exec_sql env (stmt_last_withdraw chain ?a wt tx))) (\<lambda>_. ret ()))) w1 G"
    by (intro runs_bind [OF runs_wrapping [OF runs_exec]] runs_attempt [OF runs_exec] runs_ret)
       (simp only: w1 claim G(1) answers)+
  then show "runs_to (bind_go (wrapping (''failed to save salary claim tx '' @ hash_hex env tx @ '' log '' @ dec_u64 i)
          (exec_sql env (stmt_claim (claim_row_of chain x tx b t i)))) (\<lambda>_.
        bind_go (attempt (exec_sql env (stmt_last_withdraw chain ?a wt tx))) (\<lambda>_. ret ()))) w1 ?goal"
    by (simp only: G(2))
qed

lemma projection_refines:
  assumes answers: "\<And>n. db_fault env n = None" and ok: "db_ok (w_db w)"
    and tx: "has_tx (w_db w) chain (l_tx (d_log ev))"
    and ev: "well_typed_event ev" "event_in_range ev"
  shows "runs_to (project_payroll_event env chain ts (Some ev)) w (apply_projection chain (ts, ev) (w_db w))"
proof -
  note defs = project_payroll_event_def well_typed_event_def apply_projection_def employer_ops_def
    employee_ops_def funding_rows_def claim_rows_def knows_claimant_def Let_def
  let ?ops = "\<lambda>E p. apply_op em_key p E"
  show ?thesis
  proof (cases "d_data ev")
    case (EmployerAddedData a)
    with ev(1) show ?thesis
      using runs_wrapping [OF runs_employer [where w = w, OF answers]]
      by (simp add: defs save_employer_added_def)
  next
    case (EmployerRemovedData a)
    with ev(1) show ?thesis
      using runs_wrapping [OF runs_employer [where w = w, OF answers]]
      by (simp add: defs save_employer_removed_def)
  next
    case (EmployeeAddedData x)
    with ev show ?thesis
      using runs_employee_added [where w = w, OF answers ok] by (simp add: defs event_in_range_def)
  next
    case (EmployeeRemovedData x)
    with ev show ?thesis
      using runs_employee_removed [where w = w, OF answers ok] by (simp add: defs)
  next
    case (PayrollFundedData x)
    with ev show ?thesis
      using runs_payroll_funded [where w = w, OF answers ok tx] by (simp add: defs event_in_range_def)
  next
    case (SalaryClaimedData x)
    with ev show ?thesis
      using runs_salary_claimed [where w = w and x = x and i = "l_index (d_log ev)" and chain = chain
          and tx = "l_tx (d_log ev)" and b = "l_block (d_log ev)" and t = "sint ts" and wt = "sint ts",
          OF answers ok]
      by (cases "has_employee (w_db w) chain (ce_employee x)") (simp_all add: defs event_in_range_def)
  next
    case (OwnershipData x)
    with ev show ?thesis by (simp add: defs runs_ret)
  qed
qed

section \<open>The updates are patches\<close>

text \<open>
  Every \<open>DO UPDATE\<close> clause assigns constants and \<open>COALESCE\<close>s to some columns. Such patches are
  closed under composition and idempotent, which is the contract \<open>replay_table\<close> asks for.
\<close>

definition pick :: "'a option \<Rightarrow> 'a \<Rightarrow> 'a" where
  "pick x y = (case x of None \<Rightarrow> y | Some v \<Rightarrow> v)"

lemma pick_simps [simp]: "pick None y = y" "pick (Some v) y = v" "pick x (pick x y) = pick x y"
  "pick x (pick x' y) = pick (coalesce x x') y"
  by (simp_all add: pick_def coalesce_def split: option.split)

lemma coalesce_simps [simp]: "coalesce None y = y" "coalesce (Some v) y = Some v"
  "coalesce x None = x" "coalesce x x = x"
  "coalesce (coalesce x y) z = coalesce x (coalesce y z)" "coalesce x (coalesce x y) = coalesce x y"
  by (simp_all add: coalesce_def split: option.split)

definition employer_patch ::
  "bool option \<Rightarrow> int option \<Rightarrow> int option \<Rightarrow> int option \<Rightarrow> hash option \<Rightarrow> employer_row \<Rightarrow> employer_row" where
  "employer_patch ac dt ad rm tx r = r\<lparr>em_active := pick ac (em_active r),
     em_deactivation := coalesce dt (em_deactivation r), em_added_at := coalesce (em_added_at r) ad,
     em_removed_at := coalesce rm (em_removed_at r), em_tx := pick tx (em_tx r)\<rparr>"

definition is_employer_patch :: "(employer_row \<Rightarrow> employer_row) \<Rightarrow> bool" where
  "is_employer_patch u \<longleftrightarrow> (\<exists>ac dt ad rm tx. u = employer_patch ac dt ad rm tx)"

record employee_changes =
  c_employer :: "address option"
  c_salary :: "int option"
  c_withdraw :: "int option"
  c_active :: "bool option"
  c_deactivation :: "int option"
  c_allocation :: "int option"
  c_added :: "int option"
  c_removed :: "int option"
  c_tx :: "hash option"

definition no_changes :: employee_changes where
  "no_changes = \<lparr>c_employer = None, c_salary = None, c_withdraw = None, c_active = None,
     c_deactivation = None, c_allocation = None, c_added = None, c_removed = None, c_tx = None\<rparr>"

definition employee_patch :: "employee_changes \<Rightarrow> employee_row \<Rightarrow> employee_row" where
  "employee_patch c r = r\<lparr>ee_employer := pick (c_employer c) (ee_employer r),
     ee_salary := pick (c_salary c) (ee_salary r),
     ee_last_withdraw := coalesce (c_withdraw c) (ee_last_withdraw r),
     ee_active := pick (c_active c) (ee_active r),
     ee_deactivation := coalesce (c_deactivation c) (ee_deactivation r),
     ee_allocation := coalesce (c_allocation c) (ee_allocation r),
     ee_added_at := coalesce (ee_added_at r) (c_added c),
     ee_removed_at := coalesce (c_removed c) (ee_removed_at r), ee_tx := pick (c_tx c) (ee_tx r)\<rparr>"

definition is_employee_patch :: "(employee_row \<Rightarrow> employee_row) \<Rightarrow> bool" where
  "is_employee_patch u \<longleftrightarrow> (\<exists>c. u = employee_patch c)"

lemma employer_patch_comp:
  "employer_patch a d ad rm tx \<circ> employer_patch a' d' ad' rm' tx' =
   employer_patch (coalesce a a') (coalesce d d') (coalesce ad' ad) (coalesce rm rm') (coalesce tx tx')"
  by (simp add: fun_eq_iff employer_patch_def)

lemma employee_patch_comp:
  "employee_patch c \<circ> employee_patch c' = employee_patch
     \<lparr>c_employer = coalesce (c_employer c) (c_employer c'), c_salary = coalesce (c_salary c) (c_salary c'),
      c_withdraw = coalesce (c_withdraw c) (c_withdraw c'), c_active = coalesce (c_active c) (c_active c'),
      c_deactivation = coalesce (c_deactivation c) (c_deactivation c'),
      c_allocation = coalesce (c_allocation c) (c_allocation c'),
      c_added = coalesce (c_added c') (c_added c), c_removed = coalesce (c_removed c) (c_removed c'),
      c_tx = coalesce (c_tx c) (c_tx c')\<rparr>"
  by (simp add: fun_eq_iff employee_patch_def)

interpretation em_replay: replay_table em_key is_employer_patch
proof unfold_locales
  show "is_employer_patch id"
    unfolding is_employer_patch_def
    by (rule exI [of _ None], rule exI [of _ None], rule exI [of _ None], rule exI [of _ None],
        rule exI [of _ None]) (simp add: fun_eq_iff employer_patch_def)
  show "is_employer_patch u \<Longrightarrow> is_employer_patch v \<Longrightarrow> is_employer_patch (u \<circ> v)" for u v
    unfolding is_employer_patch_def using employer_patch_comp by metis
  show "is_employer_patch u \<Longrightarrow> u (u r) = u r" for u r
    by (auto simp: is_employer_patch_def employer_patch_def)
  show "is_employer_patch u \<Longrightarrow> em_key (u r) = em_key r" for u r
    by (auto simp: is_employer_patch_def employer_patch_def em_key_def)
qed

interpretation ee_replay: replay_table ee_key is_employee_patch
proof unfold_locales
  show "is_employee_patch id"
    unfolding is_employee_patch_def
    by (rule exI [of _ no_changes]) (simp add: fun_eq_iff employee_patch_def no_changes_def)
  show "is_employee_patch u \<Longrightarrow> is_employee_patch v \<Longrightarrow> is_employee_patch (u \<circ> v)" for u v
    unfolding is_employee_patch_def using employee_patch_comp by metis
  show "is_employee_patch u \<Longrightarrow> u (u r) = u r" for u r
    by (auto simp: is_employee_patch_def employee_patch_def)
  show "is_employee_patch u \<Longrightarrow> ee_key (u r) = ee_key r" for u r
    by (auto simp: is_employee_patch_def employee_patch_def ee_key_def)
qed

lemma employer_patchI:
  "u = employer_patch ac dt ad rm tx \<Longrightarrow> is_employer_patch u"
  unfolding is_employer_patch_def by blast

lemma employer_ops_patch:
  "is_employer_patch (snd (employer_added_op chain a t tx))"
  "is_employer_patch (snd (employer_removed_op chain a t dt tx))"
  "is_employer_patch (snd (ensure_employer_op chain a t tx))"
  by (rule employer_patchI [of _ "Some True" None "Some t" None "Some tx"]
        employer_patchI [of _ "Some False" "Some dt" None "Some t" "Some tx"]
        employer_patchI [of _ None None None None None];
      simp add: op_defs employer_patch_def fun_eq_iff; fail)+

lemma employee_patchI: "u = employee_patch c \<Longrightarrow> is_employee_patch u"
  unfolding is_employee_patch_def by blast

lemma employee_ops_patch:
  "is_employee_patch (snd (employee_added_op chain x t tx))"
  "is_employee_patch (snd (employee_removed_op chain y t dt tx))"
  "is_employee_patch (snd (ensure_employee_op chain a emp t tx))"
  "is_employee_patch (snd (claimed_op chain a t wt tx))"
  by (rule employee_patchI [of _ "no_changes\<lparr>c_employer := Some (ea_employer x),
          c_salary := Some (big_or_zero (ea_salary x)),
          c_allocation := Some (big_or_zero (ea_allocation x)), c_active := Some True,
          c_added := Some t, c_tx := Some tx\<rparr>"]
        employee_patchI [of _ "no_changes\<lparr>c_active := Some False, c_removed := Some t,
          c_deactivation := Some dt, c_tx := Some tx\<rparr>"]
        employee_patchI [of _ no_changes]
        employee_patchI [of _ "no_changes\<lparr>c_withdraw := Some wt, c_tx := Some tx\<rparr>"];
      simp add: op_defs claimed_op_def employee_patch_def no_changes_def fun_eq_iff; fail)+

lemma employer_ops_safe: "em_replay.safe_ops (employer_ops chain known ts ev)"
  by (auto simp: em_replay.safe_ops_def em_replay.safe_op_def employer_ops_def Let_def
      employer_ops_patch split: payroll_data.split)
     (auto simp: op_defs new_employer_def)

lemma employee_ops_safe: "ee_replay.safe_ops (employee_ops chain ts ev)"
  by (auto simp: ee_replay.safe_ops_def ee_replay.safe_op_def employee_ops_def Let_def
      employee_ops_patch split: payroll_data.split)
     (auto simp: op_defs new_employee_def claimed_op_def)

section \<open>Replaying a history\<close>

fun history_employer_ops ::
  "int \<Rightarrow> (u64 \<times> decoded_event) list \<Rightarrow> database \<Rightarrow> employer_row op list" where
  "history_employer_ops chain [] d = []"
| "history_employer_ops chain (p # ps) d =
     employer_ops chain (knows_claimant chain (snd p) d) (fst p) (snd p) @
     history_employer_ops chain ps (apply_projection chain p d)"

lemma history_employers:
  "employers (fold (apply_projection chain) ps d) =
     apply_ops em_key (history_employer_ops chain ps d) (employers d)"
  by (induction ps arbitrary: d) (simp_all add: apply_projection_def)

lemma history_employees:
  "employees (fold (apply_projection chain) ps d) =
     apply_ops ee_key (concat (map (\<lambda>p. employee_ops chain (fst p) (snd p)) ps)) (employees d)"
  by (induction ps arbitrary: d) (simp_all add: apply_projection_def)

lemma history_fundings:
  "payroll_fundings (fold (apply_projection chain) ps d) =
     fold (insert_ignore pf_key) (concat (map (\<lambda>p. funding_rows chain (fst p) (snd p)) ps))
       (payroll_fundings d)"
  by (induction ps arbitrary: d) (simp_all add: apply_projection_def)

lemma history_claims:
  "salary_claims (fold (apply_projection chain) ps d) =
     fold (insert_ignore sc_key) (concat (map (\<lambda>p. claim_rows chain (fst p) (snd p)) ps))
       (salary_claims d)"
  by (induction ps arbitrary: d) (simp_all add: apply_projection_def)

lemma history_rest:
  "transactions (fold (apply_projection chain) ps d) = transactions d"
  "chain_events (fold (apply_projection chain) ps d) = chain_events d"
  "token_transfers (fold (apply_projection chain) ps d) = token_transfers d"
  "escrow_events (fold (apply_projection chain) ps d) = escrow_events d"
  "sync_checkpoints (fold (apply_projection chain) ps d) = sync_checkpoints d"
  "exceptions (fold (apply_projection chain) ps d) = exceptions d"
  by (induction ps arbitrary: d) (simp_all add: apply_projection_def)

lemma history_safe:
  "em_replay.safe_ops (history_employer_ops chain ps d)"
  "ee_replay.safe_ops (concat (map (\<lambda>p. employee_ops chain (fst p) (snd p)) ps))"
  using employer_ops_safe employee_ops_safe
  by (induction ps arbitrary: d)
     (simp_all add: em_replay.safe_ops_def ee_replay.safe_ops_def ball_Un)

lemma employee_stays:
  "has_employee d c a \<Longrightarrow> has_employee (apply_projection chain p d) c a"
  using employee_ops_safe
  by (simp add: has_employee_def apply_projection_def ee_replay.has_apply_ops)

lemma has_claimed: "has_row ee_key (chain, a) (apply_op ee_key (claimed_op chain a t wt tx) E)"
proof -
  have "ee_key (snd (claimed_op chain a t wt tx) r) = ee_key r" for r
    by (simp add: claimed_op_def ee_key_def)
  then show ?thesis
    by (subst has_op) (simp_all add: claimed_op_def new_employee_def ee_key_def)
qed

lemma claimant_known_after:
  "p \<in> set ps \<Longrightarrow> knows_claimant chain (snd p) (fold (apply_projection chain) ps d)"
proof (induction ps arbitrary: d)
  case (Cons q ps)
  have stays: "has_employee d' c a \<Longrightarrow> has_employee (fold (apply_projection chain) ps d') c a" for d' c a
    by (induction ps arbitrary: d') (simp_all add: employee_stays)
  have "knows_claimant chain (snd q) (apply_projection chain q d)"
    by (auto simp: knows_claimant_def has_employee_def apply_projection_def employee_ops_def
        Let_def has_claimed split: payroll_data.split)
  with Cons stays show ?case
    by (auto simp: knows_claimant_def split: payroll_data.splits)
qed simp

lemma skips_known: "skips (employer_ops chain known ts ev) (employer_ops chain True ts ev)"
  by (auto simp: employer_ops_def Let_def skips_refl ensure_employer_op_def split: payroll_data.split
      intro: skips.intros)

lemma history_skips:
  "(\<And>p. p \<in> set ps \<Longrightarrow> knows_claimant chain (snd p) d') \<Longrightarrow>
   skips (history_employer_ops chain ps d) (history_employer_ops chain ps d')"
proof (induction ps arbitrary: d d')
  case (Cons p ps)
  have "knows_claimant chain (snd q) (apply_projection chain p d')" if "q \<in> set ps" for q
    using Cons.prems [of q] that employee_stays
    by (auto simp: knows_claimant_def split: payroll_data.splits)
  moreover have "knows_claimant chain (snd p) d'" using Cons.prems by simp
  ultimately show ?case using Cons.IH by (auto intro!: skips_append skips_known)
qed (simp add: skips_Nil)

lemma history_replay:
  assumes "uniq_ok d"
  shows "fold (apply_projection chain) ps (fold (apply_projection chain) ps d) =
         fold (apply_projection chain) ps d" (is "?f (?f d) = _")
proof (rule database.equality)
  have "employers (?f (?f d)) = apply_ops em_key (history_employer_ops chain ps (?f d)) (employers (?f d))"
    by (rule history_employers)
  also have "\<dots> = employers (?f d)"
    unfolding history_employers [of chain ps d]
  proof (rule em_replay.replay_skips [OF history_safe(1)])
    show "skips (history_employer_ops chain ps d) (history_employer_ops chain ps (?f d))"
      by (intro history_skips claimant_known_after)
    show "keys_unique em_key (employers d)" using assms by (simp add: uniq_ok_def)
  qed
  finally show "employers (?f (?f d)) = employers (?f d)" .
  show "employees (?f (?f d)) = employees (?f d)"
    using assms ee_replay.replay_idem [OF history_safe(2)]
    by (simp add: history_employees uniq_ok_def)
qed (simp_all add: history_fundings history_claims history_rest replay_inserts)

section \<open>Properties\<close>

definition project_all :: "env \<Rightarrow> int \<Rightarrow> (u64 \<times> decoded_event) list \<Rightarrow> unit go" where
  "project_all env chain ps =
     for_each (\<lambda>p _. project_payroll_event env chain (fst p) (Some (snd p))) ps ()"

definition projectable :: "int \<Rightarrow> database \<Rightarrow> u64 \<times> decoded_event \<Rightarrow> bool" where
  "projectable chain d p \<longleftrightarrow> well_typed_event (snd p) \<and> event_in_range (snd p) \<and>
     has_tx d chain (l_tx (d_log (snd p)))"

lemma runs_project_all:
  assumes "\<And>n. db_fault env n = None"
  shows "db_ok (w_db w) \<Longrightarrow> (\<And>p. p \<in> set ps \<Longrightarrow> projectable chain (w_db w) p) \<Longrightarrow>
    runs_to (project_all env chain ps) w (fold (apply_projection chain) ps (w_db w)) \<and>
    db_ok (fold (apply_projection chain) ps (w_db w))"
proof (induction ps arbitrary: w)
  case Nil
  then show ?case by (simp add: project_all_def runs_ret)
next
  case (Cons p ps)
  let ?m = "project_payroll_event env chain (fst p) (Some (snd p))"
  have m: "runs_to ?m w (apply_projection chain p (w_db w))"
    using projection_refines [OF assms Cons.prems(1), of chain "snd p" "fst p"] Cons.prems(2) [of p]
    by (simp add: projectable_def)
  have "legal (w_db w) (w_db (snd (?m w)))"
    using law_keeps_project [unfolded law.keeps_def] by blast
  then have ok: "db_ok (apply_projection chain p (w_db w))"
    using m Cons.prems(1) by (simp add: legal_def runs_to_def)
  have tx: "\<And>q. q \<in> set ps \<Longrightarrow> projectable chain (apply_projection chain p (w_db w)) q"
    using Cons.prems(2) by (simp add: projectable_def has_tx_def apply_projection_def)
  have IH: "runs_to (project_all env chain ps) w' (fold (apply_projection chain) (p # ps) (w_db w)) \<and>
      db_ok (fold (apply_projection chain) (p # ps) (w_db w))"
    if "w_db w' = apply_projection chain p (w_db w)" for w'
    using Cons.IH [of w'] ok tx that by simp
  have "runs_to (bind_go ?m (\<lambda>_. project_all env chain ps)) w (fold (apply_projection chain) (p # ps) (w_db w))"
    using m IH by (intro runs_bind) auto
  then show ?case
    using IH [of "w\<lparr>w_db := apply_projection chain p (w_db w)\<rparr>"] by (simp add: project_all_def)
qed

text \<open>
  C15. Projection implements its specification: on a database that satisfies the constraints and
  holds the event's transaction, when no statement is interrupted, \<open>ProjectPayrollEvent\<close> of a
  well-typed decoded event with amounts in range succeeds and leaves exactly the tables that the
  per-table upserts of \<open>apply_projection\<close> describe, placeholder rows included.
\<close>

theorem projection_implements_spec:
  assumes "\<And>n. db_fault env n = None" "db_ok (w_db w)" "projectable chain (w_db w) (ts, ev)"
  shows "fst (project_payroll_event env chain ts (Some ev) w) = Inr () \<and>
    w_db (snd (project_payroll_event env chain ts (Some ev) w)) = apply_projection chain (ts, ev) (w_db w)"
  using projection_refines [of env w chain ev ts] assms by (simp add: projectable_def runs_to_def)

text \<open>A log, a transaction row and two events of a first claim without a known employee.\<close>

definition sample_log :: "u64 \<Rightarrow> evm_log" where
  "sample_log i = \<lparr>l_address = 9, l_topics = [7], l_data = [], l_block = 10, l_tx = 77, l_index = i,
     l_removed = False\<rparr>"

definition sample_tx :: tx_row where
  "sample_tx = \<lparr>tx_chain = 1, tx_hash = 77, tx_block = 10, tx_sender = 1, tx_recipient = None,
     tx_gas = 21000, tx_status = ''confirmed'', tx_confirmations = 1, tx_first_seen = 0\<rparr>"

definition sample_world :: world where
  "sample_world = empty_world\<lparr>w_db := empty_database\<lparr>transactions := [sample_tx]\<rparr>\<rparr>"

definition sample_claim :: decoded_event where
  "sample_claim = \<lparr>d_type = EventSalaryClaimed,
     d_data = SalaryClaimedData \<lparr>ce_employee = 5, ce_amount = Some 1000\<rparr>, d_log = sample_log 0\<rparr>"

definition sample_added :: decoded_event where
  "sample_added = \<lparr>d_type = EventEmployeeAdded,
     d_data = EmployeeAddedData \<lparr>ea_employee = 5, ea_employer = 6, ea_salary = Some 100,
       ea_allocation = None\<rparr>, d_log = sample_log 1\<rparr>"

lemma sample_world_ok: "db_ok (w_db sample_world)"
  by (simp add: sample_world_def empty_database_def empty_world_def db_ok_def fk_ok_def uniq_ok_def
      range_ok_def keys_unique_def)

lemma sample_projectable:
  "projectable 1 (w_db sample_world) (t, sample_claim)"
  "projectable 1 (w_db sample_world) (t, sample_added)"
  by (simp_all add: projectable_def sample_claim_def sample_added_def sample_log_def sample_world_def
      sample_tx_def well_typed_event_def event_in_range_def amount_ok_def in_numeric_def in_integer_def
      big_or_zero_def has_tx_def tx_key_def)

theorem projection_implements_spec_witness:
  "fst (project_payroll_event calm_env 1 1000 (Some sample_claim) sample_world) = Inr () \<and>
   w_db (snd (project_payroll_event calm_env 1 1000 (Some sample_claim) sample_world)) =
     apply_projection 1 (1000, sample_claim) (w_db sample_world)"
  by (rule projection_implements_spec) (simp_all add: sample_world_ok sample_projectable)

text \<open>
  C16. Crash and replay: a run over a history of events that was cut after any prefix, followed
  by a run over the whole history (what the indexer does after a restart), succeeds and leaves
  the same database as one clean run; with an empty rest this is idempotence of the projection.
\<close>

theorem projection_crash_replay:
  assumes "\<And>n. db_fault env n = None" "db_ok (w_db w)"
    and "\<And>p. p \<in> set (xs @ ys) \<Longrightarrow> projectable chain (w_db w) p"
    and "project_all env chain xs w = (r1, w1)" "project_all env chain (xs @ ys) w1 = (r2, w2)"
    and "project_all env chain (xs @ ys) w = (r3, w3)"
  shows "r2 = Inr () \<and> r3 = Inr () \<and> w_db w2 = w_db w3"
proof -
  let ?f = "\<lambda>ps. fold (apply_projection chain) ps"
  have one: "w_db w1 = ?f xs (w_db w)" "db_ok (w_db w1)"
    using runs_project_all [OF assms(1,2), of xs chain] assms(3,4) by (auto simp: runs_to_def)
  have "projectable chain (w_db w1) p" if "p \<in> set (xs @ ys)" for p
    using assms(3) [OF that] by (simp add: projectable_def has_tx_def one(1) history_rest)
  then have two: "r2 = Inr ()" "w_db w2 = ?f (xs @ ys) (w_db w1)"
    using runs_project_all [OF assms(1) one(2), of "xs @ ys" chain] assms(5) by (auto simp: runs_to_def)
  have three: "r3 = Inr ()" "w_db w3 = ?f (xs @ ys) (w_db w)"
    using runs_project_all [OF assms(1,2), of "xs @ ys" chain] assms(3,6) by (auto simp: runs_to_def)
  have "?f xs (?f xs (w_db w)) = ?f xs (w_db w)"
    using assms(2) by (intro history_replay) (simp add: db_ok_def)
  then show ?thesis using two three one by simp
qed

theorem projection_crash_replay_witness:
  "\<exists>w1 w2 w3. snd (project_all calm_env 1 [(1000, sample_claim)] sample_world) = w1 \<and>
     snd (project_all calm_env 1 [(1000, sample_claim), (1001, sample_added)] w1) = w2 \<and>
     snd (project_all calm_env 1 [(1000, sample_claim), (1001, sample_added)] sample_world) = w3 \<and>
     w_db w2 = w_db w3"
proof -
  obtain r1 w1 where 1: "project_all calm_env 1 [(1000, sample_claim)] sample_world = (r1, w1)"
    by fastforce
  obtain r2 w2 where 2: "project_all calm_env 1 ([(1000, sample_claim)] @ [(1001, sample_added)]) w1 = (r2, w2)"
    by fastforce
  obtain r3 w3 where 3:
    "project_all calm_env 1 ([(1000, sample_claim)] @ [(1001, sample_added)]) sample_world = (r3, w3)"
    by fastforce
  have "w_db w2 = w_db w3"
    using projection_crash_replay [OF _ sample_world_ok _ 1 2 3] sample_projectable by auto
  then show ?thesis using 1 2 3 by simp
qed

end
