(* ===== verification/Payroll_Indexer.thy ===== *)
theory Payroll_Indexer
  imports Projection_Replay Backfill
begin

text \<open>
  \<open>internal/indexer/indexer.go\<close>: the MonthlyPayroll indexing service. \<open>index_range\<close> fetches the logs
  of a range, decodes each, and persists transaction, raw event and projection in this order;
  \<open>payroll_chunk\<close> is one turn of the backfill loop (retry, header, checkpoint) and \<open>run_backfill\<close>
  the loop. The service is interpreted as an \<open>indexed_stream\<close>.
\<close>

section \<open>IndexRange\<close>

text \<open>\<open>timestampCache\<close>: the header of a block is asked for once per range.\<close>

definition cached_timestamp :: "env \<Rightarrow> (u64 \<rightharpoonup> u64) \<Rightarrow> u64 \<Rightarrow> (u64 \<times> (u64 \<rightharpoonup> u64)) go" where
  "cached_timestamp env cache b =
     (case cache b of
        Some ts \<Rightarrow> ret (ts, cache)
      | None \<Rightarrow> bind_go (block_timestamp env b) (\<lambda>ts. ret (ts, cache(b \<mapsto> ts))))"

definition index_log ::
  "env \<Rightarrow> payroll_abi \<Rightarrow> int \<Rightarrow> address \<Rightarrow> evm_log \<Rightarrow> decoded_event list \<times> (u64 \<rightharpoonup> u64)
     \<Rightarrow> (decoded_event list \<times> (u64 \<rightharpoonup> u64)) go" where
  "index_log env abi chain contract lg st =
     bind_go (wrapping (''decode log at block '' @ dec_u64 (l_block lg) @ '', tx '' @
                        hash_hex env (l_tx lg) @ '', log index '' @ dec_u64 (l_index lg))
               (of_sum (decode_payroll abi (hash_hex env) lg))) (\<lambda>ev.
     bind_go (transaction_metadata env (l_tx lg)) (\<lambda>meta.
     bind_go (cached_timestamp env (snd st) (l_block lg)) (\<lambda>(ts, cache).
     bind_go (save_transaction env chain meta) (\<lambda>_.
     bind_go (save_chain_event env chain contract ts (Some ev)) (\<lambda>_.
     bind_go
       (if \<not> l_removed lg
        then wrapping (''failed to project payroll event '' @ event_type_name (d_type ev) @
                       '' at block '' @ dec_u64 (l_block lg))
               (project_payroll_event env chain ts (Some ev))
        else ret ()) (\<lambda>_.
     ret (fst st @ [ev], cache)))))))"

definition index_range ::
  "env \<Rightarrow> payroll_abi \<Rightarrow> int \<Rightarrow> address \<Rightarrow> u64 \<Rightarrow> u64 \<Rightarrow> decoded_event list go" where
  "index_range env abi chain contract lo hi =
     (if lo > hi then
        fail (new_error (''invalid block range: from '' @ dec_u64 lo @ '' is greater than '' @ dec_u64 hi))
      else
        bind_go (get_logs env contract lo hi) (\<lambda>logs.
        bind_go (for_each (index_log env abi chain contract) logs ([], Map.empty)) (\<lambda>st.
        ret (fst st))))"

definition index_range_with_retry ::
  "env \<Rightarrow> retry_policy \<Rightarrow> payroll_abi \<Rightarrow> int \<Rightarrow> address \<Rightarrow> u64 \<Rightarrow> u64 \<Rightarrow> string \<Rightarrow> decoded_event list go" where
  "index_range_with_retry env pol abi chain contract lo hi stream =
     retry_range env pol stream lo hi (index_range env abi chain contract lo hi)"

section \<open>RunBackfill\<close>

definition effective_start_block :: "env \<Rightarrow> int \<Rightarrow> string \<Rightarrow> u64 \<Rightarrow> u64 go" where
  "effective_start_block env chain stream start =
     bind_go (wrapping (''failed to query checkpoint for '' @ stream @ '' (chain '' @ dec_int chain @ '')'')
               (get_checkpoint env chain stream))
       (\<lambda>(block, found). ret (if found then block + 1 else start))"

record backfill_options =
  bo_chain :: int
  bo_contract :: address
  bo_start :: u64
  bo_target :: u64
  bo_batch :: u64
  bo_stream :: string

definition with_defaults :: "backfill_options \<Rightarrow> backfill_options" where
  "with_defaults o1 = o1\<lparr>bo_batch := (if bo_batch o1 = 0 then 50 else bo_batch o1),
     bo_stream := (if bo_stream o1 = [] then ''monthly_payroll'' else bo_stream o1)\<rparr>"

definition payroll_chunk ::
  "env \<Rightarrow> retry_policy \<Rightarrow> payroll_abi \<Rightarrow> int \<Rightarrow> address \<Rightarrow> string \<Rightarrow> u64 \<Rightarrow> u64 \<Rightarrow> unit \<Rightarrow> unit go" where
  "payroll_chunk env pol abi chain contract stream lo hi _ =
     bind_go (wrapping (''failed indexing block range '' @ range_text lo hi)
               (index_range_with_retry env pol abi chain contract lo hi stream)) (\<lambda>_.
     bind_go (wrapping (''failed to fetch block header for block '' @ dec_u64 hi)
               (block_header env hi)) (\<lambda>header.
     wrapping (''failed to save checkpoint for block '' @ dec_u64 hi)
       (save_checkpoint env chain stream hi (hash_hex env (h_hash header)))))"

definition run_backfill ::
  "env \<Rightarrow> retry_policy \<Rightarrow> payroll_abi \<Rightarrow> backfill_options \<Rightarrow> world
     \<Rightarrow> ((u64 \<times> goerror option) \<times> world) option" where
  "run_backfill env pol abi opts0 w =
     (let opts = with_defaults opts0 in
      case effective_start_block env (bo_chain opts) (bo_stream opts) (bo_start opts) w of
        (Inl e, w1) \<Rightarrow> Some ((0, Some e), w1)
      | (Inr lo, w1) \<Rightarrow>
          if lo > bo_target opts then Some ((bo_target opts, None), w1)
          else map_option (\<lambda>((prev, _, e), w2). ((prev, e), w2))
                 (chunk_loop (payroll_chunk env pol abi (bo_chain opts) (bo_contract opts) (bo_stream opts))
                    (bo_batch opts) (bo_target opts) lo (lo - 1) () w1))"

section \<open>NextRange\<close>

definition next_range :: "u64 \<Rightarrow> u64 \<Rightarrow> u64 \<Rightarrow> u64 \<times> u64 \<times> bool" where
  "next_range lo latest step =
     (if lo > latest \<or> step = 0 then (0, 0, False)
      else let hi = lo + step - 1 in
           (lo, (if hi < lo \<or> hi > latest then latest else hi), True))"

section \<open>What IndexRange keeps\<close>

lemma law_keeps_index_log: "law.keeps (index_log env abi chain contract lg st)"
  unfolding index_log_def cached_timestamp_def
  by (auto intro!: law.keeps_rules law_keeps law_keeps_project split: option.split prod.split)

lemma frame_keeps_index_log: "frame.keeps (index_log env abi chain contract lg st)"
  unfolding index_log_def cached_timestamp_def
  by (auto intro!: frame.keeps_rules frame_keeps frame_keeps_project split: option.split prod.split)

lemma law_keeps_index_range: "law.keeps (index_range env abi chain contract lo hi)"
  unfolding index_range_def by (auto intro!: law.keeps_rules law_keeps_index_log)

lemma frame_keeps_index_range: "frame.keeps (index_range env abi chain contract lo hi)"
  unfolding index_range_def by (auto intro!: frame.keeps_rules frame_keeps_index_log)

lemma law_keeps_chunk: "law.keeps (payroll_chunk env pol abi chain contract stream lo hi u)"
  unfolding payroll_chunk_def index_range_with_retry_def
  by (auto intro!: law.keeps_retry_rules law_keeps_index_range law_keeps)

section \<open>What a successful IndexRange has recorded\<close>

definition payroll_recorded :: "int \<Rightarrow> address \<Rightarrow> database \<Rightarrow> evm_log \<Rightarrow> bool" where
  "payroll_recorded chain contract d lg \<longleftrightarrow>
     has_row ev_key (chain, contract, l_tx lg, uint (l_index lg)) (chain_events d)"

lemma payroll_recorded_mono:
  "db_grows d d' \<Longrightarrow> payroll_recorded chain contract d lg \<Longrightarrow> payroll_recorded chain contract d' lg"
  by (simp add: payroll_recorded_def db_grows_def)

lemma index_log_Inr:
  assumes "index_log env abi chain contract lg st w = (Inr st', w')"
  shows "payroll_recorded chain contract (w_db w') lg \<and>
    (\<exists>ev. decode_payroll abi (hash_hex env) lg = Inr ev \<and> fst st' = fst st @ [ev])"
proof -
  from assms obtain ev ts cache w1 w2 w3 u r where
    dec: "decode_payroll abi (hash_hex env) lg = Inr ev" and
    save: "save_chain_event env chain contract ts (Some ev) w1 = (Inr u, w2)" and
    rest: "(if \<not> l_removed lg
        then wrapping (''failed to project payroll event '' @ event_type_name (d_type ev) @
                       '' at block '' @ dec_u64 (l_block lg))
               (project_payroll_event env chain ts (Some ev))
        else ret ()) w2 = (r, w')" and st': "st' = (fst st @ [ev], cache)"
    unfolding index_log_def by (auto simp: bind_Inr ret_eq wrapping_Inr of_sum_def split: prod.splits)
  have "ev_key (event_row_of chain contract ts ev) = (chain, contract, l_tx lg, uint (l_index lg))"
    using decode_payroll_typed [OF dec] by (simp add: event_row_of_def ev_key_def)
  then have "payroll_recorded chain contract (w_db w2) lg"
    using save_chain_event_Inr [OF save] by (simp add: payroll_recorded_def)
  moreover have "db_grows (w_db w2) (w_db w')"
    using rest by (rule grows_of [rotated]) (auto intro!: law.keeps_rules law_keeps_project)
  ultimately show ?thesis using payroll_recorded_mono dec st' by auto
qed

lemma index_logs_Inr:
  "for_each (index_log env abi chain contract) lgs st w = (Inr st', w') \<Longrightarrow>
     (\<forall>lg \<in> set lgs. payroll_recorded chain contract (w_db w') lg) \<and>
     (\<exists>evs. fst st' = fst st @ evs \<and>
        list_all2 (\<lambda>lg ev. decode_payroll abi (hash_hex env) lg = Inr ev) lgs evs)"
proof (induction lgs arbitrary: st w)
  case Nil
  then show ?case by (simp add: ret_eq)
next
  case (Cons lg lgs)
  then obtain st1 w1 where one: "index_log env abi chain contract lg st w = (Inr st1, w1)"
    and run: "for_each (index_log env abi chain contract) lgs st1 w1 = (Inr st', w')"
    by (auto simp: bind_Inr)
  from Cons.IH [OF run] obtain evs where IH:
    "\<forall>lg \<in> set lgs. payroll_recorded chain contract (w_db w') lg" "fst st' = fst st1 @ evs"
    "list_all2 (\<lambda>lg ev. decode_payroll abi (hash_hex env) lg = Inr ev) lgs evs" by blast
  have "db_grows (w_db w1) (w_db w')"
    using run by (rule grows_of [rotated]) (intro law.keeps_for_each law_keeps_index_log)
  then have "payroll_recorded chain contract (w_db w') lg"
    using index_log_Inr [OF one] payroll_recorded_mono by blast
  moreover obtain ev where "decode_payroll abi (hash_hex env) lg = Inr ev" "fst st1 = fst st @ [ev]"
    using index_log_Inr [OF one] by blast
  ultimately show ?case using IH by (intro conjI exI [of _ "ev # evs"]) auto
qed

lemma index_range_Inr:
  assumes "index_range env abi chain contract lo hi w = (Inr evs, w')"
  shows "lo \<le> hi \<and> (\<exists>lgs. rpc_logs env (w_tick w) contract lo hi = Inr lgs \<and>
    (\<forall>lg \<in> set lgs. payroll_recorded chain contract (w_db w') lg) \<and>
    list_all2 (\<lambda>lg ev. decode_payroll abi (hash_hex env) lg = Inr ev) lgs evs)"
proof (cases "lo > hi")
  case True
  then show ?thesis using assms by (simp add: index_range_def fail_eq)
next
  case False
  then obtain lgs st where "Inr lgs = rpc_logs env (w_tick w) contract lo hi"
    "for_each (index_log env abi chain contract) lgs ([], Map.empty) (next_tick w) = (Inr st, w')"
    "evs = fst st"
    using assms by (auto simp: index_range_def bind_Inr ret_eq get_logs_def rpc_eq)
  then show ?thesis using index_logs_Inr [of env abi chain contract lgs "([], Map.empty)"] False
    by (intro conjI exI [of _ lgs]) auto
qed

section \<open>The service as an indexed stream\<close>

lemma chunk_index_run:
  assumes "wrapping s (index_range_with_retry env pol abi chain contract lo hi stream) w = (r, w')"
  shows "same_checkpoints (w_db w) (w_db w') \<and>
    (\<forall>evs. r = Inr evs \<longrightarrow> (\<exists>w1. index_range env abi chain contract lo hi w1 = (Inr evs, w')))"
proof
  have keeps: "frame.keeps (index_range_with_retry env pol abi chain contract lo hi stream)"
    unfolding index_range_with_retry_def by (intro frame.keeps_retry frame_keeps_index_range)
  show "same_checkpoints (w_db w) (w_db w')"
    by (rule frame.keepsD [OF frame.keeps_wrapping [OF keeps] assms])
  show "\<forall>evs. r = Inr evs \<longrightarrow> (\<exists>w1. index_range env abi chain contract lo hi w1 = (Inr evs, w'))"
  proof (intro allI impI)
    fix evs assume "r = Inr evs"
    then have "retry_range env pol stream lo hi (index_range env abi chain contract lo hi) w = (Inr evs, w')"
      using assms by (simp add: wrapping_Inr index_range_with_retry_def)
    then show "\<exists>w1. index_range env abi chain contract lo hi w1 = (Inr evs, w')"
      using frame.retry_range_Inr [OF frame.keeps_keeps_err [OF frame_keeps_index_range]] by blast
  qed
qed

lemma payroll_chunk_Inr:
  assumes "payroll_chunk env pol abi chain contract stream lo hi u w = (Inr u', w')"
  shows "checkpoint_of (w_db w') chain stream = Some hi \<and>
    (\<exists>w1 w2 evs. index_range env abi chain contract lo hi w1 = (Inr evs, w2) \<and>
       db_grows (w_db w2) (w_db w'))"
proof -
  let ?m = "bind_go (wrapping (''failed to fetch block header for block '' @ dec_u64 hi)
               (block_header env hi)) (\<lambda>header.
     wrapping (''failed to save checkpoint for block '' @ dec_u64 hi)
       (save_checkpoint env chain stream hi (hash_hex env (h_hash header))))"
  from assms obtain evs w2 where
    idx: "wrapping (''failed indexing block range '' @ range_text lo hi)
            (index_range_with_retry env pol abi chain contract lo hi stream) w = (Inr evs, w2)" and
    rest: "?m w2 = (Inr u', w')"
    unfolding payroll_chunk_def by (auto simp only: bind_Inr)
  have "checkpoint_of (w_db w') chain stream = Some hi"
    using rest save_checkpoint_Inr by (auto simp: bind_Inr wrapping_Inr)
  moreover have "law.keeps ?m" by (auto intro!: law.keeps_rules law_keeps)
  then have "db_grows (w_db w2) (w_db w')" using rest by (rule grows_of)
  ultimately show ?thesis using chunk_index_run [OF idx] by blast
qed

lemma payroll_chunk_Inl:
  assumes "payroll_chunk env pol abi chain contract stream lo hi u w = (Inl e, w')"
  shows "checkpoint_of (w_db w') c s = checkpoint_of (w_db w) c s"
proof -
  obtain r w1 where idx: "wrapping (''failed indexing block range '' @ range_text lo hi)
      (index_range_with_retry env pol abi chain contract lo hi stream) w = (r, w1)"
    by fastforce
  have "checkpoint_of (w_db w1) c s = checkpoint_of (w_db w) c s"
    using chunk_index_run [OF idx] checkpoint_of_same by blast
  moreover have "w_db w' = w_db w1"
    using assms idx save_checkpoint_Inl
    unfolding payroll_chunk_def bind_go_def
    by (auto simp: block_header_def rpc_def wrapping_def split: sum.splits prod.splits; fastforce)
  ultimately show ?thesis by simp
qed

interpretation payroll_stream: indexed_stream chain stream start logs
    "\<lambda>d lg. honest env contract logs \<longrightarrow> payroll_recorded chain contract d lg" True
    "payroll_chunk env pol abi chain contract stream"
  for chain :: int and stream :: string and start :: u64 and logs :: "evm_log list" and env :: env
    and contract :: address and pol :: retry_policy and abi :: payroll_abi
proof unfold_locales
  fix lo hi :: u64 and s s' :: unit and w w' :: world and r e
  let ?m = "payroll_chunk env pol abi chain contract stream lo hi s"
  show "legal (w_db w) (w_db w')" if "?m w = (r, w')"
    by (rule law.keepsD [OF law_keeps_chunk that])
  show "checkpoint_of (w_db w') chain stream = checkpoint_of (w_db w) chain stream"
    if "?m w = (Inl e, w')"
    by (rule payroll_chunk_Inl [OF that])
  show "checkpoint_of (w_db w') chain stream = Some hi \<or>
      \<not> (True \<and> 0 < hi) \<and> checkpoint_of (w_db w') chain stream = checkpoint_of (w_db w) chain stream"
    if "?m w = (Inr s', w')"
    using payroll_chunk_Inr [OF that] by simp
  show "lo \<le> hi \<and> (\<forall>lg \<in> set logs. lo \<le> l_block lg \<and> l_block lg \<le> hi \<longrightarrow>
      honest env contract logs \<longrightarrow> payroll_recorded chain contract (w_db w') lg)"
    if run: "?m w = (Inr s', w')"
  proof -
    from payroll_chunk_Inr [OF run] obtain w1 w2 evs where
      idx: "index_range env abi chain contract lo hi w1 = (Inr evs, w2)" and
      grows: "db_grows (w_db w2) (w_db w')" by blast
    from index_range_Inr [OF idx] obtain lgs where
      "lo \<le> hi" "rpc_logs env (w_tick w1) contract lo hi = Inr lgs"
      "\<forall>lg \<in> set lgs. payroll_recorded chain contract (w_db w2) lg" by blast
    then show ?thesis using payroll_recorded_mono [OF grows] unfolding honest_def by blast
  qed
qed (use payroll_recorded_mono in blast)

text \<open>Methods that leave the four domain tables alone.\<close>

definition same_domain :: "database \<Rightarrow> database \<Rightarrow> bool" where
  "same_domain d d' \<longleftrightarrow> employers d' = employers d \<and> employees d' = employees d \<and>
     payroll_fundings d' = payroll_fundings d \<and> salary_claims d' = salary_claims d"

interpretation domain_kept: db_relation same_domain
  by unfold_locales (auto simp: same_domain_def)

lemma domain_stmts:
  "stmt_transaction r d = Inr d' \<Longrightarrow> same_domain d d'"
  "stmt_chain_event ev d = Inr d' \<Longrightarrow> same_domain d d'"
  by (auto simp: stmt_transaction_def stmt_chain_event_def same_domain_def split: if_splits)

lemma domain_keeps:
  "domain_kept.keeps (save_transaction env chain meta)"
  "domain_kept.keeps (save_chain_event env chain contract ts event)"
  by (auto simp: save_transaction_def save_chain_event_def split: option.split
      intro!: domain_kept.keeps_rules domain_kept.keeps_exec dest: domain_stmts)

section \<open>The backfill\<close>

definition payroll_safe ::
  "int \<Rightarrow> address \<Rightarrow> string \<Rightarrow> u64 \<Rightarrow> evm_log list \<Rightarrow> database \<Rightarrow> bool" where
  "payroll_safe chain contract stream start logs d \<longleftrightarrow>
     (\<forall>c. checkpoint_of d chain stream = Some c \<longrightarrow>
        (\<forall>lg \<in> set logs. start \<le> l_block lg \<and> l_block lg \<le> c \<longrightarrow> payroll_recorded chain contract d lg))"

lemma effective_start_Inr:
  assumes "effective_start_block env chain stream start w = (Inr lo, w1)"
  shows "w_db w1 = w_db w \<and>
    lo = (case checkpoint_of (w_db w) chain stream of None \<Rightarrow> start | Some c \<Rightarrow> c + 1)"
proof -
  from assms obtain b found where "get_checkpoint env chain stream w = (Inr (b, found), w1)"
    "lo = (if found then b + 1 else start)"
    by (auto simp: effective_start_block_def bind_Inr wrapping_Inr ret_eq)
  then show ?thesis using get_checkpoint_Inr by (fastforce split: if_splits)
qed

lemma effective_start_Inl:
  "effective_start_block env chain stream start w = (Inl e, w1) \<Longrightarrow> w_db w1 = w_db w"
  by (auto simp: effective_start_block_def get_checkpoint_def query_sql_def go_unfold
      split: sum.splits prod.splits option.splits if_splits)

lemma backfill_cases:
  assumes "run_backfill env pol abi opts0 w = Some ((prev, err), w')"
  defines "opts \<equiv> with_defaults opts0"
  obtains (start_failed) e where "prev = 0" "err = Some e" "w_db w' = w_db w"
  | (up_to_date) lo where "prev = bo_target opts" "err = None" "w_db w' = w_db w" "bo_target opts < lo"
      "lo = (case checkpoint_of (w_db w) (bo_chain opts) (bo_stream opts) of
               None \<Rightarrow> bo_start opts | Some c \<Rightarrow> c + 1)"
  | (looped) lo w1 where "w_db w1 = w_db w" "lo \<le> bo_target opts"
      "lo = (case checkpoint_of (w_db w) (bo_chain opts) (bo_stream opts) of
               None \<Rightarrow> bo_start opts | Some c \<Rightarrow> c + 1)"
      "chunk_loop (payroll_chunk env pol abi (bo_chain opts) (bo_contract opts) (bo_stream opts))
         (bo_batch opts) (bo_target opts) lo (lo - 1) () w1 = Some ((prev, (), err), w')"
proof -
  obtain r w1 where st: "effective_start_block env (bo_chain opts) (bo_stream opts) (bo_start opts) w = (r, w1)"
    by fastforce
  show ?thesis
  proof (cases r)
    case (Inl e)
    then have "prev = 0" "err = Some e" "w' = w1"
      using assms(1) st by (simp_all add: run_backfill_def Let_def flip: opts_def)
    then show ?thesis using st Inl effective_start_Inl by (intro start_failed) auto
  next
    case (Inr lo)
    note st1 = effective_start_Inr [OF st [unfolded Inr]]
    show ?thesis
    proof (cases "bo_target opts < lo")
      case True
      then have "prev = bo_target opts" "err = None" "w' = w1"
        using assms(1) st Inr by (simp_all add: run_backfill_def Let_def flip: opts_def)
      then show ?thesis using st1 True by (intro up_to_date [of lo]) auto
    next
      case False
      have "map_option (\<lambda>((p, _, e), w2). ((p, e), w2))
          (chunk_loop (payroll_chunk env pol abi (bo_chain opts) (bo_contract opts)
            (bo_stream opts)) (bo_batch opts) (bo_target opts) lo (lo - 1) () w1) = Some ((prev, err), w')"
        using assms(1) st Inr False by (simp add: run_backfill_def Let_def flip: opts_def)
      then obtain y where y: "chunk_loop (payroll_chunk env pol abi (bo_chain opts) (bo_contract opts)
            (bo_stream opts)) (bo_batch opts) (bo_target opts) lo (lo - 1) () w1 = Some y"
        "(case y of ((p, _, e), w2) \<Rightarrow> ((p, e), w2)) = ((prev, err), w')"
        by (auto simp only: map_option_eq_Some)
      obtain p u e w2 where "y = ((p, u, e), w2)" by (metis surj_pair)
      with y have "y = ((prev, (), err), w')" by simp
      with y(1) st1 False show ?thesis by (intro looped [of w1 lo]) (simp_all add: not_less)
    qed
  qed
qed

lemma run_backfill_returns:
  assumes "bo_target opts \<noteq> - 1"
  shows "\<exists>y. run_backfill env pol abi opts w = Some y"
proof -
  let ?o = "with_defaults opts"
  have o: "bo_target ?o = bo_target opts" by (simp add: with_defaults_def)
  obtain r w1 where st: "effective_start_block env (bo_chain ?o) (bo_stream ?o) (bo_start ?o) w = (r, w1)"
    by fastforce
  show ?thesis
  proof (cases r)
    case (Inl e)
    with st show ?thesis by (simp add: run_backfill_def Let_def)
  next
    case (Inr lo)
    obtain y where "chunk_loop (payroll_chunk env pol abi (bo_chain ?o) (bo_contract ?o) (bo_stream ?o))
        (bo_batch ?o) (bo_target opts) lo (lo - 1) () w1 = Some y"
      using payroll_stream.chunk_loop_returns [OF assms] by blast
    moreover obtain prev u e w2 where "y = ((prev, u, e), w2)" by (metis surj_pair)
    ultimately show ?thesis using st Inr by (simp add: run_backfill_def Let_def o)
  qed
qed

text \<open>A chain with one salary claim in block 10, and a backfill of blocks 8 to 12 in steps of 3.\<close>

definition sample_abi :: payroll_abi where
  "sample_abi = \<lparr>event_id = (\<lambda>ty. case ty of EventEmployerAdded \<Rightarrow> 1 | EventEmployerRemoved \<Rightarrow> 2
       | EventEmployeeAdded \<Rightarrow> 3 | EventEmployeeRemoved \<Rightarrow> 4 | EventPayrollFunded \<Rightarrow> 5
       | EventSalaryClaimed \<Rightarrow> 7 | EventOwnershipTransferred \<Rightarrow> 6),
     unpack_employer_added = (\<lambda>_. Inr 1), unpack_employer_removed = (\<lambda>_. Inr 1),
     unpack_employee_added = (\<lambda>_. Inl (new_error ''bad data'')),
     unpack_employee_removed = (\<lambda>_. Inl (new_error ''bad data'')),
     unpack_payroll_funded = (\<lambda>_. Inl (new_error ''bad data'')),
     unpack_salary_claimed = (\<lambda>_. Inr \<lparr>ce_employee = 5, ce_amount = Some 1000\<rparr>),
     unpack_ownership = (\<lambda>_. Inr \<lparr>ot_previous = 0, ot_new = 1\<rparr>)\<rparr>"

definition sample_meta :: tx_metadata where
  "sample_meta = \<lparr>tm_hash = 77, tm_block = 10, tm_sender = 1, tm_recipient = None, tm_gas = 21000, tm_status = 1\<rparr>"

definition sample_env :: env where
  "sample_env = calm_env\<lparr>rpc_logs := (\<lambda>n c lo hi. Inr (filter (\<lambda>lg. lo \<le> l_block lg \<and> l_block lg \<le> hi) [sample_log 0])),
     rpc_tx := (\<lambda>_ _. Inr (Some sample_meta)), rpc_timestamp := (\<lambda>_ _. Inr 1000)\<rparr>"

definition sample_options :: backfill_options where
  "sample_options = \<lparr>bo_chain = 1, bo_contract = 9, bo_start = 8, bo_target = 12, bo_batch = 3, bo_stream = []\<rparr>"

lemma run_backfill_safe:
  assumes node: "honest env (bo_contract opts) logs"
    and run: "run_backfill env pol abi opts w = Some ((prev, err), w')"
    and safe: "payroll_safe (bo_chain opts) (bo_contract opts) (bo_stream (with_defaults opts))
      (bo_start opts) logs (w_db w)"
  shows "payroll_safe (bo_chain opts) (bo_contract opts) (bo_stream (with_defaults opts))
      (bo_start opts) logs (w_db w') \<and>
    (err = None \<longrightarrow> prev = bo_target opts \<and>
       (\<forall>lg \<in> set logs. bo_start opts \<le> l_block lg \<and> l_block lg \<le> bo_target opts \<longrightarrow>
          payroll_recorded (bo_chain opts) (bo_contract opts) (w_db w') lg)) \<and>
    (err \<noteq> None \<longrightarrow> w_db w' = w_db w \<or>
       (\<forall>lg \<in> set logs. bo_start opts \<le> l_block lg \<and> l_block lg < prev + 1 \<longrightarrow>
          payroll_recorded (bo_chain opts) (bo_contract opts) (w_db w') lg))"
proof -
  let ?o = "with_defaults opts"
  have o: "bo_target ?o = bo_target opts" "bo_chain ?o = bo_chain opts"
    "bo_contract ?o = bo_contract opts" "bo_start ?o = bo_start opts"
    by (simp_all add: with_defaults_def)
  note S = payroll_stream.safe_def [of "bo_chain opts" "bo_stream ?o" "bo_start opts" logs env "bo_contract opts"]
  note C = payroll_stream.covered_def [of "bo_start opts" logs env "bo_contract opts" "bo_chain opts"]
  have resume: "payroll_stream.covered (bo_start opts) logs env (bo_contract opts) (bo_chain opts)
      (case checkpoint_of (w_db w) (bo_chain opts) (bo_stream ?o) of None \<Rightarrow> bo_start opts | Some c \<Rightarrow> c + 1) (w_db w)"
    using payroll_stream.covered_resume [of "bo_chain opts" "bo_stream ?o" "bo_start opts" logs env "bo_contract opts" "w_db w"]
      payroll_stream.covered_start safe
    by (auto simp: S payroll_safe_def split: option.split)
  have cov: "payroll_recorded (bo_chain opts) (bo_contract opts) (w_db w) lg"
    if "lg \<in> set logs" "bo_start opts \<le> l_block lg" "l_block lg < (case checkpoint_of (w_db w) (bo_chain opts)
      (bo_stream ?o) of None \<Rightarrow> bo_start opts | Some c \<Rightarrow> c + 1)" for lg
    using resume node that unfolding C by blast
  from run show ?thesis
  proof (cases rule: backfill_cases)
    case (up_to_date lo)
    have "payroll_recorded (bo_chain opts) (bo_contract opts) (w_db w) lg"
      if "lg \<in> set logs" "bo_start opts \<le> l_block lg" "l_block lg \<le> bo_target opts" for lg
      using cov [OF that(1,2)] le_less_trans [OF that(3), of lo] up_to_date(4,5) by (simp only: o)
    then show ?thesis using safe up_to_date(1-3) by (simp add: o)
  next
    case (looped lo w1)
    have good: "payroll_stream.good_result (bo_chain opts) (bo_stream ?o) (bo_start opts) logs env
        (bo_contract opts) (bo_target opts) lo (lo - 1) w1 ((prev, (), err), w')"
    proof (rule payroll_stream.chunk_loop_safe)
      show "chunk_loop (payroll_chunk env pol abi (bo_chain opts) (bo_contract opts) (bo_stream ?o))
          (bo_batch ?o) (bo_target opts) lo (lo - 1) () w1 = Some ((prev, (), err), w')"
        using looped(4) by (simp only: o)
      show "payroll_stream.safe (bo_chain opts) (bo_stream ?o) (bo_start opts) logs env (bo_contract opts) (w_db w1)"
        using safe looped(1) by (simp add: S payroll_safe_def)
      show "payroll_stream.covered (bo_start opts) logs env (bo_contract opts) (bo_chain opts) lo (w_db w1)"
        using resume looped(1,3) by (simp only: o)
    qed simp
    have "payroll_safe (bo_chain opts) (bo_contract opts) (bo_stream ?o) (bo_start opts) logs (w_db w')"
      using good node unfolding payroll_stream.good_result_def S payroll_safe_def by simp
    moreover have "\<forall>lg \<in> set logs. bo_start opts \<le> l_block lg \<and> l_block lg < prev + 1 \<longrightarrow>
        payroll_recorded (bo_chain opts) (bo_contract opts) (w_db w') lg"
      using good node unfolding payroll_stream.good_result_def C by simp
    moreover have "prev = bo_target opts \<and>
        (\<forall>lg \<in> set logs. bo_start opts \<le> l_block lg \<and> l_block lg \<le> bo_target opts \<longrightarrow>
          payroll_recorded (bo_chain opts) (bo_contract opts) (w_db w') lg)" if "err = None"
      using good node looped(2) that unfolding payroll_stream.good_result_def o by simp
    ultimately show ?thesis by blast
  qed (use safe in simp)
qed

text \<open>
  C1. Checkpoint safety of the backfill. Against an honest node, whatever fails on the way (RPC
  errors, retries, cancelled contexts, database faults, a crash is a run that ends in an error),
  after \<open>RunBackfill\<close> every log of the contract from the start block up to the saved checkpoint is
  in \<open>chain_events\<close>, if it was so before. A run that returns without error returns the target and
  has recorded every log up to it; one that fails has recorded every log up to the block it
  reports (unless the checkpoint query itself failed).
\<close>

theorem backfill_checkpoint_safety:
  assumes node: "honest env (bo_contract opts) logs"
    and run: "run_backfill env pol abi opts w = Some ((prev, err), w')"
    and safe: "payroll_safe (bo_chain opts) (bo_contract opts) (bo_stream (with_defaults opts))
      (bo_start opts) logs (w_db w)"
  shows "payroll_safe (bo_chain opts) (bo_contract opts) (bo_stream (with_defaults opts))
      (bo_start opts) logs (w_db w') \<and>
    (err = None \<longrightarrow> prev = bo_target opts \<and>
       (\<forall>lg \<in> set logs. bo_start opts \<le> l_block lg \<and> l_block lg \<le> bo_target opts \<longrightarrow>
          payroll_recorded (bo_chain opts) (bo_contract opts) (w_db w') lg)) \<and>
    (err \<noteq> None \<longrightarrow> w_db w' = w_db w \<or>
       (\<forall>lg \<in> set logs. bo_start opts \<le> l_block lg \<and> l_block lg < prev + 1 \<longrightarrow>
          payroll_recorded (bo_chain opts) (bo_contract opts) (w_db w') lg))"
  by (rule run_backfill_safe [OF assms])

theorem backfill_checkpoint_safety_witness:
  "\<exists>w'. run_backfill sample_env (default_retry_policy False) sample_abi sample_options empty_world
       = Some ((12, None), w') \<and>
     payroll_safe 1 9 ''monthly_payroll'' 8 [sample_log 0] (w_db w') \<and>
     payroll_recorded 1 9 (w_db w') (sample_log 0)"
proof -
  have "map_option fst (run_backfill sample_env (default_retry_policy False) sample_abi sample_options
      empty_world) = Some (12, None)" by code_simp
  then obtain w' where run: "run_backfill sample_env (default_retry_policy False) sample_abi
      sample_options empty_world = Some ((12, None), w')" by auto
  have node: "honest sample_env 9 [sample_log 0]"
    by (auto simp: honest_def sample_env_def)
  have opts: "bo_contract sample_options = 9" "bo_chain sample_options = 1" "bo_start sample_options = 8"
    "bo_target sample_options = 12" "bo_stream (with_defaults sample_options) = ''monthly_payroll''"
    by (simp_all add: sample_options_def with_defaults_def)
  have init: "payroll_safe 1 9 ''monthly_payroll'' 8 [sample_log 0] (w_db empty_world)"
    by (simp add: payroll_safe_def empty_world_def empty_database_def checkpoint_of_def)
  show ?thesis
    using backfill_checkpoint_safety [of sample_env sample_options "[sample_log 0]", unfolded opts,
        OF node run init] run
    by (simp add: sample_log_def)
qed

text \<open>
  C21. The backfill returns: for every target below \<open>2^64 - 1\<close>, every batch size (wrapping block
  arithmetic included), every node, database and sequence of faults, \<open>RunBackfill\<close> terminates
  with a result.
\<close>

theorem backfill_terminates:
  assumes "bo_target opts \<noteq> - 1"
  shows "\<exists>prev err w'. run_backfill env pol abi opts w = Some ((prev, err), w')"
  using run_backfill_returns [OF assms, of env pol abi w] by (metis surj_pair)

theorem backfill_terminates_witness:
  "\<exists>prev err w'. run_backfill calm_env (default_retry_policy True) sample_abi
     (sample_options\<lparr>bo_batch := - 1\<rparr>) sample_world = Some ((prev, err), w')"
  by (rule backfill_terminates) (simp add: sample_options_def)

text \<open>
  C19. A range is all or error: when \<open>IndexRange\<close> succeeds, the range was not empty, every log the
  node returned decoded, the events are returned in log order, and each of them has its row in
  \<open>chain_events\<close>; no log is skipped.
\<close>

theorem index_range_complete:
  assumes "index_range env abi chain contract lo hi w = (Inr evs, w')"
  shows "lo \<le> hi \<and> (\<exists>lgs. rpc_logs env (w_tick w) contract lo hi = Inr lgs \<and> map d_log evs = lgs \<and>
    list_all2 (\<lambda>lg ev. decode_payroll abi (hash_hex env) lg = Inr ev) lgs evs \<and>
    (\<forall>lg \<in> set lgs. payroll_recorded chain contract (w_db w') lg))"
proof -
  from index_range_Inr [OF assms] obtain lgs where lgs: "lo \<le> hi"
    "rpc_logs env (w_tick w) contract lo hi = Inr lgs"
    "\<forall>lg \<in> set lgs. payroll_recorded chain contract (w_db w') lg"
    "list_all2 (\<lambda>lg ev. decode_payroll abi (hash_hex env) lg = Inr ev) lgs evs" by blast
  have "map d_log evs = lgs"
    using lgs(4) by (induction rule: list_all2_induct) (auto dest: decode_payroll_typed)
  then show ?thesis using lgs by blast
qed

theorem index_range_complete_witness:
  "\<exists>evs w'. index_range sample_env sample_abi 1 9 8 12 empty_world = (Inr evs, w') \<and>
     map d_log evs = [sample_log 0] \<and> payroll_recorded 1 9 (w_db w') (sample_log 0)"
proof -
  have "map_sum id length (fst (index_range sample_env sample_abi 1 9 8 12 empty_world)) = Inr 1"
    by code_simp
  then obtain evs w' where run: "index_range sample_env sample_abi 1 9 8 12 empty_world = (Inr evs, w')"
    by (cases "index_range sample_env sample_abi 1 9 8 12 empty_world"; cases "fst (index_range sample_env sample_abi 1 9 8 12 empty_world)") auto
  have "rpc_logs sample_env (w_tick empty_world) 9 8 12 = Inr [sample_log 0]"
    by (simp add: sample_env_def sample_log_def)
  with index_range_complete [OF run] run show ?thesis by auto
qed

text \<open>
  Removed logs are recorded but not projected: a log the node marks as removed by a
  reorganisation leaves the tables of employers, employees, fundings and claims exactly as they
  were. In particular nothing that an earlier delivery of the same log had projected is undone.
\<close>

theorem removed_log_not_projected:
  assumes "l_removed lg" "index_log env abi chain contract lg st w = (r, w')"
  shows "employers (w_db w') = employers (w_db w) \<and> employees (w_db w') = employees (w_db w) \<and>
    payroll_fundings (w_db w') = payroll_fundings (w_db w) \<and> salary_claims (w_db w') = salary_claims (w_db w)"
proof -
  have "domain_kept.keeps (index_log env abi chain contract lg st)"
    using assms(1) unfolding index_log_def cached_timestamp_def
    by (auto intro!: domain_kept.keeps_rules domain_keeps split: option.split prod.split)
  from domain_kept.keepsD [OF this assms(2)] show ?thesis by (simp add: same_domain_def)
qed

theorem removed_log_not_projected_witness:
  "salary_claims (w_db (snd (index_log sample_env sample_abi 1 9 ((sample_log 0)\<lparr>l_removed := True\<rparr>)
     ([], Map.empty) empty_world))) = []"
proof -
  obtain r w' where run: "index_log sample_env sample_abi 1 9 ((sample_log 0)\<lparr>l_removed := True\<rparr>)
     ([], Map.empty) empty_world = (r, w')" by fastforce
  show ?thesis
    using removed_log_not_projected [OF _ run] run by (simp add: empty_world_def empty_database_def)
qed

text \<open>
  \<open>NextRange\<close> hands out bounded, gap-free ranges without overflow: it answers unless there is
  nothing to do, the range starts at the requested block, ends at or below the head, spans at
  most \<open>stepSize\<close> blocks, and is shorter only when it ends at the head.
\<close>

theorem next_range_bounds:
  assumes "next_range lo latest step = (a, b, ok)"
  shows "(ok \<longleftrightarrow> lo \<le> latest \<and> step \<noteq> 0) \<and>
    (ok \<longrightarrow> a = lo \<and> lo \<le> b \<and> b \<le> latest \<and> unat b - unat lo < unat step \<and>
       (b = latest \<or> unat b + 1 = unat lo + unat step))"
proof (cases "lo > latest \<or> step = 0")
  case True
  then show ?thesis using assms by (auto simp: next_range_def not_le)
next
  case False
  let ?hi = "lo + step - 1"
  have le: "unat lo \<le> unat latest" and pos: "0 < unat step"
    using False by (simp_all add: not_less unat_gt_0 word_le_nat_alt)
  have r: "a = lo" "ok" "b = (if ?hi < lo \<or> ?hi > latest then latest else ?hi)"
    using assms False by (auto simp: next_range_def Let_def)
  have latest: "unat latest < 2 ^ 64" by (rule unat_bound)
  show ?thesis
  proof (cases "?hi < lo \<or> ?hi > latest")
    case True
    then have "unat latest < unat lo + unat step"
      using span_end [OF pos refl, of lo] latest pos by (cases "?hi < lo") (auto simp: word_less_nat_alt)
    then show ?thesis using r True le pos False by (auto simp: not_less)
  next
    case stay: False
    then have "unat ?hi = unat lo + (unat step - 1)"
      using span_end [OF pos refl, of lo] by (simp add: not_le)
    then show ?thesis using r stay pos False by (auto simp: not_less)
  qed
qed

theorem next_range_bounds_witness:
  "next_range (- 5) (- 2) 10 = (- 5, - 2, True) \<and> (- 5 :: u64) \<le> - 2"
proof -
  have "next_range (- 5) (- 2) 10 = (- 5, - 2, True)" by code_simp
  from next_range_bounds [OF this] this show ?thesis by simp
qed

text \<open>
  The backfill loop has no such guard: a batch size so large that \<open>from + BatchSize - 1\<close> wraps
  below \<open>from\<close> (the maximum value, say, meant as "no limit") makes the first chunk fail as an
  invalid range, with nothing indexed.
\<close>

theorem backfill_batch_overflow:
  assumes "lo \<le> target" "lo + batch - 1 < lo"
  shows "\<exists>e w'. chunk_loop (payroll_chunk env pol abi chain contract stream) batch target lo prev () w
      = Some ((prev, (), Some e), w') \<and> w_db w' = w_db w"
proof -
  let ?hi = "chunk_end batch target lo"
  have hi: "?hi = lo + batch - 1" "?hi < lo"
    using assms by (auto simp: chunk_end_def not_less)
  obtain r w' where run: "wrapping (''failed indexing block range '' @ range_text lo ?hi)
      (index_range_with_retry env pol abi chain contract lo ?hi stream) w = (r, w')" by fastforce
  have err: "\<exists>e. index_range env abi chain contract lo ?hi w1 = (Inl e, w1)" for w1
    using hi(2) by (simp add: index_range_def fail_def)
  then have op: "untouched.keeps_err (index_range env abi chain contract lo ?hi)"
    unfolding untouched.keeps_err_def by (metis prod.inject)
  have no_success: "\<not> (\<exists>evs. r = Inr evs)"
  proof
    assume "\<exists>evs. r = Inr evs"
    then obtain evs where "retry_range env pol stream lo ?hi (index_range env abi chain contract lo ?hi) w = (Inr evs, w')"
      using run by (auto simp: wrapping_Inr index_range_with_retry_def)
    then obtain w1 where "index_range env abi chain contract lo ?hi w1 = (Inr evs, w')"
      using untouched.retry_range_Inr [OF op] by blast
    with err [of w1] show False by auto
  qed
  then obtain e where e: "r = Inl e" by (cases r) auto
  then obtain e0 where "retry_range env pol stream lo ?hi (index_range env abi chain contract lo ?hi) w = (Inl e0, w')"
    using run by (auto simp: wrapping_Inl index_range_with_retry_def)
  then have "w_db w' = w_db w" by (rule untouched.retry_range_Inl [OF op])
  then show ?thesis
    using run e assms(1) by (simp add: chunk_loop.simps payroll_chunk_def bind_go_def)
qed

theorem backfill_batch_overflow_witness:
  "\<exists>e w'. chunk_loop (payroll_chunk sample_env (default_retry_policy True) sample_abi 1 9 ''s'') (- 1) 100 10 9 ()
      empty_world = Some ((9, (), Some e), w') \<and> w_db w' = empty_database"
  using backfill_batch_overflow [of 10 100 "- 1" sample_env "default_retry_policy True" sample_abi 1 9 "''s''" 9 empty_world]
  by (simp add: empty_world_def)

text \<open>
  A permanent error can look transient: the text of a decoding error carries the block number,
  so a log that can never be decoded, in a block whose number contains 429, is classified as a
  rate limit and retried.
\<close>

theorem decode_error_misclassified:
  assumes "decode_payroll abi (hash_hex env) lg = Inl e" "\<not> is_canceled e"
    and "contains (dec_u64 (l_block lg)) ''429''"
  shows "\<exists>e'. index_log env abi chain contract lg st w = (Inl e', w) \<and> is_retryable_rpc_error e'"
proof -
  let ?s = "''decode log at block '' @ dec_u64 (l_block lg) @ '', tx '' @
      hash_hex env (l_tx lg) @ '', log index '' @ dec_u64 (l_index lg)"
  have "contains (to_lower (dec_u64 (l_block lg))) ''429''"
    using assms(3) by (simp add: dec_u64_def)
  then have "contains (to_lower ''decode log at block '' @ to_lower (dec_u64 (l_block lg)) @ x) ''429''" for x
    by (intro contains_append2 contains_append1)
  then have "contains (to_lower (emsg (wrap_error ?s e))) ''429''"
    by (simp only: wrap_error_simps to_lower_append append_assoc)
  then have "is_429_error (wrap_error ?s e)"
    by (simp only: is_429_error_def contains_any_iff list.set) simp
  then have "is_retryable_rpc_error (wrap_error ?s e)"
    using assms(2) by (simp add: is_retryable_rpc_error_def)
  moreover have "index_log env abi chain contract lg st w = (Inl (wrap_error ?s e), w)"
    unfolding index_log_def assms(1) by (simp add: go_unfold)
  ultimately show ?thesis by blast
qed

theorem decode_error_misclassified_witness:
  "\<exists>e'. index_log sample_env sample_abi 1 9 ((sample_log 0)\<lparr>l_topics := [], l_block := 1429000\<rparr>)
     ([], Map.empty) empty_world = (Inl e', empty_world) \<and> is_retryable_rpc_error e'"
proof (rule decode_error_misclassified)
  show "decode_payroll sample_abi (hash_hex sample_env) ((sample_log 0)\<lparr>l_topics := [], l_block := 1429000\<rparr>)
      = Inl (new_error ''log has no topics'')"
    by (simp add: decode_payroll_def)
  show "contains (dec_u64 (l_block ((sample_log 0)\<lparr>l_topics := [], l_block := 1429000\<rparr>))) ''429''"
    by (simp add: dec_u64_def dec_nat.simps digit_char_def) (simp add: char_of_def bit_0)
qed simp

end
