(* ===== verification/Live_Monitor.thy ===== *)
theory Live_Monitor
  imports Token_Properties Escrow_Properties Payroll_Indexer
begin

text \<open>
  \<open>internal/indexer/live_monitor.go\<close>: the monitor that polls the three streams. A poll asks for
  the head, computes the safe target from the confirmation depth and lets every configured
  stream process at most \<open>MaxBatchesPerPoll\<close> chunks up to it; an error of one stream is logged
  and does not stop the others. \<open>Start\<close> polls once and then at every tick of its timer until
  the context ends: the runs of the monitor are the inductive relation \<open>monitor_run\<close>.
\<close>

section \<open>Targets\<close>

definition calculate_safe_target :: "u64 \<Rightarrow> u64 \<Rightarrow> u64" where
  "calculate_safe_target latest depth =
     (if depth = 0 then latest else if latest < depth then 0 else latest - depth)"

definition calculate_next_block :: "u64 \<Rightarrow> bool \<Rightarrow> u64 \<Rightarrow> u64" where
  "calculate_next_block last_indexed has_checkpoint default_start =
     (if has_checkpoint then last_indexed + 1 else default_start)"

section \<open>The monitor\<close>

record live_monitor =
  lm_chain :: int
  lm_depth :: u64
  lm_batch :: u64
  lm_interval :: int
  lm_payroll_contract :: address
  lm_payroll_stream :: string
  lm_payroll_start :: u64
  lm_token_address :: address
  lm_token_stream :: string
  lm_limit :: u64
  lm_escrow_contract :: address
  lm_escrow_stream :: string
  lm_payroll :: "(payroll_abi \<times> retry_policy) option"
  lm_token :: "token_indexer option"
  lm_escrow :: "escrow_indexer option"

definition new_live_monitor :: "bool \<Rightarrow> bool \<Rightarrow> live_monitor \<Rightarrow> goerror + live_monitor" where
  "new_live_monitor client db m =
     (if \<not> client then Inl (new_error ''blockchain client is nil'')
      else if \<not> db then Inl (new_error ''persistence layer is nil'')
      else Inr (m\<lparr>lm_batch := (if lm_batch m = 0 then 50 else lm_batch m),
         lm_limit := (if lm_limit m = 0 then 5 else lm_limit m),
         lm_interval := (if lm_interval m \<le> 0 then 5 * second else lm_interval m),
         lm_payroll_stream := (if lm_payroll_stream m = [] then ''monthly_payroll'' else lm_payroll_stream m),
         lm_escrow_stream := (if lm_escrow_stream m = [] then ''wtf_escrow'' else lm_escrow_stream m)\<rparr>))"

section \<open>Polling one stream\<close>

text \<open>The frame of the three polls: resume block, up-to-date check, bounded loop over the chunks.\<close>

definition poll_stream ::
  "env \<Rightarrow> live_monitor \<Rightarrow> string \<Rightarrow> u64 go \<Rightarrow> (u64 \<Rightarrow> u64 \<Rightarrow> 's \<Rightarrow> 's go) \<Rightarrow> 's \<Rightarrow> u64
     \<Rightarrow> world \<Rightarrow> ('s \<times> goerror option) \<times> world" where
  "poll_stream env m what start body acc0 target w =
     (case wrapping what start w of
        (Inl e, w1) \<Rightarrow> ((acc0, Some e), w1)
      | (Inr lo, w1) \<Rightarrow>
          if lo > target then ((acc0, None), w1)
          else poll_loop env body (lm_batch m) (lm_limit m) target lo 0 acc0 w1)"

definition poll_escrow :: "env \<Rightarrow> live_monitor \<Rightarrow> escrow_indexer \<Rightarrow> u64 \<Rightarrow> world \<Rightarrow> (int \<times> goerror option) \<times> world" where
  "poll_escrow env m ei = poll_stream env m ''resolve escrow start block'' (escrow_start_block env ei)
     (escrow_chunk env ''index escrow range'' ei) 0"

definition poll_token :: "env \<Rightarrow> live_monitor \<Rightarrow> token_indexer \<Rightarrow> u64 \<Rightarrow> world \<Rightarrow> (int \<times> goerror option) \<times> world" where
  "poll_token env m ti = poll_stream env m ''resolve token start block'' (token_start_block env ti)
     (token_chunk env ''index token range'' ti) 0"

definition poll_payroll_chunk ::
  "env \<Rightarrow> live_monitor \<Rightarrow> payroll_abi \<times> retry_policy \<Rightarrow> u64 \<Rightarrow> u64 \<Rightarrow> int \<Rightarrow> int go" where
  "poll_payroll_chunk env m svc lo hi acc =
     bind_go (wrapping (''index payroll range '' @ range_text lo hi)
       (index_range_with_retry env (snd svc) (fst svc) (lm_chain m) (lm_payroll_contract m) lo hi
          (lm_payroll_stream m))) (\<lambda>evs.
     bind_go (wrapping (''fetch block header for payroll checkpoint at block '' @ dec_u64 hi)
       (block_header env hi)) (\<lambda>header.
     bind_go (wrapping (''save payroll checkpoint for block '' @ dec_u64 hi)
       (save_checkpoint env (lm_chain m) (lm_payroll_stream m) hi (hash_hex env (h_hash header)))) (\<lambda>_.
     ret (acc + int (length evs)))))"

definition poll_payroll ::
  "env \<Rightarrow> live_monitor \<Rightarrow> payroll_abi \<times> retry_policy \<Rightarrow> u64 \<Rightarrow> world \<Rightarrow> (int \<times> goerror option) \<times> world" where
  "poll_payroll env m svc = poll_stream env m ''resolve payroll start block''
     (effective_start_block env (lm_chain m) (lm_payroll_stream m) (lm_payroll_start m))
     (poll_payroll_chunk env m svc) 0"

section \<open>One poll cycle\<close>

text \<open>A stream is polled when its service exists and its address is set; its error is only logged.\<close>

definition poll_if :: "address \<Rightarrow> 'a option \<Rightarrow> ('a \<Rightarrow> world \<Rightarrow> (int \<times> goerror option) \<times> world) \<Rightarrow> world \<Rightarrow> world" where
  "poll_if contract service poll w =
     (case service of
        None \<Rightarrow> w
      | Some s \<Rightarrow> if contract = 0 then w else snd (poll s w))"

definition poll_streams :: "env \<Rightarrow> live_monitor \<Rightarrow> u64 \<Rightarrow> world \<Rightarrow> world" where
  "poll_streams env m target w0 =
     (let w1 = poll_if (lm_payroll_contract m) (lm_payroll m) (\<lambda>svc. poll_payroll env m svc target) w0;
          w2 = poll_if (lm_token_address m) (lm_token m) (\<lambda>ti. poll_token env m ti target) w1
      in poll_if (lm_escrow_contract m) (lm_escrow m) (\<lambda>ei. poll_escrow env m ei target) w2)"

definition poll_once :: "env \<Rightarrow> live_monitor \<Rightarrow> unit go" where
  "poll_once env m w =
     (case wrapping ''fetch latest block'' (latest_block env) w of
        (Inl e, w1) \<Rightarrow> (Inl e, w1)
      | (Inr latest, w1) \<Rightarrow> (Inr (), poll_streams env m (calculate_safe_target latest (lm_depth m)) w1))"

text \<open>\<open>logInitialStatus\<close>: reads that are only logged.\<close>

definition status_if :: "address \<Rightarrow> 'a option \<Rightarrow> env \<Rightarrow> int \<Rightarrow> string \<Rightarrow> world \<Rightarrow> world" where
  "status_if contract service env chain stream w =
     (if service \<noteq> None \<and> contract \<noteq> 0 then snd (get_checkpoint env chain stream w) else w)"

definition log_initial_status :: "env \<Rightarrow> live_monitor \<Rightarrow> world \<Rightarrow> world" where
  "log_initial_status env m w =
     (case latest_block env w of
        (Inl _, w1) \<Rightarrow> w1
      | (Inr _, w1) \<Rightarrow>
          status_if (lm_escrow_contract m) (lm_escrow m) env (lm_chain m) (lm_escrow_stream m)
            (status_if (lm_token_address m) (lm_token m) env (lm_chain m) (lm_token_stream m)
              (status_if (lm_payroll_contract m) (lm_payroll m) env (lm_chain m) (lm_payroll_stream m) w1)))"

text \<open>\<open>Start\<close>: the states the monitor can be in while it runs; between two polls time passes.\<close>

inductive monitor_run :: "env \<Rightarrow> live_monitor \<Rightarrow> world \<Rightarrow> world \<Rightarrow> bool" for env m w where
  started: "monitor_run env m w (snd (poll_once env m (log_initial_status env m w)))"
| ticked: "monitor_run env m w w1 \<Longrightarrow> monitor_run env m w (snd (poll_once env m w1))"
| waited: "monitor_run env m w w1 \<Longrightarrow> monitor_run env m w (next_tick w1)"

section \<open>What the bounded loop does to the checkpoint\<close>

context effect_relation
begin

lemma keeps_poll_loop:
  assumes "\<And>lo hi s. keeps (body lo hi s)" "poll_loop env body batch limit target lo k s w = y"
  shows "R w (snd y)"
  using assms(2)
proof (induction rule: poll_loop_induct)
  case (failed lo k s w e w')
  then show ?case using keepsD [OF assms(1)] by simp
next
  case (more lo k s w s' w' y)
  then show ?case using R_trans keepsD [OF assms(1)] by blast
qed (simp_all add: R_refl)

end

context indexed_stream
begin

text \<open>The checkpoint stays or moves to a block at or below the target.\<close>

lemma poll_loop_bounded:
  assumes "poll_loop env body batch limit target lo k s w = y"
  shows "checkpoint_of (w_db (snd y)) chain stream = checkpoint_of (w_db w) chain stream \<or>
    (\<exists>c \<le> target. checkpoint_of (w_db (snd y)) chain stream = Some c)"
  using assms
proof (induction rule: poll_loop_induct)
  case (failed lo k s w e w')
  then show ?case using body_Inl by auto
next
  case (more lo k s w s' w' y)
  then show ?case using body_checkpoint [OF more(3)] chunk_end_le [OF more(1)] by auto
qed simp_all

text \<open>A chunk that is not cut off by the target has exactly \<open>batch\<close> blocks.\<close>

lemma chunk_span:
  assumes "body lo (chunk_end batch target lo) s w = (Inr s', w')" "chunk_end batch target lo \<noteq> target"
  shows "unat (chunk_end batch target lo) + 1 = unat lo + unat batch"
proof -
  let ?hi = "chunk_end batch target lo"
  have hi: "?hi = lo + batch - 1" and le: "lo \<le> ?hi"
    using assms(2) body_Inr [OF assms(1)] by (auto simp: chunk_end_def split: if_splits)
  have "batch = ?hi - lo + 1" using hi by (simp add: algebra_simps)
  moreover have "?hi - lo \<noteq> - 1"
  proof
    assume "?hi - lo = - 1"
    then have "?hi = lo - 1" by (simp add: algebra_simps)
    have "lo = 0"
    proof (rule ccontr)
      assume "lo \<noteq> 0"
      then have "unat (lo - 1) = unat lo - 1" "0 < unat lo" by (auto simp: unat_minus_one unat_gt_0)
      then show False using le \<open>?hi = lo - 1\<close> by (simp add: word_le_nat_alt)
    qed
    then have "?hi = - 1" using \<open>?hi = lo - 1\<close> by simp
    then have "- 1 \<le> target \<or> ?hi = target" by (auto simp: chunk_end_def split: if_splits)
    then show False using assms(2) \<open>?hi = - 1\<close> by (metis word_order.extremum_unique)
  qed
  ultimately have "unat batch = Suc (unat (?hi - lo))" by (metis u64_succ_unat)
  then show ?thesis using le by (simp add: unat_sub word_le_nat_alt)
qed

text \<open>Progress: a poll without error reaches the target or processes its full number of chunks.\<close>

lemma poll_loop_progress:
  assumes "poll_loop env body batch limit target lo k s w = y" "target \<noteq> - 1" durable
  shows "0 < lo \<longrightarrow> snd (fst y) = None \<longrightarrow>
    (if lo \<le> target \<and> k < limit
     then \<exists>c. checkpoint_of (w_db (snd y)) chain stream = Some c \<and>
        (c = target \<or> unat c + 1 = unat lo + (unat limit - unat k) * unat batch)
     else snd y = w)"
  using assms(1)
proof (induction rule: poll_loop_induct)
  case (more lo k s w s' w' y)
  let ?hi = "chunk_end batch target lo"
  have le: "lo \<le> ?hi" "?hi \<le> target" using body_Inr [OF more(3)] chunk_end_le [OF more(1)] by auto
  then have hi: "?hi \<noteq> - 1" using assms(2) word_order.extremum_unique by metis
  have k: "unat (k + 1) = Suc (unat k)" "unat k < unat limit"
    using more(2) by (simp_all add: u64_succ_unat u64_less_not_max word_less_nat_alt)
  show ?case
  proof (intro impI)
    assume pos: "0 < lo" and ok: "snd (fst y) = None"
    then have "0 < ?hi" "0 < ?hi + 1" using le hi by (auto simp: word_less_nat_alt word_le_nat_alt u64_succ_unat)
    then have cp: "checkpoint_of (w_db w') chain stream = Some ?hi"
      using body_checkpoint [OF more(3)] assms(3) by auto
    note IH = more.IH [rule_format, OF \<open>0 < ?hi + 1\<close> ok]
    have "\<exists>c. checkpoint_of (w_db (snd y)) chain stream = Some c \<and>
        (c = target \<or> unat c + 1 = unat lo + (unat limit - unat k) * unat batch)"
    proof (cases "?hi + 1 \<le> target \<and> k + 1 < limit")
      case True
      then obtain c where c: "checkpoint_of (w_db (snd y)) chain stream = Some c"
        "c = target \<or> unat c + 1 = unat (?hi + 1) + (unat limit - unat (k + 1)) * unat batch"
        using IH by auto
      have "?hi \<noteq> target" using True hi u64_succ_unat [of ?hi] by (auto simp: word_le_nat_alt)
      then have "unat (?hi + 1) = unat lo + unat batch" using chunk_span [OF more(3)] hi u64_succ_unat by simp
      moreover have "unat limit - unat k = Suc (unat limit - unat (k + 1))" using k by simp
      ultimately show ?thesis using c by auto
    next
      case False
      then have "snd y = w'" using IH by (simp split: if_splits)
      moreover have "?hi = target \<or> unat ?hi + 1 = unat lo + (unat limit - unat k) * unat batch"
      proof (cases "?hi = target")
        case False': False
        have "?hi < target" using le(2) False' by simp
        then have "?hi + 1 \<le> target" by (rule u64_le_less_succ)
        then have "unat limit = Suc (unat k)" using False k by (simp add: word_less_nat_alt)
        then show ?thesis using chunk_span [OF more(3) False'] by simp
      qed simp
      ultimately show ?thesis using cp by auto
    qed
    then show "if lo \<le> target \<and> k < limit
     then \<exists>c. checkpoint_of (w_db (snd y)) chain stream = Some c \<and>
        (c = target \<or> unat c + 1 = unat lo + (unat limit - unat k) * unat batch)
     else snd y = w" using more(1,2) by simp
  qed
qed auto

text \<open>A whole poll, given that its resume block continues a covered prefix.\<close>

lemma poll_stream_safe:
  assumes "poll_stream env m what begin_at body acc0 target w = y" "safe (w_db w)" "untouched.keeps begin_at"
    and "\<And>lo w1. begin_at w = (Inr lo, w1) \<Longrightarrow> covered lo (w_db w)"
  shows "safe (w_db (snd y))"
proof -
  obtain r w1 where st: "begin_at w = (r, w1)" by fastforce
  have db: "w_db w1 = w_db w" by (rule untouched.keepsD [OF assms(3) st])
  show ?thesis
  proof (cases r)
    case (Inl e)
    then show ?thesis using assms(1,2) st db by (auto simp: poll_stream_def wrapping_def)
  next
    case (Inr lo)
    then show ?thesis
      using assms(1,2) st db assms(4) poll_loop_safe [of env "lm_batch m" "lm_limit m" target lo 0 acc0 w1]
      by (auto simp: poll_stream_def wrapping_def split: if_splits)
  qed
qed

lemma poll_stream_bounded:
  assumes "poll_stream env m what begin_at body acc0 target w = y" "untouched.keeps begin_at"
  shows "checkpoint_of (w_db (snd y)) chain stream = checkpoint_of (w_db w) chain stream \<or>
     (\<exists>c \<le> target. checkpoint_of (w_db (snd y)) chain stream = Some c)"
proof -
  obtain r w1 where st: "begin_at w = (r, w1)" by fastforce
  have db: "w_db w1 = w_db w" by (rule untouched.keepsD [OF assms(2) st])
  then show ?thesis
    using assms(1) st poll_loop_bounded [of env "lm_batch m" "lm_limit m" target _ 0 acc0 w1, OF refl]
    by (cases r) (auto simp: poll_stream_def wrapping_def split: if_splits)
qed

end

section \<open>The payroll poll as an indexed stream\<close>

text \<open>The poll of the payroll stream has the chunk of the backfill with other error texts.\<close>

lemma poll_payroll_sim:
  assumes "poll_payroll_chunk env m svc lo hi acc w = (r, w')"
  shows "\<exists>r'. payroll_chunk env (snd svc) (fst svc) (lm_chain m) (lm_payroll_contract m) (lm_payroll_stream m)
      lo hi () w = (r', w') \<and> (isl r \<longleftrightarrow> isl r')"
  using assms
  by (auto simp: poll_payroll_chunk_def payroll_chunk_def go_unfold
      split: sum.splits prod.splits)

interpretation payroll_poll: indexed_stream "lm_chain m" "lm_payroll_stream m" start logs
    "\<lambda>d lg. honest env (lm_payroll_contract m) logs \<longrightarrow> payroll_recorded (lm_chain m) (lm_payroll_contract m) d lg"
    True "poll_payroll_chunk env m svc"
  for m :: live_monitor and start :: u64 and logs :: "evm_log list" and env :: env
    and svc :: "payroll_abi \<times> retry_policy"
proof unfold_locales
  fix lo hi :: u64 and s s' :: int and w w' :: world and r e
  let ?p = "poll_payroll_chunk env m svc lo hi s"
  let ?q = "payroll_chunk env (snd svc) (fst svc) (lm_chain m) (lm_payroll_contract m) (lm_payroll_stream m) lo hi ()"
  have ok: "?q w = (Inr (), w')" if "?p w = (Inr s', w')"
    using poll_payroll_sim [OF that] by (metis isl_def old.unit.exhaust sum.collapse(2) sum.disc(2))
  show "legal (w_db w) (w_db w')" if "?p w = (r, w')"
    using poll_payroll_sim [OF that] payroll_stream.body_legal by blast
  show "checkpoint_of (w_db w') (lm_chain m) (lm_payroll_stream m) =
      checkpoint_of (w_db w) (lm_chain m) (lm_payroll_stream m)" if "?p w = (Inl e, w')"
    using poll_payroll_sim [OF that] payroll_chunk_Inl by (metis isl_def sum.disc(1))
  show "checkpoint_of (w_db w') (lm_chain m) (lm_payroll_stream m) = Some hi \<or> \<not> (True \<and> 0 < hi) \<and>
      checkpoint_of (w_db w') (lm_chain m) (lm_payroll_stream m) =
      checkpoint_of (w_db w) (lm_chain m) (lm_payroll_stream m)" if "?p w = (Inr s', w')"
    using payroll_chunk_Inr [OF ok [OF that]] by simp
  show "lo \<le> hi \<and> (\<forall>lg \<in> set logs. lo \<le> l_block lg \<and> l_block lg \<le> hi \<longrightarrow>
      honest env (lm_payroll_contract m) logs \<longrightarrow>
      payroll_recorded (lm_chain m) (lm_payroll_contract m) (w_db w') lg)" if "?p w = (Inr s', w')"
    using payroll_stream.body_Inr [OF ok [OF that], of logs] by simp
qed (use payroll_recorded_mono in blast)

section \<open>Streams do not disturb each other\<close>

definition other_checkpoints :: "int \<Rightarrow> string \<Rightarrow> database \<Rightarrow> database \<Rightarrow> bool" where
  "other_checkpoints c s d d' \<longleftrightarrow>
     (\<forall>c' s'. (c', s') \<noteq> (c, s) \<longrightarrow> checkpoint_of d' c' s' = checkpoint_of d c' s')"

interpretation others: db_relation "other_checkpoints c s" for c :: int and s :: string
  by unfold_locales (auto simp: other_checkpoints_def)

lemma same_other_checkpoints: "same_checkpoints d d' \<Longrightarrow> other_checkpoints c s d d'"
  by (simp add: other_checkpoints_def checkpoint_of_same)

lemma frame_others: "frame.keeps m \<Longrightarrow> others.keeps c s m"
  unfolding frame.keeps_def others.keeps_def using same_other_checkpoints by blast

lemma stmt_checkpoint_others:
  "stmt_checkpoint (checkpoint_row_of c s b h) d = Inr d' \<Longrightarrow> other_checkpoints c s d d'"
  by (auto simp: other_checkpoints_def stmt_checkpoint_find)

lemma others_keeps_checkpoint:
  "others.keeps c s (save_checkpoint env c s b h)"
  "others.keeps c s (checkpoint_in_batch env msg c s b h)"
  by (auto simp: save_checkpoint_def checkpoint_in_batch_def
      intro!: others.keeps_rules others.keeps_exec stmt_checkpoint_others)

lemma others_keeps_batches:
  "others.keeps c s (save_token_batch env c s metas raws ts b h)"
  "others.keeps c s (save_escrow_batch env c s evs b h)"
  unfolding save_token_batch_def save_escrow_batch_eq
  by (auto intro!: others.keeps_transaction others.keeps_rules others_keeps_checkpoint
      frame_others [OF frame_keeps_insert] frame_others [OF frame_keeps_parts(1)]
      frame_others [OF frame_keeps_parts(2)] frame_others [OF frame_keeps_parts(3)])

lemma untouched_others: "untouched.keeps m \<Longrightarrow> others.keeps c s m"
  unfolding untouched.keeps_def others.keeps_def by (simp add: other_checkpoints_def)

lemma others_keeps_chunks:
  "others.keeps (ti_chain ti) (ti_stream ti) (token_chunk env what ti lo hi acc)"
  "others.keeps (ei_chain ei) (ei_stream ei) (escrow_chunk env what ei lo hi acc)"
  "others.keeps (lm_chain m) (lm_payroll_stream m) (poll_payroll_chunk env m svc lo hi acc)"
  unfolding token_chunk_def token_index_range_with_retry_def token_index_range_def escrow_chunk_def
    escrow_index_range_with_retry_def escrow_index_range_def poll_payroll_chunk_def index_range_with_retry_def
  by (auto intro!: others.keeps_retry_rules others_keeps_batches others_keeps_checkpoint
      untouched_others [OF Token_Indexer.untouched_keeps_token_collect]
      untouched_others [OF Escrow_Indexer.untouched_keeps_collect]
      untouched_others [OF untouched_keeps_notify] frame_others [OF frame_keeps_index_range] split: prod.split)

text \<open>A poll under any relation that its resume block and its chunks keep.\<close>

context effect_relation
begin

lemma keeps_poll_stream:
  assumes "keeps begin_at" "\<And>lo hi s. keeps (body lo hi s)"
  shows "R w (snd (poll_stream env m what begin_at body acc0 target w))"
proof -
  obtain r w1 where st: "begin_at w = (r, w1)" by fastforce
  have "R w w1" by (rule keepsD [OF assms(1) st])
  moreover have "R w1 (snd (poll_loop env body (lm_batch m) (lm_limit m) target lo 0 acc0 w1))" for lo
    by (rule keeps_poll_loop [OF assms(2) refl])
  ultimately show ?thesis
    using st R_trans by (cases r) (auto simp: poll_stream_def wrapping_def)
qed

end

lemma untouched_starts:
  "untouched.keeps (escrow_start_block env ei)"
  "untouched.keeps (token_start_block env ti)"
  "untouched.keeps (effective_start_block env chain stream start)"
  unfolding escrow_start_block_def token_start_block_def effective_start_block_def get_checkpoint_def
  by (auto intro!: untouched.keeps_rules split: prod.split)

lemma polls_keep_others:
  "other_checkpoints (ti_chain ti) (ti_stream ti) (w_db w) (w_db (snd (poll_token env m ti target w)))"
  "other_checkpoints (ei_chain ei) (ei_stream ei) (w_db w) (w_db (snd (poll_escrow env m ei target w)))"
  "other_checkpoints (lm_chain m) (lm_payroll_stream m) (w_db w) (w_db (snd (poll_payroll env m svc target w)))"
  unfolding poll_token_def poll_escrow_def poll_payroll_def
  by (rule others.keeps_poll_stream [OF untouched_others [OF untouched_starts(2)] others_keeps_chunks(1)],
      rule others.keeps_poll_stream [OF untouched_others [OF untouched_starts(1)] others_keeps_chunks(2)],
      rule others.keeps_poll_stream [OF untouched_others [OF untouched_starts(3)] others_keeps_chunks(3)])

lemma law_keeps_payroll_poll: "law.keeps (poll_payroll_chunk env m svc lo hi acc)"
  unfolding law.keeps_def by (metis payroll_poll.body_legal prod.collapse)

lemma polls_legal:
  "legal (w_db w) (w_db (snd (poll_token env m ti target w)))"
  "legal (w_db w) (w_db (snd (poll_escrow env m ei target w)))"
  "legal (w_db w) (w_db (snd (poll_payroll env m svc target w)))"
  unfolding poll_token_def poll_escrow_def poll_payroll_def
  by (rule law.keeps_poll_stream [OF untouched_law [OF untouched_starts(2)] law_keeps_token_chunk],
      rule law.keeps_poll_stream [OF untouched_law [OF untouched_starts(1)] law_keeps_escrow_chunk],
      rule law.keeps_poll_stream [OF untouched_law [OF untouched_starts(3)] law_keeps_payroll_poll])

text \<open>A poll moves a checkpoint only up to its target.\<close>

definition bounded_move :: "u64 \<Rightarrow> database \<Rightarrow> database \<Rightarrow> bool" where
  "bounded_move target d d' \<longleftrightarrow> (\<forall>c s. checkpoint_of d' c s = checkpoint_of d c s \<or>
     (\<exists>b \<le> target. checkpoint_of d' c s = Some b))"

lemma bounded_move_refl: "bounded_move target d d"
  by (simp add: bounded_move_def)

lemma bounded_move_trans: "bounded_move t a b \<Longrightarrow> bounded_move t b c \<Longrightarrow> bounded_move t a c"
  unfolding bounded_move_def by metis

lemma bounded_everywhere:
  assumes "other_checkpoints c0 s0 d d'"
    and "checkpoint_of d' c0 s0 = checkpoint_of d c0 s0 \<or> (\<exists>b \<le> t. checkpoint_of d' c0 s0 = Some b)"
  shows "bounded_move t d d'"
  using assms unfolding bounded_move_def other_checkpoints_def by (metis prod.inject)

lemma polls_bounded:
  "bounded_move target (w_db w) (w_db (snd (poll_token env m ti target w)))"
  "bounded_move target (w_db w) (w_db (snd (poll_escrow env m ei target w)))"
  "bounded_move target (w_db w) (w_db (snd (poll_payroll env m svc target w)))"
  unfolding poll_token_def poll_escrow_def poll_payroll_def
  by (rule bounded_everywhere [OF polls_keep_others(1) [unfolded poll_token_def]
        token_stream.poll_stream_bounded [OF refl untouched_starts(2)]],
      rule bounded_everywhere [OF polls_keep_others(2) [unfolded poll_escrow_def]
        escrow_stream.poll_stream_bounded [OF refl untouched_starts(1)]],
      rule bounded_everywhere [OF polls_keep_others(3) [unfolded poll_payroll_def]
        payroll_poll.poll_stream_bounded [OF refl untouched_starts(3)]])

lemma poll_if_bounded:
  assumes "bounded_move t d (w_db w)" "\<And>s. bounded_move t (w_db w) (w_db (snd (poll s w)))"
  shows "bounded_move t d (w_db (poll_if contract service poll w))"
  using assms bounded_move_trans [OF assms(1,2)] by (auto simp: poll_if_def split: option.split)

lemma poll_streams_bounded: "bounded_move t (w_db w) (w_db (poll_streams env m t w))"
  unfolding poll_streams_def Let_def by (intro poll_if_bounded bounded_move_refl polls_bounded)

text \<open>
  Checkpoint safety of the three streams together. The escrow stream is safe only on a node that
  answers every timestamp request: an escrow log whose block timestamp cannot be fetched is skipped
  by \<open>ParseLogs\<close>, and the checkpoint moves past it (\<open>escrow_timestamp_failure_loses_events\<close>). An
  honest node is one whose \<open>eth_getLogs\<close> answers are right when there are any; it may fail to
  answer whatever request.
\<close>

definition monitor_safe ::
  "env \<Rightarrow> live_monitor \<Rightarrow> evm_log list \<Rightarrow> evm_log list \<Rightarrow> evm_log list \<Rightarrow> database \<Rightarrow> bool" where
  "monitor_safe env m lp lt le d \<longleftrightarrow>
     payroll_safe (lm_chain m) (lm_payroll_contract m) (lm_payroll_stream m) (lm_payroll_start m) lp d \<and>
     (\<forall>ti. lm_token m = Some ti \<longrightarrow> token_safe ti lt d) \<and>
     (timestamps_answered env \<longrightarrow> (\<forall>ei. lm_escrow m = Some ei \<longrightarrow> escrow_safe ei le d))"

definition honest_node ::
  "env \<Rightarrow> live_monitor \<Rightarrow> evm_log list \<Rightarrow> evm_log list \<Rightarrow> evm_log list \<Rightarrow> bool" where
  "honest_node env m lp lt le \<longleftrightarrow> honest env (lm_payroll_contract m) lp \<and>
     (\<forall>ti. lm_token m = Some ti \<longrightarrow> honest_topics env (ti_token ti) lt) \<and>
     (\<forall>ei. lm_escrow m = Some ei \<longrightarrow> honest env (ei_contract ei) le)"

text \<open>No two streams share a checkpoint row.\<close>

definition distinct_streams :: "live_monitor \<Rightarrow> bool" where
  "distinct_streams m \<longleftrightarrow>
     (\<forall>ti. lm_token m = Some ti \<longrightarrow> (ti_chain ti, ti_stream ti) \<noteq> (lm_chain m, lm_payroll_stream m)) \<and>
     (\<forall>ei. lm_escrow m = Some ei \<longrightarrow> (ei_chain ei, ei_stream ei) \<noteq> (lm_chain m, lm_payroll_stream m)) \<and>
     (\<forall>ti ei. lm_token m = Some ti \<longrightarrow> lm_escrow m = Some ei \<longrightarrow>
        (ei_chain ei, ei_stream ei) \<noteq> (ti_chain ti, ti_stream ti))"

lemma safe_kept_by_others:
  assumes "legal d d'" "other_checkpoints c0 s0 d d'"
  shows "(chain, stream) \<noteq> (c0, s0) \<Longrightarrow> payroll_safe chain contract stream start logs d \<Longrightarrow>
      payroll_safe chain contract stream start logs d'"
    and "(ti_chain ti, ti_stream ti) \<noteq> (c0, s0) \<Longrightarrow> token_safe ti logs d \<Longrightarrow> token_safe ti logs d'"
    and "(ei_chain ei, ei_stream ei) \<noteq> (c0, s0) \<Longrightarrow> escrow_safe ei logs d \<Longrightarrow> escrow_safe ei logs d'"
proof -
  have grows: "db_grows d d'" using assms(1) by (simp add: legal_def)
  note cp = assms(2) [unfolded other_checkpoints_def, rule_format]
  show "(chain, stream) \<noteq> (c0, s0) \<Longrightarrow> payroll_safe chain contract stream start logs d \<Longrightarrow>
      payroll_safe chain contract stream start logs d'"
    using cp [of chain stream] payroll_recorded_mono [OF grows] unfolding payroll_safe_def by simp
  show "(ti_chain ti, ti_stream ti) \<noteq> (c0, s0) \<Longrightarrow> token_safe ti logs d \<Longrightarrow> token_safe ti logs d'"
    using cp [of "ti_chain ti" "ti_stream ti"] token_recorded_mono [OF grows] unfolding token_safe_def by simp
  show "(ei_chain ei, ei_stream ei) \<noteq> (c0, s0) \<Longrightarrow> escrow_safe ei logs d \<Longrightarrow> escrow_safe ei logs d'"
    using cp [of "ei_chain ei" "ei_stream ei"] escrow_recorded_mono [OF grows] unfolding escrow_safe_def by simp
qed

lemma poll_token_safe:
  assumes "honest_topics env (ti_token ti) logs" "token_safe ti logs (w_db w)"
  shows "token_safe ti logs (w_db (snd (poll_token env m ti target w)))"
proof -
  have "token_stream.safe ti (ti_start ti) logs env (w_db (snd (poll_token env m ti target w)))"
    unfolding poll_token_def
  proof (rule token_stream.poll_stream_safe [OF refl _ untouched_starts(2)])
    show "token_stream.safe ti (ti_start ti) logs env (w_db w)"
      using token_safe_iff [OF assms(1)] assms(2) by blast
    fix lo w1 assume st: "token_start_block env ti w = (Inr lo, w1)"
    show "token_stream.covered (ti_start ti) logs env ti lo (w_db w)"
      using token_resume [OF assms(1) st assms(2)] token_start_Inr [OF st] by simp
  qed
  then show ?thesis by (simp add: token_safe_iff [OF assms(1)])
qed

lemma poll_escrow_safe:
  assumes "honest env (ei_contract ei) logs" "timestamps_answered env" "escrow_safe ei logs (w_db w)"
  shows "escrow_safe ei logs (w_db (snd (poll_escrow env m ei target w)))"
proof -
  have "escrow_stream.safe ei (ei_start ei) logs env (w_db (snd (poll_escrow env m ei target w)))"
    unfolding poll_escrow_def
  proof (rule escrow_stream.poll_stream_safe [OF refl _ untouched_starts(1)])
    show "escrow_stream.safe ei (ei_start ei) logs env (w_db w)"
      using escrow_safe_iff [OF assms(1,2)] assms(3) by blast
    fix lo w1 assume st: "escrow_start_block env ei w = (Inr lo, w1)"
    show "escrow_stream.covered (ei_start ei) logs env ei lo (w_db w)"
      using escrow_resume [OF assms(1,2) st assms(3)] escrow_start_Inr [OF st] by simp
  qed
  then show ?thesis by (simp add: escrow_safe_iff [OF assms(1,2)])
qed

lemma poll_payroll_safe:
  assumes "honest env (lm_payroll_contract m) logs"
    "payroll_safe (lm_chain m) (lm_payroll_contract m) (lm_payroll_stream m) (lm_payroll_start m) logs (w_db w)"
  shows "payroll_safe (lm_chain m) (lm_payroll_contract m) (lm_payroll_stream m) (lm_payroll_start m) logs
    (w_db (snd (poll_payroll env m svc target w)))"
proof -
  have iff: "payroll_poll.safe m (lm_payroll_start m) logs env d \<longleftrightarrow>
      payroll_safe (lm_chain m) (lm_payroll_contract m) (lm_payroll_stream m) (lm_payroll_start m) logs d" for d
    using assms(1) unfolding payroll_poll.safe_def payroll_safe_def by blast
  have "payroll_poll.safe m (lm_payroll_start m) logs env (w_db (snd (poll_payroll env m svc target w)))"
    unfolding poll_payroll_def
  proof (rule payroll_poll.poll_stream_safe [OF refl _ untouched_starts(3)])
    show safe: "payroll_poll.safe m (lm_payroll_start m) logs env (w_db w)"
      using assms(2) by (simp add: iff)
    fix lo w1 assume st: "effective_start_block env (lm_chain m) (lm_payroll_stream m) (lm_payroll_start m) w = (Inr lo, w1)"
    show "payroll_poll.covered (lm_payroll_start m) logs env m lo (w_db w)"
      using effective_start_Inr [OF st] payroll_poll.covered_resume [OF safe] payroll_poll.covered_start
      by (auto split: option.splits)
  qed
  then show ?thesis by (simp add: iff)
qed

section \<open>Properties\<close>

lemma monitor_safe_parts:
  assumes "monitor_safe env m lp lt le d"
  shows "payroll_safe (lm_chain m) (lm_payroll_contract m) (lm_payroll_stream m) (lm_payroll_start m) lp d"
    "lm_token m = Some ti \<Longrightarrow> token_safe ti lt d" 
    "timestamps_answered env \<Longrightarrow> lm_escrow m = Some ei \<Longrightarrow> escrow_safe ei le d"
  using assms by (simp_all add: monitor_safe_def)

lemma polls_monitor_safe:
  assumes "honest_node env m lp lt le" "distinct_streams m" "monitor_safe env m lp lt le (w_db w)"
  shows "monitor_safe env m lp lt le (w_db (snd (poll_payroll env m svc target w)))"
    and "lm_token m = Some ti \<Longrightarrow> monitor_safe env m lp lt le (w_db (snd (poll_token env m ti target w)))"
    and "lm_escrow m = Some ei \<Longrightarrow> monitor_safe env m lp lt le (w_db (snd (poll_escrow env m ei target w)))"
proof -
  note parts = monitor_safe_parts [OF assms(3)]
  have node: "honest env (lm_payroll_contract m) lp"
    "\<And>ti. lm_token m = Some ti \<Longrightarrow> honest_topics env (ti_token ti) lt"
    "\<And>ei. lm_escrow m = Some ei \<Longrightarrow> honest env (ei_contract ei) le"
    using assms(1) by (simp_all add: honest_node_def)
  have keys: "\<And>ti. lm_token m = Some ti \<Longrightarrow> (ti_chain ti, ti_stream ti) \<noteq> (lm_chain m, lm_payroll_stream m)"
    "\<And>ei. lm_escrow m = Some ei \<Longrightarrow> (ei_chain ei, ei_stream ei) \<noteq> (lm_chain m, lm_payroll_stream m)"
    "\<And>ti ei. lm_token m = Some ti \<Longrightarrow> lm_escrow m = Some ei \<Longrightarrow> (ei_chain ei, ei_stream ei) \<noteq> (ti_chain ti, ti_stream ti)"
    using assms(2) unfolding distinct_streams_def by blast+
  show "monitor_safe env m lp lt le (w_db (snd (poll_payroll env m svc target w)))"
    unfolding monitor_safe_def
    by (intro conjI allI impI poll_payroll_safe node parts
        safe_kept_by_others(2,3) [OF polls_legal(3) polls_keep_others(3)] keys)
  show "monitor_safe env m lp lt le (w_db (snd (poll_token env m ti target w)))" if ti: "lm_token m = Some ti"
    unfolding monitor_safe_def ti option.inject
  proof (intro conjI allI impI)
    show "payroll_safe (lm_chain m) (lm_payroll_contract m) (lm_payroll_stream m) (lm_payroll_start m) lp
        (w_db (snd (poll_token env m ti target w)))"
      by (rule safe_kept_by_others(1) [OF polls_legal(1) polls_keep_others(1) not_sym [OF keys(1) [OF ti]] parts(1)])
    show "token_safe t lt (w_db (snd (poll_token env m ti target w)))" if "ti = t" for t
      using poll_token_safe node(2) parts(2) ti that by blast
    show "escrow_safe ei le (w_db (snd (poll_token env m ti target w)))" if "timestamps_answered env" "lm_escrow m = Some ei" for ei
      by (rule safe_kept_by_others(3) [OF polls_legal(1) polls_keep_others(1) keys(3) [OF ti that(2)] parts(3) [OF that]])
  qed
  show "monitor_safe env m lp lt le (w_db (snd (poll_escrow env m ei target w)))" if ei: "lm_escrow m = Some ei"
    unfolding monitor_safe_def ei option.inject
  proof (intro conjI allI impI)
    show "payroll_safe (lm_chain m) (lm_payroll_contract m) (lm_payroll_stream m) (lm_payroll_start m) lp
        (w_db (snd (poll_escrow env m ei target w)))"
      by (rule safe_kept_by_others(1) [OF polls_legal(2) polls_keep_others(2) not_sym [OF keys(2) [OF ei]] parts(1)])
    show "token_safe ti lt (w_db (snd (poll_escrow env m ei target w)))" if "lm_token m = Some ti" for ti
      by (rule safe_kept_by_others(2) [OF polls_legal(2) polls_keep_others(2) not_sym [OF keys(3) [OF that ei]]
          parts(2) [OF that]])
    show "escrow_safe e le (w_db (snd (poll_escrow env m ei target w)))" if "timestamps_answered env" "ei = e" for e
      using poll_escrow_safe node(3) parts(3) ei that by blast
  qed
qed

lemma poll_if_safe:
  assumes "P w" "\<And>s. service = Some s \<Longrightarrow> P (snd (poll s w))"
  shows "P (poll_if contract service poll w)"
  using assms by (auto simp: poll_if_def split: option.split)

lemma poll_once_safe:
  assumes "honest_node env m lp lt le" "distinct_streams m" "monitor_safe env m lp lt le (w_db w)"
  shows "monitor_safe env m lp lt le (w_db (snd (poll_once env m w)))"
proof -
  let ?P = "\<lambda>w. monitor_safe env m lp lt le (w_db w)"
  note step = polls_monitor_safe [OF assms(1,2)]
  have streams: "?P (poll_streams env m target w1)" if "?P w1" for target w1
    unfolding poll_streams_def Let_def
    by (intro poll_if_safe [where P = ?P] step that)
  have "?P (next_tick w)" using assms(3) by simp
  then show ?thesis
    using assms(3) streams by (auto simp: poll_once_def wrapping_def latest_block_def rpc_def split: sum.splits)
qed

lemma status_if_db: "w_db (status_if contract service env chain stream w) = w_db w"
  by (auto simp: status_if_def get_checkpoint_def wrapping_def query_sql_def
      split: option.splits prod.splits sum.splits)

lemma initial_status_db: "w_db (log_initial_status env m w) = w_db w"
  by (simp add: log_initial_status_def latest_block_def rpc_def status_if_db split: sum.split)

text \<open>The three sample streams on one node with head 20, polled in batches of 3 with depth 6.\<close>

definition sample_live :: live_monitor where
  "sample_live = \<lparr>lm_chain = 1, lm_depth = 6, lm_batch = 3, lm_interval = second,
     lm_payroll_contract = 8, lm_payroll_stream = ''monthly_payroll'', lm_payroll_start = 8,
     lm_token_address = 9, lm_token_stream = ''t'', lm_limit = 1, lm_escrow_contract = 9,
     lm_escrow_stream = ''wtf_escrow'', lm_payroll = Some (sample_abi, default_retry_policy False),
     lm_token = Some sample_token, lm_escrow = Some sample_escrow\<rparr>"

definition live_env :: env where
  "live_env = token_env\<lparr>rpc_logs := (\<lambda>n c lo hi. Inr (filter (\<lambda>lg. lo \<le> l_block lg \<and> l_block lg \<le> hi)
     (if c = 9 then [sample_escrow_log] else [sample_log 0])))\<rparr>"

lemma live_node: "honest_node live_env sample_live [sample_log 0] [sample_transfer_log, sample_approval_log] [sample_escrow_log]"
  using token_env_honest
  by (auto simp: honest_node_def honest_def honest_topics_def timestamps_answered_def sample_live_def live_env_def
      sample_escrow_def escrow_defaults_def token_env_def)

lemma live_timestamps: "timestamps_answered live_env"
  by (simp add: timestamps_answered_def live_env_def token_env_def)

lemma live_streams: "distinct_streams sample_live"
  by (simp add: distinct_streams_def sample_live_def sample_escrow_def escrow_defaults_def sample_token_def)

lemma live_init: "monitor_safe env sample_live lp lt le (w_db empty_world)"
  by (simp add: monitor_safe_def payroll_safe_def token_safe_def escrow_safe_def empty_world_def
      empty_database_def checkpoint_of_def)

lemma monitor_run_safe:
  assumes "monitor_run env m w w'"
    and "honest_node env m lp lt le" "distinct_streams m" "monitor_safe env m lp lt le (w_db w)"
  shows "monitor_safe env m lp lt le (w_db w')"
  using assms(1)
proof induction
  case started
  then show ?case using poll_once_safe [OF assms(2,3)] assms(4) by (simp add: initial_status_db)
next
  case (ticked w1)
  then show ?case using poll_once_safe [OF assms(2,3)] by simp
qed simp

text \<open>
  C3. Checkpoint safety of the live monitor. Against a node whose log answers are right when it
  gives any, with the three streams on different checkpoint rows and safe at the start, at every
  moment of a run of \<open>Start\<close> and whatever calls fail in whichever polls, every payroll log from the
  start block up to the payroll checkpoint is recorded in \<open>chain_events\<close> and every token log up to
  the token checkpoint in \<open>chain_events\<close> and \<open>token_transfers\<close>. The escrow logs up to the escrow
  checkpoint are recorded in \<open>escrow_events\<close> provided the node answers every timestamp request;
  with a failing one they can be lost, as \<open>escrow_timestamp_failure_loses_events\<close> shows.
\<close>

theorem monitor_checkpoint_safety:
  assumes "monitor_run env m w w'"
    and "honest_node env m lp lt le" "distinct_streams m" "monitor_safe env m lp lt le (w_db w)"
  shows "monitor_safe env m lp lt le (w_db w')"
  by (rule monitor_run_safe [OF assms])

definition sample_checkpoints :: "database \<Rightarrow> u64 option list" where
  "sample_checkpoints d = map (checkpoint_of d 1) [''monthly_payroll'', ''t'', ''wtf_escrow'']"

theorem monitor_checkpoint_safety_witness:
  "\<exists>w'. monitor_run live_env sample_live empty_world w' \<and>
     sample_checkpoints (w_db w') = [Some 10, Some 10, Some 10] \<and> timestamps_answered live_env \<and>
     monitor_safe live_env sample_live [sample_log 0] [sample_transfer_log, sample_approval_log] [sample_escrow_log] (w_db w')"
proof -
  let ?w = "snd (poll_once live_env sample_live (log_initial_status live_env sample_live empty_world))"
  have "sample_checkpoints (w_db ?w) = [Some 10, Some 10, Some 10]"
    by code_simp
  moreover have "monitor_run live_env sample_live empty_world ?w" by (rule monitor_run.started)
  ultimately show ?thesis
    using monitor_checkpoint_safety [OF _ live_node live_streams live_init] live_timestamps by blast
qed

text \<open>
  C11. Confirmation depth. A poll cycle that saw the head \<open>latest\<close> moves a checkpoint, of whichever
  stream, only to a block with at least the configured number of confirmations: at or below
  \<open>latest - ConfirmationDepth\<close>, and to no block but 0 when the chain is shorter than that.
\<close>

theorem poll_respects_depth:
  assumes "rpc_latest env (w_tick w) = Inr latest"
  shows "checkpoint_of (w_db (snd (poll_once env m w))) c s = checkpoint_of (w_db w) c s \<or>
    (\<exists>b. checkpoint_of (w_db (snd (poll_once env m w))) c s = Some b \<and>
       unat b \<le> unat latest - unat (lm_depth m))"
proof -
  let ?t = "calculate_safe_target latest (lm_depth m)"
  have "unat ?t = unat latest - unat (lm_depth m)"
    by (auto simp: calculate_safe_target_def unat_sub word_less_nat_alt word_le_nat_alt)
  then show ?thesis
    using assms poll_streams_bounded [of ?t "next_tick w" env m] unfolding bounded_move_def
    by (simp add: poll_once_def wrapping_def latest_block_def rpc_def word_le_nat_alt) blast
qed

theorem poll_respects_depth_witness:
  "checkpoint_of (w_db (snd (poll_once live_env sample_live empty_world))) 1 ''t'' = checkpoint_of empty_database 1 ''t'' \<or>
    (\<exists>b. checkpoint_of (w_db (snd (poll_once live_env sample_live empty_world))) 1 ''t'' = Some b \<and>
       unat b \<le> unat (20 :: u64) - unat (6 :: u64))"
  using poll_respects_depth [of live_env empty_world 20 sample_live 1 "''t''"]
  by (simp add: live_env_def token_env_def empty_world_def sample_live_def)

text \<open>
  The token indexer's own loops are less careful: \<open>ProcessNextBatch\<close> and \<open>RunBackfill\<close> of
  \<open>TokenIndexer\<close> agree with \<open>CalculateSafeTarget\<close> except when the chain is shorter than the
  confirmation depth; there they take the unconfirmed head itself for safe, the monitor block 0.
\<close>

theorem token_safe_block_agrees:
  "token_safe_block depth latest = calculate_safe_target latest depth \<longleftrightarrow>
     \<not> (0 < latest \<and> latest < depth)"
  by (auto simp: token_safe_block_def calculate_safe_target_def word_gt_0 not_less)

text \<open>
  C14. A poll makes progress. When \<open>PollPayroll\<close> returns without error and had blocks to index, the
  checkpoint afterwards is the target, or the poll has processed exactly \<open>MaxBatchesPerPoll\<close>
  batches of \<open>BatchSize\<close> blocks from the resume block; so polls without errors catch up.
\<close>

theorem poll_payroll_progress:
  assumes "poll_payroll env m svc target w = ((n, None), w')" "target \<noteq> - 1"
    and "effective_start_block env (lm_chain m) (lm_payroll_stream m) (lm_payroll_start m) w = (Inr lo, w1)"
    and "0 < lo" "lo \<le> target" "0 < lm_limit m"
  shows "\<exists>c. checkpoint_of (w_db w') (lm_chain m) (lm_payroll_stream m) = Some c \<and>
    (c = target \<or> unat c + 1 = unat lo + unat (lm_limit m) * unat (lm_batch m))"
proof -
  have "poll_loop env (poll_payroll_chunk env m svc) (lm_batch m) (lm_limit m) target lo 0 0 w1 = ((n, None), w')"
    using assms by (simp add: poll_payroll_def poll_stream_def wrapping_def split: if_splits)
  from payroll_poll.poll_loop_progress [OF this assms(2) TrueI] show ?thesis
    using assms(4-6) by (simp add: word_less_nat_alt)
qed

theorem poll_payroll_progress_witness:
  "\<exists>n w' c. poll_payroll live_env sample_live (sample_abi, default_retry_policy False) 14 empty_world = ((n, None), w') \<and>
     checkpoint_of (w_db w') 1 ''monthly_payroll'' = Some c \<and> (c = 14 \<or> unat c + 1 = 8 + 1 * 3)"
proof -
  let ?y = "poll_payroll live_env sample_live (sample_abi, default_retry_policy False) 14 empty_world"
  have "snd (fst ?y) = None" by code_simp
  then obtain n w' where run: "?y = ((n, None), w')" by (metis prod.collapse)
  have start: "effective_start_block live_env (lm_chain sample_live) (lm_payroll_stream sample_live)
      (lm_payroll_start sample_live) empty_world = (Inr 8, next_tick empty_world)"
    by (simp add: effective_start_block_def get_checkpoint_def query_sql_def go_unfold live_env_def token_env_def
        sample_live_def empty_world_def empty_database_def)
  show ?thesis
    using poll_payroll_progress [OF run _ start] run by (simp add: sample_live_def)
qed

end
