(* ===== verification/Request_Validation.thy ===== *)
theory Request_Validation
  imports Go_Text
begin

text \<open>
  The checks of request parameters: \<open>internal/api/validation\<close>. A query is the function
  \<open>url.Values.Get\<close> (the first value of a key, the empty text for an absent one). \<open>int\<close> is the
  64-bit integer of the platform; \<open>time.Time\<close> is the instant in nanoseconds since the Unix epoch.
  \<open>time.Parse\<close> is modelled for the elements of the layouts the code uses.
  \<open>common.IsHexAddress\<close>, \<open>HexToAddress\<close> and \<open>HexToHash\<close> are parameters (record \<open>hex_lib\<close>).
\<close>

type_synonym query = "string \<Rightarrow> string"

definition upper_char :: "char \<Rightarrow> char" where
  "upper_char c = (if 97 \<le> (of_char c :: nat) \<and> (of_char c :: nat) \<le> 122
     then char_of ((of_char c :: nat) - 32) else c)"

definition to_upper :: "string \<Rightarrow> string" where
  "to_upper s = map upper_char s"

section \<open>Time\<close>

text \<open>Days from the epoch to a date of the proleptic Gregorian calendar.\<close>

definition is_leap :: "int \<Rightarrow> bool" where
  "is_leap y \<longleftrightarrow> 4 dvd y \<and> (\<not> 100 dvd y \<or> 400 dvd y)"

definition days_in :: "int \<Rightarrow> int \<Rightarrow> int" where
  "days_in m y = (if m = 2 then (if is_leap y then 29 else 28)
     else if m \<in> {4, 6, 9, 11} then 30 else 31)"

definition year_start :: "int \<Rightarrow> int" where
  "year_start y = 365 * (y - 1) + (y - 1) div 4 - (y - 1) div 100 + (y - 1) div 400 - 719162"

definition date_day :: "int \<Rightarrow> int \<Rightarrow> int \<Rightarrow> int" where
  "date_day y m d = year_start y + sum_list (map (\<lambda>k. days_in k y) [1..m - 1]) + d - 1"

definition nanos :: int where "nanos = 1000000000"

text \<open>The elements of a layout, and what they have read so far; \<open>tp_zone\<close> is the offset in seconds.\<close>

datatype layout_chunk = Year | Month | Day | Hour | Minute | Second | FracSecond | ZoneColon | Literal char

record time_parts =
  tp_year :: int
  tp_month :: int
  tp_day :: int
  tp_hour :: int
  tp_min :: int
  tp_sec :: int
  tp_nsec :: int
  tp_zone :: int

definition no_parts :: time_parts where
  "no_parts = \<lparr>tp_year = 0, tp_month = 1, tp_day = 1, tp_hour = 0, tp_min = 0, tp_sec = 0,
     tp_nsec = 0, tp_zone = 0\<rparr>"

text \<open>\<open>getnum\<close>: two digits, or one when \<open>fixed\<close> is false.\<close>

definition getnum :: "bool \<Rightarrow> string \<Rightarrow> (int \<times> string) option" where
  "getnum fixed s = (case s of
       [] \<Rightarrow> None
     | c # s1 \<Rightarrow>
         if \<not> is_digit c then None
         else (case s1 of
             d # s2 \<Rightarrow> if is_digit d then Some (int (digit_val c * 10 + digit_val d), s2)
                       else if fixed then None else Some (int (digit_val c), s1)
           | [] \<Rightarrow> if fixed then None else Some (int (digit_val c), s1)))"

definition getnum_below :: "bool \<Rightarrow> int \<Rightarrow> int \<Rightarrow> string \<Rightarrow> (int \<times> string) option" where
  "getnum_below fixed lo hi s = (case getnum fixed s of
       None \<Rightarrow> None | Some (n, r) \<Rightarrow> if lo \<le> n \<and> n < hi then Some (n, r) else None)"

text \<open>A fraction of any length after \<open>.\<close> or \<open>,\<close>; nine digits count.\<close>

definition read_fraction :: "string \<Rightarrow> int \<times> string" where
  "read_fraction s = (case s of
       c # d # r \<Rightarrow>
         if (c = CHR ''.'' \<or> c = CHR '','') \<and> is_digit d then
           let ds = takeWhile is_digit (d # r); n = take 9 ds in
             (foldl (\<lambda>a c. a * 10 + int (digit_val c)) 0 n * 10 ^ (9 - length n),
              dropWhile is_digit (d # r))
         else (0, s)
     | _ \<Rightarrow> (0, s))"

definition read_zone :: "string \<Rightarrow> (int \<times> string) option" where
  "read_zone s = (case s of
       CHR ''Z'' # r \<Rightarrow> Some (0, r)
     | sg # h1 # h2 # c # m1 # m2 # r \<Rightarrow>
         if c \<noteq> CHR '':'' then None
         else (case (getnum True [h1, h2], getnum True [m1, m2]) of
             (Some (h, _), Some (m, _)) \<Rightarrow>
               if 24 < h \<or> 60 < m then None
               else if sg = CHR ''+'' then Some ((h * 60 + m) * 60, r)
               else if sg = CHR ''-'' then Some (- ((h * 60 + m) * 60), r)
               else None
           | _ \<Rightarrow> None)
     | _ \<Rightarrow> None)"

definition read_chunk :: "layout_chunk \<Rightarrow> string \<Rightarrow> time_parts \<Rightarrow> (string \<times> time_parts) option" where
  "read_chunk k s p = (case k of
       Year \<Rightarrow> if 4 \<le> length s \<and> list_all is_digit (take 4 s)
               then Some (drop 4 s, p\<lparr>tp_year := int (undec (take 4 s))\<rparr>) else None
     | Month \<Rightarrow> map_option (\<lambda>(n, r). (r, p\<lparr>tp_month := n\<rparr>)) (getnum_below True 1 13 s)
     | Day \<Rightarrow> map_option (\<lambda>(n, r). (r, p\<lparr>tp_day := n\<rparr>)) (getnum True s)
     | Hour \<Rightarrow> map_option (\<lambda>(n, r). (r, p\<lparr>tp_hour := n\<rparr>)) (getnum_below False 0 24 s)
     | Minute \<Rightarrow> map_option (\<lambda>(n, r). (r, p\<lparr>tp_min := n\<rparr>)) (getnum_below True 0 60 s)
     | Second \<Rightarrow> map_option (\<lambda>(n, r). case read_fraction r of (f, r') \<Rightarrow>
                    (r', p\<lparr>tp_sec := n, tp_nsec := f\<rparr>)) (getnum_below True 0 60 s)
     | FracSecond \<Rightarrow> Some (s, p)
     | ZoneColon \<Rightarrow> map_option (\<lambda>(z, r). (r, p\<lparr>tp_zone := z\<rparr>)) (read_zone s)
     | Literal c \<Rightarrow> (case s of d # r \<Rightarrow> if c = d then Some (r, p) else None | [] \<Rightarrow> None))"

fun read_chunks :: "layout_chunk list \<Rightarrow> string \<Rightarrow> time_parts \<Rightarrow> time_parts option" where
  "read_chunks [] s p = (if s = [] then Some p else None)"
| "read_chunks (k # ks) s p =
     (case read_chunk k s p of None \<Rightarrow> None | Some (s', p') \<Rightarrow> read_chunks ks s' p')"

definition instant :: "time_parts \<Rightarrow> int" where
  "instant p = ((((date_day (tp_year p) (tp_month p) (tp_day p) * 24 + tp_hour p) * 60 + tp_min p) * 60
     + tp_sec p) - tp_zone p) * nanos + tp_nsec p"

definition time_parse :: "layout_chunk list \<Rightarrow> string \<Rightarrow> int option" where
  "time_parse layout s = (case read_chunks layout s no_parts of
       None \<Rightarrow> None
     | Some p \<Rightarrow> if tp_day p < 1 \<or> days_in (tp_month p) (tp_year p) < tp_day p then None
                else Some (instant p))"

definition date_layout :: "layout_chunk list" where
  "date_layout = [Year, Literal CHR ''-'', Month, Literal CHR ''-'', Day]"

definition clock_layout :: "layout_chunk list" where
  "clock_layout = [Literal CHR ''T'', Hour, Literal CHR '':'', Minute, Literal CHR '':'', Second]"

text \<open>
  \<open>time.RFC3339Nano\<close>, \<open>time.RFC3339\<close> and the two formats of \<open>parseTime\<close>. A fraction is read with
  the seconds, whether the layout has one or not.
\<close>

definition time_layouts :: "layout_chunk list list" where
  "time_layouts =
     [date_layout @ clock_layout @ [FracSecond, ZoneColon],
      date_layout @ clock_layout @ [ZoneColon],
      date_layout @ clock_layout,
      date_layout]"

fun first_parse :: "layout_chunk list list \<Rightarrow> string \<Rightarrow> int option" where
  "first_parse [] s = None"
| "first_parse (l # ls) s = (case time_parse l s of Some t \<Rightarrow> Some t | None \<Rightarrow> first_parse ls s)"

definition parse_time :: "string \<Rightarrow> goerror + int" where
  "parse_time s = (case first_parse time_layouts s of
       Some t \<Rightarrow> Inr t | None \<Rightarrow> Inl (new_error ''unrecognized format''))"

section \<open>Addresses and hashes\<close>

record hex_lib =
  hl_is_address :: "string \<Rightarrow> bool"
  hl_address :: "string \<Rightarrow> address"
  hl_hash :: "string \<Rightarrow> hash"

definition has_0x :: "string \<Rightarrow> bool" where
  "has_0x s \<longleftrightarrow> prefix ''0x'' s \<or> prefix ''0X'' s"

definition validate_address :: "hex_lib \<Rightarrow> string \<Rightarrow> goerror + address" where
  "validate_address lib s =
     (let t = trim_space s in
      if t = [] then Inl (new_error ''address is empty'')
      else if \<not> has_0x t then Inl (new_error ''address must start with 0x'')
      else if length t \<noteq> 42 then
        Inl (new_error (''address must be 42 characters long, got '' @ dec_nat (length t)))
      else if \<not> hl_is_address lib t then Inl (new_error ''invalid hexadecimal address format'')
      else Inr (hl_address lib t))"

text \<open>The text of the error of \<open>hex.DecodeString\<close> also shows the byte.\<close>

definition validate_tx_hash :: "hex_lib \<Rightarrow> string \<Rightarrow> goerror + hash" where
  "validate_tx_hash lib s =
     (let t = trim_space s in
      if t = [] then Inl (new_error ''transaction hash is empty'')
      else if \<not> has_0x t then Inl (new_error ''transaction hash must start with 0x prefix'')
      else if length t \<noteq> 66 then
        Inl (new_error (''transaction hash must be 66 characters long, got '' @ dec_nat (length t)))
      else (case hex_decode (drop 2 t) of
          None \<Rightarrow> Inl (wrap_error ''transaction hash contains invalid hex characters''
                    (new_error ''encoding/hex: invalid byte''))
        | Some _ \<Rightarrow> Inr (hl_hash lib t)))"

section \<open>Pagination\<close>

definition default_page_size :: int where "default_page_size = 20"
definition max_page_size :: int where "max_page_size = 100"

record pagination_params =
  pg_page :: int
  pg_size :: int
  pg_offset :: int

text \<open>The value of an expression on \<open>int\<close>.\<close>

definition wrap_int :: "int \<Rightarrow> int" where
  "wrap_int i = sint (word_of_int i :: u64)"

definition parse_page :: "query \<Rightarrow> goerror + int" where
  "parse_page q =
     (if q ''page'' = [] then Inr 1
      else (case parse_int 10 (q ''page'') of
          Some p \<Rightarrow> if p < 1
            then Inl (new_error ''page must be an integer greater than or equal to 1'') else Inr p
        | None \<Rightarrow> Inl (new_error ''page must be an integer greater than or equal to 1'')))"

definition parse_page_size :: "query \<Rightarrow> goerror + int" where
  "parse_page_size q =
     (if q ''page_size'' = [] then Inr default_page_size
      else (case parse_int 10 (q ''page_size'') of
          Some ps \<Rightarrow> if ps < 1
              then Inl (new_error ''page_size must be an integer greater than or equal to 1'')
            else if max_page_size < ps
              then Inl (new_error (''page_size exceeds maximum allowed of '' @ dec_int max_page_size))
            else Inr ps
        | None \<Rightarrow> Inl (new_error ''page_size must be an integer greater than or equal to 1'')))"

definition parse_pagination :: "query \<Rightarrow> goerror + pagination_params" where
  "parse_pagination q = (case parse_page q of
       Inl e \<Rightarrow> Inl e
     | Inr p \<Rightarrow> (case parse_page_size q of
           Inl e \<Rightarrow> Inl e
         | Inr ps \<Rightarrow> Inr \<lparr>pg_page = p, pg_size = ps, pg_offset = wrap_int ((p - 1) * ps)\<rparr>))"

section \<open>Ranges and sorting\<close>

record block_range_params =
  br_from :: "u64 option"
  br_to :: "u64 option"

definition parse_block :: "query \<Rightarrow> string \<Rightarrow> goerror + u64 option" where
  "parse_block q key =
     (if q key = [] then Inr None
      else (case parse_uint 10 (q key) of
          Some n \<Rightarrow> Inr (Some (of_nat n))
        | None \<Rightarrow> Inl (new_error (''invalid '' @ key @ '': must be a non-negative integer''))))"

definition parse_block_range :: "query \<Rightarrow> goerror + block_range_params" where
  "parse_block_range q = (case parse_block q ''from_block'' of
       Inl e \<Rightarrow> Inl e
     | Inr f \<Rightarrow> (case parse_block q ''to_block'' of
           Inl e \<Rightarrow> Inl e
         | Inr t \<Rightarrow> (case (f, t) of
               (Some a, Some b) \<Rightarrow> if b < a
                   then Inl (new_error (''from_block ('' @ dec_u64 a @
                          '') must be less than or equal to to_block ('' @ dec_u64 b @ '')''))
                   else Inr \<lparr>br_from = f, br_to = t\<rparr>
             | _ \<Rightarrow> Inr \<lparr>br_from = f, br_to = t\<rparr>)))"

record date_range_params =
  dr_from :: "int option"
  dr_to :: "int option"

definition parse_date :: "query \<Rightarrow> string \<Rightarrow> goerror + int option" where
  "parse_date q key =
     (if q key = [] then Inr None
      else (case parse_time (q key) of
          Inr t \<Rightarrow> Inr (Some t)
        | Inl _ \<Rightarrow> Inl (new_error (''invalid '' @ key @
            '' format: must be ISO8601/RFC3339 (e.g. 2026-09-16T10:00:00Z)''))))"

definition parse_date_range :: "query \<Rightarrow> goerror + date_range_params" where
  "parse_date_range q = (case parse_date q ''from_date'' of
       Inl e \<Rightarrow> Inl e
     | Inr f \<Rightarrow> (case parse_date q ''to_date'' of
           Inl e \<Rightarrow> Inl e
         | Inr t \<Rightarrow> (case (f, t) of
               (Some a, Some b) \<Rightarrow> if b < a
                   then Inl (new_error ''from_date must be before or equal to to_date'')
                   else Inr \<lparr>dr_from = f, dr_to = t\<rparr>
             | _ \<Rightarrow> Inr \<lparr>dr_from = f, dr_to = t\<rparr>)))"

record sort_params =
  so_by :: string
  so_direction :: string

text \<open>The first of the three parameters that is not blank, in upper case.\<close>

fun first_nonblank :: "query \<Rightarrow> string list \<Rightarrow> string" where
  "first_nonblank q [] = []"
| "first_nonblank q (k # ks) =
     (let v = to_upper (trim_space (q k)) in if v = [] then first_nonblank q ks else v)"

definition parse_sort_field :: "query \<Rightarrow> (string \<times> string) list \<Rightarrow> string \<Rightarrow> goerror + string" where
  "parse_sort_field q cols default_col =
     (let v = to_lower (trim_space (q ''sort'')) in
      if v \<noteq> [] then
        (case map_of cols v of
           None \<Rightarrow> Inl (new_error (''invalid sort field: '' @ v))
         | Some c \<Rightarrow> Inr c)
      else (case map_of cols default_col of Some c \<Rightarrow> Inr c | None \<Rightarrow> Inr default_col))"

definition parse_sort ::
  "query \<Rightarrow> (string \<times> string) list \<Rightarrow> string \<Rightarrow> string \<Rightarrow> goerror + sort_params" where
  "parse_sort q cols default_col default_dir =
     (case parse_sort_field q cols default_col of
        Inl e \<Rightarrow> Inl e
      | Inr c \<Rightarrow>
          (let d = first_nonblank q [''order'', ''sort_dir'', ''sort_direction''];
               dir = (if d = [] then default_dir else d) in
           if dir \<noteq> ''ASC'' \<and> dir \<noteq> ''DESC''
           then Inl (new_error (''invalid sort direction: must be 'asc' or 'desc'' @ [CHR 0x27]))
           else Inr \<lparr>so_by = c, so_direction = dir\<rparr>))"

end
