(* ===== verification/Configuration.thy ===== *)
theory Configuration
  imports Retry Chain Request_Validation
begin

text \<open>
  \<open>internal/config/config.go\<close> and the loading and validation of the token ABI in
  \<open>internal/abi/erc20.go\<close>. \<open>Load\<close> reads the environment (\<open>os.Getenv\<close> is a function from names to
  texts, empty when unset) and either fails with the first error or returns the configuration.
  \<open>time.ParseDuration\<close> is modelled with exact products where Go multiplies in \<open>float64\<close>;
  \<open>strconv.ParseFloat\<close> is a parameter that gives the rational value of a finite number. Reading
  files and go-ethereum's \<open>abi.JSON\<close> are parameters (record \<open>abi_lib\<close>); a parsed event is its id, its
  inputs and the unpacking of its non-indexed inputs.
\<close>

section \<open>Numbers and durations\<close>

definition quote :: "string \<Rightarrow> string" where
  "quote s = CHR 0x22 # s @ [CHR 0x22]"

text \<open>\<open>*strconv.NumError\<close>; the quoting of unprintable bytes is not modelled.\<close>

definition num_error :: "string \<Rightarrow> string \<Rightarrow> bool \<Rightarrow> goerror" where
  "num_error f s syn = new_error (''strconv.'' @ f @ '': parsing '' @ quote s @
     (if syn then '': invalid syntax'' else '': value out of range''))"

definition go_parse_int :: "string \<Rightarrow> goerror + int" where
  "go_parse_int s = (case parse_int 10 s of
       Some i \<Rightarrow> Inr i | None \<Rightarrow> Inl (num_error ''ParseInt'' s (parse_big 10 s = None)))"

definition go_parse_uint :: "string \<Rightarrow> goerror + u64" where
  "go_parse_uint s = (case parse_uint 10 s of
       Some n \<Rightarrow> Inr (of_nat n) | None \<Rightarrow> Inl (num_error ''ParseUint'' s (digits_value 10 s = None)))"

definition duration_units :: "(string \<times> int) list" where
  "duration_units = [(''ns'', 1), (''us'', 1000), ([CHR 0xC2, CHR 0xB5, CHR ''s''], 1000),
     ([CHR 0xCE, CHR 0xBC, CHR ''s''], 1000), (''ms'', 1000000), (''s'', 1000000000),
     (''m'', 60000000000), (''h'', 3600000000000)]"

definition leading_int :: "string \<Rightarrow> int" where
  "leading_int ds = foldl (\<lambda>a c. a * 10 + int (digit_val c)) 0 ds"

text \<open>\<open>leadingFraction\<close>: digits beyond the range of \<open>int64\<close> are read and ignored.\<close>

fun leading_fraction :: "string \<Rightarrow> int \<Rightarrow> int \<Rightarrow> int \<times> int" where
  "leading_fraction [] x scale = (x, scale)"
| "leading_fraction (c # cs) x scale =
     (if 922337203685477580 < x \<or> 2 ^ 63 < x * 10 + int (digit_val c) then (x, scale)
      else leading_fraction cs (x * 10 + int (digit_val c)) (scale * 10))"

definition unit_char :: "char \<Rightarrow> bool" where
  "unit_char c \<longleftrightarrow> c \<noteq> CHR ''.'' \<and> \<not> is_digit c"

text \<open>One number with its unit: the value in nanoseconds and the rest of the text.\<close>

definition duration_part :: "string \<Rightarrow> (int \<times> string) option" where
  "duration_part s =
     (let whole = takeWhile is_digit s; s1 = dropWhile is_digit s;
          dot = (s1 \<noteq> [] \<and> hd s1 = CHR ''.'');
          frac = (if dot then takeWhile is_digit (tl s1) else []);
          s2 = (if dot then dropWhile is_digit (tl s1) else s1);
          u = takeWhile unit_char s2 in
      if whole = [] \<and> frac = [] then None
      else (case map_of duration_units u of
          None \<Rightarrow> None
        | Some unit \<Rightarrow>
            (case leading_fraction frac 0 1 of
               (f, scale) \<Rightarrow> Some (leading_int whole * unit + f * unit div scale, dropWhile unit_char s2))))"

lemma map_of_unit_nonempty: "map_of duration_units u = Some n \<Longrightarrow> u \<noteq> []"
  by (auto simp: duration_units_def)

lemma duration_part_shorter: "duration_part s = Some (v, r) \<Longrightarrow> length r < length s"
proof -
  assume part: "duration_part s = Some (v, r)"
  let ?s1 = "dropWhile is_digit s"
  let ?dot = "?s1 \<noteq> [] \<and> hd ?s1 = CHR ''.''"
  let ?s2 = "if ?dot then dropWhile is_digit (tl ?s1) else ?s1"
  from part have r: "r = dropWhile unit_char ?s2" and "takeWhile unit_char ?s2 \<noteq> []"
    by (auto simp: duration_part_def Let_def map_of_unit_nonempty split: if_splits option.splits prod.splits
        dest: map_of_unit_nonempty)
  then have "length r < length ?s2"
    by (metis append_Nil length_append length_greater_0_conv less_add_same_cancel2 takeWhile_dropWhile_id)
  also have "length ?s2 \<le> length ?s1"
    using length_dropWhile_le [of is_digit "tl ?s1"] by (auto simp del: length_dropWhile_le)
  also have "\<dots> \<le> length s" by (rule length_dropWhile_le)
  finally show ?thesis .
qed

function duration_sum :: "string \<Rightarrow> int \<Rightarrow> int option" where
  "duration_sum s acc =
     (if s = [] then Some acc
      else (case duration_part s of None \<Rightarrow> None | Some (v, r) \<Rightarrow> duration_sum r (acc + v)))"
  by pat_completeness auto
termination
  by (relation "measure (\<lambda>(s, _). length s)") (auto dest: duration_part_shorter)

text \<open>\<open>time.ParseDuration\<close>; an overflow in any part makes the sum too large.\<close>

definition parse_duration :: "string \<Rightarrow> int option" where
  "parse_duration s0 = (case split_sign s0 of (neg, s) \<Rightarrow>
     if s = ''0'' then Some 0
     else if s = [] then None
     else (case duration_sum s 0 of
         None \<Rightarrow> None
       | Some d \<Rightarrow> if neg then (if d \<le> 2 ^ 63 then Some (- d) else None)
                  else if d < 2 ^ 63 then Some d else None))"

section \<open>The configuration\<close>

datatype abi_kind = AddressTy | UintTy | OtherTy

record abi_input =
  in_indexed :: bool
  in_kind :: abi_kind

record abi_event =
  ae_id :: hash
  ae_inputs :: "abi_input list"
  ae_unpack :: "bytes \<Rightarrow> goerror + abi_value list"

type_synonym token_abi = "string \<rightharpoonup> abi_event"

record abi_lib =
  al_read_file :: "string \<Rightarrow> goerror + string"
  al_json :: "string \<Rightarrow> goerror + token_abi"

record config =
  cfg_chain_id :: int
  cfg_rpc_url :: string
  cfg_payroll_contract :: string
  cfg_token_address :: string
  cfg_token_abi_path :: string
  cfg_token_abi_json :: string
  cfg_token_start_block :: u64
  cfg_token_stream_id :: string
  cfg_start_block :: u64
  cfg_backfill_to_block :: "u64 option"
  cfg_payroll_stream_id :: string
  cfg_confirmation_depth :: u64
  cfg_block_batch_size :: u64
  cfg_database_url :: string
  cfg_polling_interval :: int
  cfg_live_monitor_enabled :: bool
  cfg_live_poll_interval :: int
  cfg_deployment_environment :: string
  cfg_api_host :: string
  cfg_api_port :: int
  cfg_cors_allowed_origins :: string
  cfg_explorer_template :: string
  cfg_operator_api_key :: string
  cfg_rpc_max_retries :: int
  cfg_rpc_initial_backoff :: int
  cfg_rpc_max_backoff :: int
  cfg_rpc_backoff_factor :: rat
  cfg_reconciliation_enabled :: bool
  cfg_reconciliation_block_window :: u64
  cfg_reconciliation_interval :: int
  cfg_reconciliation_stream_id :: string
  cfg_reconciliation_salary_claim_stream_id :: string
  cfg_reconciliation_token_stream_id :: string
  cfg_reconciliation_token_balance_stream_id :: string
  cfg_redis_url :: string
  cfg_webhook_signing_key :: string
  cfg_escrow_contract :: string
  cfg_wtf_escrow_contract :: string
  cfg_escrow_start_block :: u64
  cfg_escrow_stream_id :: string
  cfg_parsed_token_abi :: "token_abi option"

section \<open>Loading\<close>

definition and_then :: "goerror + 'a \<Rightarrow> ('a \<Rightarrow> goerror + 'b) \<Rightarrow> goerror + 'b" where
  "and_then m k = (case m of Inl e \<Rightarrow> Inl e | Inr x \<Rightarrow> k x)"

definition wrap_sum :: "string \<Rightarrow> goerror + 'a \<Rightarrow> goerror + 'a" where
  "wrap_sum s m = (case m of Inl e \<Rightarrow> Inl (wrap_error s e) | Inr x \<Rightarrow> Inr x)"

text \<open>The first of the variables that is set.\<close>

fun first_set :: "query \<Rightarrow> string list \<Rightarrow> string" where
  "first_set getenv [] = []"
| "first_set getenv (k # ks) = (if getenv k = [] then first_set getenv ks else getenv k)"

definition get_required :: "query \<Rightarrow> string \<Rightarrow> goerror + string" where
  "get_required getenv key =
     (if getenv key = [] then Inl (new_error (''missing required environment variable: '' @ key))
      else Inr (getenv key))"

definition get_int64 :: "query \<Rightarrow> string \<Rightarrow> goerror + int" where
  "get_int64 getenv key = and_then (get_required getenv key) (\<lambda>v.
     wrap_sum (''invalid '' @ key) (go_parse_int v))"

definition get_uint64 :: "query \<Rightarrow> string \<Rightarrow> goerror + u64" where
  "get_uint64 getenv key = and_then (get_required getenv key) (\<lambda>v.
     wrap_sum (''invalid '' @ key) (go_parse_uint v))"

definition load_depth :: "query \<Rightarrow> goerror + u64" where
  "load_depth getenv =
     (let v = first_set getenv [''CONFIRMATIONS'', ''CONFIRMATION_DEPTH''] in
      if v = [] then
        Inl (new_error ''missing required environment variable: CONFIRMATION_DEPTH or CONFIRMATIONS'')
      else wrap_sum ''invalid CONFIRMATIONS / CONFIRMATION_DEPTH'' (go_parse_uint v))"

definition load_polling_interval :: "query \<Rightarrow> goerror + int" where
  "load_polling_interval getenv =
     (let v = first_set getenv [''LIVE_POLL_INTERVAL'', ''POLLING_INTERVAL''] in
      if v = [] then
        Inl (new_error ''missing required environment variable: POLLING_INTERVAL or LIVE_POLL_INTERVAL'')
      else (case parse_duration v of
          Some d \<Rightarrow> Inr d
        | None \<Rightarrow> Inl (wrap_error ''invalid POLLING_INTERVAL''
                    (new_error (''time: invalid duration '' @ quote v)))))"

text \<open>A value that parses and is positive, or the default.\<close>

definition positive_or :: "'a :: {zero, ord} \<Rightarrow> (string \<Rightarrow> 'a option) \<Rightarrow> string \<Rightarrow> 'a" where
  "positive_or d parse v = (case parse v of Some x \<Rightarrow> if 0 < x then x else d | None \<Rightarrow> d)"

definition load_live_poll_interval :: "query \<Rightarrow> int \<Rightarrow> int" where
  "load_live_poll_interval getenv polling =
     (if getenv ''LIVE_POLL_INTERVAL'' = [] then polling
      else positive_or polling parse_duration (getenv ''LIVE_POLL_INTERVAL''))"

definition load_flag :: "query \<Rightarrow> string \<Rightarrow> bool" where
  "load_flag getenv key \<longleftrightarrow>
     (let v = getenv key in v \<noteq> [] \<and> (equal_fold v ''true'' \<or> v = ''1''))"

definition load_batch_size :: "query \<Rightarrow> goerror + u64" where
  "load_batch_size getenv =
     (let v = first_set getenv [''INDEXER_BATCH_SIZE'', ''BLOCK_BATCH_SIZE''] in
      if v = [] then Inr 50
      else (case go_parse_uint v of
          Inr n \<Rightarrow> if n = 0 then Inl (new_error ''invalid BLOCK_BATCH_SIZE: must be a positive integer'')
                  else Inr n
        | Inl _ \<Rightarrow> Inl (new_error ''invalid BLOCK_BATCH_SIZE: must be a positive integer'')))"

definition load_first :: "query \<Rightarrow> string list \<Rightarrow> string \<Rightarrow> goerror + string" where
  "load_first getenv keys named =
     (let v = first_set getenv keys in
      if v = [] then Inl (new_error (''missing required environment variable: '' @ named)) else Inr v)"

definition load_rpc_url :: "query \<Rightarrow> goerror + string" where
  "load_rpc_url getenv = load_first getenv [''RPC_URL'', ''SEPOLIA_RPC_URL''] ''RPC_URL or SEPOLIA_RPC_URL''"

definition load_deployment :: "query \<Rightarrow> goerror + string" where
  "load_deployment getenv =
     load_first getenv [''DEPLOYMENT_ENVIRONMENT'', ''APP_ENV'', ''ENVIRONMENT'']
       ''DEPLOYMENT_ENVIRONMENT or APP_ENV''"

text \<open>An optional block number.\<close>

definition load_block :: "query \<Rightarrow> string \<Rightarrow> goerror + u64 option" where
  "load_block getenv key =
     (if getenv key = [] then Inr None
      else and_then (wrap_sum (''invalid '' @ key) (go_parse_uint (getenv key))) (\<lambda>n. Inr (Some n)))"

definition or_default :: "string \<Rightarrow> string \<Rightarrow> string" where
  "or_default v d = (if v = [] then d else v)"

definition payroll_stream_id :: "string \<Rightarrow> string" where
  "payroll_stream_id contract =
     (if contract = [] then ''monthly_payroll'' else ''monthly_payroll_'' @ to_lower contract)"

definition load_payroll_stream :: "query \<Rightarrow> string" where
  "load_payroll_stream getenv =
     (let v = getenv ''PAYROLL_STREAM_ID''; contract = getenv ''PAYROLL_CONTRACT_ADDRESS'' in
      if (v = [] \<or> v = ''monthly_payroll'') \<and> contract \<noteq> [] then payroll_stream_id contract
      else or_default v ''monthly_payroll'')"

definition load_token_stream :: "query \<Rightarrow> string" where
  "load_token_stream getenv =
     (let v = getenv ''TOKEN_STREAM_ID''; token = getenv ''TOKEN_ADDRESS'' in
      if (v = [] \<or> v = ''erc20_transfers'') \<and> token \<noteq> [] then ''erc20_transfers_'' @ to_lower token
      else or_default v ''erc20_transfers'')"

text \<open>
  A setting with a second name: when the first is set, even to something invalid, the second is not
  looked at.
\<close>

definition load_setting :: "query \<Rightarrow> string \<Rightarrow> string \<Rightarrow> 'a :: {zero, ord} \<Rightarrow> (string \<Rightarrow> 'a option) \<Rightarrow> 'a" where
  "load_setting getenv key1 key2 d parse =
     (let v = first_set getenv [key1, key2] in if v = [] then d else positive_or d parse v)"

definition load_api_port :: "query \<Rightarrow> int" where
  "load_api_port getenv = load_setting getenv ''API_PORT'' ''PORT'' 8080 (parse_int 10)"

definition load_max_retries :: "query \<Rightarrow> int" where
  "load_max_retries getenv = load_setting getenv ''RPC_MAX_RETRIES'' ''MAX_RETRIES'' 5 (parse_int 10)"

definition load_initial_backoff :: "query \<Rightarrow> int" where
  "load_initial_backoff getenv =
     load_setting getenv ''RPC_INITIAL_BACKOFF'' ''INITIAL_BACKOFF'' second parse_duration"

definition load_max_backoff :: "query \<Rightarrow> int" where
  "load_max_backoff getenv =
     load_setting getenv ''RPC_MAX_BACKOFF'' ''MAX_BACKOFF'' (30 * second) parse_duration"

definition load_backoff_factor :: "(string \<Rightarrow> rat option) \<Rightarrow> query \<Rightarrow> rat" where
  "load_backoff_factor parse_float getenv =
     (if getenv ''RPC_BACKOFF_FACTOR'' = [] then 2
      else (case parse_float (getenv ''RPC_BACKOFF_FACTOR'') of
          Some f \<Rightarrow> if 1 < f then f else 2 | None \<Rightarrow> 2))"

definition load_window :: "query \<Rightarrow> u64" where
  "load_window getenv =
     (if getenv ''RECONCILIATION_BLOCK_WINDOW'' = [] then 500
      else positive_or 500 (\<lambda>v. map_option of_nat (parse_uint 10 v))
             (getenv ''RECONCILIATION_BLOCK_WINDOW''))"

definition load_reconciliation_interval :: "query \<Rightarrow> int \<Rightarrow> int" where
  "load_reconciliation_interval getenv live =
     (if getenv ''RECONCILIATION_INTERVAL'' \<noteq> []
      then positive_or (30 * second) parse_duration (getenv ''RECONCILIATION_INTERVAL'')
      else if 0 < live then live else 30 * second)"

text \<open>The cursor of a token reconciler, scoped by the token address.\<close>

definition load_token_cursor :: "query \<Rightarrow> string \<Rightarrow> string \<Rightarrow> string" where
  "load_token_cursor getenv key name =
     (let v = getenv key; token = getenv ''TOKEN_ADDRESS'' in
      if v \<noteq> [] then v
      else if token \<noteq> [] then name @ ''_'' @ to_lower token else name)"

definition dummy_key :: string where
  "dummy_key = ''whsec_test_dummy_key''"

definition load_signing_key :: "query \<Rightarrow> string \<Rightarrow> goerror + string" where
  "load_signing_key getenv deployment =
     (let v = getenv ''ALCHEMY_WEBHOOK_SIGNING_KEY'' in
      if \<not> equal_fold deployment ''development'' then
        (if v = [] \<or> v = dummy_key
         then Inl (new_error ''ALCHEMY_WEBHOOK_SIGNING_KEY is required in non-development environments'')
         else Inr v)
      else Inr (or_default v dummy_key))"

definition load :: "(string \<Rightarrow> rat option) \<Rightarrow> query \<Rightarrow> goerror + config" where
  "load parse_float getenv =
     and_then (get_int64 getenv ''CHAIN_ID'') (\<lambda>chain.
     and_then (get_uint64 getenv ''START_BLOCK'') (\<lambda>start.
     and_then (load_depth getenv) (\<lambda>depth.
     and_then (load_polling_interval getenv) (\<lambda>polling.
     and_then (load_batch_size getenv) (\<lambda>batch.
     and_then (load_rpc_url getenv) (\<lambda>rpc.
     and_then (get_required getenv ''DATABASE_URL'') (\<lambda>db.
     and_then (load_deployment getenv) (\<lambda>deployment.
     and_then (load_block getenv ''BACKFILL_TO_BLOCK'') (\<lambda>backfill.
     and_then (load_block getenv ''TOKEN_START_BLOCK'') (\<lambda>token_start.
     and_then (load_signing_key getenv deployment) (\<lambda>key.
     and_then (load_block getenv ''ESCROW_START_BLOCK'') (\<lambda>escrow_start.
     let live = load_live_poll_interval getenv polling;
         escrow = first_set getenv [''ESCROW_CONTRACT_ADDRESS'', ''WTF_ESCROW_CONTRACT_ADDRESS''] in
     Inr \<lparr>cfg_chain_id = chain, cfg_rpc_url = rpc,
       cfg_payroll_contract = getenv ''PAYROLL_CONTRACT_ADDRESS'',
       cfg_token_address = getenv ''TOKEN_ADDRESS'', cfg_token_abi_path = getenv ''TOKEN_ABI_PATH'',
       cfg_token_abi_json = getenv ''TOKEN_ABI_JSON'',
       cfg_token_start_block = (case token_start of None \<Rightarrow> start | Some b \<Rightarrow> b),
       cfg_token_stream_id = load_token_stream getenv, cfg_start_block = start,
       cfg_backfill_to_block = backfill, cfg_payroll_stream_id = load_payroll_stream getenv,
       cfg_confirmation_depth = depth, cfg_block_batch_size = batch, cfg_database_url = db,
       cfg_polling_interval = polling,
       cfg_live_monitor_enabled = load_flag getenv ''LIVE_MONITOR_ENABLED'',
       cfg_live_poll_interval = live, cfg_deployment_environment = deployment,
       cfg_api_host = or_default (getenv ''API_HOST'') ''0.0.0.0'',
       cfg_api_port = load_api_port getenv,
       cfg_cors_allowed_origins = or_default (getenv ''CORS_ALLOWED_ORIGINS'') ''*'',
       cfg_explorer_template = getenv ''EXPLORER_TX_URL_TEMPLATE'',
       cfg_operator_api_key = getenv ''OPERATOR_API_KEY'',
       cfg_rpc_max_retries = load_max_retries getenv,
       cfg_rpc_initial_backoff = load_initial_backoff getenv,
       cfg_rpc_max_backoff = load_max_backoff getenv,
       cfg_rpc_backoff_factor = load_backoff_factor parse_float getenv,
       cfg_reconciliation_enabled = load_flag getenv ''RECONCILIATION_ENABLED'',
       cfg_reconciliation_block_window = load_window getenv,
       cfg_reconciliation_interval = load_reconciliation_interval getenv live,
       cfg_reconciliation_stream_id =
         or_default (getenv ''RECONCILIATION_STREAM_ID'') ''reconciliation_payroll_funding'',
       cfg_reconciliation_salary_claim_stream_id =
         or_default (getenv ''RECONCILIATION_SALARY_CLAIM_STREAM_ID'') ''reconciliation_salary_claim'',
       cfg_reconciliation_token_stream_id =
         load_token_cursor getenv ''RECONCILIATION_TOKEN_STREAM_ID'' ''reconciliation_erc20_transfers'',
       cfg_reconciliation_token_balance_stream_id =
         load_token_cursor getenv ''RECONCILIATION_TOKEN_BALANCE_STREAM_ID'' ''reconciliation_token_balance'',
       cfg_redis_url = or_default (getenv ''REDIS_URL'') ''localhost:6379'',
       cfg_webhook_signing_key = key, cfg_escrow_contract = escrow, cfg_wtf_escrow_contract = escrow,
       cfg_escrow_start_block = (case escrow_start of None \<Rightarrow> 0 | Some b \<Rightarrow> b),
       cfg_escrow_stream_id = or_default (getenv ''ESCROW_STREAM_ID'') ''wtf_escrow'',
       cfg_parsed_token_abi = None\<rparr>))))))))))))"

section \<open>Uses of the configuration\<close>

text \<open>
  \<open>fmt.Sprintf\<close> with one text argument: \<open>%s\<close> and \<open>%v\<close> print it, \<open>%%\<close> is a percent sign, the
  numeric verbs print the argument with a complaint. Flags, widths and the quoting and hexadecimal
  verbs (\<open>%q\<close>, \<open>%x\<close>, \<open>%X\<close>, \<open>%T\<close>) are not modelled.
\<close>

fun sprintf_rest :: "string \<Rightarrow> string option \<Rightarrow> string" where
  "sprintf_rest [] arg = (case arg of None \<Rightarrow> [] | Some x \<Rightarrow> ''%!(EXTRA string='' @ x @ '')'')"
| "sprintf_rest [c] arg =
     (if c = CHR ''%'' then ''%!(NOVERB)'' else [c]) @ sprintf_rest [] arg"
| "sprintf_rest (c # v # s) arg =
     (if c \<noteq> CHR ''%'' then c # sprintf_rest (v # s) arg
      else if v = CHR ''%'' then CHR ''%'' # sprintf_rest s arg
      else (case arg of
          None \<Rightarrow> ''%!'' @ [v] @ ''(MISSING)'' @ sprintf_rest s None
        | Some x \<Rightarrow> (if v = CHR ''s'' \<or> v = CHR ''v'' then x
                     else ''%!'' @ [v] @ ''(string='' @ x @ '')'') @ sprintf_rest s None))"

definition explorer_tx_url :: "config \<Rightarrow> string \<Rightarrow> string" where
  "explorer_tx_url c h =
     (if cfg_explorer_template c \<noteq> [] then sprintf_rest (cfg_explorer_template c) (Some h)
      else if cfg_chain_id c = 11155111 then ''https://sepolia.etherscan.io/tx/'' @ h
      else ''https://etherscan.io/tx/'' @ h)"

section \<open>The token ABI\<close>

definition load_erc20_abi :: "abi_lib \<Rightarrow> string \<Rightarrow> string \<Rightarrow> goerror + token_abi" where
  "load_erc20_abi lib path inline =
     and_then
       (if path \<noteq> [] then wrap_sum (''failed to read ABI file '' @ path) (al_read_file lib path)
        else if inline \<noteq> [] then Inr inline
        else Inl (new_error ''neither ABI file path nor inline ABI JSON was provided'')) (\<lambda>raw.
     if trim_space raw = [] then Inl (new_error ''ABI content is empty'')
     else wrap_sum ''failed to parse ABI JSON'' (al_json lib (trim_space raw)))"

text \<open>
  The requirement on the inputs of \<open>Transfer\<close>, checked with other words (\<open>noun\<close>) by
  \<open>ValidateTokenConfig\<close> and by \<open>NewGenericERC20Filterer\<close>.
\<close>

definition check_transfer_inputs :: "string \<Rightarrow> abi_input list \<Rightarrow> goerror + unit" where
  "check_transfer_inputs noun ins =
     (let rest = filter (\<lambda>x. \<not> in_indexed x) ins in
      if length ins < 3 then
        Inl (new_error (''Transfer event must have at least 3 '' @ noun @ ''s, got '' @ dec_nat (length ins)))
      else if \<not> in_indexed (ins ! 0) \<or> in_kind (ins ! 0) \<noteq> AddressTy then
        Inl (new_error (''Transfer event '' @ noun @ '' 0 must be an indexed address''))
      else if \<not> in_indexed (ins ! 1) \<or> in_kind (ins ! 1) \<noteq> AddressTy then
        Inl (new_error (''Transfer event '' @ noun @ '' 1 must be an indexed address''))
      else if length rest \<noteq> 1 \<or> in_kind (hd rest) \<noteq> UintTy then
        Inl (new_error ''Transfer event must have exactly 1 non-indexed uint256 parameter'')
      else Inr ())"

definition indexed_address :: "abi_input \<Rightarrow> bool" where
  "indexed_address x \<longleftrightarrow> in_indexed x \<and> in_kind x = AddressTy"

definition new_generic_erc20_filterer :: "address \<Rightarrow> token_abi option \<Rightarrow> goerror + erc20_filterer" where
  "new_generic_erc20_filterer token parsed = (case parsed of
       None \<Rightarrow> Inl (new_error ''ABI is nil'')
     | Some events \<Rightarrow>
         if token = 0 then Inl (new_error ''token address is the zero address'')
         else (case events ''Transfer'' of
             None \<Rightarrow> Inl (new_error ''ABI does not contain required 'Transfer' event'')
           | Some t \<Rightarrow> and_then (check_transfer_inputs ''input'' (ae_inputs t)) (\<lambda>_.
               let approval = (case events ''Approval'' of
                     None \<Rightarrow> None
                   | Some a \<Rightarrow> if 3 \<le> length (ae_inputs a) \<and> indexed_address (ae_inputs a ! 0) \<and>
                                 indexed_address (ae_inputs a ! 1) then Some a else None) in
               Inr \<lparr>f_token = token, f_transfer_id = ae_id t,
                 f_has_approval = (approval \<noteq> None),
                 f_approval_id = (case approval of None \<Rightarrow> 0 | Some a \<Rightarrow> ae_id a),
                 f_unpack_transfer = ae_unpack t,
                 f_unpack_approval = (case approval of None \<Rightarrow> (\<lambda>_. Inr []) | Some a \<Rightarrow> ae_unpack a)\<rparr>)))"

text \<open>\<open>ValidateTokenConfig\<close>; on success it keeps the parsed ABI.\<close>

definition validate_token_config :: "hex_lib \<Rightarrow> abi_lib \<Rightarrow> config \<Rightarrow> goerror + config" where
  "validate_token_config lib al c =
     (let token = cfg_token_address c in
      if token = [] then Inl (new_error ''TOKEN_ADDRESS is required'')
      else if \<not> hl_is_address lib token then
        Inl (new_error (''TOKEN_ADDRESS is not a valid Ethereum address: '' @ token))
      else if hl_address lib token = 0 then
        Inl (new_error ''TOKEN_ADDRESS cannot be the zero address'')
      else if cfg_payroll_contract c \<noteq> [] \<and> equal_fold token (cfg_payroll_contract c) then
        Inl (new_error (''TOKEN_ADDRESS must not be the same as PAYROLL_CONTRACT_ADDRESS ('' @
          cfg_payroll_contract c @ '')''))
      else if cfg_token_abi_path c = [] \<and> cfg_token_abi_json c = [] then
        Inl (new_error ''TOKEN_ABI_PATH or TOKEN_ABI_JSON is required'')
      else
        and_then (wrap_sum ''failed to load/parse token ABI''
                    (load_erc20_abi al (cfg_token_abi_path c) (cfg_token_abi_json c))) (\<lambda>parsed.
        case parsed ''Transfer'' of
          None \<Rightarrow> Inl (new_error ''configured token ABI does not contain required 'Transfer' event'')
        | Some t \<Rightarrow>
            and_then (check_transfer_inputs ''parameter'' (ae_inputs t)) (\<lambda>_.
            if cfg_rpc_url c = [] then Inl (new_error ''RPC_URL is required'')
            else if cfg_chain_id c \<le> 0 then
              Inl (new_error (''CHAIN_ID must be positive, got '' @ dec_int (cfg_chain_id c)))
            else if cfg_database_url c = [] then Inl (new_error ''DATABASE_URL is required'')
            else Inr (c\<lparr>cfg_parsed_token_abi := Some parsed\<rparr>))))"

section \<open>Laws\<close>

lemma and_then_Inr: "and_then m k = Inr y \<longleftrightarrow> (\<exists>x. m = Inr x \<and> k x = Inr y)"
  by (auto simp: and_then_def split: sum.splits)

lemma wrap_sum_Inr: "wrap_sum s m = Inr x \<longleftrightarrow> m = Inr x"
  by (auto simp: wrap_sum_def split: sum.splits)

lemma check_transfer_noun: "check_transfer_inputs n ins = Inr u \<Longrightarrow> check_transfer_inputs n' ins = Inr u"
  by (auto simp: check_transfer_inputs_def Let_def split: if_splits)

text \<open>What \<open>ValidateTokenConfig\<close> accepts, \<open>NewGenericERC20Filterer\<close> accepts.\<close>

lemma validated_filterer:
  assumes "validate_token_config lib al c = Inr c'"
  obtains f where "new_generic_erc20_filterer (hl_address lib (cfg_token_address c')) (cfg_parsed_token_abi c') = Inr f"
    "f_token f = hl_address lib (cfg_token_address c)" "f_token f \<noteq> 0"
proof -
  from assms obtain parsed t u where
    "hl_address lib (cfg_token_address c) \<noteq> 0" "parsed ''Transfer'' = Some t"
    "check_transfer_inputs ''parameter'' (ae_inputs t) = Inr u"
    "c' = c\<lparr>cfg_parsed_token_abi := Some parsed\<rparr>"
    by (auto simp: validate_token_config_def Let_def and_then_Inr split: if_splits option.splits)
  then show ?thesis
    using check_transfer_noun [of "''parameter''" "ae_inputs t" u "''input''"]
    by (intro that) (auto simp: new_generic_erc20_filterer_def and_then_def Let_def)
qed

section \<open>What \<open>Load\<close> guarantees\<close>

lemma positive_or_pos: "0 < d \<Longrightarrow> 0 < positive_or d parse v"
  by (auto simp: positive_or_def split: option.split)

lemma load_setting_pos: "0 < d \<Longrightarrow> 0 < load_setting getenv k1 k2 d parse"
  by (auto simp: load_setting_def Let_def positive_or_pos)

lemma or_default_nonempty: "d \<noteq> [] \<Longrightarrow> or_default v d \<noteq> []"
  by (simp add: or_default_def)

lemma load_parts:
  "get_required getenv k = Inr v \<Longrightarrow> v \<noteq> []"
  "load_first getenv ks what = Inr v \<Longrightarrow> v \<noteq> []"
  "load_batch_size getenv = Inr n \<Longrightarrow> n \<noteq> 0"
  "load_signing_key getenv dep = Inr key \<Longrightarrow>
     key \<noteq> [] \<and> (\<not> equal_fold dep ''development'' \<longrightarrow> key \<noteq> dummy_key)"
  by (auto simp: get_required_def load_first_def load_batch_size_def load_signing_key_def Let_def
      or_default_def dummy_key_def split: if_splits sum.splits)

lemma chain_bounds: "get_int64 getenv k = Inr i \<Longrightarrow> - (2 ^ 63) \<le> i \<and> i < 2 ^ 63"
  by (auto simp: get_int64_def and_then_Inr wrap_sum_Inr go_parse_int_def split: option.splits
      simp del: power_numeral intro: parse_int_bounds [THEN conjunct1] parse_int_bounds [THEN conjunct2])

lemma stream_names_nonempty:
  "load_payroll_stream getenv \<noteq> []" "load_token_stream getenv \<noteq> []"
  "name \<noteq> [] \<Longrightarrow> load_token_cursor getenv k name \<noteq> []"
  by (auto simp: load_payroll_stream_def load_token_stream_def load_token_cursor_def payroll_stream_id_def
      or_default_def Let_def)

text \<open>The policy both commands build from the configuration.\<close>

definition retry_policy_of :: "config \<Rightarrow> retry_policy" where
  "retry_policy_of c = \<lparr>max_retries = cfg_rpc_max_retries c, initial_backoff = cfg_rpc_initial_backoff c,
     max_backoff = cfg_rpc_max_backoff c, backoff_factor = cfg_rpc_backoff_factor c\<rparr>"

definition config_ok :: "config \<Rightarrow> bool" where
  "config_ok c \<longleftrightarrow>
     - (2 ^ 63) \<le> cfg_chain_id c \<and> cfg_chain_id c < 2 ^ 63 \<and>
     cfg_block_batch_size c \<noteq> 0 \<and> cfg_reconciliation_block_window c \<noteq> 0 \<and>
     0 < cfg_reconciliation_interval c \<and> 0 < cfg_api_port c \<and>
     policy_ok (retry_policy_of c) \<and> 1 < cfg_rpc_backoff_factor c \<and>
     [] \<notin> set [cfg_rpc_url c, cfg_database_url c, cfg_deployment_environment c, cfg_webhook_signing_key c,
       cfg_payroll_stream_id c, cfg_token_stream_id c, cfg_escrow_stream_id c,
       cfg_reconciliation_stream_id c, cfg_reconciliation_salary_claim_stream_id c,
       cfg_reconciliation_token_stream_id c, cfg_reconciliation_token_balance_stream_id c] \<and>
     (equal_fold (cfg_deployment_environment c) ''development'' \<or> cfg_webhook_signing_key c \<noteq> dummy_key)"

text \<open>
  C38. Well-formed configuration. Whatever the environment holds, a configuration that \<open>Load\<close> returns
  has a positive batch size, window, port, reconciliation interval and retry policy, a chain id in the
  range of \<open>int64\<close>, no empty URL, stream id or signing key, and outside development not the public
  dummy key; \<open>NewRetryer\<close> leaves its retry policy as it is.
\<close>

theorem load_well_formed:
  assumes "load parse_float getenv = Inr c"
  shows "config_ok c \<and> new_retryer (retry_policy_of c) = retry_policy_of c"
proof -
  from assms obtain dep where c: "get_int64 getenv ''CHAIN_ID'' = Inr (cfg_chain_id c)"
    "load_batch_size getenv = Inr (cfg_block_batch_size c)" "load_rpc_url getenv = Inr (cfg_rpc_url c)"
    "get_required getenv ''DATABASE_URL'' = Inr (cfg_database_url c)" "load_deployment getenv = Inr dep"
    "cfg_deployment_environment c = dep" "load_signing_key getenv dep = Inr (cfg_webhook_signing_key c)"
    "cfg_reconciliation_block_window c = load_window getenv" "cfg_api_port c = load_api_port getenv"
    "cfg_reconciliation_interval c = load_reconciliation_interval getenv (cfg_live_poll_interval c)"
    "retry_policy_of c = \<lparr>max_retries = load_max_retries getenv, initial_backoff = load_initial_backoff getenv,
       max_backoff = load_max_backoff getenv, backoff_factor = load_backoff_factor parse_float getenv\<rparr>"
    "cfg_rpc_backoff_factor c = load_backoff_factor parse_float getenv"
    "[] \<notin> set [cfg_payroll_stream_id c, cfg_token_stream_id c, cfg_escrow_stream_id c,
       cfg_reconciliation_stream_id c, cfg_reconciliation_salary_claim_stream_id c,
       cfg_reconciliation_token_stream_id c, cfg_reconciliation_token_balance_stream_id c]"
    by (auto simp: load_def and_then_Inr Let_def retry_policy_of_def stream_names_nonempty
        stream_names_nonempty [symmetric] or_default_nonempty [symmetric])
  have policy: "policy_ok (retry_policy_of c)" "1 < load_backoff_factor parse_float getenv"
    unfolding c policy_ok_def load_max_retries_def load_initial_backoff_def load_max_backoff_def
    by (auto simp: load_setting_pos second_def load_backoff_factor_def split: option.split)
  have nonzero: "load_window getenv \<noteq> 0" "0 < load_api_port getenv"
    "0 < load_reconciliation_interval getenv (cfg_live_poll_interval c)"
    using positive_or_pos [of "500 :: u64"] positive_or_pos [of "30 * second"]
    by (auto simp: load_window_def load_api_port_def load_reconciliation_interval_def load_setting_pos second_def
        simp flip: word_neq_0_conv)
  have "config_ok c"
    using load_parts(3) [OF c(2)] load_parts(2) [OF c(3) [unfolded load_rpc_url_def]] load_parts(1) [OF c(4)]
      load_parts(2) [OF c(5) [unfolded load_deployment_def]] load_parts(4) [OF c(7)]
      chain_bounds [OF c(1)] c(6,8-13) policy nonzero
    unfolding config_ok_def by auto
  then show ?thesis using policy by (auto simp: policy_ok_def new_retryer_def)
qed

lemma parse_uint_code [code]:
  "parse_uint b s = (case digits_value b s of
     None \<Rightarrow> None | Some n \<Rightarrow> if int n < 2 ^ 64 then Some n else None)"
proof -
  have "int n < 2 ^ 64 \<longleftrightarrow> n < 2 ^ 64" for n
    by (metis of_nat_less_iff of_nat_numeral of_nat_power)
  then show ?thesis unfolding parse_uint_def by presburger
qed

definition sample_variables :: "(string \<times> string) list" where
  "sample_variables = [(''CHAIN_ID'', ''5''), (''START_BLOCK'', ''9''), (''CONFIRMATIONS'', ''3''),
     (''POLLING_INTERVAL'', ''1m30s''), (''RPC_URL'', ''http://node''), (''DATABASE_URL'', ''postgres://db''),
     (''APP_ENV'', ''production''), (''ALCHEMY_WEBHOOK_SIGNING_KEY'', ''whsec_1''),
     (''RPC_MAX_BACKOFF'', ''-5s''), (''RECONCILIATION_INTERVAL'', ''0.5h'')]"

definition sample_getenv :: query where
  "sample_getenv k = (case map_of sample_variables k of None \<Rightarrow> [] | Some v \<Rightarrow> v)"

definition sample_config :: config where
  "sample_config = projr (load (\<lambda>_. None) sample_getenv)"

lemma sample_load: "load (\<lambda>_. None) sample_getenv = Inr sample_config"
proof -
  have "\<not> isl (load (\<lambda>_. None) sample_getenv)" by code_simp
  then show ?thesis by (simp add: sample_config_def)
qed

theorem load_well_formed_witness:
  "config_ok sample_config \<and> cfg_polling_interval sample_config = 90 * second \<and>
   cfg_rpc_max_backoff sample_config = 30 * second \<and>
   cfg_reconciliation_interval sample_config = 1800 * second"
proof -
  have "cfg_polling_interval sample_config = 90 * second" "cfg_rpc_max_backoff sample_config = 30 * second"
    "cfg_reconciliation_interval sample_config = 1800 * second" by code_simp+
  then show ?thesis using load_well_formed [OF sample_load] by blast
qed

end
