(* ===== verification/Recon_Store.thy ===== *)
theory Recon_Store
  imports Backfill Go_Text "HOL-Library.Product_Lexorder"
begin

text \<open>
  The store of the reconciliation workers: \<open>internal/repository/reconciliation_repo.go\<close> and the
  block range queries of \<open>payroll_repo.go\<close> and \<open>tokens_repo.go\<close>. The id of a row is drawn
  from a sequence; the model takes the successor of the greatest id (gaps left by failed inserts are
  not modelled, the code only compares ids). A fact row is identified by its position in its
  table. The abstract view of the exceptions is the set \<open>open_refs\<close> of the references with an
  open exception; \<open>exceptions_ok\<close> says that there is one open row for each.
\<close>

section \<open>Exceptions\<close>

definition severities :: "string list" where
  "severities = [''low'', ''medium'', ''high'', ''critical'']"

definition statuses :: "string list" where
  "statuses = [''open'', ''resolved'']"

definition check_violation :: goerror where
  "check_violation = new_error ''new row violates check constraint''"

definition next_id :: "exception_row list \<Rightarrow> int" where
  "next_id t = 1 + foldr (\<lambda>r m. max (rx_id r) m) t 0"

definition is_open :: "exception_row \<Rightarrow> bool" where
  "is_open r \<longleftrightarrow> rx_status r = ''open''"

definition stmt_create_exception :: "exception_row \<Rightarrow> database \<Rightarrow> goerror + database" where
  "stmt_create_exception r d =
     (if 100 < length (rx_type r) \<or> 255 < length (rx_ref r) then Inl range_violation
      else if rx_severity r \<notin> set severities \<or> rx_status r \<notin> set statuses then Inl check_violation
      else Inr (d\<lparr>exceptions := exceptions d @ [r\<lparr>rx_id := next_id (exceptions d)\<rparr>]\<rparr>))"

definition stmt_resolve_exception :: "int \<Rightarrow> int \<Rightarrow> database \<Rightarrow> goerror + database" where
  "stmt_resolve_exception i t d =
     Inr (d\<lparr>exceptions := map (\<lambda>r. if rx_id r = i \<and> is_open r
                                  then r\<lparr>rx_status := ''resolved'', rx_resolved := Some t\<rparr> else r)
                            (exceptions d)\<rparr>)"

text \<open>\<open>CreateException\<close>: an empty status means open, the zero time means now.\<close>

definition create_exception :: "env \<Rightarrow> exception_row \<Rightarrow> unit go" where
  "create_exception env x = with_now env (\<lambda>t.
     wrapping ''failed to insert reconciliation exception''
       (exec_sql env (stmt_create_exception
          (x\<lparr>rx_status := (if rx_status x = [] then ''open'' else rx_status x),
             rx_detected := (if rx_detected x = zero_time then t else rx_detected x)\<rparr>))))"

text \<open>\<open>ORDER BY id DESC LIMIT 1\<close>.\<close>

definition open_by_ref :: "string \<Rightarrow> database \<Rightarrow> exception_row option" where
  "open_by_ref ref d =
     (case rev (sort_key rx_id (filter (\<lambda>r. rx_ref r = ref \<and> is_open r) (exceptions d))) of
        [] \<Rightarrow> None | r # _ \<Rightarrow> Some r)"

definition get_open_exception_by_ref :: "env \<Rightarrow> string \<Rightarrow> exception_row option go" where
  "get_open_exception_by_ref env ref =
     wrapping ''failed to query open reconciliation exception by entity_ref''
       (query_sql env (open_by_ref ref))"

definition resolve_exception :: "env \<Rightarrow> int \<Rightarrow> int \<Rightarrow> unit go" where
  "resolve_exception env i t =
     wrapping (''failed to resolve reconciliation exception '' @ dec_int i)
       (exec_sql env (stmt_resolve_exception i t))"

text \<open>\<open>LIKE prefix || '%'\<close>; the callers' prefixes are digits, colons and hexadecimal text.\<close>

definition open_by_prefix :: "string \<Rightarrow> database \<Rightarrow> exception_row list" where
  "open_by_prefix p d =
     sort_key rx_id (filter (\<lambda>r. prefix p (rx_ref r) \<and> is_open r) (exceptions d))"

definition get_open_exceptions_by_prefix :: "env \<Rightarrow> string \<Rightarrow> exception_row list go" where
  "get_open_exceptions_by_prefix env p =
     wrapping ''failed to query open exceptions by entity_ref prefix''
       (query_sql env (open_by_prefix p))"

section \<open>Facts by block range\<close>

text \<open>The models the queries return: \<open>models.PayrollFunding\<close>, \<open>SalaryClaim\<close>, \<open>TokenTransfer\<close>.\<close>

record payroll_funding =
  fm_id :: int
  fm_employer :: address
  fm_employee :: address
  fm_paid :: "int option"
  fm_fee :: "int option"
  fm_credited :: "int option"
  fm_tx :: hash
  fm_block :: u64
  fm_index :: u64

record salary_claim =
  cm_id :: int
  cm_employee :: address
  cm_amount :: "int option"
  cm_tx :: hash
  cm_block :: u64
  cm_index :: u64

record transfer_model =
  xm_id :: int
  xm_from :: address
  xm_to :: address
  xm_amount :: "int option"
  xm_tx :: hash
  xm_block :: u64
  xm_index :: u64
  xm_removed :: bool

text \<open>
  \<open>WHERE chain_id = $1 AND block_number BETWEEN ... ORDER BY block_number, log_index, id\<close>: the
  bounds are converted to \<open>int64\<close>; the sort is stable, so equal positions stay in table order.
\<close>

definition rows_in_range ::
  "('r \<Rightarrow> bool) \<Rightarrow> ('r \<Rightarrow> int) \<Rightarrow> ('r \<Rightarrow> int) \<Rightarrow> u64 \<Rightarrow> u64 \<Rightarrow> 'r list \<Rightarrow> (nat \<times> 'r) list" where
  "rows_in_range keep block index lo hi t =
     sort_key (\<lambda>(_, r). (block r, index r))
       (filter (\<lambda>(_, r). keep r \<and> sint lo \<le> block r \<and> block r \<le> sint hi) (enumerate 1 t))"

definition funding_model :: "nat \<times> funding_row \<Rightarrow> payroll_funding" where
  "funding_model = (\<lambda>(i, r). \<lparr>fm_id = int i, fm_employer = pf_employer r, fm_employee = pf_employee r,
     fm_paid = Some (pf_paid r), fm_fee = Some (pf_fee r), fm_credited = Some (pf_credited r),
     fm_tx = pf_tx r, fm_block = word_of_int (pf_block r), fm_index = word_of_int (pf_index r)\<rparr>)"

definition fundings_in_range :: "int \<Rightarrow> u64 \<Rightarrow> u64 \<Rightarrow> database \<Rightarrow> payroll_funding list" where
  "fundings_in_range chain lo hi d = map funding_model
     (rows_in_range (\<lambda>r. pf_chain r = chain) pf_block pf_index lo hi (payroll_fundings d))"

definition get_fundings_by_block_range :: "env \<Rightarrow> int \<Rightarrow> u64 \<Rightarrow> u64 \<Rightarrow> payroll_funding list go" where
  "get_fundings_by_block_range env chain lo hi =
     wrapping ''failed to query payroll fundings by block range''
       (query_sql env (fundings_in_range chain lo hi))"

definition claim_model :: "nat \<times> claim_row \<Rightarrow> salary_claim" where
  "claim_model = (\<lambda>(i, r). \<lparr>cm_id = int i, cm_employee = sc_employee r,
     cm_amount = Some (sc_amount r), cm_tx = sc_tx r, cm_block = word_of_int (sc_block r),
     cm_index = word_of_int (sc_index r)\<rparr>)"

definition claims_in_range :: "int \<Rightarrow> u64 \<Rightarrow> u64 \<Rightarrow> database \<Rightarrow> salary_claim list" where
  "claims_in_range chain lo hi d = map claim_model
     (rows_in_range (\<lambda>r. sc_chain r = chain) sc_block sc_index lo hi (salary_claims d))"

definition get_claims_by_block_range :: "env \<Rightarrow> int \<Rightarrow> u64 \<Rightarrow> u64 \<Rightarrow> salary_claim list go" where
  "get_claims_by_block_range env chain lo hi =
     wrapping ''failed to query salary claims by block range''
       (query_sql env (claims_in_range chain lo hi))"

definition transfer_model_of :: "nat \<times> transfer_row \<Rightarrow> transfer_model" where
  "transfer_model_of = (\<lambda>(i, r). \<lparr>xm_id = int i, xm_from = tr_from r, xm_to = tr_to r,
     xm_amount = Some (tr_amount r), xm_tx = tr_tx r, xm_block = word_of_int (tr_block r),
     xm_index = word_of_int (tr_index r), xm_removed = tr_removed r\<rparr>)"

definition transfers_in_range :: "int \<Rightarrow> address \<Rightarrow> u64 \<Rightarrow> u64 \<Rightarrow> database \<Rightarrow> transfer_model list" where
  "transfers_in_range chain token lo hi d = map transfer_model_of
     (rows_in_range (\<lambda>r. tr_chain r = chain \<and> tr_token r = token) tr_block tr_index lo hi
        (token_transfers d))"

definition get_transfers_by_block_range ::
  "env \<Rightarrow> int \<Rightarrow> address \<Rightarrow> u64 \<Rightarrow> u64 \<Rightarrow> transfer_model list go" where
  "get_transfers_by_block_range env chain token lo hi =
     wrapping ''failed to query token transfers by block range''
       (query_sql env (transfers_in_range chain token lo hi))"

lemma rows_in_range_set:
  "snd ` set (rows_in_range keep block index lo hi t) =
     {r \<in> set t. keep r \<and> sint lo \<le> block r \<and> block r \<le> sint hi}"
proof -
  have "snd ` {p \<in> set (enumerate 1 t). Q (snd p)} = {r \<in> set t. Q r}" for Q
  proof -
    have "snd ` {p \<in> set (enumerate 1 t). Q (snd p)} = {r \<in> snd ` set (enumerate 1 t). Q r}" by auto
    also have "snd ` set (enumerate 1 t) = set t" by (metis list.set_map map_snd_enumerate)
    finally show ?thesis .
  qed
  from this [of "\<lambda>r. keep r \<and> sint lo \<le> block r \<and> block r \<le> sint hi"]
  show ?thesis by (simp add: rows_in_range_def case_prod_beta)
qed

section \<open>The view of the open exceptions\<close>

definition open_refs :: "database \<Rightarrow> string set" where
  "open_refs d = set (map rx_ref (filter is_open (exceptions d)))"

definition exceptions_ok :: "database \<Rightarrow> bool" where
  "exceptions_ok d \<longleftrightarrow> distinct (map rx_id (exceptions d)) \<and>
     distinct (map rx_ref (filter is_open (exceptions d)))"

lemma next_id_greater: "r \<in> set t \<Longrightarrow> rx_id r < next_id t"
  unfolding next_id_def by (induction t) auto

lemma open_by_ref_None: "open_by_ref ref d = None \<longleftrightarrow> ref \<notin> open_refs d"
proof -
  let ?t = "filter (\<lambda>r. rx_ref r = ref \<and> is_open r) (exceptions d)"
  have "open_by_ref ref d = None \<longleftrightarrow> rev (sort_key rx_id ?t) = []"
    by (simp add: open_by_ref_def split: list.split)
  also have "\<dots> \<longleftrightarrow> set (sort_key rx_id ?t) = {}" by (simp only: rev_is_Nil_conv set_empty)
  also have "\<dots> \<longleftrightarrow> ?t = []" by (simp only: set_sort set_empty)
  finally have "open_by_ref ref d = None \<longleftrightarrow> ?t = []" .
  then show ?thesis by (auto simp: open_refs_def filter_empty_conv)
qed

lemma open_by_ref_Some:
  assumes "open_by_ref ref d = Some r"
  shows "r \<in> set (exceptions d) \<and> is_open r \<and> rx_ref r = ref"
proof -
  let ?t = "filter (\<lambda>r. rx_ref r = ref \<and> is_open r) (exceptions d)"
  from assms obtain rs where "rev (sort_key rx_id ?t) = r # rs"
    by (auto simp: open_by_ref_def split: list.splits)
  then have "r \<in> set (rev (sort_key rx_id ?t))" by simp
  then show ?thesis by simp
qed

lemma set_open_by_prefix:
  "set (open_by_prefix p d) = {r \<in> set (exceptions d). prefix p (rx_ref r) \<and> is_open r}"
  by (simp add: open_by_prefix_def)

lemma create_exception_rows:
  assumes "stmt_create_exception r d = Inr d'"
  obtains r' where "exceptions d' = exceptions d @ [r']" "rx_id r' = next_id (exceptions d)"
    "rx_ref r' = rx_ref r" "is_open r' = is_open r"
  using assms by (auto simp: stmt_create_exception_def is_open_def split: if_splits)

lemma create_open_refs:
  assumes "stmt_create_exception r d = Inr d'" "is_open r"
  shows "open_refs d' = insert (rx_ref r) (open_refs d)"
proof -
  obtain r' where "exceptions d' = exceptions d @ [r']" "rx_ref r' = rx_ref r" "is_open r'"
    using create_exception_rows [OF assms(1)] assms(2) by metis
  then show ?thesis by (auto simp: open_refs_def)
qed

lemma create_exceptions_ok:
  assumes "stmt_create_exception r d = Inr d'" "exceptions_ok d" "rx_ref r \<notin> open_refs d"
  shows "exceptions_ok d'"
proof -
  obtain r' where r': "exceptions d' = exceptions d @ [r']" "rx_id r' = next_id (exceptions d)"
      "rx_ref r' = rx_ref r"
    using create_exception_rows [OF assms(1)] by metis
  have "rx_id r' \<notin> rx_id ` set (exceptions d)"
    using next_id_greater [of _ "exceptions d"] r'(2) by force
  moreover have "rx_ref r' \<notin> rx_ref ` set (filter is_open (exceptions d))"
    using assms(3) r'(3) by (auto simp: open_refs_def)
  ultimately show ?thesis using assms(2) by (simp add: exceptions_ok_def r'(1))
qed

text \<open>Resolving a row with a unique id closes exactly its reference.\<close>

lemma resolve_rows:
  assumes "stmt_resolve_exception i t d = Inr d'"
  shows "map rx_id (exceptions d') = map rx_id (exceptions d)"
    "map rx_ref (filter is_open (exceptions d')) =
       map rx_ref (filter (\<lambda>r. rx_id r \<noteq> i) (filter is_open (exceptions d)))"
proof -
  let ?u = "\<lambda>r. if rx_id r = i \<and> is_open r then r\<lparr>rx_status := ''resolved'', rx_resolved := Some t\<rparr> else r"
  have d': "exceptions d' = map ?u (exceptions d)"
    using assms by (auto simp: stmt_resolve_exception_def)
  show "map rx_id (exceptions d') = map rx_id (exceptions d)" unfolding d' by simp
  have "map rx_ref (filter is_open (map ?u xs)) =
      map rx_ref (filter (\<lambda>r. rx_id r \<noteq> i) (filter is_open xs))" for xs
    by (induction xs) (auto simp: is_open_def)
  then show "map rx_ref (filter is_open (exceptions d')) =
       map rx_ref (filter (\<lambda>r. rx_id r \<noteq> i) (filter is_open (exceptions d)))" unfolding d' .
qed

lemma resolve_open_refs:
  assumes "stmt_resolve_exception (rx_id r) t d = Inr d'" "exceptions_ok d"
    "r \<in> set (exceptions d)" "is_open r"
  shows "open_refs d' = open_refs d - {rx_ref r}"
proof -
  have same: "x = r" if "x \<in> set (exceptions d)" "rx_id x = rx_id r" for x
    using assms(2,3) that by (auto simp: exceptions_ok_def distinct_map inj_on_def)
  have other: "x = r" if "x \<in> set (exceptions d)" "is_open x" "rx_ref x = rx_ref r" for x
    using assms(2-4) that by (auto simp: exceptions_ok_def distinct_map inj_on_def)
  have "open_refs d' = rx_ref ` {x \<in> set (exceptions d). is_open x \<and> rx_id x \<noteq> rx_id r}"
    unfolding open_refs_def resolve_rows(2) [OF assms(1)] by auto
  also have "\<dots> = open_refs d - {rx_ref r}"
    unfolding open_refs_def using same other by auto
  finally show ?thesis .
qed

lemma resolve_exceptions_ok:
  assumes "stmt_resolve_exception i t d = Inr d'" "exceptions_ok d"
  shows "exceptions_ok d'"
  using assms(2) unfolding exceptions_ok_def resolve_rows [OF assms(1)] by (blast intro: distinct_map_filter)

section \<open>What the statements keep\<close>

text \<open>Reconciliation touches no table but the exceptions (and, in the sweeps, its own cursor).\<close>

definition exceptions_only :: "database \<Rightarrow> database \<Rightarrow> bool" where
  "exceptions_only d d' \<longleftrightarrow> (\<exists>xs. d' = d\<lparr>exceptions := xs\<rparr>)"

interpretation recon: db_relation exceptions_only
proof
  show "exceptions_only d d" for d
    unfolding exceptions_only_def by (rule exI [of _ "exceptions d"]) simp
  show "exceptions_only a c" if "exceptions_only a b" "exceptions_only b c" for a b c
    using that by (auto simp: exceptions_only_def)
qed

lemma stmt_create_only: "stmt_create_exception r d = Inr d' \<Longrightarrow> exceptions_only d d'"
  by (auto simp: stmt_create_exception_def exceptions_only_def split: if_splits)

lemma stmt_resolve_only: "stmt_resolve_exception i t d = Inr d' \<Longrightarrow> exceptions_only d d'"
  by (auto simp: stmt_resolve_exception_def exceptions_only_def)

text \<open>An invariant of the exceptions, whatever happens to the other tables.\<close>

interpretation oks: db_relation "\<lambda>d d'. exceptions_ok d \<longrightarrow> exceptions_ok d'"
  by unfold_locales auto

lemma recon_keeps_store:
  "recon.keeps (create_exception env x)"
  "recon.keeps (resolve_exception env i t)"
  "recon.keeps (get_open_exception_by_ref env ref)"
  "recon.keeps (get_open_exceptions_by_prefix env p)"
  unfolding create_exception_def resolve_exception_def get_open_exception_by_ref_def
    get_open_exceptions_by_prefix_def
  by (auto intro!: recon.keeps_rules recon.keeps_exec dest: stmt_create_only stmt_resolve_only)

end
