(* ===== verification/Event_Reconciler.thy ===== *)
theory Event_Reconciler
  imports Recon_Store
begin

text \<open>
  What the three event workers of \<open>internal/reconciliation\<close> share (\<open>payroll_worker.go\<close>,
  \<open>salary_claim_worker.go\<close>, \<open>token_transfer_worker.go\<close> repeat the same code): the pass over a
  block range, the recent window and the sweep with its cursor. A worker is a record
  \<open>event_recon\<close> of what differs: how a log becomes an on-chain record, which rows are fetched,
  and which mismatches a record and its rows give. The comparison has no effects, so a pass is the
  list of its mismatches, recorded in order, followed by the resolution of fixed exceptions.
\<close>

section \<open>Configuration and results\<close>

text \<open>
  \<open>rc_retry\<close> is None for a nil retryer, \<open>rc_checkpoints\<close> says that the checkpoint store is not
  nil, \<open>rc_map_order\<close> is the order in which Go ranges over the keys of a map.
\<close>

record reconciler =
  rc_chain :: int
  rc_contract :: address
  rc_index_stream :: string
  rc_stream :: string
  rc_depth :: u64
  rc_window :: u64
  rc_start :: u64
  rc_retry :: "retry_policy option"
  rc_checkpoints :: bool
  rc_map_order :: "string list \<Rightarrow> string list"

record recon_result =
  rr_from :: u64
  rr_to :: u64
  rr_safe :: u64
  rr_checkpoint :: u64
  rr_onchain :: int
  rr_rows :: int
  rr_mismatches :: int
  rr_created :: int
  rr_resolved :: int
  rr_skipped :: int

definition no_result :: recon_result where
  "no_result = \<lparr>rr_from = 0, rr_to = 0, rr_safe = 0, rr_checkpoint = 0, rr_onchain = 0, rr_rows = 0,
     rr_mismatches = 0, rr_created = 0, rr_resolved = 0, rr_skipped = 0\<rparr>"

record mismatch =
  mm_type :: string
  mm_severity :: string
  mm_ref :: string
  mm_expected :: "(string \<times> json) list"
  mm_observed :: "(string \<times> json) list"

definition event_key :: "env \<Rightarrow> hash \<Rightarrow> u64 \<Rightarrow> string" where
  "event_key env tx i = to_lower (hash_hex env tx) @ '':'' @ dec_u64 i"

definition safe_big_text :: "int option \<Rightarrow> string" where
  "safe_big_text v = (case v of None \<Rightarrow> ''0'' | Some i \<Rightarrow> dec_int i)"

definition recon_safe_target :: "reconciler \<Rightarrow> u64 \<Rightarrow> u64" where
  "recon_safe_target r latest =
     (if rc_depth r > 0 \<and> latest \<ge> rc_depth r then latest - rc_depth r else latest)"

definition recon_call :: "env \<Rightarrow> reconciler \<Rightarrow> u64 \<Rightarrow> u64 \<Rightarrow> 'a go \<Rightarrow> 'a go" where
  "recon_call env r lo hi op =
     (case rc_retry r of None \<Rightarrow> op | Some p \<Rightarrow> retry_range env p (rc_stream r) lo hi op)"

section \<open>Numbers in JSON documents\<close>

text \<open>
  \<open>json.Unmarshal\<close> into \<open>any\<close> makes every number a \<open>float64\<close>: round to 53 bits, ties to even.
\<close>

function double_exponent :: "int \<Rightarrow> nat" where
  "double_exponent n = (if n < 9007199254740992 then 0 else Suc (double_exponent (n div 2)))"
  by pat_completeness auto
termination by (relation "measure nat") auto

declare double_exponent.simps [simp del]

definition to_double :: "int \<Rightarrow> int" where
  "to_double n =
     (let q = 2 ^ double_exponent n; d = n div q; r = n mod q in
      (if 2 * r > q \<or> 2 * r = q \<and> odd d then d + 1 else d) * q)"

definition json_float :: "int \<Rightarrow> int" where
  "json_float i = (if i < 0 then - to_double (- i) else to_double i)"

lemma json_float_exact: "0 \<le> i \<Longrightarrow> i < 9007199254740992 \<Longrightarrow> json_float i = i"
  by (simp add: json_float_def to_double_def double_exponent.simps Let_def)

text \<open>\<open>expMap["block_number"].(float64)\<close> and its conversion to \<open>uint64\<close>.\<close>

definition expected_block :: "json \<Rightarrow> u64 option" where
  "expected_block j =
     (case j of
        JObject m \<Rightarrow>
          (case map_of m ''block_number'' of
             Some (JNumber i) \<Rightarrow> Some (word_of_int (json_float i))
           | _ \<Rightarrow> None)
      | _ \<Rightarrow> None)"

section \<open>Recording and resolving\<close>

text \<open>The state of a pass: the references of the active mismatches, and the counters.\<close>

type_synonym pass_state = "string list \<times> recon_result"

definition exception_of :: "mismatch \<Rightarrow> int \<Rightarrow> exception_row" where
  "exception_of m t = \<lparr>rx_id = 0, rx_type = mm_type m, rx_severity = mm_severity m, rx_ref = mm_ref m,
     rx_expected = JObject (mm_expected m), rx_observed = JObject (mm_observed m),
     rx_status = ''open'', rx_detected = t, rx_resolved = None\<rparr>"

definition record_mismatch :: "env \<Rightarrow> mismatch \<Rightarrow> pass_state \<Rightarrow> pass_state go" where
  "record_mismatch env m = (\<lambda>(active, res).
     let active' = mm_ref m # active; res' = res\<lparr>rr_mismatches := rr_mismatches res + 1\<rparr> in
     bind_go (wrapping (''failed to check existing exception for '' @ mm_ref m)
               (get_open_exception_by_ref env (mm_ref m))) (\<lambda>existing.
     case existing of
       Some _ \<Rightarrow> ret (active', res'\<lparr>rr_skipped := rr_skipped res' + 1\<rparr>)
     | None \<Rightarrow>
         bind_go (with_now env (\<lambda>t. wrapping ''failed to create reconciliation exception''
                   (create_exception env (exception_of m t)))) (\<lambda>_.
         ret (active', res'\<lparr>rr_created := rr_created res' + 1\<rparr>))))"

definition fixed_exception :: "string \<Rightarrow> u64 \<Rightarrow> u64 \<Rightarrow> string list \<Rightarrow> exception_row \<Rightarrow> bool" where
  "fixed_exception kind lo hi active x \<longleftrightarrow> prefix kind (rx_type x) \<and>
     (case expected_block (rx_expected x) of None \<Rightarrow> False | Some b \<Rightarrow> lo \<le> b \<and> b \<le> hi) \<and>
     rx_ref x \<notin> set active"

definition resolve_fixed ::
  "env \<Rightarrow> string \<Rightarrow> u64 \<Rightarrow> u64 \<Rightarrow> int \<Rightarrow> exception_row \<Rightarrow> pass_state \<Rightarrow> pass_state go" where
  "resolve_fixed env kind lo hi t x = (\<lambda>(active, res).
     if fixed_exception kind lo hi active x then
       bind_go (wrapping (''failed to resolve exception '' @ dec_int (rx_id x))
                 (resolve_exception env (rx_id x) t)) (\<lambda>_.
       ret (active, res\<lparr>rr_resolved := rr_resolved res + 1\<rparr>))
     else ret (active, res))"

section \<open>One pass\<close>

record ('e, 'r) event_recon =
  er_decode :: "evm_log \<Rightarrow> 'e option"
  er_fetch :: "u64 \<Rightarrow> u64 \<Rightarrow> 'r list go"
  er_duplicates :: "'r list \<Rightarrow> mismatch list"
  er_compare :: "u64 \<Rightarrow> bool \<Rightarrow> u64 \<Rightarrow> 'r list \<Rightarrow> 'e \<Rightarrow> mismatch list"
  er_kind :: string
  er_prefix :: string
  er_checkpoint_text :: string
  er_logs_text :: string
  er_rows_text :: string

definition pass_mismatches ::
  "('e, 'r) event_recon \<Rightarrow> u64 \<Rightarrow> bool \<Rightarrow> u64 \<Rightarrow> evm_log list \<Rightarrow> 'r list \<Rightarrow> mismatch list" where
  "pass_mismatches k safe has cp logs rows =
     er_duplicates k rows @
     concat (map (er_compare k safe has cp rows)
       (List.map_filter (er_decode k) (filter (\<lambda>lg. \<not> l_removed lg) logs)))"

definition indexer_checkpoint :: "env \<Rightarrow> reconciler \<Rightarrow> string \<Rightarrow> (u64 \<times> bool) go" where
  "indexer_checkpoint env r what =
     (if rc_checkpoints r
      then wrapping (''reconciliation failed to retrieve '' @ what)
             (get_checkpoint env (rc_chain r) (rc_index_stream r))
      else ret (0, False))"

definition compare_range ::
  "env \<Rightarrow> reconciler \<Rightarrow> ('e, 'r) event_recon \<Rightarrow> u64 \<Rightarrow> u64 \<Rightarrow> u64 \<Rightarrow> recon_result go" where
  "compare_range env r k safe lo cap =
     bind_go (indexer_checkpoint env r (er_checkpoint_text k)) (\<lambda>(cp, has).
     bind_go (wrapping (''reconciliation failed to fetch '' @ er_logs_text k @ '' '' @ range_text lo cap)
               (recon_call env r lo cap (get_logs env (rc_contract r) lo cap))) (\<lambda>logs.
     bind_go (wrapping (''reconciliation failed to retrieve '' @ er_rows_text k @ '' '' @ range_text lo cap)
               (er_fetch k lo cap)) (\<lambda>rows.
     bind_go (for_each (record_mismatch env) (pass_mismatches k safe has cp logs rows)
       ([], no_result\<lparr>rr_from := lo, rr_to := cap, rr_safe := safe, rr_checkpoint := cp,
          rr_onchain := int (length (List.map_filter (er_decode k) (filter (\<lambda>lg. \<not> l_removed lg) logs))),
          rr_rows := int (length rows)\<rparr>)) (\<lambda>st.
     bind_go (wrapping ''reconciliation failed to load open exceptions''
               (get_open_exceptions_by_prefix env (er_prefix k))) (\<lambda>opened.
     bind_go (with_now env (\<lambda>t. for_each (resolve_fixed env (er_kind k) lo cap t) opened st)) (\<lambda>st'.
     ret (snd st')))))))"

definition reconcile_range ::
  "env \<Rightarrow> reconciler \<Rightarrow> ('e, 'r) event_recon \<Rightarrow> u64 \<Rightarrow> u64 \<Rightarrow> recon_result go" where
  "reconcile_range env r k lo hi =
     (if lo > hi then
        fail (new_error (''invalid block range: fromBlock ('' @ dec_u64 lo @ '') > toBlock ('' @ dec_u64 hi @ '')''))
      else
        bind_go (wrapping ''reconciliation failed to get latest block from RPC''
                  (recon_call env r lo hi (latest_block env))) (\<lambda>latest.
        let safe = recon_safe_target r latest in
        if lo > safe then ret (no_result\<lparr>rr_from := lo, rr_to := hi, rr_safe := safe\<rparr>)
        else compare_range env r k safe lo (if hi > safe then safe else hi)))"

section \<open>The window and the sweep\<close>

definition recent_start :: "reconciler \<Rightarrow> u64 \<Rightarrow> u64 \<Rightarrow> u64" where
  "recent_start r window safe =
     (if window > 0 \<and> safe > window \<and> safe - window + 1 > rc_start r then safe - window + 1
      else rc_start r)"

definition reconcile_recent_window ::
  "env \<Rightarrow> reconciler \<Rightarrow> ('e, 'r) event_recon \<Rightarrow> u64 \<Rightarrow> recon_result go" where
  "reconcile_recent_window env r k window =
     bind_go (wrapping ''failed to query latest block'' (latest_block env)) (\<lambda>latest.
     let safe = recon_safe_target r latest in
     if safe < rc_start r then ret (no_result\<lparr>rr_safe := safe\<rparr>)
     else reconcile_range env r k (recent_start r window safe) safe)"

definition sweep_start :: "env \<Rightarrow> reconciler \<Rightarrow> u64 go" where
  "sweep_start env r =
     (if rc_checkpoints r \<and> rc_stream r \<noteq> [] then
        bind_go (wrapping ''failed to query reconciliation checkpoint''
                  (get_checkpoint env (rc_chain r) (rc_stream r))) (\<lambda>(b, found).
        ret (if found \<and> b \<ge> rc_start r then b + 1 else rc_start r))
      else ret (rc_start r))"

definition sweep_end :: "u64 \<Rightarrow> u64 \<Rightarrow> u64 \<Rightarrow> u64" where
  "sweep_end batch safe lo =
     (let size = (if batch = 0 then 100 else batch); hi = lo + size - 1 in if hi > safe then safe else hi)"

definition reconcile_next_batch ::
  "env \<Rightarrow> reconciler \<Rightarrow> ('e, 'r) event_recon \<Rightarrow> u64 \<Rightarrow> recon_result go" where
  "reconcile_next_batch env r k batch =
     bind_go (wrapping ''failed to query latest block'' (latest_block env)) (\<lambda>latest.
     let safe = recon_safe_target r latest in
     bind_go (sweep_start env r) (\<lambda>lo.
     if lo > safe then ret (no_result\<lparr>rr_from := lo, rr_to := safe, rr_safe := safe\<rparr>)
     else
       bind_go (reconcile_range env r k lo (sweep_end batch safe lo)) (\<lambda>res.
       bind_go
         (if rc_checkpoints r \<and> rc_stream r \<noteq> [] \<and> rr_to res \<ge> lo
          then wrapping (''reconciliation failed to advance checkpoint to '' @ dec_u64 (rr_to res))
                 (save_checkpoint env (rc_chain r) (rc_stream r) (rr_to res) [])
          else ret ()) (\<lambda>_.
       ret res))))"

end
