(* ===== verification/Reconciler_Facts.thy ===== *)
theory Reconciler_Facts
  imports Event_Reconciler
begin

text \<open>
  What a reconciliation pass does, for every worker: recording opens exactly the exceptions of
  the mismatches, resolving closes the fixed ones, nothing else is touched. The contract of a
  worker is the locale \<open>event_worker\<close>; in it the specification \<open>pass_spec\<close> of a pass, the
  soundness of failing passes, idempotence and the progress of the sweep are proved once.
\<close>

section \<open>Recording\<close>

text \<open>
  One mismatch: nothing but the exceptions changes, uniqueness of open references survives, and on
  success its reference is open; the counters say whether a row was created or found.
\<close>

lemma create_exception_run:
  assumes "create_exception env (exception_of m t) w = (r, w')"
  shows "w_db w' = w_db w \<and> (\<exists>e. r = Inl e) \<or>
    r = Inr () \<and> (\<exists>t'. stmt_create_exception ((exception_of m t)\<lparr>rx_detected := t'\<rparr>) (w_db w) = Inr (w_db w'))"
  using assms
  by (auto simp: create_exception_def with_now_eq wrapping_def exec_sql_def exception_of_def
      split: option.splits sum.splits prod.splits)

definition recorded_row :: "mismatch \<Rightarrow> exception_row \<Rightarrow> bool" where
  "recorded_row m x \<longleftrightarrow> is_open x \<and> rx_type x = mm_type m \<and> rx_ref x = mm_ref m \<and>
     rx_severity x = mm_severity m \<and> rx_expected x = JObject (mm_expected m) \<and>
     rx_observed x = JObject (mm_observed m)"

lemma create_exception_row:
  assumes "stmt_create_exception ((exception_of m t)\<lparr>rx_detected := t'\<rparr>) d = Inr d'"
  shows "\<exists>x. exceptions d' = exceptions d @ [x] \<and> recorded_row m x"
  using assms
  by (auto simp: stmt_create_exception_def exception_of_def recorded_row_def is_open_def split: if_splits)

lemma record_mismatch_run:
  assumes "record_mismatch env m (active, res) w = (r, w')"
  shows "(\<exists>e. r = Inl e) \<and> w_db w' = w_db w \<or>
    r = Inr (mm_ref m # active,
      res\<lparr>rr_mismatches := rr_mismatches res + 1, rr_skipped := rr_skipped res + 1\<rparr>) \<and>
      w_db w' = w_db w \<and> mm_ref m \<in> open_refs (w_db w) \<or>
    r = Inr (mm_ref m # active,
      res\<lparr>rr_mismatches := rr_mismatches res + 1, rr_created := rr_created res + 1\<rparr>) \<and>
      mm_ref m \<notin> open_refs (w_db w) \<and>
      (\<exists>t t'. stmt_create_exception ((exception_of m t)\<lparr>rx_detected := t'\<rparr>) (w_db w) = Inr (w_db w'))"
proof -
  obtain q w1 where get: "get_open_exception_by_ref env (mm_ref m) w = (q, w1)"
    by (cases "get_open_exception_by_ref env (mm_ref m) w") auto
  have db: "w_db w1 = w_db w"
    using get by (auto simp: get_open_exception_by_ref_def wrapping_def dest: query_sql_db
        split: sum.splits prod.splits)
  show ?thesis
  proof (cases q)
    case (Inl e)
    then show ?thesis using assms get db
      by (auto simp: record_mismatch_def Let_def bind_go_def wrapping_def)
  next
    case (Inr found)
    have found: "found = open_by_ref (mm_ref m) (w_db w)"
      using get Inr by (simp add: get_open_exception_by_ref_def wrapping_Inr query_sql_Inr)
    show ?thesis
    proof (cases found)
      case (Some x)
      then have "mm_ref m \<in> open_refs (w_db w)" using open_by_ref_None found by (metis option.discI)
      then show ?thesis using assms get Inr Some db
        by (auto simp: record_mismatch_def Let_def bind_go_def wrapping_def ret_def)
    next
      case None
      then have fresh: "mm_ref m \<notin> open_refs (w_db w)" using found open_by_ref_None by metis
      obtain q2 w2 where cr: "create_exception env (exception_of m (now env w1)) w1 = (q2, w2)"
        by (cases "create_exception env (exception_of m (now env w1)) w1") auto
      have "w' = w2" "r = (case q2 of Inl e \<Rightarrow> Inl (wrap_error ''failed to create reconciliation exception'' e)
          | Inr _ \<Rightarrow> Inr (mm_ref m # active,
              res\<lparr>rr_mismatches := rr_mismatches res + 1, rr_created := rr_created res + 1\<rparr>))"
        using assms get Inr None cr
        by (auto simp: record_mismatch_def Let_def bind_go_def wrapping_def ret_def with_now_eq
            split: sum.splits)
      then show ?thesis using create_exception_run [OF cr] fresh db by auto
    qed
  qed
qed

lemma record_mismatch_keeps:
  "recon.keeps (record_mismatch env m st)" "oks.keeps (record_mismatch env m st)"
proof -
  obtain active res where st: "st = (active, res)" by (cases st)
  have step: "exceptions_only (w_db w) (w_db w') \<and> (exceptions_ok (w_db w) \<longrightarrow> exceptions_ok (w_db w'))"
    if run: "record_mismatch env m st w = (r, w')" for w r w'
    using record_mismatch_run [OF run [unfolded st]]
  proof (elim disjE conjE exE)
    fix t t'
    assume fresh: "mm_ref m \<notin> open_refs (w_db w)"
      and ins: "stmt_create_exception ((exception_of m t)\<lparr>rx_detected := t'\<rparr>) (w_db w) = Inr (w_db w')"
    from ins have "exceptions_only (w_db w) (w_db w')" by (rule stmt_create_only)
    moreover have "exceptions_ok (w_db w) \<Longrightarrow> exceptions_ok (w_db w')"
      using create_exceptions_ok [OF ins] fresh by (simp add: exception_of_def)
    ultimately show ?thesis by blast
  qed (simp_all add: recon.D_refl)
  show "recon.keeps (record_mismatch env m st)"
    unfolding recon.keeps_def using step by (metis prod.collapse)
  show "oks.keeps (record_mismatch env m st)"
    unfolding oks.keeps_def using step by (metis prod.collapse)
qed

text \<open>All mismatches of a pass.\<close>

lemma record_all_Inr:
  assumes "for_each (record_mismatch env) ms (active, res) w = (Inr (active', res'), w')"
  shows "set active' = mm_ref ` set ms \<union> set active"
    "open_refs (w_db w') = mm_ref ` set ms \<union> open_refs (w_db w)"
    "\<exists>xs. exceptions (w_db w') = exceptions (w_db w) @ xs \<and>
       (\<forall>x \<in> set xs. \<exists>m \<in> set ms. recorded_row m x)"
    "rr_mismatches res' = rr_mismatches res + int (length ms)"
    "rr_created res' + rr_skipped res' = rr_created res + rr_skipped res + int (length ms)"
    "rr_resolved res' = rr_resolved res" "rr_from res' = rr_from res" "rr_to res' = rr_to res" "rr_safe res' = rr_safe res"
proof -
  have "set active' = mm_ref ` set ms \<union> set active \<and>
    open_refs (w_db w') = mm_ref ` set ms \<union> open_refs (w_db w) \<and>
    (\<exists>xs. exceptions (w_db w') = exceptions (w_db w) @ xs \<and>
       (\<forall>x \<in> set xs. \<exists>m \<in> set ms. recorded_row m x)) \<and>
    rr_mismatches res' = rr_mismatches res + int (length ms) \<and>
    rr_created res' + rr_skipped res' = rr_created res + rr_skipped res + int (length ms) \<and>
    rr_resolved res' = rr_resolved res \<and> rr_from res' = rr_from res \<and> rr_to res' = rr_to res \<and> rr_safe res' = rr_safe res"
    using assms
  proof (induction ms arbitrary: active res w)
    case Nil
    then show ?case by (auto simp: ret_def)
  next
    case (Cons m ms)
    from Cons.prems obtain st1 w1 where
      one: "record_mismatch env m (active, res) w = (Inr st1, w1)" and
      rest: "for_each (record_mismatch env) ms st1 w1 = (Inr (active', res'), w')"
      by (auto simp: bind_Inr)
    obtain a1 s1 where st1: "st1 = (a1, s1)" by (cases st1)
    note IH = Cons.IH [OF rest [unfolded st1]]
    from record_mismatch_run [OF one] st1 consider
      (old) "a1 = mm_ref m # active"
        "s1 = res\<lparr>rr_mismatches := rr_mismatches res + 1, rr_skipped := rr_skipped res + 1\<rparr>"
        "w_db w1 = w_db w" "mm_ref m \<in> open_refs (w_db w)"
    | (new) t t' where "a1 = mm_ref m # active"
        "s1 = res\<lparr>rr_mismatches := rr_mismatches res + 1, rr_created := rr_created res + 1\<rparr>"
        "stmt_create_exception ((exception_of m t)\<lparr>rx_detected := t'\<rparr>) (w_db w) = Inr (w_db w1)"
      by auto
    then show ?case
    proof cases
      case old
      then show ?thesis using IH by auto
    next
      case (new t t')
      have open1: "open_refs (w_db w1) = insert (mm_ref m) (open_refs (w_db w))"
        using create_open_refs [OF new(3)] by (simp add: exception_of_def is_open_def)
      obtain x where x: "exceptions (w_db w1) = exceptions (w_db w) @ [x]" "recorded_row m x"
        using create_exception_row [OF new(3)] by blast
      from IH obtain xs where xs: "exceptions (w_db w') = exceptions (w_db w1) @ xs"
          "\<forall>x \<in> set xs. \<exists>m \<in> set ms. recorded_row m x"
        by blast
      then have "exceptions (w_db w') = exceptions (w_db w) @ (x # xs)" using x by simp
      moreover have "\<forall>y \<in> set (x # xs). \<exists>m' \<in> set (m # ms). recorded_row m' y"
        using xs(2) x(2) by auto
      ultimately show ?thesis using IH new(1,2) open1 by auto
    qed
  qed
  then show "set active' = mm_ref ` set ms \<union> set active"
    "open_refs (w_db w') = mm_ref ` set ms \<union> open_refs (w_db w)"
    "\<exists>xs. exceptions (w_db w') = exceptions (w_db w) @ xs \<and>
       (\<forall>x \<in> set xs. \<exists>m \<in> set ms. recorded_row m x)"
    "rr_mismatches res' = rr_mismatches res + int (length ms)"
    "rr_created res' + rr_skipped res' = rr_created res + rr_skipped res + int (length ms)"
    "rr_resolved res' = rr_resolved res" "rr_from res' = rr_from res" "rr_to res' = rr_to res" "rr_safe res' = rr_safe res"
    by blast+
qed

section \<open>Resolving\<close>

lemma resolve_other_rows:
  assumes "stmt_resolve_exception i t d = Inr d'" "x \<in> set (exceptions d)" "rx_id x \<noteq> i"
  shows "x \<in> set (exceptions d')"
  using assms by (auto simp: stmt_resolve_exception_def image_iff)

lemma resolve_fixed_Inr:
  "resolve_fixed env kind lo hi t x (active, res) w = (Inr (active', res'), w') \<longleftrightarrow>
     active' = active \<and>
     (if fixed_exception kind lo hi active x
      then res' = res\<lparr>rr_resolved := rr_resolved res + 1\<rparr> \<and>
        resolve_exception env (rx_id x) t w = (Inr (), w')
      else res' = res \<and> w' = w)"
  by (auto simp: resolve_fixed_def bind_Inr wrapping_Inr ret_eq)

lemma resolve_exception_Inr:
  "resolve_exception env i t w = (Inr u, w') \<Longrightarrow> stmt_resolve_exception i t (w_db w) = Inr (w_db w')"
  by (auto simp: resolve_exception_def wrapping_Inr exec_sql_Inr)

lemma store_keeps_resolve:
  "recon.keeps (resolve_fixed env kind lo hi t x st)" "oks.keeps (resolve_fixed env kind lo hi t x st)"
  unfolding resolve_fixed_def resolve_exception_def
  by (auto intro!: recon.keeps_rules recon.keeps_exec oks.keeps_rules oks.keeps_exec
      dest: stmt_resolve_only resolve_exceptions_ok split: prod.split)

lemma resolve_all_Inr:
  assumes "for_each (resolve_fixed env kind lo hi t) xs (active, res) w = (Inr (active', res'), w')"
    "exceptions_ok (w_db w)" "\<And>x. x \<in> set xs \<Longrightarrow> x \<in> set (exceptions (w_db w)) \<and> is_open x"
    "distinct (map rx_id xs)"
  shows "open_refs (w_db w') =
      open_refs (w_db w) - rx_ref ` {x \<in> set xs. fixed_exception kind lo hi active x} \<and>
    rr_mismatches res' = rr_mismatches res \<and> rr_created res' = rr_created res \<and>
    rr_skipped res' = rr_skipped res \<and> rr_from res' = rr_from res \<and> rr_to res' = rr_to res \<and> rr_safe res' = rr_safe res"
  using assms
proof (induction xs arbitrary: res w)
  case Nil
  then show ?case by (simp add: ret_def)
next
  case (Cons x xs)
  from Cons.prems(1) obtain res1 w1 where
    one: "resolve_fixed env kind lo hi t x (active, res) w = (Inr (active, res1), w1)" and
    rest: "for_each (resolve_fixed env kind lo hi t) xs (active, res1) w1 = (Inr (active', res'), w')"
    by (auto simp: bind_Inr) (metis resolve_fixed_Inr surj_pair)
  have x: "x \<in> set (exceptions (w_db w))" "is_open x" using Cons.prems(3) [of x] by simp_all
  show ?case
  proof (cases "fixed_exception kind lo hi active x")
    case False
    then have "w1 = w" "res1 = res" using one by (simp_all add: resolve_fixed_Inr)
    then have "open_refs (w_db w') =
        open_refs (w_db w) - rx_ref ` {x \<in> set xs. fixed_exception kind lo hi active x} \<and>
      rr_mismatches res' = rr_mismatches res \<and> rr_created res' = rr_created res \<and>
      rr_skipped res' = rr_skipped res \<and> rr_from res' = rr_from res \<and> rr_to res' = rr_to res \<and> rr_safe res' = rr_safe res"
      using Cons.IH [OF rest] Cons.prems(2-4) by simp
    moreover have "{y \<in> set (x # xs). fixed_exception kind lo hi active y} =
        {y \<in> set xs. fixed_exception kind lo hi active y}" using False by auto
    ultimately show ?thesis by simp
  next
    case True
    then have res1: "res1 = res\<lparr>rr_resolved := rr_resolved res + 1\<rparr>"
      and st: "stmt_resolve_exception (rx_id x) t (w_db w) = Inr (w_db w1)"
      using one resolve_exception_Inr by (auto simp: resolve_fixed_Inr)
    have ok1: "exceptions_ok (w_db w1)" using resolve_exceptions_ok [OF st Cons.prems(2)] .
    have rows: "y \<in> set (exceptions (w_db w1)) \<and> is_open y" if "y \<in> set xs" for y
    proof -
      have "rx_id y \<noteq> rx_id x" using Cons.prems(4) imageI [OF that, of rx_id] by auto
      then show ?thesis using resolve_other_rows [OF st] Cons.prems(3) [of y] that by simp
    qed
    have "open_refs (w_db w') =
        open_refs (w_db w1) - rx_ref ` {x \<in> set xs. fixed_exception kind lo hi active x} \<and>
      rr_mismatches res' = rr_mismatches res1 \<and> rr_created res' = rr_created res1 \<and>
      rr_skipped res' = rr_skipped res1 \<and> rr_from res' = rr_from res1 \<and> rr_to res' = rr_to res1 \<and> rr_safe res' = rr_safe res1"
      using Cons.IH [OF rest ok1 rows] Cons.prems(4) by simp
    moreover have "open_refs (w_db w1) = open_refs (w_db w) - {rx_ref x}"
      using resolve_open_refs [OF st Cons.prems(2) x] .
    moreover have "{y \<in> set (x # xs). fixed_exception kind lo hi active y} =
        insert x {y \<in> set xs. fixed_exception kind lo hi active y}" using True by auto
    ultimately show ?thesis using res1 by auto
  qed
qed

text \<open>Resolving opens nothing: the open rows afterwards were open rows before.\<close>

definition open_rows :: "database \<Rightarrow> exception_row set" where
  "open_rows d = {x \<in> set (exceptions d). is_open x}"

lemma open_refs_rows: "open_refs d = rx_ref ` open_rows d"
  by (auto simp: open_refs_def open_rows_def)

lemma resolve_open_rows:
  "stmt_resolve_exception i t d = Inr d' \<Longrightarrow> open_rows d' \<subseteq> open_rows d"
  by (auto simp: stmt_resolve_exception_def open_rows_def is_open_def split: if_splits)

lemma resolve_all_rows:
  "for_each (resolve_fixed env kind lo hi t) xs (active, res) w = (Inr (active', res'), w') \<Longrightarrow>
     open_rows (w_db w') \<subseteq> open_rows (w_db w)"
proof (induction xs arbitrary: res w)
  case (Cons x xs)
  from Cons.prems obtain res1 w1 where
    one: "resolve_fixed env kind lo hi t x (active, res) w = (Inr (active, res1), w1)" and
    rest: "for_each (resolve_fixed env kind lo hi t) xs (active, res1) w1 = (Inr (active', res'), w')"
    by (auto simp: bind_Inr) (metis resolve_fixed_Inr surj_pair)
  have "open_rows (w_db w1) \<subseteq> open_rows (w_db w)"
    using one resolve_open_rows resolve_exception_Inr by (fastforce simp: resolve_fixed_Inr split: if_splits)
  then show ?case using Cons.IH [OF rest] by blast
qed (simp add: ret_def)

text \<open>Known mismatches are only counted; when nothing is fixed, nothing is written.\<close>

lemma record_all_known:
  assumes "for_each (record_mismatch env) ms (active, res) w = (Inr (active', res'), w')"
    "mm_ref ` set ms \<subseteq> open_refs (w_db w)"
  shows "w_db w' = w_db w \<and> rr_created res' = rr_created res"
  using assms
proof (induction ms arbitrary: active res w)
  case (Cons m ms)
  from Cons.prems(1) obtain st1 w1 where
    one: "record_mismatch env m (active, res) w = (Inr st1, w1)" and
    rest: "for_each (record_mismatch env) ms st1 w1 = (Inr (active', res'), w')"
    by (auto simp: bind_Inr)
  have "w_db w1 = w_db w" "st1 = (mm_ref m # active,
      res\<lparr>rr_mismatches := rr_mismatches res + 1, rr_skipped := rr_skipped res + 1\<rparr>)"
    using record_mismatch_run [OF one] Cons.prems(2) by auto
  then show ?case using Cons.IH [of _ _ w1] rest Cons.prems(2) by simp
qed (simp add: ret_def)

lemma resolve_none:
  assumes "for_each (resolve_fixed env kind lo hi t) xs (active, res) w = (Inr (active', res'), w')"
    "\<And>x. x \<in> set xs \<Longrightarrow> \<not> fixed_exception kind lo hi active x"
  shows "w' = w \<and> res' = res"
  using assms
  by (induction xs) (auto simp: bind_Inr resolve_fixed_def ret_eq)

text \<open>The same for runs that fail half-way.\<close>

lemma bind_cases:
  assumes "bind_go m f w = (q, w')"
  obtains (failed) e where "m w = (Inl e, w')" "q = Inl e"
  | (went) x w1 where "m w = (Inr x, w1)" "f x w1 = (q, w')"
  using assms by (auto simp: bind_go_def split: sum.splits prod.splits)

lemma wrapping_runs: "wrapping s m w = (q, w') \<Longrightarrow> \<exists>q0. m w = (q0, w')"
  by (auto simp: wrapping_def split: sum.splits prod.splits)

definition only_reported :: "mismatch list \<Rightarrow> database \<Rightarrow> database \<Rightarrow> bool" where
  "only_reported ms d d' \<longleftrightarrow> (\<forall>x \<in> open_rows d'. x \<in> open_rows d \<or> (\<exists>m \<in> set ms. recorded_row m x))"

lemma only_reported_refl: "only_reported ms d d"
  by (simp add: only_reported_def)

lemma only_reported_trans: "only_reported ms a b \<Longrightarrow> only_reported ms b c \<Longrightarrow> only_reported ms a c"
  unfolding only_reported_def by blast

lemma record_mismatch_any:
  assumes "record_mismatch env m st w = (q, w')" "m \<in> set ms"
  shows "only_reported ms (w_db w) (w_db w')"
proof -
  obtain active res where "st = (active, res)" by (cases st)
  with assms(1) have "record_mismatch env m (active, res) w = (q, w')" by simp
  from record_mismatch_run [OF this] show ?thesis
  proof (elim disjE conjE exE)
    fix t t'
    assume "stmt_create_exception ((exception_of m t)\<lparr>rx_detected := t'\<rparr>) (w_db w) = Inr (w_db w')"
    from create_exception_row [OF this] show ?thesis
      using assms(2) by (auto simp: only_reported_def open_rows_def)
  qed (simp_all add: only_reported_refl)
qed

lemma record_all_any:
  "for_each (record_mismatch env) xs st w = (q, w') \<Longrightarrow> set xs \<subseteq> set ms \<Longrightarrow>
   only_reported ms (w_db w) (w_db w')"
proof (induction xs arbitrary: st w)
  case (Cons m xs)
  from Cons.prems(1) show ?case
    unfolding for_each.simps
  proof (cases rule: bind_cases)
    case (failed e)
    then show ?thesis using record_mismatch_any Cons.prems(2) by fastforce
  next
    case (went st1 w1)
    then have "only_reported ms (w_db w) (w_db w1)" using record_mismatch_any Cons.prems(2) by fastforce
    moreover have "only_reported ms (w_db w1) (w_db w')" using Cons.IH went Cons.prems(2) by simp
    ultimately show ?thesis by (rule only_reported_trans)
  qed
qed (simp add: ret_def only_reported_refl)

lemma resolve_fixed_any:
  "resolve_fixed env kind lo hi t x st w = (q, w') \<Longrightarrow> open_rows (w_db w') \<subseteq> open_rows (w_db w)"
  using resolve_open_rows
  by (cases st) (fastforce simp: resolve_fixed_def resolve_exception_def bind_go_def wrapping_def exec_sql_def
      ret_def split: if_splits sum.splits option.splits prod.splits)

lemma resolve_all_any:
  "for_each (resolve_fixed env kind lo hi t) xs st w = (q, w') \<Longrightarrow>
   open_rows (w_db w') \<subseteq> open_rows (w_db w)"
proof (induction xs arbitrary: st w)
  case (Cons x xs)
  from Cons.prems show ?case
    unfolding for_each.simps
  proof (cases rule: bind_cases)
    case (failed e)
    then show ?thesis using resolve_fixed_any by blast
  next
    case (went st1 w1)
    then show ?thesis using resolve_fixed_any Cons.IH by blast
  qed
qed (simp add: ret_def)

section \<open>The contract of a worker\<close>

text \<open>
  The rows a worker fetches are a function of the database, its mismatches have the kind and the
  reference prefix under which it looks for fixed exceptions, and those about an on-chain record
  carry its block. From this follows what a pass does to the open exceptions.
\<close>

definition exact_node :: "env \<Rightarrow> address \<Rightarrow> evm_log list \<Rightarrow> bool" where
  "exact_node env contract logs \<longleftrightarrow> (\<forall>n lo hi lgs. rpc_logs env n contract lo hi = Inr lgs \<longrightarrow>
     lgs = filter (\<lambda>lg. lo \<le> l_block lg \<and> l_block lg \<le> hi) logs)"

definition logs_between :: "evm_log list \<Rightarrow> u64 \<Rightarrow> u64 \<Rightarrow> evm_log list" where
  "logs_between logs lo hi = filter (\<lambda>lg. lo \<le> l_block lg \<and> l_block lg \<le> hi) logs"

text \<open>The exceptions a pass over a range may close.\<close>

definition in_scope :: "string \<Rightarrow> string \<Rightarrow> u64 \<Rightarrow> u64 \<Rightarrow> exception_row \<Rightarrow> bool" where
  "in_scope p kind lo hi x \<longleftrightarrow> prefix p (rx_ref x) \<and> prefix kind (rx_type x) \<and>
     (\<exists>b. expected_block (rx_expected x) = Some b \<and> lo \<le> b \<and> b \<le> hi)"

definition checkpoint_seen :: "reconciler \<Rightarrow> database \<Rightarrow> u64 option" where
  "checkpoint_seen r d =
     (if rc_checkpoints r then checkpoint_of d (rc_chain r) (rc_index_stream r) else None)"

definition seen_block :: "reconciler \<Rightarrow> database \<Rightarrow> u64" where
  "seen_block r d = (case checkpoint_seen r d of None \<Rightarrow> 0 | Some c \<Rightarrow> c)"

lemma indexer_checkpoint_Inr:
  "indexer_checkpoint env r what w = (Inr (cp, has), w') \<Longrightarrow>
     w_db w' = w_db w \<and> has = (checkpoint_seen r (w_db w) \<noteq> None) \<and> cp = seen_block r (w_db w)"
  by (auto simp: indexer_checkpoint_def checkpoint_seen_def seen_block_def get_checkpoint_def wrapping_Inr
      ret_eq query_sql_Inr checkpoint_of_def split: if_splits option.splits)

lemma recon_call_Inr:
  assumes "untouched.keeps op" "recon_call env r lo hi op w = (Inr x, w')"
  shows "w_db w' = w_db w \<and> (\<exists>w1. op w1 = (Inr x, w'))"
proof (cases "rc_retry r")
  case None
  then have "op w = (Inr x, w')" using assms(2) by (simp add: recon_call_def)
  then show ?thesis using untouched.keepsD [OF assms(1)] by blast
next
  case (Some p)
  then have "retry_range env p (rc_stream r) lo hi op w = (Inr x, w')"
    using assms(2) by (simp add: recon_call_def)
  from untouched.retry_range_Inr [OF untouched.keeps_keeps_err [OF assms(1)] this]
  obtain w1 where "w_db w1 = w_db w" "op w1 = (Inr x, w')" by blast
  then show ?thesis using untouched.keepsD [OF assms(1)] by metis
qed

lemma keeps_recon_call:
  "recon.keeps op \<Longrightarrow> recon.keeps (recon_call env r lo hi op)"
  "oks.keeps op \<Longrightarrow> oks.keeps (recon_call env r lo hi op)"
  unfolding recon_call_def by (auto intro: recon.keeps_retry oks.keeps_retry split: option.split)

text \<open>What a pass over \<open>[lo, cap]\<close> finds in a database, and the references it may close.\<close>

definition pass_found ::
  "reconciler \<Rightarrow> ('e, 'r) event_recon \<Rightarrow> (u64 \<Rightarrow> u64 \<Rightarrow> database \<Rightarrow> 'r list) \<Rightarrow> evm_log list
     \<Rightarrow> u64 \<Rightarrow> u64 \<Rightarrow> u64 \<Rightarrow> database \<Rightarrow> mismatch list" where
  "pass_found r k rows_of logs safe lo cap d =
     pass_mismatches k safe (checkpoint_seen r d \<noteq> None) (seen_block r d)
       (logs_between logs lo cap) (rows_of lo cap d)"

definition pass_closes :: "('e, 'r) event_recon \<Rightarrow> u64 \<Rightarrow> u64 \<Rightarrow> database \<Rightarrow> string set" where
  "pass_closes k lo cap d = rx_ref ` {x \<in> open_rows d. in_scope (er_prefix k) (er_kind k) lo cap x}"

text \<open>
  The specification of a pass as a relation between databases: the exceptions open afterwards are
  those of the mismatches found and those that were open and are out of the pass's scope.
\<close>

definition pass_spec ::
  "reconciler \<Rightarrow> ('e, 'r) event_recon \<Rightarrow> (u64 \<Rightarrow> u64 \<Rightarrow> database \<Rightarrow> 'r list) \<Rightarrow> evm_log list
     \<Rightarrow> u64 \<Rightarrow> u64 \<Rightarrow> u64 \<Rightarrow> database \<Rightarrow> recon_result \<Rightarrow> database \<Rightarrow> bool" where
  "pass_spec r k rows_of logs safe lo cap d res d' \<longleftrightarrow>
     (let ms = pass_found r k rows_of logs safe lo cap d in
      open_refs d' = mm_ref ` set ms \<union> (open_refs d - pass_closes k lo cap d) \<and>
      rr_mismatches res = int (length ms) \<and> rr_created res + rr_skipped res = int (length ms) \<and>
      rr_from res = lo \<and> rr_to res = cap \<and> rr_safe res = safe \<and>
      (\<forall>x \<in> open_rows d'. x \<in> open_rows d \<or> (\<exists>m \<in> set ms. recorded_row m x)))"

text \<open>Where the sweep starts.\<close>

definition sweep_from :: "reconciler \<Rightarrow> database \<Rightarrow> u64" where
  "sweep_from r d =
     (if rc_checkpoints r \<and> rc_stream r \<noteq> [] then
        (case checkpoint_of d (rc_chain r) (rc_stream r) of
           Some b \<Rightarrow> if b \<ge> rc_start r then b + 1 else rc_start r
         | None \<Rightarrow> rc_start r)
      else rc_start r)"

locale event_worker =
  fixes env :: env and r :: reconciler and k :: "('e, 'r) event_recon"
    and rows_of :: "u64 \<Rightarrow> u64 \<Rightarrow> database \<Rightarrow> 'r list" and block :: "'e \<Rightarrow> u64"
  assumes fetch_db: "er_fetch k lo hi w = (q, w') \<Longrightarrow> w_db w' = w_db w"
    and fetch_rows: "er_fetch k lo hi w = (Inr rows, w') \<Longrightarrow> rows = rows_of lo hi (w_db w)"
    and decode_block: "er_decode k lg = Some e \<Longrightarrow> block e = l_block lg"
    and rows_frame: "rows_of lo hi (d\<lparr>exceptions := xs\<rparr>) = rows_of lo hi d"
    and duplicate_kind: "m \<in> set (er_duplicates k rows) \<Longrightarrow>
      prefix (er_kind k) (mm_type m) \<and> prefix (er_prefix k) (mm_ref m)"
    and compare_kind: "m \<in> set (er_compare k safe has cp rows e) \<Longrightarrow>
      prefix (er_kind k) (mm_type m) \<and> prefix (er_prefix k) (mm_ref m) \<and>
      map_of (mm_expected m) ''block_number'' = Some (JNumber (uint (block e)))"
begin

lemma fetch_keeps: "recon.keeps (er_fetch k lo hi)" "oks.keeps (er_fetch k lo hi)"
  unfolding recon.keeps_def oks.keeps_def using fetch_db recon.D_refl by (metis prod.collapse)+

lemma compare_keeps:
  "recon.keeps (compare_range env r k safe lo cap)" "oks.keeps (compare_range env r k safe lo cap)"
  unfolding compare_range_def indexer_checkpoint_def get_checkpoint_def get_open_exceptions_by_prefix_def
  by (auto intro!: recon.keeps_rules oks.keeps_rules keeps_recon_call record_mismatch_keeps
      store_keeps_resolve fetch_keeps split: prod.split)

lemma range_keeps:
  "recon.keeps (reconcile_range env r k lo hi)" "oks.keeps (reconcile_range env r k lo hi)"
  unfolding reconcile_range_def Let_def
  by (auto intro!: recon.keeps_rules oks.keeps_rules keeps_recon_call compare_keeps)

lemma compare_range_phases:
  assumes "compare_range env r k safe lo cap w = (Inr res, w')" "exact_node env (rc_contract r) logs"
  obtains st st' w1 w2 w3 t opened where
    "w_db w1 = w_db w"
    "for_each (record_mismatch env) (pass_found r k rows_of logs safe lo cap (w_db w)) st w1 = (Inr st', w2)"
    "fst st = []" "rr_mismatches (snd st) = 0" "rr_created (snd st) = 0" "rr_skipped (snd st) = 0"
    "rr_from (snd st) = lo" "rr_to (snd st) = cap" "rr_safe (snd st) = safe"
    "opened = open_by_prefix (er_prefix k) (w_db w2)" "w_db w3 = w_db w2"
    "for_each (resolve_fixed env (er_kind k) lo cap t) opened st' w3 = (Inr (fst st', res), w')"
proof -
  let ?st = "\<lambda>cp logs1 (rows :: 'r list). ([] :: string list, no_result\<lparr>rr_from := lo, rr_to := cap, rr_safe := safe,
    rr_checkpoint := cp,
    rr_onchain := int (length (List.map_filter (er_decode k) (filter (\<lambda>lg. \<not> l_removed lg) logs1))),
    rr_rows := int (length rows)\<rparr>)"
  from assms(1) obtain cp has wa lgs wb rows w1 st' w2 opened w3 t st2 where
    cp: "indexer_checkpoint env r (er_checkpoint_text k) w = (Inr (cp, has), wa)" and
    lgs: "recon_call env r lo cap (get_logs env (rc_contract r) lo cap) wa = (Inr lgs, wb)" and
    rows: "er_fetch k lo cap wb = (Inr rows, w1)" and
    rec: "for_each (record_mismatch env) (pass_mismatches k safe has cp lgs rows) (?st cp lgs rows) w1 =
      (Inr st', w2)" and
    opn: "get_open_exceptions_by_prefix env (er_prefix k) w2 = (Inr opened, w3)" and
    res: "for_each (resolve_fixed env (er_kind k) lo cap t) opened st' w3 = (Inr st2, w')" "res = snd st2"
    unfolding compare_range_def by (auto simp: bind_Inr wrapping_Inr ret_eq with_now_eq)
  have dba: "w_db wa = w_db w" "has = (checkpoint_seen r (w_db w) \<noteq> None)" "cp = seen_block r (w_db w)"
    using indexer_checkpoint_Inr [OF cp] by auto
  have "w_db wb = w_db wa \<and> lgs = logs_between logs lo cap"
    using recon_call_Inr [OF untouched.keeps_call(2) lgs] assms(2)
    by (auto simp: exact_node_def logs_between_def get_logs_def rpc_eq)
  then have lgs': "w_db wb = w_db w" "lgs = logs_between logs lo cap" using dba by simp_all
  have db1: "w_db w1 = w_db w" "rows = rows_of lo cap (w_db w)"
    using fetch_db [OF rows] fetch_rows [OF rows] lgs' by simp_all
  have opn': "opened = open_by_prefix (er_prefix k) (w_db w2)" "w_db w3 = w_db w2"
    using opn by (auto simp: get_open_exceptions_by_prefix_def wrapping_Inr query_sql_Inr)
  have fst: "fst st2 = fst st'" using res(1)
  proof (induction opened arbitrary: st' w3)
    case (Cons x xs)
    then obtain s1 wx where "resolve_fixed env (er_kind k) lo cap t x st' w3 = (Inr s1, wx)"
      "for_each (resolve_fixed env (er_kind k) lo cap t) xs s1 wx = (Inr st2, w')"
      by (auto simp: bind_Inr)
    moreover from this(1) have "fst s1 = fst st'" by (cases s1; cases st') (simp add: resolve_fixed_Inr)
    ultimately show ?case using Cons.IH by metis
  qed (simp add: ret_def)
  show thesis
  proof (rule that [OF db1(1) _ _ _ _ _ _ _ _ opn'])
    show "for_each (record_mismatch env) (pass_found r k rows_of logs safe lo cap (w_db w)) (?st cp lgs rows) w1 = (Inr st', w2)"
      using rec by (simp add: pass_found_def dba(2,3) lgs'(2) db1(2))
    show "for_each (resolve_fixed env (er_kind k) lo cap t) opened st' w3 = (Inr (fst st', res), w')"
      using res fst by (metis prod.collapse)
  qed (simp_all add: no_result_def)
qed

text \<open>What a successful comparison leaves open.\<close>

lemma compare_range_Inr:
  assumes run: "compare_range env r k safe lo cap w = (Inr res, w')"
    and node: "exact_node env (rc_contract r) logs" and ok: "exceptions_ok (w_db w)"
  defines "ms \<equiv> pass_found r k rows_of logs safe lo cap (w_db w)"
  shows "open_refs (w_db w') = mm_ref ` set ms \<union> (open_refs (w_db w) - pass_closes k lo cap (w_db w))"
    "rr_mismatches res = int (length ms)" "rr_created res + rr_skipped res = int (length ms)"
    "rr_from res = lo" "rr_to res = cap" "rr_safe res = safe"
    "x \<in> open_rows (w_db w') \<Longrightarrow> x \<in> open_rows (w_db w) \<or> (\<exists>m \<in> set ms. recorded_row m x)"
proof -
  obtain st st' w1 w2 w3 t opened where
    db1: "w_db w1 = w_db w" and
    rec: "for_each (record_mismatch env) ms st w1 = (Inr st', w2)" and
    st: "fst st = []" "rr_mismatches (snd st) = 0" "rr_created (snd st) = 0" "rr_skipped (snd st) = 0"
      "rr_from (snd st) = lo" "rr_to (snd st) = cap" "rr_safe (snd st) = safe" and
    opn: "opened = open_by_prefix (er_prefix k) (w_db w2)" "w_db w3 = w_db w2" and
    res: "for_each (resolve_fixed env (er_kind k) lo cap t) opened st' w3 = (Inr (fst st', res), w')"
    using compare_range_phases [OF run node] unfolding ms_def by metis
  obtain s0 where st0: "st = ([], s0)" using st(1) by (cases st) auto
  obtain a1 s1 where st1: "st' = (a1, s1)" by (cases st')
  note rec = rec [unfolded st0 st1]
  note R = record_all_Inr [OF rec]
  have ok2: "exceptions_ok (w_db w2)"
    using oks.keepsD [OF oks.keeps_for_each [OF record_mismatch_keeps(2)] rec] ok db1 by simp
  have opened: "set opened = {x \<in> open_rows (w_db w2). prefix (er_prefix k) (rx_ref x)}"
    by (auto simp: opn(1) set_open_by_prefix open_rows_def)
  have "distinct (map rx_id opened)"
    using ok2 unfolding opn(1) open_by_prefix_def exceptions_ok_def
    by (simp add: distinct_map inj_on_def)
  then have S: "open_refs (w_db w') =
      open_refs (w_db w2) - rx_ref ` {x \<in> set opened. fixed_exception (er_kind k) lo cap a1 x} \<and>
    rr_mismatches res = rr_mismatches s1 \<and> rr_created res = rr_created s1 \<and>
    rr_skipped res = rr_skipped s1 \<and> rr_from res = rr_from s1 \<and> rr_to res = rr_to s1 \<and> rr_safe res = rr_safe s1"
    using resolve_all_Inr [OF res [unfolded st1 fst_conv]] ok2 opn(2) opened
    by (auto simp: open_rows_def)
  have act: "set a1 = mm_ref ` set ms" using R(1) by simp
  have rows: "x \<in> open_rows (w_db w) \<or> (\<exists>m \<in> set ms. recorded_row m x)" if "x \<in> open_rows (w_db w2)" for x
    using R(3) that db1 by (auto simp: open_rows_def)
  have kept: "x \<in> open_rows (w_db w2)" if "x \<in> open_rows (w_db w)" for x
    using R(3) that db1 by (auto simp: open_rows_def)
  have "rx_ref ` {x \<in> set opened. fixed_exception (er_kind k) lo cap a1 x} =
      pass_closes k lo cap (w_db w) - mm_ref ` set ms"
  proof (intro set_eqI iffI)
    fix ref assume "ref \<in> rx_ref ` {x \<in> set opened. fixed_exception (er_kind k) lo cap a1 x}"
    then obtain x where x: "ref = rx_ref x" "x \<in> set opened" "fixed_exception (er_kind k) lo cap a1 x" by blast
    then have "ref \<notin> mm_ref ` set ms" using act by (simp add: fixed_exception_def)
    moreover have "x \<in> open_rows (w_db w)"
      using rows [of x] x(1,2) opened calculation by (auto simp: recorded_row_def)
    ultimately show "ref \<in> pass_closes k lo cap (w_db w) - mm_ref ` set ms"
      using x opened by (auto simp: pass_closes_def in_scope_def fixed_exception_def split: option.splits)
  next
    fix ref assume "ref \<in> pass_closes k lo cap (w_db w) - mm_ref ` set ms"
    then obtain x where "ref = rx_ref x" "x \<in> open_rows (w_db w)" "ref \<notin> mm_ref ` set ms"
      "in_scope (er_prefix k) (er_kind k) lo cap x"
      by (auto simp: pass_closes_def)
    then show "ref \<in> rx_ref ` {x \<in> set opened. fixed_exception (er_kind k) lo cap a1 x}"
      using kept act by (auto simp: opened in_scope_def fixed_exception_def)
  qed
  then show "open_refs (w_db w') = mm_ref ` set ms \<union> (open_refs (w_db w) - pass_closes k lo cap (w_db w))"
    using S R(2) db1 by auto
  show "rr_mismatches res = int (length ms)" "rr_created res + rr_skipped res = int (length ms)"
    "rr_from res = lo" "rr_to res = cap" "rr_safe res = safe"
    using S R(4-9) st st0 by simp_all
  show "x \<in> open_rows (w_db w) \<or> (\<exists>m \<in> set ms. recorded_row m x)" if "x \<in> open_rows (w_db w')"
    using resolve_all_rows [OF res [unfolded st1 fst_conv]] that rows opn(2) by auto
qed

lemma compare_range_spec:
  assumes "compare_range env r k safe lo cap w = (Inr res, w')"
    "exact_node env (rc_contract r) logs" "exceptions_ok (w_db w)"
  shows "pass_spec r k rows_of logs safe lo cap (w_db w) res (w_db w')"
  using compare_range_Inr [OF assms] by (auto simp: pass_spec_def Let_def)

lemma latest_call:
  assumes "recon_call env r lo hi (latest_block env) w = (Inr latest, w')"
  shows "w_db w' = w_db w \<and> (\<exists>n. rpc_latest env n = Inr latest)"
  using recon_call_Inr [OF untouched.keeps_call(1) assms] by (auto simp: latest_block_def rpc_eq)

lemma reconcile_range_cases:
  assumes "reconcile_range env r k lo hi w = (Inr res, w')"
  obtains (ahead) latest n where "lo \<le> hi" "rpc_latest env n = Inr latest"
      "recon_safe_target r latest < lo" "w_db w' = w_db w"
      "res = no_result\<lparr>rr_from := lo, rr_to := hi, rr_safe := recon_safe_target r latest\<rparr>"
  | (pass) latest n w1 where "lo \<le> hi" "rpc_latest env n = Inr latest"
      "lo \<le> recon_safe_target r latest" "w_db w1 = w_db w"
      "compare_range env r k (recon_safe_target r latest) lo (min hi (recon_safe_target r latest)) w1 =
         (Inr res, w')"
proof -
  have lo: "\<not> hi < lo" using assms by (auto simp: reconcile_range_def fail_not_Inr split: if_splits)
  then have le: "lo \<le> hi" by simp
  from lo obtain latest w1 where l: "recon_call env r lo hi (latest_block env) w = (Inr latest, w1)"
    and rest: "(let safe = recon_safe_target r latest in
        if lo > safe then ret (no_result\<lparr>rr_from := lo, rr_to := hi, rr_safe := safe\<rparr>)
        else compare_range env r k safe lo (if hi > safe then safe else hi)) w1 = (Inr res, w')"
    using assms by (auto simp: reconcile_range_def bind_Inr wrapping_Inr)
  obtain n where n: "rpc_latest env n = Inr latest" and db: "w_db w1 = w_db w"
    using latest_call [OF l] by blast
  show thesis
  proof (cases "recon_safe_target r latest < lo")
    case True
    then have "w' = w1" "res = no_result\<lparr>rr_from := lo, rr_to := hi, rr_safe := recon_safe_target r latest\<rparr>"
      using rest by (simp_all add: Let_def ret_eq)
    then show thesis using ahead [OF le n True] db by simp
  next
    case False
    have "(if hi > recon_safe_target r latest then recon_safe_target r latest else hi) =
        min hi (recon_safe_target r latest)" by (auto simp: min_def)
    then have "compare_range env r k (recon_safe_target r latest) lo
        (min hi (recon_safe_target r latest)) w1 = (Inr res, w')"
      using rest False by (simp add: Let_def)
    then show thesis using pass [OF le n _ db] False by simp
  qed
qed

text \<open>The exact effect of a successful pass.\<close>

theorem range_spec:
  assumes "reconcile_range env r k lo hi w = (Inr res, w')"
    "exact_node env (rc_contract r) logs" "exceptions_ok (w_db w)"
  shows "\<exists>n latest. rpc_latest env n = Inr latest \<and>
    (let safe = recon_safe_target r latest in
     if safe < lo then w_db w' = w_db w
     else pass_spec r k rows_of logs safe lo (min hi safe) (w_db w) res (w_db w'))"
  using assms(1)
proof (cases rule: reconcile_range_cases)
  case (ahead latest n)
  then show ?thesis by (metis (full_types))
next
  case (pass latest n w1)
  then have "pass_spec r k rows_of logs (recon_safe_target r latest) lo (min hi (recon_safe_target r latest))
      (w_db w1) res (w_db w')"
    using compare_range_spec [OF pass(5) assms(2)] assms(3) by simp
  then show ?thesis using pass by (metis (full_types) not_less)
qed

text \<open>A second pass over an unchanged range writes nothing.\<close>

lemma found_frame:
  assumes "exceptions_only d d'"
  shows "pass_found r k rows_of logs safe lo cap d' = pass_found r k rows_of logs safe lo cap d"
proof -
  obtain xs where d': "d' = d\<lparr>exceptions := xs\<rparr>" using assms by (auto simp: exceptions_only_def)
  have "checkpoint_seen r d' = checkpoint_seen r d" by (simp add: checkpoint_seen_def checkpoint_of_def d')
  then show ?thesis by (simp add: pass_found_def seen_block_def d' rows_frame)
qed

lemma compare_again:
  assumes run: "compare_range env r k safe lo cap w = (Inr res, w')"
    and node: "exact_node env (rc_contract r) logs" and ok: "exceptions_ok (w_db w)"
    and same: "w_db v = w_db w'" and again: "compare_range env r k safe lo cap v = (Inr res', v')"
  shows "w_db v' = w_db v" "rr_created res' = 0" "rr_mismatches res' = rr_mismatches res"
proof -
  define ms where "ms = pass_found r k rows_of logs safe lo cap (w_db w)"
  note S = compare_range_Inr [OF run node ok, folded ms_def]
  have ms: "pass_found r k rows_of logs safe lo cap (w_db v) = ms"
    unfolding ms_def same using found_frame recon.keepsD [OF compare_keeps(1) run] by blast
  obtain st st' w1 w2 w3 t opened where
    db1: "w_db w1 = w_db v" and
    rec: "for_each (record_mismatch env) ms st w1 = (Inr st', w2)" and
    st: "fst st = []" "rr_mismatches (snd st) = 0" "rr_created (snd st) = 0" and
    opn: "opened = open_by_prefix (er_prefix k) (w_db w2)" "w_db w3 = w_db w2" and
    res: "for_each (resolve_fixed env (er_kind k) lo cap t) opened st' w3 = (Inr (fst st', res'), v')"
    using compare_range_phases [OF again node] unfolding ms by metis
  obtain s0 a1 s1 where st0: "st = ([], s0)" "st' = (a1, s1)" using st(1) by (cases st; cases st') auto
  have known: "w_db w2 = w_db v" "rr_created s1 = 0" "rr_mismatches s1 = int (length ms)" "set a1 = mm_ref ` set ms"
    using record_all_known [OF rec [unfolded st0]] record_all_Inr [OF rec [unfolded st0]] S(1) st st0 db1 same
    by auto
  have "\<not> fixed_exception (er_kind k) lo cap a1 x" if "x \<in> set opened" for x
  proof
    assume fixed: "fixed_exception (er_kind k) lo cap a1 x"
    have x: "x \<in> open_rows (w_db w')" "prefix (er_prefix k) (rx_ref x)"
      using that known(1) same by (auto simp: opn(1) set_open_by_prefix open_rows_def)
    have "rx_ref x \<notin> mm_ref ` set ms" using fixed known(4) by (simp add: fixed_exception_def)
    moreover from this have "x \<in> open_rows (w_db w)" using S(7) [OF x(1)] by (auto simp: recorded_row_def)
    then have "rx_ref x \<in> pass_closes k lo cap (w_db w)"
      using fixed x(2) by (auto simp: pass_closes_def in_scope_def fixed_exception_def split: option.splits)
    ultimately have "rx_ref x \<notin> open_refs (w_db w')" using S(1) by blast
    then show False using x(1) by (auto simp: open_refs_rows)
  qed
  from resolve_none [OF res [unfolded st0 fst_conv] this]
  have "v' = w3 \<and> res' = s1" by simp
  then show "w_db v' = w_db v" "rr_created res' = 0" "rr_mismatches res' = rr_mismatches res"
    using known opn(2) S(2) by simp_all
qed

text \<open>The sweep: where it starts, and where it leaves its cursor.\<close>

lemma sweep_start_Inr:
  "sweep_start env r w = (Inr lo, w') \<Longrightarrow> w_db w' = w_db w \<and> lo = sweep_from r (w_db w)"
  by (auto simp: sweep_start_def sweep_from_def bind_Inr wrapping_Inr ret_eq
      dest!: get_checkpoint_Inr split: if_splits)

lemma next_batch_cases:
  assumes "reconcile_next_batch env r k batch w = (Inr res, w')"
  obtains (idle) latest n where "rpc_latest env n = Inr latest"
      "recon_safe_target r latest < sweep_from r (w_db w)" "w_db w' = w_db w"
      "rr_to res = recon_safe_target r latest"
  | (swept) latest n w1 w2 where "rpc_latest env n = Inr latest"
      "sweep_from r (w_db w) \<le> recon_safe_target r latest" "w_db w1 = w_db w"
      "reconcile_range env r k (sweep_from r (w_db w))
         (sweep_end batch (recon_safe_target r latest) (sweep_from r (w_db w))) w1 = (Inr res, w2)"
      "if rc_checkpoints r \<and> rc_stream r \<noteq> [] \<and> rr_to res \<ge> sweep_from r (w_db w)
       then save_checkpoint env (rc_chain r) (rc_stream r) (rr_to res) [] w2 = (Inr (), w')
       else w' = w2"
proof -
  let ?lo = "sweep_from r (w_db w)"
  from assms obtain latest w1 lo w2 where
    latest: "latest_block env w = (Inr latest, w1)" and start: "sweep_start env r w1 = (Inr lo, w2)"
    and rest: "(if lo > recon_safe_target r latest
      then ret (no_result\<lparr>rr_from := lo, rr_to := recon_safe_target r latest, rr_safe := recon_safe_target r latest\<rparr>)
      else bind_go (reconcile_range env r k lo (sweep_end batch (recon_safe_target r latest) lo)) (\<lambda>res.
        bind_go (if rc_checkpoints r \<and> rc_stream r \<noteq> [] \<and> rr_to res \<ge> lo
          then wrapping (''reconciliation failed to advance checkpoint to '' @ dec_u64 (rr_to res))
                 (save_checkpoint env (rc_chain r) (rc_stream r) (rr_to res) [])
          else ret ()) (\<lambda>_. ret res))) w2 = (Inr res, w')"
    unfolding reconcile_next_batch_def Let_def by (auto simp: bind_Inr wrapping_Inr)
  have n: "rpc_latest env (w_tick w) = Inr latest" "w_db w1 = w_db w"
    using latest by (auto simp: latest_block_def rpc_eq)
  have lo: "lo = ?lo" "w_db w2 = w_db w" using sweep_start_Inr [OF start] n(2) by simp_all
  show thesis
  proof (cases "?lo > recon_safe_target r latest")
    case True
    then show thesis using idle [OF n(1)] rest lo by (simp add: ret_eq)
  next
    case False
    then obtain w3 where w3: "reconcile_range env r k ?lo (sweep_end batch (recon_safe_target r latest) ?lo) w2 =
        (Inr res, w3)"
      "if rc_checkpoints r \<and> rc_stream r \<noteq> [] \<and> rr_to res \<ge> ?lo
       then save_checkpoint env (rc_chain r) (rc_stream r) (rr_to res) [] w3 = (Inr (), w') else w' = w3"
      using rest unfolding lo(1) by (auto simp: bind_Inr wrapping_Inr ret_eq split: if_splits)
    then show thesis using swept [OF n(1) _ lo(2)] False by simp
  qed
qed

text \<open>Whatever happens during a pass, it opens only exceptions for mismatches that are there.\<close>

lemma compare_range_any:
  assumes "compare_range env r k safe lo cap w = (q, w')" "exact_node env (rc_contract r) logs"
  shows "only_reported (pass_found r k rows_of logs safe lo cap (w_db w)) (w_db w) (w_db w')"
proof -
  let ?ms = "pass_found r k rows_of logs safe lo cap (w_db w)"
  let ?ok = "\<lambda>w1. only_reported ?ms (w_db w) (w_db w1)"
  have cp: "untouched.keeps (indexer_checkpoint env r what)" for what
    unfolding indexer_checkpoint_def get_checkpoint_def by (auto intro!: untouched.keeps_rules)
  have call: "untouched.keeps (recon_call env r lo cap (get_logs env (rc_contract r) lo cap))"
    unfolding recon_call_def by (auto intro!: untouched.keeps_retry_rules split: option.split)
  have opn: "untouched.keeps (get_open_exceptions_by_prefix env p)" for p
    unfolding get_open_exceptions_by_prefix_def by (auto intro!: untouched.keeps_rules)
  from assms(1) show ?thesis
    unfolding compare_range_def
  proof (cases rule: bind_cases)
    case (failed e)
    then show ?thesis using untouched.keepsD [OF cp] by (metis only_reported_refl)
  next
    case (went y wa)
    obtain cp1 has where y: "y = (cp1, has)" by (cases y)
    have a: "w_db wa = w_db w" "has = (checkpoint_seen r (w_db w) \<noteq> None)" "cp1 = seen_block r (w_db w)"
      using indexer_checkpoint_Inr went(1) y by auto
    from went(2) [unfolded y prod.case] show ?thesis
    proof (cases rule: bind_cases)
      case (failed e)
      then show ?thesis using untouched.keepsD [OF untouched.keeps_wrapping [OF call]] a(1)
        by (metis only_reported_refl)
    next
      case (went lgs wb)
      then have "recon_call env r lo cap (get_logs env (rc_contract r) lo cap) wa = (Inr lgs, wb)"
        by (simp add: wrapping_Inr)
      from recon_call_Inr [OF untouched.keeps_call(2) this]
      have b: "w_db wb = w_db w" "lgs = logs_between logs lo cap"
        using assms(2) a(1) by (auto simp: exact_node_def logs_between_def get_logs_def rpc_eq)
      from went(2) show ?thesis
      proof (cases rule: bind_cases)
        case (failed e)
        from wrapping_runs [OF failed(1)] obtain q0 where "er_fetch k lo cap wb = (q0, w')" by blast
        from fetch_db [OF this] show ?thesis using b(1) by (simp add: only_reported_refl)
      next
        case (went rows wc)
        then have f: "er_fetch k lo cap wb = (Inr rows, wc)" by (simp add: wrapping_Inr)
        have c: "w_db wc = w_db w" "rows = rows_of lo cap (w_db w)"
          using fetch_db [OF f] fetch_rows [OF f] b(1) by simp_all
        have ms: "pass_mismatches k safe has cp1 lgs rows = ?ms"
          by (simp add: pass_found_def a(2,3) b(2) c(2))
        from went(2) [unfolded ms] show ?thesis
        proof (cases rule: bind_cases)
          case (failed e)
          then show ?thesis using record_all_any [OF failed(1) subset_refl] c(1) by simp
        next
          case (went st wd)
          have d: "?ok wd" using record_all_any [OF went(1) subset_refl] c(1) by simp
          from went(2) show ?thesis
          proof (cases rule: bind_cases)
            case (failed e)
            then show ?thesis using untouched.keepsD [OF untouched.keeps_wrapping [OF opn]] d by metis
          next
            case (went opened we)
            have e: "?ok we" using untouched.keepsD [OF untouched.keeps_wrapping [OF opn] went(1)] d by simp
            from went(2) have "\<exists>t q1. for_each (resolve_fixed env (er_kind k) lo cap t) opened st we = (q1, w')"
            proof (cases rule: bind_cases)
              case (failed e)
              then show ?thesis unfolding with_now_eq by blast
            next
              case (went st' w1)
              then show ?thesis unfolding with_now_eq by (auto simp: ret_eq)
            qed
            then obtain t q1 where "for_each (resolve_fixed env (er_kind k) lo cap t) opened st we = (q1, w')"
              by blast
            from resolve_all_any [OF this] show ?thesis using e by (auto simp: only_reported_def)
          qed
        qed
      qed
    qed
  qed
qed

theorem range_sound:
  assumes "reconcile_range env r k lo hi w = (q, w')" "exact_node env (rc_contract r) logs"
    "x \<in> open_rows (w_db w')"
  shows "x \<in> open_rows (w_db w) \<or>
    (\<exists>n latest. rpc_latest env n = Inr latest \<and> lo \<le> recon_safe_target r latest \<and>
      (\<exists>m \<in> set (pass_found r k rows_of logs (recon_safe_target r latest) lo
                   (min hi (recon_safe_target r latest)) (w_db w)). recorded_row m x))"
proof -
  have call: "untouched.keeps (recon_call env r lo hi (latest_block env))"
    unfolding recon_call_def by (auto intro!: untouched.keeps_retry_rules split: option.split)
  show ?thesis
  proof (cases "lo > hi")
    case True
    then show ?thesis using assms by (auto simp: reconcile_range_def fail_def)
  next
    case False
    then have "bind_go (wrapping ''reconciliation failed to get latest block from RPC''
        (recon_call env r lo hi (latest_block env))) (\<lambda>latest.
        let safe = recon_safe_target r latest in
        if lo > safe then ret (no_result\<lparr>rr_from := lo, rr_to := hi, rr_safe := safe\<rparr>)
        else compare_range env r k safe lo (if hi > safe then safe else hi)) w = (q, w')"
      using assms(1) by (simp add: reconcile_range_def)
    then show ?thesis
    proof (cases rule: bind_cases)
      case (failed e)
      then show ?thesis using untouched.keepsD [OF untouched.keeps_wrapping [OF call]] assms(3) by metis
    next
      case (went latest w1)
      have l: "w_db w1 = w_db w" "\<exists>n. rpc_latest env n = Inr latest"
        using latest_call went(1) by (auto simp: wrapping_Inr)
      have cap: "(if hi > s then s else hi) = min hi s" for s :: u64 by (auto simp: min_def)
      show ?thesis
      proof (cases "lo > recon_safe_target r latest")
        case True
        then show ?thesis using went(2) l(1) assms(3) by (auto simp: Let_def ret_def)
      next
        case False
        then have "compare_range env r k (recon_safe_target r latest) lo
            (min hi (recon_safe_target r latest)) w1 = (q, w')"
          using went(2) by (simp add: Let_def cap)
        from compare_range_any [OF this assms(2)] show ?thesis
          using assms(3) l False unfolding only_reported_def by (metis not_less)
      qed
    qed
  qed
qed

lemma range_again:
  assumes run: "reconcile_range env r k lo hi w = (Inr res, v)" and again: "reconcile_range env r k lo hi v = (Inr res', v')"
    and node: "exact_node env (rc_contract r) logs" and ok: "exceptions_ok (w_db w)"
    and head: "\<And>n l. rpc_latest env n = Inr l \<Longrightarrow> l = latest"
  shows "w_db v' = w_db v \<and> rr_created res' = 0 \<and> rr_mismatches res' = rr_mismatches res"
  using again
proof (cases rule: reconcile_range_cases)
  case (ahead l n)
  have "rr_mismatches res = 0"
    using run
  proof (cases rule: reconcile_range_cases)
    case (pass l' n' w1)
    then show ?thesis using ahead head [of n l] head [of n' l'] by simp
  qed (simp add: no_result_def)
  then show ?thesis using ahead by (simp add: no_result_def)
next
  case (pass l n v1)
  from run show ?thesis
  proof (cases rule: reconcile_range_cases)
    case (ahead l' n')
    then show ?thesis using pass head [of n l] head [of n' l'] by simp
  next
    case (pass l' n' w1)
    have l: "l = latest" "l' = latest" using head \<open>rpc_latest env n = Inr l\<close> pass(2) by blast+
    have ok1: "exceptions_ok (w_db w1)" using ok pass(4) by simp
    have "compare_range env r k (recon_safe_target r l') lo (min hi (recon_safe_target r l')) v1 = (Inr res', v')"
      using \<open>compare_range env r k (recon_safe_target r l) lo (min hi (recon_safe_target r l)) v1 = (Inr res', v')\<close>
      by (simp only: l)
    note A = compare_again [OF pass(5) node ok1 \<open>w_db v1 = w_db v\<close> this]
    show ?thesis using A \<open>w_db v1 = w_db v\<close> by simp
  qed
qed

end

text \<open>
  What a sweep may write: the exceptions, and the cursor of its own stream.
\<close>

definition bookkeeping :: "int \<Rightarrow> string \<Rightarrow> database \<Rightarrow> database \<Rightarrow> bool" where
  "bookkeeping chain stream d d' \<longleftrightarrow>
     d'\<lparr>exceptions := [], sync_checkpoints := []\<rparr> = d\<lparr>exceptions := [], sync_checkpoints := []\<rparr> \<and>
     (\<forall>c s. (c, s) \<noteq> (chain, stream) \<longrightarrow> checkpoint_of d' c s = checkpoint_of d c s)"

interpretation books: db_relation "bookkeeping chain stream" for chain stream
proof
  show "bookkeeping chain stream d d" for d
    by (simp add: bookkeeping_def)
  show "bookkeeping chain stream a c" if "bookkeeping chain stream a b" "bookkeeping chain stream b c" for a b c
    using that by (auto simp: bookkeeping_def)
qed

lemma exceptions_book: "exceptions_only d d' \<Longrightarrow> bookkeeping chain stream d d'"
  by (auto simp: exceptions_only_def bookkeeping_def checkpoint_of_def)

lemma recon_books: "recon.keeps m \<Longrightarrow> books.keeps chain stream m"
  unfolding recon.keeps_def books.keeps_def using exceptions_book by blast

lemma checkpoint_books: "books.keeps chain stream (save_checkpoint env chain stream b h)"
proof -
  have "bookkeeping chain stream d d'" if "stmt_checkpoint (checkpoint_row_of chain stream b h) d = Inr d'" for d d'
    using that stmt_checkpoint_find [OF that]
    by (auto simp: bookkeeping_def stmt_checkpoint_def split: if_splits)
  then show ?thesis unfolding save_checkpoint_def
    by (auto intro!: books.keeps_wrapping books.keeps_exec)
qed

lemma checkpoint_oks: "oks.keeps (save_checkpoint env chain stream b h)"
proof -
  have "exceptions_ok d \<Longrightarrow> exceptions_ok d'" if "stmt_checkpoint (checkpoint_row_of chain stream b h) d = Inr d'" for d d'
    using that by (auto simp: stmt_checkpoint_def exceptions_ok_def split: if_splits)
  then show ?thesis unfolding save_checkpoint_def
    by (auto intro!: oks.keeps_wrapping oks.keeps_exec)
qed

context event_worker
begin

lemma next_batch_keeps:
  "books.keeps (rc_chain r) (rc_stream r) (reconcile_next_batch env r k batch)"
  "oks.keeps (reconcile_next_batch env r k batch)"
  unfolding reconcile_next_batch_def sweep_start_def get_checkpoint_def Let_def
  by (auto intro!: books.keeps_rules oks.keeps_rules recon_books [OF range_keeps(1)] range_keeps(2) checkpoint_books checkpoint_oks
      split: prod.split)

end

end
