(* ===== verification/Event_Workers.thy ===== *)
theory Event_Workers
  imports Reconciler_Facts Payroll_Projection
begin

text \<open>
  The three event workers of \<open>internal/reconciliation\<close>: \<open>payroll_worker.go\<close> (fundings),
  \<open>salary_claim_worker.go\<close> (claims) and \<open>token_transfer_worker.go\<close> (transfers): constructors,
  decoding into on-chain records, duplicate and field comparison with the documents of every
  mismatch. Each is interpreted as an \<open>event_worker\<close>.
\<close>

section \<open>Shared parts\<close>

definition event_ref :: "env \<Rightarrow> int \<Rightarrow> hash \<Rightarrow> u64 \<Rightarrow> string \<Rightarrow> string" where
  "event_ref env chain tx i what =
     dec_int chain @ '':'' @ hash_hex env tx @ '':'' @ dec_u64 i @ '':'' @ what"

definition event_fields :: "env \<Rightarrow> int \<Rightarrow> hash \<Rightarrow> u64 \<Rightarrow> u64 \<Rightarrow> (string \<times> json) list" where
  "event_fields env chain tx i b =
     [(''chain_id'', JNumber chain), (''tx_hash'', JString (hash_hex env tx)),
      (''log_index'', JNumber (uint i)), (''block_number'', JNumber (uint b))]"

text \<open>The groups of \<open>dbMap\<close> with more than one row, in the order of the map iteration.\<close>

definition duplicate_groups :: "reconciler \<Rightarrow> ('r \<Rightarrow> string) \<Rightarrow> 'r list \<Rightarrow> 'r list list" where
  "duplicate_groups r key rows =
     filter (\<lambda>g. 1 < length g)
       (map (\<lambda>k. filter (\<lambda>x. key x = k) rows) (rc_map_order r (remdups (map key rows))))"

definition differs :: "int option \<Rightarrow> int \<Rightarrow> bool" where
  "differs v i \<longleftrightarrow> v \<noteq> Some i"

definition set_recon_policy :: "retry_policy \<Rightarrow> reconciler \<Rightarrow> reconciler" where
  "set_recon_policy p r = r\<lparr>rc_retry := Some (new_retryer p)\<rparr>"

section \<open>Payroll fundings\<close>

definition new_payroll_reconciler ::
  "bool \<Rightarrow> bool \<Rightarrow> bool \<Rightarrow> bool \<Rightarrow> bool \<Rightarrow> reconciler \<Rightarrow> goerror + reconciler" where
  "new_payroll_reconciler under_test client decoder store recon r =
     (if \<not> client then Inl (new_error ''blockchain client cannot be nil'')
      else if \<not> decoder then Inl (new_error ''event decoder cannot be nil'')
      else if \<not> store then Inl (new_error ''payroll store cannot be nil'')
      else if \<not> recon then Inl (new_error ''reconciliation store cannot be nil'')
      else Inr (r\<lparr>
        rc_index_stream := (if rc_index_stream r = [] then ''monthly_payroll'' else rc_index_stream r),
        rc_stream := (if rc_stream r = [] then ''reconciliation_payroll_funding'' else rc_stream r),
        rc_retry := Some (new_retryer (default_retry_policy under_test))\<rparr>))"

record onchain_funding =
  of_tx :: hash
  of_index :: u64
  of_block :: u64
  of_employer :: address
  of_employee :: address
  of_paid :: int
  of_fee :: int
  of_credited :: int

definition funding_of_log :: "payroll_abi \<Rightarrow> env \<Rightarrow> evm_log \<Rightarrow> onchain_funding option" where
  "funding_of_log abi env lg =
     (case decode_payroll abi (hash_hex env) lg of
        Inl _ \<Rightarrow> None
      | Inr ev \<Rightarrow>
          if d_type ev \<noteq> EventPayrollFunded then None
          else
            (case d_data ev of
               PayrollFundedData e \<Rightarrow>
                 Some \<lparr>of_tx = l_tx lg, of_index = l_index lg, of_block = l_block lg,
                   of_employer = fe_employer e, of_employee = fe_employee e,
                   of_paid = big_or_zero (fe_paid e), of_fee = big_or_zero (fe_fee e),
                   of_credited = big_or_zero (fe_credited e)\<rparr>
             | _ \<Rightarrow> None))"

definition funding_key :: "env \<Rightarrow> payroll_funding \<Rightarrow> string" where
  "funding_key env x = event_key env (fm_tx x) (fm_index x)"

definition funding_duplicate :: "env \<Rightarrow> reconciler \<Rightarrow> payroll_funding list \<Rightarrow> mismatch" where
  "funding_duplicate env r recs =
     (let x = hd recs in
      \<lparr>mm_type = ''PAYROLL_FUNDING_DUPLICATE'', mm_severity = ''high'',
       mm_ref = event_ref env (rc_chain r) (fm_tx x) (fm_index x) ''duplicate'',
       mm_expected = (''count'', JNumber 1) #
         event_fields env (rc_chain r) (fm_tx x) (fm_index x) (fm_block x),
       mm_observed = [(''count'', JNumber (int (length recs))),
         (''record_ids'', JArray (map (\<lambda>x. JNumber (fm_id x)) recs))]\<rparr>)"

definition funding_duplicates :: "env \<Rightarrow> reconciler \<Rightarrow> payroll_funding list \<Rightarrow> mismatch list" where
  "funding_duplicates env r rows =
     map (funding_duplicate env r) (duplicate_groups r (funding_key env) rows)"

definition funding_amounts :: "int \<Rightarrow> int \<Rightarrow> int \<Rightarrow> (string \<times> json) list" where
  "funding_amounts paid fee credited =
     [(''amount_paid'', JString (dec_int paid)), (''fee'', JString (dec_int fee)),
      (''amount_credited'', JString (dec_int credited))]"

definition missing_funding :: "env \<Rightarrow> reconciler \<Rightarrow> onchain_funding \<Rightarrow> mismatch" where
  "missing_funding env r e =
     \<lparr>mm_type = ''PAYROLL_FUNDING_MISSING'', mm_severity = ''high'',
      mm_ref = event_ref env (rc_chain r) (of_tx e) (of_index e) ''missing'',
      mm_expected = event_fields env (rc_chain r) (of_tx e) (of_index e) (of_block e) @
        [(''employer'', JString (addr_hex env (of_employer e))),
         (''employee'', JString (addr_hex env (of_employee e)))] @
        funding_amounts (of_paid e) (of_fee e) (of_credited e),
      mm_observed = [(''status'', JString ''not_found'')]\<rparr>"

definition funding_entity_mismatch ::
  "env \<Rightarrow> reconciler \<Rightarrow> onchain_funding \<Rightarrow> payroll_funding \<Rightarrow> mismatch list" where
  "funding_entity_mismatch env r e x =
     (if \<not> equal_fold (addr_hex env (fm_employer x)) (addr_hex env (of_employer e)) \<or>
         \<not> equal_fold (addr_hex env (fm_employee x)) (addr_hex env (of_employee e))
      then [\<lparr>mm_type = ''PAYROLL_FUNDING_ENTITY_MISMATCH'', mm_severity = ''critical'',
        mm_ref = event_ref env (rc_chain r) (of_tx e) (of_index e) ''entity_mismatch'',
        mm_expected = event_fields env (rc_chain r) (of_tx e) (of_index e) (of_block e) @
          [(''employer'', JString (addr_hex env (of_employer e))),
           (''employee'', JString (addr_hex env (of_employee e)))],
        mm_observed = [(''employer'', JString (addr_hex env (fm_employer x))),
          (''employee'', JString (addr_hex env (fm_employee x)))]\<rparr>]
      else [])"

definition funding_amount_mismatch ::
  "env \<Rightarrow> reconciler \<Rightarrow> onchain_funding \<Rightarrow> payroll_funding \<Rightarrow> mismatch list" where
  "funding_amount_mismatch env r e x =
     (if differs (fm_paid x) (of_paid e) \<or> differs (fm_fee x) (of_fee e) \<or>
         differs (fm_credited x) (of_credited e)
      then [\<lparr>mm_type = ''PAYROLL_FUNDING_AMOUNT_MISMATCH'', mm_severity = ''high'',
        mm_ref = event_ref env (rc_chain r) (of_tx e) (of_index e) ''amount_mismatch'',
        mm_expected = event_fields env (rc_chain r) (of_tx e) (of_index e) (of_block e) @
          funding_amounts (of_paid e) (of_fee e) (of_credited e),
        mm_observed = [(''amount_paid'', JString (safe_big_text (fm_paid x))),
          (''fee'', JString (safe_big_text (fm_fee x))),
          (''amount_credited'', JString (safe_big_text (fm_credited x)))]\<rparr>]
      else [])"

definition funding_block_mismatch ::
  "env \<Rightarrow> reconciler \<Rightarrow> onchain_funding \<Rightarrow> payroll_funding \<Rightarrow> mismatch list" where
  "funding_block_mismatch env r e x =
     (if fm_block x \<noteq> of_block e
      then [\<lparr>mm_type = ''PAYROLL_FUNDING_TX_INCONSISTENCY'', mm_severity = ''medium'',
        mm_ref = event_ref env (rc_chain r) (of_tx e) (of_index e) ''tx_inconsistency'',
        mm_expected = event_fields env (rc_chain r) (of_tx e) (of_index e) (of_block e),
        mm_observed = [(''block_number'', JNumber (uint (fm_block x)))]\<rparr>]
      else [])"

text \<open>Step 7 of the pass: lag is no mismatch.\<close>

definition funding_compare ::
  "env \<Rightarrow> reconciler \<Rightarrow> u64 \<Rightarrow> bool \<Rightarrow> u64 \<Rightarrow> payroll_funding list \<Rightarrow> onchain_funding \<Rightarrow> mismatch list" where
  "funding_compare env r safe has cp rows e =
     (case filter (\<lambda>x. funding_key env x = event_key env (of_tx e) (of_index e)) rows of
        [] \<Rightarrow>
          if of_block e > safe then []
          else if \<not> has \<or> of_block e > cp then []
          else [missing_funding env r e]
      | x # _ \<Rightarrow>
          funding_entity_mismatch env r e x @ funding_amount_mismatch env r e x @
          funding_block_mismatch env r e x)"

definition funding_recon ::
  "payroll_abi \<Rightarrow> env \<Rightarrow> reconciler \<Rightarrow> (onchain_funding, payroll_funding) event_recon" where
  "funding_recon abi env r = \<lparr>er_decode = funding_of_log abi env,
     er_fetch = get_fundings_by_block_range env (rc_chain r),
     er_duplicates = funding_duplicates env r, er_compare = funding_compare env r,
     er_kind = ''PAYROLL_FUNDING_'', er_prefix = dec_int (rc_chain r) @ '':'',
     er_checkpoint_text = ''indexer checkpoint'', er_logs_text = ''logs'', er_rows_text = ''db records''\<rparr>"

text \<open>The methods of \<open>PayrollReconciler\<close>.\<close>

definition payroll_reconcile_range ::
  "env \<Rightarrow> payroll_abi \<Rightarrow> reconciler \<Rightarrow> u64 \<Rightarrow> u64 \<Rightarrow> recon_result go" where
  "payroll_reconcile_range env abi r = reconcile_range env r (funding_recon abi env r)"

definition payroll_reconcile_recent_window ::
  "env \<Rightarrow> payroll_abi \<Rightarrow> reconciler \<Rightarrow> u64 \<Rightarrow> recon_result go" where
  "payroll_reconcile_recent_window env abi r = reconcile_recent_window env r (funding_recon abi env r)"

definition payroll_reconcile_next_batch ::
  "env \<Rightarrow> payroll_abi \<Rightarrow> reconciler \<Rightarrow> u64 \<Rightarrow> recon_result go" where
  "payroll_reconcile_next_batch env abi r = reconcile_next_batch env r (funding_recon abi env r)"

lemma event_ref_prefix: "prefix (dec_int chain @ '':'') (event_ref env chain tx i what)"
  by (simp add: event_ref_def)

lemma event_fields_block: "map_of (event_fields env chain tx i b @ rest) ''block_number'' = Some (JNumber (uint b))"
  by (simp add: event_fields_def)

interpretation funding: event_worker env r "funding_recon abi env r"
  "fundings_in_range (rc_chain r)" of_block for abi env r
proof
  show "w_db w' = w_db w" if "er_fetch (funding_recon abi env r) lo hi w = (q, w')" for lo hi w q w'
    using wrapping_runs [OF that [unfolded funding_recon_def event_recon.simps get_fundings_by_block_range_def]]
      query_sql_db by blast
  show "rows = fundings_in_range (rc_chain r) lo hi (w_db w)"
    if "er_fetch (funding_recon abi env r) lo hi w = (Inr rows, w')" for lo hi w rows w'
    using that by (simp add: funding_recon_def get_fundings_by_block_range_def wrapping_Inr query_sql_Inr)
  show "of_block e = l_block lg" if "er_decode (funding_recon abi env r) lg = Some e" for lg e
    using that by (auto simp: funding_recon_def funding_of_log_def split: sum.splits if_splits payroll_data.splits)
  show "fundings_in_range (rc_chain r) lo hi (d\<lparr>exceptions := xs\<rparr>) = fundings_in_range (rc_chain r) lo hi d"
    for lo hi d xs by (simp add: fundings_in_range_def)
  show "prefix (er_kind (funding_recon abi env r)) (mm_type m) \<and> prefix (er_prefix (funding_recon abi env r)) (mm_ref m)"
    if "m \<in> set (er_duplicates (funding_recon abi env r) rows)" for m rows
    using that event_ref_prefix
    by (auto simp: funding_recon_def funding_duplicates_def funding_duplicate_def Let_def)
  show "prefix (er_kind (funding_recon abi env r)) (mm_type m) \<and>
      prefix (er_prefix (funding_recon abi env r)) (mm_ref m) \<and>
      map_of (mm_expected m) ''block_number'' = Some (JNumber (uint (of_block e)))"
    if "m \<in> set (er_compare (funding_recon abi env r) safe has cp rows e)" for m safe has cp rows e
    using that event_ref_prefix event_fields_block [where rest = "[]"] event_fields_block
    by (auto simp: funding_recon_def funding_compare_def missing_funding_def funding_entity_mismatch_def
        funding_amount_mismatch_def funding_block_mismatch_def split: list.splits if_splits)
qed

section \<open>Salary claims\<close>

definition new_claim_reconciler ::
  "bool \<Rightarrow> bool \<Rightarrow> bool \<Rightarrow> bool \<Rightarrow> bool \<Rightarrow> reconciler \<Rightarrow> goerror + reconciler" where
  "new_claim_reconciler under_test client decoder store recon r =
     (if \<not> client then Inl (new_error ''blockchain client cannot be nil'')
      else if \<not> decoder then Inl (new_error ''event decoder cannot be nil'')
      else if \<not> store then Inl (new_error ''salary claim store cannot be nil'')
      else if \<not> recon then Inl (new_error ''reconciliation store cannot be nil'')
      else Inr (r\<lparr>
        rc_index_stream := (if rc_index_stream r = [] then ''monthly_payroll'' else rc_index_stream r),
        rc_stream := (if rc_stream r = [] then ''reconciliation_salary_claim'' else rc_stream r),
        rc_retry := Some (new_retryer (default_retry_policy under_test))\<rparr>))"

record onchain_claim =
  oc_tx :: hash
  oc_index :: u64
  oc_block :: u64
  oc_employee :: address
  oc_amount :: int

definition claim_of_log :: "payroll_abi \<Rightarrow> env \<Rightarrow> evm_log \<Rightarrow> onchain_claim option" where
  "claim_of_log abi env lg =
     (case decode_payroll abi (hash_hex env) lg of
        Inl _ \<Rightarrow> None
      | Inr ev \<Rightarrow>
          if d_type ev \<noteq> EventSalaryClaimed then None
          else
            (case d_data ev of
               SalaryClaimedData e \<Rightarrow>
                 Some \<lparr>oc_tx = l_tx lg, oc_index = l_index lg, oc_block = l_block lg,
                   oc_employee = ce_employee e, oc_amount = big_or_zero (ce_amount e)\<rparr>
             | _ \<Rightarrow> None))"

definition claim_key :: "env \<Rightarrow> salary_claim \<Rightarrow> string" where
  "claim_key env x = event_key env (cm_tx x) (cm_index x)"

definition claim_duplicate :: "env \<Rightarrow> reconciler \<Rightarrow> salary_claim list \<Rightarrow> mismatch" where
  "claim_duplicate env r recs =
     (let x = hd recs in
      \<lparr>mm_type = ''SALARY_CLAIM_DUPLICATE'', mm_severity = ''high'',
       mm_ref = event_ref env (rc_chain r) (cm_tx x) (cm_index x) ''duplicate'',
       mm_expected = (''count'', JNumber 1) #
         event_fields env (rc_chain r) (cm_tx x) (cm_index x) (cm_block x),
       mm_observed = [(''count'', JNumber (int (length recs))),
         (''record_ids'', JArray (map (\<lambda>x. JNumber (cm_id x)) recs))]\<rparr>)"

definition claim_duplicates :: "env \<Rightarrow> reconciler \<Rightarrow> salary_claim list \<Rightarrow> mismatch list" where
  "claim_duplicates env r rows =
     map (claim_duplicate env r) (duplicate_groups r (claim_key env) rows)"

definition claim_fields :: "env \<Rightarrow> reconciler \<Rightarrow> onchain_claim \<Rightarrow> (string \<times> json) list" where
  "claim_fields env r e = event_fields env (rc_chain r) (oc_tx e) (oc_index e) (oc_block e) @
     [(''employee'', JString (addr_hex env (oc_employee e)))]"

definition missing_claim :: "env \<Rightarrow> reconciler \<Rightarrow> onchain_claim \<Rightarrow> mismatch" where
  "missing_claim env r e =
     \<lparr>mm_type = ''SALARY_CLAIM_MISSING'', mm_severity = ''high'',
      mm_ref = event_ref env (rc_chain r) (oc_tx e) (oc_index e) ''missing'',
      mm_expected = claim_fields env r e @ [(''amount'', JString (dec_int (oc_amount e)))],
      mm_observed = [(''status'', JString ''not_found'')]\<rparr>"

definition claim_mismatches :: "env \<Rightarrow> reconciler \<Rightarrow> onchain_claim \<Rightarrow> salary_claim \<Rightarrow> mismatch list" where
  "claim_mismatches env r e x =
     (if \<not> equal_fold (addr_hex env (cm_employee x)) (addr_hex env (oc_employee e))
      then [\<lparr>mm_type = ''SALARY_CLAIM_ENTITY_MISMATCH'', mm_severity = ''critical'',
        mm_ref = event_ref env (rc_chain r) (oc_tx e) (oc_index e) ''entity_mismatch'',
        mm_expected = claim_fields env r e,
        mm_observed = [(''employee'', JString (addr_hex env (cm_employee x)))]\<rparr>]
      else []) @
     (if differs (cm_amount x) (oc_amount e)
      then [\<lparr>mm_type = ''SALARY_CLAIM_AMOUNT_MISMATCH'', mm_severity = ''high'',
        mm_ref = event_ref env (rc_chain r) (oc_tx e) (oc_index e) ''amount_mismatch'',
        mm_expected = claim_fields env r e @ [(''amount'', JString (dec_int (oc_amount e)))],
        mm_observed = [(''amount'', JString (safe_big_text (cm_amount x)))]\<rparr>]
      else []) @
     (if cm_block x \<noteq> oc_block e
      then [\<lparr>mm_type = ''SALARY_CLAIM_TX_INCONSISTENCY'', mm_severity = ''medium'',
        mm_ref = event_ref env (rc_chain r) (oc_tx e) (oc_index e) ''tx_inconsistency'',
        mm_expected = event_fields env (rc_chain r) (oc_tx e) (oc_index e) (oc_block e),
        mm_observed = [(''block_number'', JNumber (uint (cm_block x)))]\<rparr>]
      else [])"

definition claim_compare ::
  "env \<Rightarrow> reconciler \<Rightarrow> u64 \<Rightarrow> bool \<Rightarrow> u64 \<Rightarrow> salary_claim list \<Rightarrow> onchain_claim \<Rightarrow> mismatch list" where
  "claim_compare env r safe has cp rows e =
     (case filter (\<lambda>x. claim_key env x = event_key env (oc_tx e) (oc_index e)) rows of
        [] \<Rightarrow>
          if oc_block e > safe then []
          else if \<not> has \<or> oc_block e > cp then []
          else [missing_claim env r e]
      | x # _ \<Rightarrow> claim_mismatches env r e x)"

definition claim_recon ::
  "payroll_abi \<Rightarrow> env \<Rightarrow> reconciler \<Rightarrow> (onchain_claim, salary_claim) event_recon" where
  "claim_recon abi env r = \<lparr>er_decode = claim_of_log abi env,
     er_fetch = get_claims_by_block_range env (rc_chain r),
     er_duplicates = claim_duplicates env r, er_compare = claim_compare env r,
     er_kind = ''SALARY_CLAIM_'', er_prefix = dec_int (rc_chain r) @ '':'',
     er_checkpoint_text = ''indexer checkpoint'', er_logs_text = ''logs'', er_rows_text = ''db claims''\<rparr>"

definition claim_reconcile_range ::
  "env \<Rightarrow> payroll_abi \<Rightarrow> reconciler \<Rightarrow> u64 \<Rightarrow> u64 \<Rightarrow> recon_result go" where
  "claim_reconcile_range env abi r = reconcile_range env r (claim_recon abi env r)"

definition claim_reconcile_recent_window ::
  "env \<Rightarrow> payroll_abi \<Rightarrow> reconciler \<Rightarrow> u64 \<Rightarrow> recon_result go" where
  "claim_reconcile_recent_window env abi r = reconcile_recent_window env r (claim_recon abi env r)"

definition claim_reconcile_next_batch ::
  "env \<Rightarrow> payroll_abi \<Rightarrow> reconciler \<Rightarrow> u64 \<Rightarrow> recon_result go" where
  "claim_reconcile_next_batch env abi r = reconcile_next_batch env r (claim_recon abi env r)"

interpretation claims: event_worker env r "claim_recon abi env r"
  "claims_in_range (rc_chain r)" oc_block for abi env r
proof
  show "w_db w' = w_db w" if "er_fetch (claim_recon abi env r) lo hi w = (q, w')" for lo hi w q w'
    using wrapping_runs [OF that [unfolded claim_recon_def event_recon.simps get_claims_by_block_range_def]]
      query_sql_db by blast
  show "rows = claims_in_range (rc_chain r) lo hi (w_db w)"
    if "er_fetch (claim_recon abi env r) lo hi w = (Inr rows, w')" for lo hi w rows w'
    using that by (simp add: claim_recon_def get_claims_by_block_range_def wrapping_Inr query_sql_Inr)
  show "oc_block e = l_block lg" if "er_decode (claim_recon abi env r) lg = Some e" for lg e
    using that by (auto simp: claim_recon_def claim_of_log_def split: sum.splits if_splits payroll_data.splits)
  show "claims_in_range (rc_chain r) lo hi (d\<lparr>exceptions := xs\<rparr>) = claims_in_range (rc_chain r) lo hi d"
    for lo hi d xs by (simp add: claims_in_range_def)
  show "prefix (er_kind (claim_recon abi env r)) (mm_type m) \<and> prefix (er_prefix (claim_recon abi env r)) (mm_ref m)"
    if "m \<in> set (er_duplicates (claim_recon abi env r) rows)" for m rows
    using that event_ref_prefix
    by (auto simp: claim_recon_def claim_duplicates_def claim_duplicate_def Let_def)
  show "prefix (er_kind (claim_recon abi env r)) (mm_type m) \<and>
      prefix (er_prefix (claim_recon abi env r)) (mm_ref m) \<and>
      map_of (mm_expected m) ''block_number'' = Some (JNumber (uint (oc_block e)))"
    if "m \<in> set (er_compare (claim_recon abi env r) safe has cp rows e)" for m safe has cp rows e
    using that event_ref_prefix event_fields_block [where rest = "[]"] event_fields_block
    by (auto simp: claim_recon_def claim_compare_def missing_claim_def claim_mismatches_def claim_fields_def
        split: list.splits if_splits)
qed

section \<open>Token transfers\<close>

definition token_text :: "env \<Rightarrow> reconciler \<Rightarrow> string" where
  "token_text env r = to_lower (addr_hex env (rc_contract r))"

definition new_transfer_reconciler ::
  "env \<Rightarrow> bool \<Rightarrow> bool \<Rightarrow> bool \<Rightarrow> bool \<Rightarrow> bool \<Rightarrow> reconciler \<Rightarrow> goerror + reconciler" where
  "new_transfer_reconciler env under_test client decoder store recon r =
     (if \<not> client then Inl (new_error ''blockchain client cannot be nil'')
      else if \<not> decoder then Inl (new_error ''event decoder cannot be nil'')
      else if \<not> store then Inl (new_error ''token transfer store cannot be nil'')
      else if \<not> recon then Inl (new_error ''reconciliation store cannot be nil'')
      else Inr (r\<lparr>
        rc_index_stream := (if rc_index_stream r = [] then ''erc20_transfers_'' @ token_text env r
                            else rc_index_stream r),
        rc_stream := (if rc_stream r = [] then ''reconciliation_erc20_transfers_'' @ token_text env r
                      else rc_stream r),
        rc_retry := Some (new_retryer (default_retry_policy under_test))\<rparr>))"

record onchain_transfer =
  ox_tx :: hash
  ox_index :: u64
  ox_block :: u64
  ox_from :: address
  ox_to :: address
  ox_amount :: int

text \<open>Step 4: token isolation, the topic, and decoding with the zero time.\<close>

definition transfer_of_log :: "erc20_filterer \<Rightarrow> env \<Rightarrow> reconciler \<Rightarrow> evm_log \<Rightarrow> onchain_transfer option" where
  "transfer_of_log f env r lg =
     (if \<not> equal_fold (addr_hex env (l_address lg)) (addr_hex env (rc_contract r)) then None
      else if l_topics lg = [] \<or> hd (l_topics lg) \<noteq> f_transfer_id f then None
      else
        (case decode_transfer (hash_hex env) (addr_hex env) f (rc_chain r) lg zero_time of
           Inl _ \<Rightarrow> None
         | Inr t \<Rightarrow> Some \<lparr>ox_tx = l_tx lg, ox_index = l_index lg, ox_block = l_block lg,
             ox_from = tt_from t, ox_to = tt_to t, ox_amount = tt_amount t\<rparr>))"

definition transfer_key :: "env \<Rightarrow> transfer_model \<Rightarrow> string" where
  "transfer_key env x = event_key env (xm_tx x) (xm_index x)"

definition transfer_ref :: "env \<Rightarrow> reconciler \<Rightarrow> hash \<Rightarrow> u64 \<Rightarrow> string \<Rightarrow> string" where
  "transfer_ref env r tx i what =
     dec_int (rc_chain r) @ '':'' @ token_text env r @ '':'' @ hash_hex env tx @ '':'' @ dec_u64 i @ '':'' @ what"

definition transfer_fields :: "env \<Rightarrow> reconciler \<Rightarrow> hash \<Rightarrow> u64 \<Rightarrow> u64 \<Rightarrow> (string \<times> json) list" where
  "transfer_fields env r tx i b =
     (''token'', JString (token_text env r)) # event_fields env (rc_chain r) tx i b"

definition transfer_parties :: "env \<Rightarrow> address \<Rightarrow> address \<Rightarrow> (string \<times> json) list" where
  "transfer_parties env a b =
     [(''from_address'', JString (addr_hex env a)), (''to_address'', JString (addr_hex env b))]"

definition transfer_duplicate :: "env \<Rightarrow> reconciler \<Rightarrow> transfer_model list \<Rightarrow> mismatch" where
  "transfer_duplicate env r recs =
     (let x = hd recs in
      \<lparr>mm_type = ''TOKEN_TRANSFER_DUPLICATE'', mm_severity = ''high'',
       mm_ref = transfer_ref env r (xm_tx x) (xm_index x) ''duplicate'',
       mm_expected = (''count'', JNumber 1) # transfer_fields env r (xm_tx x) (xm_index x) (xm_block x),
       mm_observed = [(''count'', JNumber (int (length recs))),
         (''record_ids'', JArray (map (\<lambda>x. JNumber (xm_id x)) recs))]\<rparr>)"

text \<open>\<open>dbMap\<close> holds the rows that are not marked as removed.\<close>

definition active_transfers :: "transfer_model list \<Rightarrow> transfer_model list" where
  "active_transfers rows = filter (\<lambda>x. \<not> xm_removed x) rows"

definition transfer_duplicates :: "env \<Rightarrow> reconciler \<Rightarrow> transfer_model list \<Rightarrow> mismatch list" where
  "transfer_duplicates env r rows =
     map (transfer_duplicate env r) (duplicate_groups r (transfer_key env) (active_transfers rows))"

definition missing_transfer :: "env \<Rightarrow> reconciler \<Rightarrow> onchain_transfer \<Rightarrow> mismatch" where
  "missing_transfer env r e =
     \<lparr>mm_type = ''TOKEN_TRANSFER_MISSING'', mm_severity = ''high'',
      mm_ref = transfer_ref env r (ox_tx e) (ox_index e) ''missing'',
      mm_expected = transfer_fields env r (ox_tx e) (ox_index e) (ox_block e) @
        transfer_parties env (ox_from e) (ox_to e) @ [(''amount'', JString (dec_int (ox_amount e)))],
      mm_observed = [(''status'', JString ''not_found'')]\<rparr>"

definition transfer_mismatches :: "env \<Rightarrow> reconciler \<Rightarrow> onchain_transfer \<Rightarrow> transfer_model \<Rightarrow> mismatch list" where
  "transfer_mismatches env r e x =
     (if \<not> equal_fold (addr_hex env (xm_from x)) (addr_hex env (ox_from e)) \<or>
         \<not> equal_fold (addr_hex env (xm_to x)) (addr_hex env (ox_to e))
      then [\<lparr>mm_type = ''TOKEN_TRANSFER_ENTITY_MISMATCH'', mm_severity = ''critical'',
        mm_ref = transfer_ref env r (ox_tx e) (ox_index e) ''entity_mismatch'',
        mm_expected = transfer_fields env r (ox_tx e) (ox_index e) (ox_block e) @
          transfer_parties env (ox_from e) (ox_to e),
        mm_observed = transfer_parties env (xm_from x) (xm_to x)\<rparr>]
      else []) @
     (if differs (xm_amount x) (ox_amount e)
      then [\<lparr>mm_type = ''TOKEN_TRANSFER_AMOUNT_MISMATCH'', mm_severity = ''high'',
        mm_ref = transfer_ref env r (ox_tx e) (ox_index e) ''amount_mismatch'',
        mm_expected = transfer_fields env r (ox_tx e) (ox_index e) (ox_block e) @
          transfer_parties env (ox_from e) (ox_to e) @ [(''amount'', JString (dec_int (ox_amount e)))],
        mm_observed = [(''amount'', JString (safe_big_text (xm_amount x)))]\<rparr>]
      else []) @
     (if xm_block x \<noteq> ox_block e \<or> \<not> equal_fold (hash_hex env (xm_tx x)) (hash_hex env (ox_tx e))
      then [\<lparr>mm_type = ''TOKEN_TRANSFER_TX_INCONSISTENCY'', mm_severity = ''medium'',
        mm_ref = transfer_ref env r (ox_tx e) (ox_index e) ''tx_inconsistency'',
        mm_expected = transfer_fields env r (ox_tx e) (ox_index e) (ox_block e),
        mm_observed = [(''block_number'', JNumber (uint (xm_block x))),
          (''tx_hash'', JString (hash_hex env (xm_tx x)))]\<rparr>]
      else [])"

definition transfer_compare ::
  "env \<Rightarrow> reconciler \<Rightarrow> u64 \<Rightarrow> bool \<Rightarrow> u64 \<Rightarrow> transfer_model list \<Rightarrow> onchain_transfer \<Rightarrow> mismatch list" where
  "transfer_compare env r safe has cp rows e =
     (case filter (\<lambda>x. transfer_key env x = event_key env (ox_tx e) (ox_index e)) (active_transfers rows) of
        [] \<Rightarrow>
          if ox_block e > safe then []
          else if \<not> has \<or> ox_block e > cp then []
          else [missing_transfer env r e]
      | x # _ \<Rightarrow> transfer_mismatches env r e x)"

definition transfer_recon ::
  "erc20_filterer \<Rightarrow> env \<Rightarrow> reconciler \<Rightarrow> (onchain_transfer, transfer_model) event_recon" where
  "transfer_recon f env r = \<lparr>er_decode = transfer_of_log f env r,
     er_fetch = get_transfers_by_block_range env (rc_chain r) (rc_contract r),
     er_duplicates = transfer_duplicates env r, er_compare = transfer_compare env r,
     er_kind = ''TOKEN_TRANSFER_'',
     er_prefix = dec_int (rc_chain r) @ '':'' @ token_text env r @ '':'',
     er_checkpoint_text = ''token indexer checkpoint'', er_logs_text = ''token logs'',
     er_rows_text = ''db token transfers''\<rparr>"

definition transfer_reconcile_range ::
  "env \<Rightarrow> erc20_filterer \<Rightarrow> reconciler \<Rightarrow> u64 \<Rightarrow> u64 \<Rightarrow> recon_result go" where
  "transfer_reconcile_range env f r = reconcile_range env r (transfer_recon f env r)"

definition transfer_reconcile_recent_window ::
  "env \<Rightarrow> erc20_filterer \<Rightarrow> reconciler \<Rightarrow> u64 \<Rightarrow> recon_result go" where
  "transfer_reconcile_recent_window env f r = reconcile_recent_window env r (transfer_recon f env r)"

definition transfer_reconcile_next_batch ::
  "env \<Rightarrow> erc20_filterer \<Rightarrow> reconciler \<Rightarrow> u64 \<Rightarrow> recon_result go" where
  "transfer_reconcile_next_batch env f r = reconcile_next_batch env r (transfer_recon f env r)"

lemma transfer_ref_prefix:
  "prefix (dec_int (rc_chain r) @ '':'' @ token_text env r @ '':'') (transfer_ref env r tx i what)"
  by (simp add: transfer_ref_def)

interpretation transfers: event_worker env r "transfer_recon f env r"
  "transfers_in_range (rc_chain r) (rc_contract r)" ox_block for f env r
proof
  show "w_db w' = w_db w" if "er_fetch (transfer_recon f env r) lo hi w = (q, w')" for lo hi w q w'
    using wrapping_runs [OF that [unfolded transfer_recon_def event_recon.simps get_transfers_by_block_range_def]]
      query_sql_db by blast
  show "rows = transfers_in_range (rc_chain r) (rc_contract r) lo hi (w_db w)"
    if "er_fetch (transfer_recon f env r) lo hi w = (Inr rows, w')" for lo hi w rows w'
    using that by (simp add: transfer_recon_def get_transfers_by_block_range_def wrapping_Inr query_sql_Inr)
  show "ox_block e = l_block lg" if "er_decode (transfer_recon f env r) lg = Some e" for lg e
    using that by (auto simp: transfer_recon_def transfer_of_log_def split: sum.splits if_splits)
  show "transfers_in_range (rc_chain r) (rc_contract r) lo hi (d\<lparr>exceptions := xs\<rparr>) =
      transfers_in_range (rc_chain r) (rc_contract r) lo hi d"
    for lo hi d xs by (simp add: transfers_in_range_def)
  show "prefix (er_kind (transfer_recon f env r)) (mm_type m) \<and> prefix (er_prefix (transfer_recon f env r)) (mm_ref m)"
    if "m \<in> set (er_duplicates (transfer_recon f env r) rows)" for m rows
    using that transfer_ref_prefix
    by (auto simp: transfer_recon_def transfer_duplicates_def transfer_duplicate_def Let_def)
  show "prefix (er_kind (transfer_recon f env r)) (mm_type m) \<and>
      prefix (er_prefix (transfer_recon f env r)) (mm_ref m) \<and>
      map_of (mm_expected m) ''block_number'' = Some (JNumber (uint (ox_block e)))"
    if "m \<in> set (er_compare (transfer_recon f env r) safe has cp rows e)" for m safe has cp rows e
    using that transfer_ref_prefix event_fields_block [where rest = "[]"] event_fields_block
    by (auto simp: transfer_recon_def transfer_compare_def missing_transfer_def transfer_mismatches_def
        transfer_fields_def split: list.splits if_splits)
qed

end
