(* ===== verification/Balance_Worker.thy ===== *)
theory Balance_Worker
  imports Event_Workers "HOL-Library.Char_ord" "HOL-Library.List_Lexorder"
begin

text \<open>
  The balance worker: \<open>internal/reconciliation/balance_worker.go\<close> and the queries it uses, from
  \<open>tokens_repo.go\<close> (relevant addresses, balances derived from the stored transfers) and
  \<open>payroll_repo.go\<close> (all employers, all employees). At one target block it compares
  \<open>balanceOf\<close> of every address and the active flags of every profile with the database.
\<close>

section \<open>The queries\<close>

text \<open>\<open>LOWER(token) = LOWER($2)\<close> compares stored with given \<open>Hex\<close> texts: equality of addresses.\<close>

definition token_rows :: "int \<Rightarrow> address \<Rightarrow> u64 \<Rightarrow> database \<Rightarrow> transfer_row list" where
  "token_rows chain token b d =
     filter (\<lambda>r. tr_chain r = chain \<and> tr_token r = token \<and> tr_block r \<le> sint b) (token_transfers d)"

text \<open>
  The distinct nonzero addresses of the union of the five selects, the payroll contract, sorted by
  their lower case text.
\<close>

definition moved_addresses :: "int \<Rightarrow> address \<Rightarrow> u64 \<Rightarrow> database \<Rightarrow> address list" where
  "moved_addresses chain token b d =
     (let rows = token_rows chain token b d;
          fundings = filter (\<lambda>r. pf_chain r = chain \<and> pf_block r \<le> sint b) (payroll_fundings d);
          claims = filter (\<lambda>r. sc_chain r = chain \<and> sc_block r \<le> sint b) (salary_claims d)
      in remdups (filter (\<lambda>a. a \<noteq> 0)
           (map tr_from rows @ map tr_to rows @ map pf_employer fundings @ map pf_employee fundings @
            map sc_employee claims)))"

definition relevant_addresses ::
  "env \<Rightarrow> int \<Rightarrow> address \<Rightarrow> address \<Rightarrow> u64 \<Rightarrow> database \<Rightarrow> address list" where
  "relevant_addresses env chain token payroll b d =
     (let addrs = moved_addresses chain token b d in
      sort_key (\<lambda>a. to_lower (addr_hex env a))
        (if payroll \<noteq> 0 \<and> payroll \<notin> set addrs then addrs @ [payroll] else addrs))"

definition get_relevant_addresses ::
  "env \<Rightarrow> int \<Rightarrow> address \<Rightarrow> address \<Rightarrow> u64 \<Rightarrow> address list go" where
  "get_relevant_addresses env chain token payroll b =
     wrapping ''failed to query relevant addresses''
       (query_sql env (relevant_addresses env chain token payroll b))"

text \<open>\<open>CalculateTokenBalance\<close>: two sums over the rows that are not removed.\<close>

definition live_rows :: "int \<Rightarrow> address \<Rightarrow> u64 \<Rightarrow> database \<Rightarrow> transfer_row list" where
  "live_rows chain token b d = filter (\<lambda>r. \<not> tr_removed r) (token_rows chain token b d)"

definition token_balance :: "int \<Rightarrow> address \<Rightarrow> address \<Rightarrow> u64 \<Rightarrow> database \<Rightarrow> int" where
  "token_balance chain token a b d =
     (let rows = live_rows chain token b d in
      sum_list (map tr_amount (filter (\<lambda>r. tr_to r = a) rows)) -
      sum_list (map tr_amount (filter (\<lambda>r. tr_from r = a) rows)))"

definition calculate_token_balance ::
  "env \<Rightarrow> int \<Rightarrow> address \<Rightarrow> address \<Rightarrow> u64 \<Rightarrow> int go" where
  "calculate_token_balance env chain token a b =
     wrapping (''failed to calculate token balance for '' @ addr_hex env a)
       (query_sql env (token_balance chain token a b))"

text \<open>\<open>CalculateAllTokenBalances\<close>: one sum over the union of both directions, grouped by address.\<close>

definition movements :: "transfer_row list \<Rightarrow> (address \<times> int \<times> int) list" where
  "movements rows = map (\<lambda>r. (tr_to r, tr_amount r, 0)) rows @ map (\<lambda>r. (tr_from r, 0, tr_amount r)) rows"

definition group_balance :: "(address \<times> int \<times> int) list \<Rightarrow> address \<Rightarrow> int" where
  "group_balance ms a =
     (let g = filter (\<lambda>(x, _). x = a) ms in
      sum_list (map (\<lambda>(_, incoming, _). incoming) g) - sum_list (map (\<lambda>(_, _, outgoing). outgoing) g))"

definition all_token_balances :: "int \<Rightarrow> address \<Rightarrow> u64 \<Rightarrow> database \<Rightarrow> (address \<times> int) list" where
  "all_token_balances chain token b d =
     (let ms = filter (\<lambda>(x, _). x \<noteq> 0) (movements (live_rows chain token b d)) in
      map (\<lambda>a. (a, group_balance ms a)) (remdups (map fst ms)))"

definition calculate_all_token_balances ::
  "env \<Rightarrow> int \<Rightarrow> address \<Rightarrow> u64 \<Rightarrow> (address \<times> int) list go" where
  "calculate_all_token_balances env chain token b =
     wrapping ''failed to calculate all token balances'' (query_sql env (all_token_balances chain token b))"

text \<open>
  \<open>ORDER BY wallet\<close> sorts by the collation of the database, a parameter: the sort key of a text.
  The columns \<open>funds\<close>, \<open>total_salary_per_second\<close> and \<open>total_leaves\<close>, which the service never
  writes, are left out.
\<close>

definition list_employers :: "env \<Rightarrow> (string \<Rightarrow> string) \<Rightarrow> int \<Rightarrow> employer_row list go" where
  "list_employers env collate chain =
     wrapping ''failed to list employers''
       (query_sql env (\<lambda>d. sort_key (\<lambda>r. collate (addr_hex env (em_wallet r)))
          (filter (\<lambda>r. em_chain r = chain) (employers d))))"

definition list_employees :: "env \<Rightarrow> (string \<Rightarrow> string) \<Rightarrow> int \<Rightarrow> employee_row list go" where
  "list_employees env collate chain =
     wrapping ''failed to list employees''
       (query_sql env (\<lambda>d. sort_key (\<lambda>r. collate (addr_hex env (ee_wallet r)))
          (filter (\<lambda>r. ee_chain r = chain) (employees d))))"

section \<open>Configuration, contracts and results\<close>

text \<open>
  What \<open>abi.ABI\<close> of go-ethereum does, as parameters. \<open>balanceOf\<close> may unpack to a value that is no
  \<open>*big.Int\<close> (its \<open>%T\<close> text is kept); an output declared \<open>bool\<close> unpacks to booleans, so the
  unchecked assertion \<open>unpacked[0].(bool)\<close> does not panic.
\<close>

datatype abi_value = AbiInt int | AbiOther string

record contract_abi =
  abi_pack :: "string \<Rightarrow> address \<Rightarrow> goerror + bytes"
  abi_unpack :: "string \<Rightarrow> bytes \<Rightarrow> goerror + abi_value list"
  abi_unpack_flags :: "string \<Rightarrow> bytes \<Rightarrow> goerror + bool list"

record balance_reconciler =
  bc_chain :: int
  bc_token :: address
  bc_payroll :: address
  bc_token_stream :: string
  bc_stream :: string
  bc_depth :: u64
  bc_window :: u64
  bc_start :: u64
  bc_token_abi :: contract_abi
  bc_payroll_abi :: "contract_abi option"
  bc_states :: bool
  bc_checkpoints :: bool
  bc_retry :: "retry_policy option"
  bc_collation :: "string \<Rightarrow> string"

record balance_result =
  br_target :: u64
  br_safe :: u64
  br_checkpoint :: u64
  br_addresses :: int
  br_matched :: int
  br_contracts :: int
  br_states :: int
  br_states_matched :: int
  br_mismatches :: int
  br_created :: int
  br_resolved :: int
  br_skipped :: int

definition no_balance_result :: balance_result where
  "no_balance_result = \<lparr>br_target = 0, br_safe = 0, br_checkpoint = 0, br_addresses = 0, br_matched = 0,
     br_contracts = 0, br_states = 0, br_states_matched = 0, br_mismatches = 0, br_created = 0,
     br_resolved = 0, br_skipped = 0\<rparr>"

definition lower_hex :: "env \<Rightarrow> address \<Rightarrow> string" where
  "lower_hex env a = to_lower (addr_hex env a)"

text \<open>
  \<open>NewBalanceReconciler\<close>; the flags say which of client, token ABI, balance store and exception
  store are not nil.
\<close>

definition new_balance_reconciler ::
  "env \<Rightarrow> bool \<Rightarrow> bool \<Rightarrow> bool \<Rightarrow> bool \<Rightarrow> bool \<Rightarrow> balance_reconciler \<Rightarrow> goerror + balance_reconciler" where
  "new_balance_reconciler env under_test client token_abi store recon r =
     (if \<not> client then Inl (new_error ''blockchain client cannot be nil'')
      else if \<not> token_abi then Inl (new_error ''token ABI cannot be nil'')
      else if \<not> store then Inl (new_error ''balance store cannot be nil'')
      else if \<not> recon then Inl (new_error ''reconciliation store cannot be nil'')
      else Inr (r\<lparr>
        bc_token_stream := (if bc_token_stream r = [] then ''erc20_transfers_'' @ lower_hex env (bc_token r)
                            else bc_token_stream r),
        bc_stream := (if bc_stream r = [] then ''reconciliation_token_balance_'' @ lower_hex env (bc_token r)
                      else bc_stream r),
        bc_retry := Some (new_retryer (default_retry_policy under_test))\<rparr>))"

definition set_balance_policy :: "retry_policy \<Rightarrow> balance_reconciler \<Rightarrow> balance_reconciler" where
  "set_balance_policy p r = r\<lparr>bc_retry := Some (new_retryer p)\<rparr>"

definition call_with_retry :: "env \<Rightarrow> balance_reconciler \<Rightarrow> 'a go \<Rightarrow> 'a go" where
  "call_with_retry env r op =
     (case bc_retry r of None \<Rightarrow> op | Some p \<Rightarrow> retry_range env p (bc_stream r) 0 0 op)"

section \<open>Recording and resolving one reference\<close>

definition balance_ref :: "env \<Rightarrow> balance_reconciler \<Rightarrow> address \<Rightarrow> string" where
  "balance_ref env r a = dec_int (bc_chain r) @ '':'' @ lower_hex env (bc_token r) @ '':'' @ lower_hex env a @
     '':token_balance_mismatch''"

definition contract_ref :: "env \<Rightarrow> balance_reconciler \<Rightarrow> address \<Rightarrow> string" where
  "contract_ref env r a = dec_int (bc_chain r) @ '':'' @ lower_hex env a @ '':'' @ lower_hex env (bc_token r) @
     '':contract_balance_mismatch''"

definition state_ref :: "env \<Rightarrow> balance_reconciler \<Rightarrow> address \<Rightarrow> string \<Rightarrow> string" where
  "state_ref env r a property = dec_int (bc_chain r) @ '':'' @ lower_hex env (bc_payroll r) @ '':'' @
     lower_hex env a @ '':'' @ property @ '':state_mismatch''"

definition balance_mismatch ::
  "env \<Rightarrow> balance_reconciler \<Rightarrow> address \<Rightarrow> int \<Rightarrow> int \<Rightarrow> u64 \<Rightarrow> mismatch" where
  "balance_mismatch env r a chain_balance db_balance b =
     \<lparr>mm_type = ''TOKEN_BALANCE_MISMATCH'', mm_severity = ''high'', mm_ref = balance_ref env r a,
      mm_expected = [(''on_chain_balance'', JString (dec_int chain_balance)), (''target_block'', JNumber (uint b)),
        (''wallet'', JString (addr_hex env a)), (''token'', JString (addr_hex env (bc_token r)))],
      mm_observed = [(''db_balance'', JString (dec_int db_balance)), (''target_block'', JNumber (uint b)),
        (''wallet'', JString (addr_hex env a)), (''token'', JString (addr_hex env (bc_token r))),
        (''difference'', JString (dec_int (chain_balance - db_balance)))]\<rparr>"

definition contract_mismatch ::
  "env \<Rightarrow> balance_reconciler \<Rightarrow> address \<Rightarrow> int \<Rightarrow> int \<Rightarrow> u64 \<Rightarrow> mismatch" where
  "contract_mismatch env r a chain_balance db_balance b =
     \<lparr>mm_type = ''CONTRACT_BALANCE_MISMATCH'', mm_severity = ''high'', mm_ref = contract_ref env r a,
      mm_expected = [(''on_chain_contract_balance'', JString (dec_int chain_balance)),
        (''target_block'', JNumber (uint b)), (''contract'', JString (addr_hex env a)),
        (''token'', JString (addr_hex env (bc_token r)))],
      mm_observed = [(''db_contract_balance'', JString (dec_int db_balance)),
        (''target_block'', JNumber (uint b)), (''contract'', JString (addr_hex env a)),
        (''token'', JString (addr_hex env (bc_token r))),
        (''difference'', JString (dec_int (chain_balance - db_balance)))]\<rparr>"

definition state_mismatch ::
  "env \<Rightarrow> balance_reconciler \<Rightarrow> address \<Rightarrow> string \<Rightarrow> bool \<Rightarrow> bool \<Rightarrow> u64 \<Rightarrow> mismatch" where
  "state_mismatch env r a property chain_value db_value b =
     \<lparr>mm_type = ''CONTRACT_STATE_MISMATCH'', mm_severity = ''medium'', mm_ref = state_ref env r a property,
      mm_expected = [(''on_chain_value'', JBool chain_value), (''property'', JString property),
        (''target_block'', JNumber (uint b)), (''wallet'', JString (addr_hex env a))],
      mm_observed = [(''db_value'', JBool db_value), (''property'', JString property),
        (''target_block'', JNumber (uint b)), (''wallet'', JString (addr_hex env a))]\<rparr>"

text \<open>The three \<open>record...Mismatch\<close> methods: an open exception is skipped.\<close>

definition record_once :: "env \<Rightarrow> string \<Rightarrow> mismatch \<Rightarrow> balance_result \<Rightarrow> balance_result go" where
  "record_once env what m res =
     bind_go (wrapping ''failed checking open exception'' (get_open_exception_by_ref env (mm_ref m))) (\<lambda>existing.
     case existing of
       Some _ \<Rightarrow> ret (res\<lparr>br_skipped := br_skipped res + 1\<rparr>)
     | None \<Rightarrow>
         bind_go (with_now env (\<lambda>t. wrapping what (create_exception env (exception_of m t)))) (\<lambda>_.
         ret (res\<lparr>br_created := br_created res + 1\<rparr>)))"

text \<open>The three \<open>resolve...Exception\<close> methods return nothing: an error of the store is dropped.\<close>

definition resolve_quietly :: "env \<Rightarrow> string \<Rightarrow> balance_result \<Rightarrow> balance_result go" where
  "resolve_quietly env ref res =
     bind_go (attempt (get_open_exception_by_ref env ref)) (\<lambda>found.
     case found of
       Inr (Some x) \<Rightarrow>
         bind_go (with_now env (\<lambda>t. attempt (resolve_exception env (rx_id x) t))) (\<lambda>done.
         ret (case done of Inr _ \<Rightarrow> res\<lparr>br_resolved := br_resolved res + 1\<rparr> | Inl _ \<Rightarrow> res))
     | _ \<Rightarrow> ret res)"

section \<open>Contract calls\<close>

text \<open>The texts of the four errors of a \<open>balanceOf\<close> query; the last one takes the \<open>%T\<close> of the value.\<close>

type_synonym balance_texts = "string \<times> string \<times> string \<times> (string \<Rightarrow> string)"

definition query_balance ::
  "env \<Rightarrow> balance_reconciler \<Rightarrow> balance_texts \<Rightarrow> address \<Rightarrow> u64 \<Rightarrow> int go" where
  "query_balance env r = (\<lambda>(pack_text, unpack_text, empty_text, type_text) a b.
     case abi_pack (bc_token_abi r) ''balanceOf'' a of
       Inl e \<Rightarrow> fail (wrap_error pack_text e)
     | Inr data \<Rightarrow>
         bind_go (call_contract env (bc_token r) data b) (\<lambda>answer.
         case abi_unpack (bc_token_abi r) ''balanceOf'' answer of
           Inl e \<Rightarrow> fail (wrap_error unpack_text e)
         | Inr [] \<Rightarrow> fail (new_error empty_text)
         | Inr (AbiOther ty # _) \<Rightarrow> fail (new_error (type_text ty))
         | Inr (AbiInt i # _) \<Rightarrow> ret i))"

definition wallet_texts :: "env \<Rightarrow> address \<Rightarrow> balance_texts" where
  "wallet_texts env a =
     (''failed to pack balanceOf for '' @ addr_hex env a,
      ''failed to unpack balanceOf return for '' @ addr_hex env a,
      ''empty balanceOf return for '' @ addr_hex env a,
      \<lambda>ty. ''unexpected balanceOf return type '' @ ty @ '' for '' @ addr_hex env a)"

definition contract_texts :: balance_texts where
  "contract_texts =
     (''failed to pack balanceOf for payroll contract'', ''failed to unpack contract balanceOf return'',
      ''empty contract balanceOf return'', \<lambda>ty. ''unexpected contract balanceOf return type '' @ ty)"

definition query_flag ::
  "env \<Rightarrow> balance_reconciler \<Rightarrow> contract_abi \<Rightarrow> string \<Rightarrow> address \<Rightarrow> u64 \<Rightarrow> bool go" where
  "query_flag env r payroll method a b =
     (case abi_pack payroll method a of
        Inl e \<Rightarrow> fail e
      | Inr data \<Rightarrow>
          bind_go (call_contract env (bc_payroll r) data b) (\<lambda>answer.
          case abi_unpack_flags payroll method answer of
            Inl e \<Rightarrow> fail e
          | Inr [] \<Rightarrow> fail (new_error (''empty '' @ method @ '' return''))
          | Inr (v # _) \<Rightarrow> ret v))"

section \<open>The comparisons at one block\<close>

definition check_balance ::
  "env \<Rightarrow> balance_reconciler \<Rightarrow> u64 \<Rightarrow> (address \<times> int) list \<Rightarrow> address \<Rightarrow> balance_result \<Rightarrow> balance_result go" where
  "check_balance env r b balances a res =
     (if a = 0 then ret res
      else
        let res' = res\<lparr>br_addresses := br_addresses res + 1\<rparr>;
            db_balance = (case map_of balances a of None \<Rightarrow> 0 | Some v \<Rightarrow> v)
        in
        bind_go (wrapping (''operational error querying balanceOf('' @ addr_hex env a @ '') at block '' @ dec_u64 b)
                  (call_with_retry env r (query_balance env r (wallet_texts env a) a b))) (\<lambda>chain_balance.
        if db_balance = chain_balance
        then resolve_quietly env (balance_ref env r a) (res'\<lparr>br_matched := br_matched res' + 1\<rparr>)
        else record_once env ''failed creating token balance mismatch exception''
               (balance_mismatch env r a chain_balance db_balance b)
               (res'\<lparr>br_mismatches := br_mismatches res' + 1\<rparr>)))"

definition reconcile_balances_at_block ::
  "env \<Rightarrow> balance_reconciler \<Rightarrow> u64 \<Rightarrow> balance_result \<Rightarrow> balance_result go" where
  "reconcile_balances_at_block env r b res =
     bind_go (wrapping ''failed to discover relevant addresses''
               (get_relevant_addresses env (bc_chain r) (bc_token r) (bc_payroll r) b)) (\<lambda>addrs.
     bind_go (wrapping ''failed to calculate database token balances''
               (calculate_all_token_balances env (bc_chain r) (bc_token r) b)) (\<lambda>balances.
     for_each (check_balance env r b balances) addrs res))"

definition reconcile_contract_balance_at_block ::
  "env \<Rightarrow> balance_reconciler \<Rightarrow> u64 \<Rightarrow> balance_result \<Rightarrow> balance_result go" where
  "reconcile_contract_balance_at_block env r b res =
     (if bc_payroll r = 0 then ret res
      else
        bind_go (wrapping ''failed to calculate contract token balance in database''
                  (calculate_token_balance env (bc_chain r) (bc_token r) (bc_payroll r) b)) (\<lambda>db_balance.
        bind_go (wrapping (''operational error querying contract balanceOf at block '' @ dec_u64 b)
                  (call_with_retry env r (query_balance env r contract_texts (bc_payroll r) b))) (\<lambda>chain_balance.
        if db_balance = chain_balance
        then resolve_quietly env (contract_ref env r (bc_payroll r)) (res\<lparr>br_contracts := br_contracts res + 1\<rparr>)
        else record_once env ''failed creating contract balance mismatch exception''
               (contract_mismatch env r (bc_payroll r) chain_balance db_balance b)
               (res\<lparr>br_mismatches := br_mismatches res + 1\<rparr>))))"

text \<open>One profile: \<open>isEmployerActive\<close> with \<open>is_employer_active\<close>, or the same for employees.\<close>

definition check_state ::
  "env \<Rightarrow> balance_reconciler \<Rightarrow> contract_abi \<Rightarrow> u64 \<Rightarrow> string \<Rightarrow> string \<Rightarrow> address \<times> bool
     \<Rightarrow> balance_result \<Rightarrow> balance_result go" where
  "check_state env r payroll b method property = (\<lambda>(a, db_value) res.
     let res' = res\<lparr>br_states := br_states res + 1\<rparr> in
     bind_go (wrapping (''operational error querying '' @ method @ ''('' @ addr_hex env a @ '') at block '' @ dec_u64 b)
               (call_with_retry env r (query_flag env r payroll method a b))) (\<lambda>chain_value.
     if chain_value = db_value
     then resolve_quietly env (state_ref env r a property) (res'\<lparr>br_states_matched := br_states_matched res' + 1\<rparr>)
     else record_once env ''failed creating state mismatch exception''
            (state_mismatch env r a property chain_value db_value b)
            (res'\<lparr>br_mismatches := br_mismatches res' + 1\<rparr>)))"

definition reconcile_contract_states_at_block ::
  "env \<Rightarrow> balance_reconciler \<Rightarrow> u64 \<Rightarrow> balance_result \<Rightarrow> balance_result go" where
  "reconcile_contract_states_at_block env r b res =
     (case bc_payroll_abi r of
        None \<Rightarrow> ret res
      | Some payroll \<Rightarrow>
          if \<not> bc_states r \<or> bc_payroll r = 0 then ret res
          else
            bind_go (wrapping ''failed to list employers for state reconciliation''
                      (list_employers env (bc_collation r) (bc_chain r))) (\<lambda>ers.
            bind_go (for_each (check_state env r payroll b ''isEmployerActive'' ''is_employer_active'')
                      (map (\<lambda>x. (em_wallet x, em_active x)) ers) res) (\<lambda>res'.
            bind_go (wrapping ''failed to list employees for state reconciliation''
                      (list_employees env (bc_collation r) (bc_chain r))) (\<lambda>ees.
            for_each (check_state env r payroll b ''isEmployeeActive'' ''is_employee_active'')
              (map (\<lambda>x. (ee_wallet x, ee_active x)) ees) res'))))"

section \<open>One pass, the window and the sweep\<close>

definition balance_latest :: "env \<Rightarrow> balance_reconciler \<Rightarrow> u64 go" where
  "balance_latest env r =
     wrapping ''balance reconciler: failed to fetch latest block'' (call_with_retry env r (latest_block env))"

definition token_checkpoint :: "env \<Rightarrow> balance_reconciler \<Rightarrow> u64 \<Rightarrow> u64 go" where
  "token_checkpoint env r safe =
     (if bc_checkpoints r
      then bind_go (wrapping ''balance reconciler: failed to get token indexer checkpoint''
                     (get_checkpoint env (bc_chain r) (bc_token_stream r))) (\<lambda>(cp, found).
           ret (if found then cp else bc_start r))
      else ret safe)"

text \<open>A request of 0 stands for the latest confirmed block.\<close>

definition effective_target :: "u64 \<Rightarrow> u64 \<Rightarrow> u64 \<Rightarrow> u64" where
  "effective_target requested safe cp =
     (let target = (if requested > 0 \<and> requested < safe then requested else safe) in
      if target > cp then cp else target)"

definition reconcile_target_block :: "env \<Rightarrow> balance_reconciler \<Rightarrow> u64 \<Rightarrow> balance_result go" where
  "reconcile_target_block env r requested =
     bind_go (balance_latest env r) (\<lambda>latest.
     if latest < bc_depth r then ret no_balance_result
     else
       let safe = latest - bc_depth r in
       bind_go (token_checkpoint env r safe) (\<lambda>cp.
       let target = effective_target requested safe cp;
           res = no_balance_result\<lparr>br_safe := safe, br_checkpoint := cp\<rparr>
       in
       if target < bc_start r then ret res
       else
         bind_go (reconcile_balances_at_block env r target (res\<lparr>br_target := target\<rparr>)) (\<lambda>res1.
         bind_go (reconcile_contract_balance_at_block env r target res1) (\<lambda>res2.
         reconcile_contract_states_at_block env r target res2))))"

definition balance_recent_window :: "env \<Rightarrow> balance_reconciler \<Rightarrow> u64 \<Rightarrow> balance_result go" where
  "balance_recent_window env r window =
     bind_go (balance_latest env r) (\<lambda>latest.
     if latest < bc_depth r then ret no_balance_result
     else
       let safe = latest - bc_depth r in
       reconcile_target_block env r (if safe > window then safe - window else bc_start r))"

definition balance_next_batch :: "env \<Rightarrow> balance_reconciler \<Rightarrow> u64 \<Rightarrow> balance_result go" where
  "balance_next_batch env r batch =
     bind_go
       (if bc_checkpoints r
        then bind_go (wrapping ''balance reconciler: failed to get checkpoint''
                       (get_checkpoint env (bc_chain r) (bc_stream r))) (\<lambda>(cp, found).
             ret (if found \<and> cp > 0 then cp else bc_start r))
        else ret (bc_start r)) (\<lambda>before.
     bind_go (reconcile_target_block env r (before + (if batch > 0 then batch else 50))) (\<lambda>res.
     bind_go
       (if bc_checkpoints r \<and> br_target res > before
        then wrapping ''balance reconciler: failed to advance checkpoint''
               (save_checkpoint env (bc_chain r) (bc_stream r) (br_target res) [])
        else ret ()) (\<lambda>_.
     ret res)))"

definition balance_reconcile :: "env \<Rightarrow> balance_reconciler \<Rightarrow> balance_result go" where
  "balance_reconcile env r = reconcile_target_block env r 0"

end
