(* ===== verification/Balance_Facts.thy ===== *)
theory Balance_Facts
  imports Balance_Worker
begin

text \<open>
  Facts about the balance worker: the two ways of deriving a balance agree, a contract call leaves
  the database alone, and one comparison settles its reference: open when the values differ,
  closed when they agree. The contract \<open>reference_check\<close> states this of one comparison; in it the
  effect of a loop over many is proved once.
\<close>

section \<open>Balances\<close>

lemma group_balance_movements:
  "group_balance (movements rows) a =
     sum_list (map tr_amount (filter (\<lambda>r. tr_to r = a) rows)) -
     sum_list (map tr_amount (filter (\<lambda>r. tr_from r = a) rows))"
proof -
  have ins: "sum_list (map (\<lambda>(_, i, _). i) (filter (\<lambda>(x, _). x = a) (map (\<lambda>r. (tr_to r, tr_amount r, 0 :: int)) t))) =
      sum_list (map tr_amount (filter (\<lambda>r. tr_to r = a) t))"
    "sum_list (map (\<lambda>(_, _, i). i) (filter (\<lambda>(x, _). x = a) (map (\<lambda>r. (tr_to r, tr_amount r, 0 :: int)) t))) = 0"
    "sum_list (map (\<lambda>(_, i, _). i) (filter (\<lambda>(x, _). x = a) (map (\<lambda>r. (tr_from r, 0 :: int, tr_amount r)) t))) = 0"
    "sum_list (map (\<lambda>(_, _, i). i) (filter (\<lambda>(x, _). x = a) (map (\<lambda>r. (tr_from r, 0 :: int, tr_amount r)) t))) =
      sum_list (map tr_amount (filter (\<lambda>r. tr_from r = a) t))" for t :: "transfer_row list"
    by (induction t; simp)+
  show ?thesis by (simp add: group_balance_def movements_def Let_def ins)
qed

lemma group_balance_filter: "Q a \<Longrightarrow> group_balance (filter (\<lambda>(x, _). Q x) ms) a = group_balance ms a"
proof -
  assume "Q a"
  then have "filter (\<lambda>(x, _). x = a) (filter (\<lambda>(x, _). Q x) ms) = filter (\<lambda>(x, _). x = a) ms"
    by (induction ms) auto
  then show ?thesis by (simp add: group_balance_def)
qed

lemma group_balance_absent: "a \<notin> fst ` set ms \<Longrightarrow> group_balance ms a = 0"
proof -
  assume "a \<notin> fst ` set ms"
  then have "filter (\<lambda>(x, _). x = a) ms = []" by (force simp: filter_empty_conv)
  then show ?thesis by (simp add: group_balance_def)
qed

lemma map_of_keyed: "map_of (map (\<lambda>a. (a, f a)) xs) a = (if a \<in> set xs then Some (f a) else None)"
  by (induction xs) auto

lemma all_balances_agree:
  assumes "a \<noteq> 0"
  shows "(case map_of (all_token_balances chain token b d) a of None \<Rightarrow> 0 | Some v \<Rightarrow> v) =
    token_balance chain token a b d"
proof -
  let ?ms = "filter (\<lambda>(x, _). x \<noteq> 0) (movements (live_rows chain token b d))"
  have eq: "group_balance ?ms a = token_balance chain token a b d"
    using group_balance_filter [of "\<lambda>x. x \<noteq> 0" a "movements (live_rows chain token b d)"] assms
    by (simp add: group_balance_movements token_balance_def Let_def)
  show ?thesis
  proof (cases "a \<in> set (map fst ?ms)")
    case True
    then show ?thesis
      unfolding all_token_balances_def Let_def map_of_keyed set_remdups by (simp only: if_True option.case eq)
  next
    case False
    then have "group_balance ?ms a = 0" using group_balance_absent [of a ?ms] by (simp only: set_map not_False_eq_True)
    then show ?thesis using False eq
      unfolding all_token_balances_def Let_def map_of_keyed set_remdups by (simp only: if_False option.case)
  qed
qed

text \<open>The balances of a group sum up to what moved in less what moved out, over any set of addresses that covers it.\<close>

lemma group_balance_Cons:
  "group_balance ((x, i, out) # ms) a = (if x = a then i - out else 0) + group_balance ms a"
  by (simp add: group_balance_def Let_def)

lemma sum_group_balance:
  "finite K \<Longrightarrow> fst ` set ms \<subseteq> K \<Longrightarrow> (\<Sum>a\<in>K. group_balance ms a) = sum_list (map (\<lambda>(_, i, out). i - out) ms)"
proof (induction ms)
  case Nil
  then show ?case by (simp add: group_balance_def)
next
  case (Cons m ms)
  obtain x i out where m: "m = (x, i, out)" by (cases m)
  have "(\<Sum>a\<in>K. group_balance (m # ms) a) = (\<Sum>a\<in>K. if x = a then i - out else 0) + (\<Sum>a\<in>K. group_balance ms a)"
    by (simp add: m group_balance_Cons sum.distrib)
  also have "(\<Sum>a\<in>K. if x = a then i - out else 0) = i - out" using Cons.prems m by (simp add: sum.delta)
  finally show ?case using Cons by (simp add: m)
qed

lemma movements_cancel: "sum_list (map (\<lambda>(_, i, out). i - out) (movements rows)) = 0"
proof -
  have "sum_list (map (\<lambda>(_, i, out). i - out) (map (\<lambda>r. (tr_to r, tr_amount r, 0 :: int)) t)) = sum_list (map tr_amount t)"
    "sum_list (map (\<lambda>(_, i, out). i - out) (map (\<lambda>r. (tr_from r, 0 :: int, tr_amount r)) t)) = - sum_list (map tr_amount t)"
    for t :: "transfer_row list" by (induction t; simp)+
  then show ?thesis by (simp add: movements_def)
qed

lemma sum_all_balances:
  "sum_list (map snd (all_token_balances chain token b d)) = - token_balance chain token 0 b d"
proof -
  let ?rows = "live_rows chain token b d"
  let ?all = "movements ?rows"
  let ?ms = "filter (\<lambda>(x, _). x \<noteq> 0) ?all"
  let ?K = "fst ` set ?ms"
  have "sum_list (map snd (all_token_balances chain token b d)) = sum_list (map (group_balance ?ms) (remdups (map fst ?ms)))"
    by (simp add: all_token_balances_def Let_def comp_def)
  also have "\<dots> = (\<Sum>a\<in>?K. group_balance ?ms a)"
    by (subst sum_list_distinct_conv_sum_set) simp_all
  also have "\<dots> = (\<Sum>a\<in>?K. group_balance ?all a)"
    by (rule sum.cong [OF refl], rule group_balance_filter) auto
  also have "\<dots> = (\<Sum>a\<in>insert 0 ?K. group_balance ?all a) - group_balance ?all 0"
    by (subst sum.insert) auto
  also have "(\<Sum>a\<in>insert 0 ?K. group_balance ?all a) = sum_list (map (\<lambda>(_, i, out). i - out) ?all)"
    by (rule sum_group_balance) force+
  also have "\<dots> = 0" by (rule movements_cancel)
  also have "group_balance ?all 0 = token_balance chain token 0 b d"
    by (simp add: group_balance_movements token_balance_def Let_def)
  finally show ?thesis by simp
qed

section \<open>Contract calls\<close>

text \<open>Every answer the node gives is the value of the contract; it may fail to answer.\<close>

definition exact_calls ::
  "env \<Rightarrow> balance_reconciler \<Rightarrow> (address \<Rightarrow> u64 \<Rightarrow> int) \<Rightarrow> (string \<Rightarrow> address \<Rightarrow> u64 \<Rightarrow> bool) \<Rightarrow> bool" where
  "exact_calls env r bal flag \<longleftrightarrow>
     (\<forall>n a b data answer. abi_pack (bc_token_abi r) ''balanceOf'' a = Inr data \<longrightarrow>
        rpc_call env n (bc_token r) data b = Inr answer \<longrightarrow>
        (\<exists>vs. abi_unpack (bc_token_abi r) ''balanceOf'' answer = Inr (AbiInt (bal a b) # vs))) \<and>
     (\<forall>payroll n m a b data answer. bc_payroll_abi r = Some payroll \<longrightarrow> abi_pack payroll m a = Inr data \<longrightarrow>
        rpc_call env n (bc_payroll r) data b = Inr answer \<longrightarrow>
        (\<exists>vs. abi_unpack_flags payroll m answer = Inr (flag m a b # vs)))"

text \<open>The database answers every statement.\<close>

definition quiet :: "env \<Rightarrow> bool" where
  "quiet env \<longleftrightarrow> (\<forall>n. db_fault env n = None)"

text \<open>The retries of the worker are those of the event workers.\<close>

definition retry_view :: "balance_reconciler \<Rightarrow> reconciler" where
  "retry_view r = \<lparr>rc_chain = bc_chain r, rc_contract = bc_token r, rc_index_stream = bc_token_stream r,
     rc_stream = bc_stream r, rc_depth = bc_depth r, rc_window = bc_window r, rc_start = bc_start r,
     rc_retry = bc_retry r, rc_checkpoints = bc_checkpoints r, rc_map_order = (\<lambda>ks. ks)\<rparr>"

lemma call_with_retry_view: "call_with_retry env r op = recon_call env (retry_view r) 0 0 op"
  by (cases "bc_retry r") (simp_all add: call_with_retry_def recon_call_def retry_view_def)

lemma query_balance_untouched: "untouched.keeps (query_balance env r texts a b)"
  unfolding query_balance_def
  by (auto intro!: untouched.keeps_rules split: sum.split list.split abi_value.split prod.split)

lemma query_flag_untouched: "untouched.keeps (query_flag env r payroll m a b)"
  unfolding query_flag_def by (auto intro!: untouched.keeps_rules split: sum.split list.split)

lemma rpc_answer: "rpc f w = (Inr x, w') \<longleftrightarrow> f (w_tick w) = Inr x \<and> w' = next_tick w"
  by (auto simp: rpc_def)

lemma query_balance_exact:
  assumes "query_balance env r texts a b w = (Inr v, w')" "exact_calls env r bal flag"
  shows "v = bal a b"
proof -
  obtain t1 t2 t3 t4 where texts: "texts = (t1, t2, t3, t4)" by (cases texts)
  obtain data where data: "abi_pack (bc_token_abi r) ''balanceOf'' a = Inr data"
    using assms(1) by (auto simp: query_balance_def texts fail_not_Inr split: sum.splits)
  with assms(1) obtain answer w1 where "rpc_call env (w_tick w) (bc_token r) data b = Inr answer"
    and run: "(case abi_unpack (bc_token_abi r) ''balanceOf'' answer of
           Inl e \<Rightarrow> fail (wrap_error t2 e)
         | Inr [] \<Rightarrow> fail (new_error t3)
         | Inr (AbiOther ty # _) \<Rightarrow> fail (new_error (t4 ty))
         | Inr (AbiInt i # _) \<Rightarrow> ret i) w1 = (Inr v, w')"
    by (auto simp: query_balance_def texts call_contract_def bind_Inr rpc_answer)
  with assms(2) data obtain vs where "abi_unpack (bc_token_abi r) ''balanceOf'' answer = Inr (AbiInt (bal a b) # vs)"
    unfolding exact_calls_def by blast
  with run show ?thesis by (simp add: ret_def)
qed

lemma query_flag_exact:
  assumes "query_flag env r payroll m a b w = (Inr v, w')" "exact_calls env r bal flag"
    "bc_payroll_abi r = Some payroll"
  shows "v = flag m a b"
proof -
  obtain data where data: "abi_pack payroll m a = Inr data"
    using assms(1) by (auto simp: query_flag_def fail_not_Inr split: sum.splits)
  with assms(1) obtain answer w1 where "rpc_call env (w_tick w) (bc_payroll r) data b = Inr answer"
    and run: "(case abi_unpack_flags payroll m answer of
            Inl e \<Rightarrow> fail e
          | Inr [] \<Rightarrow> fail (new_error (''empty '' @ m @ '' return''))
          | Inr (v # _) \<Rightarrow> ret v) w1 = (Inr v, w')"
    by (auto simp: query_flag_def call_contract_def bind_Inr rpc_answer)
  with assms(2,3) data obtain vs where "abi_unpack_flags payroll m answer = Inr (flag m a b # vs)"
    unfolding exact_calls_def by blast
  with run show ?thesis by (simp add: ret_def)
qed

lemma balance_call:
  assumes "wrapping s (call_with_retry env r (query_balance env r texts a b)) w = (Inr v, w')"
    "exact_calls env r bal flag"
  shows "w_db w' = w_db w \<and> v = bal a b"
  using recon_call_Inr [OF query_balance_untouched assms(1) [unfolded wrapping_Inr call_with_retry_view]]
    query_balance_exact [OF _ assms(2)] by blast

lemma flag_call:
  assumes "wrapping s (call_with_retry env r (query_flag env r payroll m a b)) w = (Inr v, w')"
    "exact_calls env r bal flag" "bc_payroll_abi r = Some payroll"
  shows "w_db w' = w_db w \<and> v = flag m a b"
  using recon_call_Inr [OF query_flag_untouched assms(1) [unfolded wrapping_Inr call_with_retry_view]]
    query_flag_exact [OF _ assms(2,3)] by blast

text \<open>A query of the database whose error is wrapped by the repository and by the worker.\<close>

lemma bind_query:
  assumes "bind_go (wrapping s (wrapping s' (query_sql env f))) k w = (Inr y, w')"
  obtains v where "w_db v = w_db w" "k (f (w_db w)) v = (Inr y, w')"
proof -
  have "k (f (w_db w)) (next_tick w) = (Inr y, w')"
    using assms by (auto simp: bind_Inr wrapping_Inr query_sql_Inr)
  then show thesis by (rule that [rotated]) simp
qed

section \<open>Settling one reference\<close>

definition settle :: "string set \<Rightarrow> string \<times> bool \<Rightarrow> string set" where
  "settle refs = (\<lambda>(ref, bad). if bad then insert ref refs else refs - {ref})"

lemma record_once_run:
  assumes "record_once env what m res w = (q, w')"
  shows "(\<exists>e. q = Inl e) \<and> w_db w' = w_db w \<or>
    (\<exists>res'. q = Inr res') \<and> w_db w' = w_db w \<and> mm_ref m \<in> open_refs (w_db w) \<or>
    (\<exists>res'. q = Inr res') \<and> mm_ref m \<notin> open_refs (w_db w) \<and>
      (\<exists>t t'. stmt_create_exception ((exception_of m t)\<lparr>rx_detected := t'\<rparr>) (w_db w) = Inr (w_db w'))"
  using assms [unfolded record_once_def]
proof (cases rule: bind_cases)
  case (failed e)
  from wrapping_runs [OF failed(1)] obtain q0 where "get_open_exception_by_ref env (mm_ref m) w = (q0, w')" by blast
  then show ?thesis using failed(2)
    by (auto simp: get_open_exception_by_ref_def wrapping_def dest: query_sql_db split: sum.splits prod.splits)
next
  case (went found w1)
  then have found: "found = open_by_ref (mm_ref m) (w_db w)" "w_db w1 = w_db w"
    by (auto simp: get_open_exception_by_ref_def wrapping_Inr query_sql_Inr)
  show ?thesis
  proof (cases found)
    case (Some x)
    then have "mm_ref m \<in> open_refs (w_db w)" using open_by_ref_None found(1) by (metis option.discI)
    then show ?thesis using went(2) Some found(2) by (auto simp: ret_def)
  next
    case None
    then have fresh: "mm_ref m \<notin> open_refs (w_db w)" using open_by_ref_None found(1) by metis
    note run = went(2) [unfolded None option.case]
    from run show ?thesis
    proof (cases rule: bind_cases)
      case (failed e)
      from wrapping_runs [OF failed(1) [unfolded with_now_eq]] obtain q0 where
        "create_exception env (exception_of m (now env w1)) w1 = (q0, w')" by blast
      moreover from this failed(1) have "\<exists>e. q0 = Inl e"
        by (auto simp: with_now_eq wrapping_def split: sum.splits)
      ultimately show ?thesis using create_exception_run found(2) failed(2) by fastforce
    next
      case (went u w2)
      then have "create_exception env (exception_of m (now env w1)) w1 = (Inr (), w2)" "w2 = w'"
        "\<exists>res'. q = Inr res'"
        by (auto simp: with_now_eq wrapping_Inr ret_def)
      then show ?thesis using create_exception_run [of env m "now env w1" w1 "Inr ()" w2] fresh found(2) by auto
    qed
  qed
qed

lemma record_once_keeps:
  "recon.keeps (record_once env what m res)" "oks.keeps (record_once env what m res)"
proof -
  have step: "exceptions_only (w_db w) (w_db w') \<and> (exceptions_ok (w_db w) \<longrightarrow> exceptions_ok (w_db w'))"
    if run: "record_once env what m res w = (q, w')" for w q w'
    using record_once_run [OF run]
  proof (elim disjE conjE exE)
    fix res' t t'
    assume fresh: "mm_ref m \<notin> open_refs (w_db w)"
      and ins: "stmt_create_exception ((exception_of m t)\<lparr>rx_detected := t'\<rparr>) (w_db w) = Inr (w_db w')"
    show ?thesis
      using stmt_create_only [OF ins] create_exceptions_ok [OF ins] fresh by (simp add: exception_of_def)
  qed (simp_all add: recon.D_refl)
  show "recon.keeps (record_once env what m res)"
    unfolding recon.keeps_def using step by (metis prod.collapse)
  show "oks.keeps (record_once env what m res)"
    unfolding oks.keeps_def using step by (metis prod.collapse)
qed

lemma record_once_settles:
  assumes "record_once env what m res w = (Inr res', w')"
  shows "open_refs (w_db w') = settle (open_refs (w_db w)) (mm_ref m, True)"
proof -
  have row: "is_open ((exception_of m t)\<lparr>rx_detected := t'\<rparr>)" "rx_ref ((exception_of m t)\<lparr>rx_detected := t'\<rparr>) = mm_ref m"
    for t t' by (simp_all add: is_open_def exception_of_def)
  show ?thesis
    using record_once_run [OF assms] create_open_refs [OF _ row(1)] row(2) by (auto simp: settle_def)
qed

lemma resolve_quietly_keeps:
  "recon.keeps (resolve_quietly env ref res)" "oks.keeps (resolve_quietly env ref res)"
  unfolding resolve_quietly_def get_open_exception_by_ref_def resolve_exception_def
  by (auto intro!: recon.keeps_rules recon.keeps_exec oks.keeps_rules oks.keeps_exec
      dest: stmt_resolve_only resolve_exceptions_ok split: sum.split option.split)

lemma resolve_quietly_settles:
  assumes "resolve_quietly env ref res w = (Inr res', w')" "quiet env" "exceptions_ok (w_db w)"
  shows "open_refs (w_db w') = settle (open_refs (w_db w)) (ref, False)"
proof (cases "open_by_ref ref (w_db w)")
  case None
  then have "w_db w' = w_db w" "ref \<notin> open_refs (w_db w)"
    using assms(1,2) None open_by_ref_None [of ref "w_db w"]
    by (auto simp: resolve_quietly_def get_open_exception_by_ref_def quiet_def go_unfold query_sql_def)
  then show ?thesis by (simp add: settle_def)
next
  case (Some x)
  obtain d' where d': "stmt_resolve_exception (rx_id x) t (w_db w) = Inr (d' t)" for t
    by (simp add: stmt_resolve_exception_def)
  then have "\<exists>t. w_db w' = d' t"
    using assms(1,2) Some
    by (auto simp: resolve_quietly_def get_open_exception_by_ref_def resolve_exception_def quiet_def go_unfold
        query_sql_def exec_sql_def with_now_eq)
  then show ?thesis
    using resolve_open_refs [OF d' assms(3)] open_by_ref_Some [OF Some] by (auto simp: settle_def)
qed

text \<open>A query, then one of the two: the reference ends up open exactly when the comparison fails.\<close>

lemma compare_settles:
  assumes run: "bind_go call (\<lambda>v. if same v then resolve_quietly env ref good else record_once env what (m v) wrong) w =
      (Inr res', w')"
    and call: "\<And>v w1. call w = (Inr v, w1) \<Longrightarrow> w_db w1 = w_db w \<and> v = x"
    and m: "mm_ref (m x) = ref" and env: "quiet env" and ok: "exceptions_ok (w_db w)"
  shows "open_refs (w_db w') = settle (open_refs (w_db w)) (ref, \<not> same x)"
proof -
  from run obtain v w1 where "call w = (Inr v, w1)" and
    rest: "(if same v then resolve_quietly env ref good else record_once env what (m v) wrong) w1 = (Inr res', w')"
    unfolding bind_Inr by blast
  from call [OF this(1)] have v: "w_db w1 = w_db w" "v = x" by simp_all
  show ?thesis
  proof (cases "same x")
    case True
    with rest have "resolve_quietly env ref good w1 = (Inr res', w')" by (simp add: v(2))
    from resolve_quietly_settles [OF this env] ok True show ?thesis by (simp add: v(1))
  next
    case False
    with rest have "record_once env what (m x) wrong w1 = (Inr res', w')" by (simp add: v(2))
    from record_once_settles [OF this] False m show ?thesis by (simp add: v(1))
  qed
qed

text \<open>The target block of the result is not touched.\<close>

lemma attempt_iff: "attempt m w = (Inr y, w') \<longleftrightarrow> m w = (y, w')"
  by (auto simp: attempt_def split: prod.splits)

lemma resolve_quietly_target:
  assumes "resolve_quietly env ref res w = (Inr res', w')"
  shows "br_target res' = br_target res"
proof -
  from assms obtain found :: "goerror + exception_row option" and w1 where
    rest: "(case found of
       Inr (Some x) \<Rightarrow>
         bind_go (with_now env (\<lambda>t. attempt (resolve_exception env (rx_id x) t))) (\<lambda>done.
         ret (case done of Inr _ \<Rightarrow> res\<lparr>br_resolved := br_resolved res + 1\<rparr> | Inl _ \<Rightarrow> res))
     | _ \<Rightarrow> ret res) w1 = (Inr res', w')"
    unfolding resolve_quietly_def bind_Inr [of "attempt _"] by blast
  show ?thesis
  proof (cases "\<exists>x. found = Inr (Some x)")
    case True
    with rest obtain q :: "goerror + unit" where "res' = (case q of Inr _ \<Rightarrow> res\<lparr>br_resolved := br_resolved res + 1\<rparr> | Inl _ \<Rightarrow> res)"
      by (auto simp: bind_Inr ret_eq)
    then show ?thesis by (simp split: sum.splits)
  next
    case False
    with rest show ?thesis by (auto simp: ret_eq split: sum.splits option.splits)
  qed
qed

lemma record_once_target: "record_once env what m res w = (Inr res', w') \<Longrightarrow> br_target res' = br_target res"
  by (auto simp: record_once_def bind_Inr with_now_eq ret_eq split: option.splits)

lemma compare_target:
  assumes "bind_go call (\<lambda>v. if same v then resolve_quietly env ref good else record_once env what (m v) wrong) w =
      (Inr res', w')" "br_target good = b" "br_target wrong = b"
  shows "br_target res' = b"
  using assms by (auto simp: bind_Inr split: if_splits dest: resolve_quietly_target record_once_target)

section \<open>Many comparisons\<close>

locale reference_check =
  fixes step :: "'x \<Rightarrow> balance_result \<Rightarrow> balance_result go"
    and ref :: "'x \<Rightarrow> string" and bad :: "'x \<Rightarrow> bool" and valid :: "'x \<Rightarrow> bool" and assumed :: bool
  assumes step_keeps: "recon.keeps (step x res)" "oks.keeps (step x res)"
    and step_settles: "assumed \<Longrightarrow> valid x \<Longrightarrow> step x res w = (Inr res', w') \<Longrightarrow> exceptions_ok (w_db w) \<Longrightarrow>
      open_refs (w_db w') = settle (open_refs (w_db w)) (ref x, bad x)"
    and step_target: "step x res w = (Inr res', w') \<Longrightarrow> br_target res' = br_target res"
begin

lemma all_target: "for_each step xs res w = (Inr res', w') \<Longrightarrow> br_target res' = br_target res"
proof (induction xs arbitrary: res w)
  case (Cons x xs)
  from Cons.prems obtain s1 w1 where "step x res w = (Inr s1, w1)" "for_each step xs s1 w1 = (Inr res', w')"
    by (auto simp: bind_Inr)
  then show ?case using Cons.IH step_target by metis
qed (simp add: ret_def)

lemma all_keep: "recon.keeps (for_each step xs res)" "oks.keeps (for_each step xs res)"
  by (auto intro!: recon.keeps_for_each oks.keeps_for_each step_keeps)

lemma all_settle:
  assumes "assumed" "\<And>x. x \<in> set xs \<Longrightarrow> valid x" "for_each step xs res w = (Inr res', w')"
    "exceptions_ok (w_db w)"
  shows "open_refs (w_db w') = foldl settle (open_refs (w_db w)) (map (\<lambda>x. (ref x, bad x)) xs)"
  using assms
proof (induction xs arbitrary: res w)
  case Nil
  then show ?case by (simp add: ret_def)
next
  case (Cons x xs)
  from Cons.prems(3) obtain s1 w1 where
    one: "step x res w = (Inr s1, w1)" and rest: "for_each step xs s1 w1 = (Inr res', w')"
    by (auto simp: bind_Inr)
  have "exceptions_ok (w_db w1)" using oks.keepsD [OF step_keeps(2) one] Cons.prems(4) by simp
  then have "open_refs (w_db w') = foldl settle (open_refs (w_db w1)) (map (\<lambda>x. (ref x, bad x)) xs)"
    using Cons.IH [OF Cons.prems(1) _ rest] Cons.prems(2) by simp
  then show ?case using step_settles [OF Cons.prems(1) _ one Cons.prems(4)] Cons.prems(2) by simp
qed

end

end
