(* ===== verification/Recon_Properties.thy ===== *)
theory Recon_Properties
  imports Event_Workers Projection_Replay
begin

text \<open>
  The properties of the event reconciliation: what a pass does to the open exceptions, that
  agreeing tables raise no alarm and missing facts do, idempotence, the invariants kept on every
  path, and the two ways in which the sweep leaves blocks behind unchecked.
\<close>

section \<open>Texts that identify\<close>

text \<open>The documented behaviour of \<open>Hash.Hex\<close> and \<open>Address.Hex\<close>: different values, different texts up to case.\<close>

definition hex_faithful :: "env \<Rightarrow> bool" where
  "hex_faithful env \<longleftrightarrow> inj (\<lambda>h. to_lower (hash_hex env h)) \<and> inj (\<lambda>a. to_lower (addr_hex env a)) \<and>
     (\<forall>h. CHR '':'' \<notin> set (to_lower (hash_hex env h)))"

lemma event_key_inj:
  assumes "hex_faithful env"
  shows "event_key env t i = event_key env t' i' \<longleftrightarrow> t = t' \<and> i = i'"
proof
  assume "event_key env t i = event_key env t' i'"
  then have "to_lower (hash_hex env t) @ CHR '':'' # dec_u64 i = to_lower (hash_hex env t') @ CHR '':'' # dec_u64 i'"
    by (simp add: event_key_def)
  moreover have "CHR '':'' \<notin> set (to_lower (hash_hex env h))" for h using assms by (simp add: hex_faithful_def)
  ultimately have "to_lower (hash_hex env t) = to_lower (hash_hex env t')" "dec_u64 i = dec_u64 i'"
    using split_at_sep by metis+
  then show "t = t' \<and> i = i'" using assms by (auto simp: hex_faithful_def dest: injD)
qed simp

lemma equal_fold_addr: "hex_faithful env \<Longrightarrow> equal_fold (addr_hex env a) (addr_hex env b) \<longleftrightarrow> a = b"
  by (auto simp: hex_faithful_def equal_fold_def dest: injD)

lemma sint_small: "(x :: u64) < 9223372036854775808 \<Longrightarrow> sint x = uint x"
  by (simp add: sint_uint signed_take_bit_eq_if_positive word_less_def bit_iff_odd take_bit_int_eq_self
      flip: uint_div_distrib)

lemma sint_mono_small:
  "(a :: u64) \<le> b \<Longrightarrow> b < 9223372036854775808 \<Longrightarrow> sint a \<le> sint b"
  using sint_small [of a] sint_small [of b] by (simp add: word_le_def order.strict_trans1)

section \<open>The effect of a pass\<close>

text \<open>The worked example: one funding at block 10, an indexer at block 15, a head at 20.\<close>

definition funded_abi :: payroll_abi where
  "funded_abi = \<lparr>event_id = (\<lambda>ty. case ty of EventPayrollFunded \<Rightarrow> 5 | EventSalaryClaimed \<Rightarrow> 7 | _ \<Rightarrow> 1),
     unpack_employer_added = (\<lambda>_. Inr 1), unpack_employer_removed = (\<lambda>_. Inr 1),
     unpack_employee_added = (\<lambda>_. Inl (new_error ''bad data'')),
     unpack_employee_removed = (\<lambda>_. Inl (new_error ''bad data'')),
     unpack_payroll_funded = (\<lambda>_. Inr \<lparr>fe_employer = 1, fe_employee = 5, fe_paid = Some 100,
       fe_fee = Some 1, fe_credited = Some 99\<rparr>),
     unpack_salary_claimed = (\<lambda>_. Inr \<lparr>ce_employee = 5, ce_amount = Some 1000\<rparr>),
     unpack_ownership = (\<lambda>_. Inr \<lparr>ot_previous = 0, ot_new = 1\<rparr>)\<rparr>"

definition funding_log :: evm_log where
  "funding_log = \<lparr>l_address = 9, l_topics = [5], l_data = [], l_block = 10, l_tx = 77, l_index = 0,
     l_removed = False\<rparr>"

definition recon_env :: "evm_log list \<Rightarrow> env" where
  "recon_env logs = calm_env\<lparr>rpc_latest := (\<lambda>_. Inr 20),
     rpc_logs := (\<lambda>_ _ lo hi. Inr (filter (\<lambda>lg. lo \<le> l_block lg \<and> l_block lg \<le> hi) logs))\<rparr>"

definition sample_recon :: reconciler where
  "sample_recon = \<lparr>rc_chain = 1, rc_contract = 9, rc_index_stream = ''monthly_payroll'',
     rc_stream = ''recon'', rc_depth = 5, rc_window = 0, rc_start = 8, rc_retry = None,
     rc_checkpoints = True, rc_map_order = (\<lambda>ks. ks)\<rparr>"

definition indexed_world :: "u64 \<Rightarrow> world" where
  "indexed_world b = empty_world\<lparr>w_db := empty_database\<lparr>sync_checkpoints :=
     [checkpoint_row_of 1 ''monthly_payroll'' b []]\<rparr>\<rparr>"

lemma recon_env_exact: "exact_node (recon_env logs) c logs"
  by (simp add: exact_node_def recon_env_def)

lemma recon_env_hex: "hex_faithful (recon_env logs)"
  using digit_plain dec_nat_digits
  by (auto simp: hex_faithful_def recon_env_def calm_env_def inj_def word_unat_eq_iff)

lemma no_exceptions_ok: "exceptions d = [] \<Longrightarrow> exceptions_ok d"
  by (simp add: exceptions_ok_def)

text \<open>
  C25. The exact effect of \<open>PayrollReconciler.ReconcileRange\<close>. A successful pass over a node that
  answers log queries exactly changes no table but the exceptions, keeps one open exception per
  reference, and either found the range to be ahead of the confirmed head (and did nothing) or
  leaves open precisely the references of the mismatches between the confirmed logs and the stored
  fundings, together with the exceptions that were open outside its range and kind; its counters
  add up.
\<close>

theorem funding_pass_exact:
  assumes "payroll_reconcile_range env abi r lo hi w = (Inr res, w')"
    "exact_node env (rc_contract r) logs" "exceptions_ok (w_db w)"
  shows "exceptions_only (w_db w) (w_db w') \<and> exceptions_ok (w_db w') \<and>
    (\<exists>n latest. rpc_latest env n = Inr latest \<and>
      (let safe = recon_safe_target r latest in
       if safe < lo then w_db w' = w_db w
       else pass_spec r (funding_recon abi env r) (fundings_in_range (rc_chain r)) logs safe lo
              (min hi safe) (w_db w) res (w_db w')))"
proof -
  note run = assms(1) [unfolded payroll_reconcile_range_def]
  show ?thesis
    using funding.range_spec [OF run assms(2,3)] recon.keepsD [OF funding.range_keeps(1) run]
      oks.keepsD [OF funding.range_keeps(2) run] assms(3) by blast
qed

theorem funding_pass_exact_witness:
  "open_refs (w_db (snd (payroll_reconcile_range (recon_env [funding_log]) funded_abi sample_recon 8 30
     (indexed_world 15)))) = {''1:77:0:missing''} \<and>
   exceptions_ok (w_db (snd (payroll_reconcile_range (recon_env [funding_log]) funded_abi sample_recon 8 30
     (indexed_world 15))))"
proof -
  let ?y = "payroll_reconcile_range (recon_env [funding_log]) funded_abi sample_recon 8 30 (indexed_world 15)"
  have eval: "map_sum id rr_created (fst ?y) = Inr 1"
    "map rx_ref (filter is_open (exceptions (w_db (snd ?y)))) = [''1:77:0:missing'']" by code_simp+
  then obtain res w' where y: "?y = (Inr res, w')" by (cases ?y; cases "fst ?y") auto
  have "exceptions_ok (w_db (indexed_world 15))"
    by (simp add: no_exceptions_ok indexed_world_def empty_database_def)
  from funding_pass_exact [OF y recon_env_exact this] show ?thesis
    using eval(2) y by (simp add: open_refs_def)
qed

section \<open>Agreement gives no alarm\<close>

lemma found_iff:
  "m \<in> set (pass_found r k rows_of logs safe lo cap d) \<longleftrightarrow>
     m \<in> set (er_duplicates k (rows_of lo cap d)) \<or>
     (\<exists>lg \<in> set logs. \<exists>e. lo \<le> l_block lg \<and> l_block lg \<le> cap \<and> \<not> l_removed lg \<and> er_decode k lg = Some e \<and>
        m \<in> set (er_compare k safe (checkpoint_seen r d \<noteq> None) (seen_block r d) (rows_of lo cap d) e))"
  by (auto simp: pass_found_def pass_mismatches_def logs_between_def List.map_filter_def)

lemma distinct_no_groups: "distinct (map key rows) \<Longrightarrow> duplicate_groups r key rows = []"
proof -
  assume "distinct (map key rows)"
  then have "length (filter (\<lambda>x. key x = k) rows) \<le> 1" for k
  proof (induction rows)
    case (Cons x xs)
    have "key y \<noteq> key x" if "y \<in> set xs" for y using Cons.prems imageI [OF that, of key] by auto
    with Cons show ?case by (cases "key x = k") (auto simp: filter_empty_conv)
  qed simp
  then show ?thesis by (auto simp: duplicate_groups_def filter_empty_conv not_less)
qed

lemma filter_enumerate: "map snd (filter (\<lambda>(_, x). P x) (enumerate n t)) = filter P t"
  by (induction t arbitrary: n) auto

lemma rows_in_range_keys:
  assumes "distinct (map key t)"
    "\<And>x y. x \<in> set t \<Longrightarrow> y \<in> set t \<Longrightarrow> keep x \<Longrightarrow> keep y \<Longrightarrow> f x = f y \<Longrightarrow> key x = key y"
  shows "distinct (map (\<lambda>p. f (snd p)) (rows_in_range keep block index lo hi t))"
proof -
  let ?P = "\<lambda>x. keep x \<and> sint lo \<le> block x \<and> block x \<le> sint hi"
  have eq: "distinct (map (\<lambda>p. f (snd p)) (rows_in_range keep block index lo hi t)) \<longleftrightarrow>
      distinct (map f (map snd (filter (\<lambda>(_, x). ?P x) (enumerate 1 t))))"
    by (simp only: rows_in_range_def map_map o_def distinct_map distinct_sort set_sort)
  have "inj_on f (set (filter ?P t))"
    using assms by (auto simp: inj_on_def distinct_map)
  then have "distinct (map f (filter ?P t))" using assms(1) by (simp add: distinct_map)
  then show ?thesis unfolding eq by (simp only: filter_enumerate)
qed

lemma in_integer_word: "in_integer i \<Longrightarrow> sint (word_of_int i :: u64) = i"
  unfolding in_integer_def by (subst sint_sbintrunc') (simp add: signed_take_bit_int_eq_self)

text \<open>
  The table of fundings agrees with the logs: every confirmed funding event has the row that
  \<open>savePayrollFunded\<close> writes for it, or the indexer has not reached its block and it has no row.
\<close>

definition fundings_agree :: "payroll_abi \<Rightarrow> env \<Rightarrow> reconciler \<Rightarrow> evm_log list \<Rightarrow> database \<Rightarrow> bool" where
  "fundings_agree abi env r logs d \<longleftrightarrow>
     (\<forall>lg \<in> set logs. \<forall>ev e. \<not> l_removed lg \<and> decode_payroll abi (hash_hex env) lg = Inr ev \<and>
        d_type ev = EventPayrollFunded \<and> d_data ev = PayrollFundedData e \<longrightarrow>
        (\<exists>t. funding_row_of (rc_chain r) e (l_tx lg) (l_block lg) t (l_index lg) \<in> set (payroll_fundings d)) \<or>
        (\<forall>cp. checkpoint_seen r d = Some cp \<longrightarrow> cp < l_block lg) \<and>
        \<not> has_row pf_key (rc_chain r, l_tx lg, sint (l_index lg)) (payroll_fundings d))"

text \<open>The primary key and the column type of the log index.\<close>

definition fundings_typed :: "database \<Rightarrow> bool" where
  "fundings_typed d \<longleftrightarrow> keys_unique pf_key (payroll_fundings d) \<and>
     (\<forall>x \<in> set (payroll_fundings d). in_integer (pf_index x))"

lemma funding_key_model:
  assumes "hex_faithful env" "in_integer (pf_index x)" "funding_key env (funding_model (i, x)) = event_key env tx j"
  shows "pf_tx x = tx \<and> pf_index x = sint j"
  using assms by (auto simp: funding_key_def funding_model_def event_key_inj dest: in_integer_word)

lemma funding_rows:
  "x \<in> set (fundings_in_range chain lo hi d) \<longleftrightarrow>
     (\<exists>i y. x = funding_model (i, y) \<and>
        (i, y) \<in> set (rows_in_range (\<lambda>r. pf_chain r = chain) pf_block pf_index lo hi (payroll_fundings d)))"
  by (auto simp: fundings_in_range_def)

lemma rows_in_range_member:
  "(i, y) \<in> set (rows_in_range keep block index lo hi t) \<Longrightarrow> y \<in> set t \<and> keep y"
  using rows_in_range_set [of keep block index lo hi t] by (metis (no_types, lifting) image_eqI mem_Collect_eq snd_conv)

lemma funding_no_duplicates:
  assumes "hex_faithful env" "fundings_typed d"
  shows "funding_duplicates env r (fundings_in_range (rc_chain r) lo hi d) = []"
proof -
  let ?rows = "rows_in_range (\<lambda>x. pf_chain x = rc_chain r) pf_block pf_index lo hi (payroll_fundings d)"
  have "distinct (map (\<lambda>p. event_key env (pf_tx (snd p)) (word_of_int (pf_index (snd p)))) ?rows)"
  proof (rule rows_in_range_keys)
    show "distinct (map pf_key (payroll_fundings d))"
      using assms(2) by (simp add: fundings_typed_def keys_unique_def)
    show "pf_key x = pf_key y"
      if "x \<in> set (payroll_fundings d)" "y \<in> set (payroll_fundings d)" "pf_chain x = rc_chain r"
        "pf_chain y = rc_chain r"
        "event_key env (pf_tx x) (word_of_int (pf_index x)) = event_key env (pf_tx y) (word_of_int (pf_index y))" for x y
      using that assms in_integer_word by (metis fundings_typed_def event_key_inj pf_key_def)
  qed
  then have "distinct (map (funding_key env) (fundings_in_range (rc_chain r) lo hi d))"
    by (simp add: fundings_in_range_def funding_key_def funding_model_def o_def case_prod_beta)
  then show ?thesis by (simp add: funding_duplicates_def distinct_no_groups)
qed

lemma funding_compare_agrees:
  assumes hex: "hex_faithful env" and typed: "fundings_typed d" and agree: "fundings_agree abi env r logs d"
    and lg: "lg \<in> set logs" "\<not> l_removed lg" "lo \<le> l_block lg" "l_block lg \<le> cap" "funding_of_log abi env lg = Some e"
    and small: "cap < 9223372036854775808"
  shows "funding_compare env r safe (checkpoint_seen r d \<noteq> None) (seen_block r d)
    (fundings_in_range (rc_chain r) lo cap d) e = []"
proof -
  obtain ev p where ev: "decode_payroll abi (hash_hex env) lg = Inr ev" "d_type ev = EventPayrollFunded"
      "d_data ev = PayrollFundedData p"
    and e: "e = \<lparr>of_tx = l_tx lg, of_index = l_index lg, of_block = l_block lg, of_employer = fe_employer p,
      of_employee = fe_employee p, of_paid = big_or_zero (fe_paid p), of_fee = big_or_zero (fe_fee p),
      of_credited = big_or_zero (fe_credited p)\<rparr>"
    using lg(5) by (auto simp: funding_of_log_def split: sum.splits if_splits payroll_data.splits)
  let ?rows = "fundings_in_range (rc_chain r) lo cap d"
  let ?hits = "filter (\<lambda>x. funding_key env x = event_key env (of_tx e) (of_index e)) ?rows"
  have hit: "\<exists>i y. x = funding_model (i, y) \<and> y \<in> set (payroll_fundings d) \<and>
      pf_key y = (rc_chain r, l_tx lg, sint (l_index lg))" if x: "x \<in> set ?hits" for x
  proof -
    from x obtain i y where y: "x = funding_model (i, y)" "y \<in> set (payroll_fundings d)" "pf_chain y = rc_chain r"
      using rows_in_range_member by (force simp: funding_rows)
    then have "pf_tx y = l_tx lg \<and> pf_index y = sint (l_index lg)"
      using funding_key_model [OF hex, of y i "l_tx lg" "l_index lg"] typed x by (simp add: e fundings_typed_def)
    then show ?thesis using y by (auto simp: pf_key_def)
  qed
  from agree lg(1,2) ev consider
    (row) t where "funding_row_of (rc_chain r) p (l_tx lg) (l_block lg) t (l_index lg) \<in> set (payroll_fundings d)"
  | (lag) "\<forall>cp. checkpoint_seen r d = Some cp \<longrightarrow> cp < l_block lg"
      "\<not> has_row pf_key (rc_chain r, l_tx lg, sint (l_index lg)) (payroll_fundings d)"
    unfolding fundings_agree_def by blast
  then show ?thesis
  proof cases
    case (row t)
    let ?y = "funding_row_of (rc_chain r) p (l_tx lg) (l_block lg) t (l_index lg)"
    have "sint lo \<le> sint (l_block lg)" "sint (l_block lg) \<le> sint cap"
      using lg(3,4) small sint_mono_small by auto
    then have "?y \<in> snd ` set (rows_in_range (\<lambda>x. pf_chain x = rc_chain r) pf_block pf_index lo cap (payroll_fundings d))"
      using row by (simp add: rows_in_range_set funding_row_of_def)
    then obtain i where "(i, ?y) \<in> set (rows_in_range (\<lambda>x. pf_chain x = rc_chain r) pf_block pf_index lo cap
        (payroll_fundings d))" by auto
    then have "funding_model (i, ?y) \<in> set ?rows" unfolding funding_rows by blast
    then have "funding_model (i, ?y) \<in> set ?hits"
      by (simp add: funding_key_def funding_model_def funding_row_of_def e)
    then obtain x xs where hits: "?hits = x # xs" by (cases ?hits) auto
    then obtain j y where y: "x = funding_model (j, y)" "y \<in> set (payroll_fundings d)"
        "pf_key y = (rc_chain r, l_tx lg, sint (l_index lg))" using hit [of x] by auto
    have "pf_key ?y = (rc_chain r, l_tx lg, sint (l_index lg))"
      by (simp add: pf_key_def funding_row_of_def)
    then have "y = ?y"
      using typed y(2,3) row unfolding fundings_typed_def keys_unique_def distinct_map inj_on_def by metis
    then have "funding_entity_mismatch env r e x @ funding_amount_mismatch env r e x @ funding_block_mismatch env r e x = []"
      by (simp add: y(1) funding_entity_mismatch_def funding_amount_mismatch_def funding_block_mismatch_def
          funding_model_def funding_row_of_def e differs_def equal_fold_def)
    then show ?thesis using hits by (simp add: funding_compare_def)
  next
    case lag
    have "?hits = []"
    proof (rule ccontr)
      assume "?hits \<noteq> []"
      then obtain x where "x \<in> set ?hits" by (cases ?hits) auto
      from hit [OF this] show False using lag(2) unfolding has_row_def by (metis image_eqI)
    qed
    then show ?thesis using lag(1)
      by (auto simp: funding_compare_def seen_block_def e split: option.splits)
  qed
qed

text \<open>
  C26. No false alarm. When the stored fundings agree with the confirmed logs (they are the rows
  \<open>savePayrollFunded\<close> writes, or belong to blocks the indexer has not reached and are absent), the
  table has its key and column types and the range ends below \<open>2 ^ 63\<close>, a successful
  \<open>PayrollReconciler.ReconcileRange\<close> detects no mismatch and creates no exception: the references open
  afterwards were open before.
\<close>

theorem funding_no_false_alarm:
  assumes "payroll_reconcile_range env abi r lo hi w = (Inr res, w')"
    "exact_node env (rc_contract r) logs" "exceptions_ok (w_db w)" "hex_faithful env"
    "fundings_typed (w_db w)" "fundings_agree abi env r logs (w_db w)" "hi < 9223372036854775808"
  shows "rr_mismatches res = 0 \<and> open_refs (w_db w') \<subseteq> open_refs (w_db w)"
proof -
  have none: "pass_found r (funding_recon abi env r) (fundings_in_range (rc_chain r)) logs safe lo (min hi safe) (w_db w) = []"
    for safe
  proof -
    have "min hi safe < 9223372036854775808" using assms(7) by (simp add: min_less_iff_disj)
    then have "m \<notin> set (pass_found r (funding_recon abi env r) (fundings_in_range (rc_chain r)) logs safe lo
        (min hi safe) (w_db w))" for m
      using funding_no_duplicates [OF assms(4,5)] funding_compare_agrees [OF assms(4-6), of _ lo "min hi safe"]
      by (force simp: found_iff funding_recon_def)
    then show ?thesis by (meson last_in_set)
  qed
  note run = assms(1) [unfolded payroll_reconcile_range_def]
  from run show ?thesis
  proof (cases rule: funding.reconcile_range_cases)
    case (ahead latest n)
    then show ?thesis by (simp add: no_result_def)
  next
    case (pass latest n w1)
    have "exceptions_ok (w_db w1)" using assms(3) pass(4) by simp
    from funding.compare_range_spec [OF pass(5) assms(2) this] show ?thesis
      using none pass(4) by (auto simp: pass_spec_def)
  qed
qed

theorem funding_no_false_alarm_witness:
  "let w = indexed_world 15;
       stored = w\<lparr>w_db := (w_db w)\<lparr>payroll_fundings := [funding_row_of 1
         \<lparr>fe_employer = 1, fe_employee = 5, fe_paid = Some 100, fe_fee = Some 1, fe_credited = Some 99\<rparr> 77 10 1000 0]\<rparr>\<rparr>
   in open_refs (w_db (snd (payroll_reconcile_range (recon_env [funding_log]) funded_abi sample_recon 8 30 stored))) = {}"
proof -
  define stored where "stored = (indexed_world 15)\<lparr>w_db := (w_db (indexed_world 15))\<lparr>payroll_fundings := [funding_row_of 1
      \<lparr>fe_employer = 1, fe_employee = 5, fe_paid = Some 100, fe_fee = Some 1, fe_credited = Some 99\<rparr> 77 10 1000 0]\<rparr>\<rparr>"
  let ?y = "payroll_reconcile_range (recon_env [funding_log]) funded_abi sample_recon 8 30 stored"
  have "map_sum id rr_onchain (fst ?y) = Inr 1" unfolding stored_def by code_simp
  then obtain res w' where y: "?y = (Inr res, w')" by (cases ?y; cases "fst ?y") auto
  have clean: "exceptions (w_db stored) = []" by (simp add: stored_def indexed_world_def empty_database_def)
  have typed: "fundings_typed (w_db stored)"
    by (simp add: fundings_typed_def stored_def indexed_world_def keys_unique_def funding_row_of_def in_integer_def)
  have "fundings_agree funded_abi (recon_env [funding_log]) sample_recon [funding_log] (w_db stored)"
    by (auto simp: fundings_agree_def stored_def indexed_world_def funding_log_def funded_abi_def decode_payroll_def
        decoded_as_def sample_recon_def)
  from funding_no_false_alarm [OF y recon_env_exact no_exceptions_ok [OF clean] recon_env_hex typed this]
  have "open_refs (w_db w') \<subseteq> open_refs (w_db stored)" by simp
  then show ?thesis using y clean by (simp add: open_refs_def flip: stored_def)
qed

section \<open>Missing facts are reported\<close>

text \<open>
  Completeness for claims. A salary claim on the chain, not removed, whose block is confirmed,
  inside the range and at or below the indexer's checkpoint, and for which the table has no row with its
  transaction and log index: after a successful \<open>SalaryClaimReconciler.ReconcileRange\<close> its
  SALARY_CLAIM_MISSING exception is open.
\<close>

theorem missing_claim_reported:
  assumes "claim_reconcile_range env abi r lo hi w = (Inr res, w')"
    "exact_node env (rc_contract r) logs" "exceptions_ok (w_db w)" "hex_faithful env"
    "lg \<in> set logs" "\<not> l_removed lg" "lo \<le> l_block lg" "l_block lg \<le> hi" "claim_of_log abi env lg = Some e"
    "\<And>n latest. rpc_latest env n = Inr latest \<Longrightarrow> l_block lg \<le> recon_safe_target r latest"
    "checkpoint_seen r (w_db w) = Some cp" "l_block lg \<le> cp"
    "\<And>y. y \<in> set (salary_claims (w_db w)) \<Longrightarrow> sc_chain y = rc_chain r \<Longrightarrow>
       \<not> (sc_tx y = l_tx lg \<and> word_of_int (sc_index y) = l_index lg)"
  shows "event_ref env (rc_chain r) (l_tx lg) (l_index lg) ''missing'' \<in> open_refs (w_db w')"
proof -
  have e: "oc_tx e = l_tx lg" "oc_index e = l_index lg" "oc_block e = l_block lg"
    using assms(9) by (auto simp: claim_of_log_def split: sum.splits if_splits payroll_data.splits)
  have none: "filter (\<lambda>x. claim_key env x = event_key env (oc_tx e) (oc_index e))
      (claims_in_range (rc_chain r) lo cap (w_db w)) = []" for cap
  proof -
    have "claim_key env (claim_model p) \<noteq> event_key env (oc_tx e) (oc_index e)"
      if "p \<in> set (rows_in_range (\<lambda>x. sc_chain x = rc_chain r) sc_block sc_index lo cap (salary_claims (w_db w)))" for p
    proof -
      obtain j y where p: "p = (j, y)" by (cases p)
      then have "y \<in> set (salary_claims (w_db w))" "sc_chain y = rc_chain r"
        using rows_in_range_member [OF that [unfolded p]] by simp_all
      from assms(13) [OF this] show ?thesis
        by (simp add: p claim_key_def claim_model_def event_key_inj [OF assms(4)] e)
    qed
    then show ?thesis by (auto simp: claims_in_range_def filter_empty_conv)
  qed
  note run = assms(1) [unfolded claim_reconcile_range_def]
  from run show ?thesis
  proof (cases rule: claims.reconcile_range_cases)
    case (ahead latest n)
    then show ?thesis using assms(7) assms(10) [OF ahead(2)] by simp
  next
    case (pass latest n w1)
    let ?safe = "recon_safe_target r latest"
    have safe: "l_block lg \<le> ?safe" using assms(10) [OF pass(2)] .
    have "exceptions_ok (w_db w1)" using assms(3) pass(4) by simp
    note spec = claims.compare_range_spec [OF pass(5) assms(2) this]
    have "missing_claim env r e \<in> set (pass_found r (claim_recon abi env r) (claims_in_range (rc_chain r)) logs
        ?safe lo (min hi ?safe) (w_db w))"
      unfolding found_iff
    proof (intro disjI2 bexI [OF _ assms(5)] exI [of _ e] conjI)
      show "missing_claim env r e \<in> set (er_compare (claim_recon abi env r) ?safe
          (checkpoint_seen r (w_db w) \<noteq> None) (seen_block r (w_db w))
          (claims_in_range (rc_chain r) lo (min hi ?safe) (w_db w)) e)"
        using none safe assms(11,12) by (simp add: claim_recon_def claim_compare_def e seen_block_def not_less)
    qed (use assms(6-9) safe in \<open>simp_all add: claim_recon_def\<close>)
    then have "mm_ref (missing_claim env r e) \<in> open_refs (w_db w')"
      using spec pass(4) by (auto simp: pass_spec_def Let_def)
    then show ?thesis by (simp add: missing_claim_def e)
  qed
qed

theorem missing_claim_reported_witness:
  "''1:77:0:missing'' \<in> open_refs (w_db (snd (claim_reconcile_range (recon_env [sample_log 0]) funded_abi sample_recon 8 30
     (indexed_world 15))))"
proof -
  let ?env = "recon_env [sample_log 0]"
  let ?y = "claim_reconcile_range ?env funded_abi sample_recon 8 30 (indexed_world 15)"
  have "map_sum id rr_onchain (fst ?y) = Inr 1" by code_simp
  then obtain res w' where y: "?y = (Inr res, w')" by (cases ?y; cases "fst ?y") auto
  have clean: "exceptions (w_db (indexed_world 15)) = []" by (simp add: indexed_world_def empty_database_def)
  have dec: "claim_of_log funded_abi ?env (sample_log 0) = Some \<lparr>oc_tx = 77, oc_index = 0, oc_block = 10, oc_employee = 5, oc_amount = 1000\<rparr>"
    by code_simp
  have head: "l_block (sample_log 0) \<le> recon_safe_target sample_recon latest" if "rpc_latest ?env n = Inr latest" for n latest
    using that by (auto simp: recon_env_def sample_recon_def recon_safe_target_def sample_log_def)
  have cp: "checkpoint_seen sample_recon (w_db (indexed_world 15)) = Some 15" by code_simp
  have "event_ref ?env (rc_chain sample_recon) (l_tx (sample_log 0)) (l_index (sample_log 0)) ''missing'' \<in> open_refs (w_db w')"
    by (rule missing_claim_reported [OF y recon_env_exact no_exceptions_ok [OF clean] recon_env_hex _ _ _ _ dec head cp])
       (simp_all add: sample_log_def indexed_world_def empty_database_def)
  moreover have "event_ref ?env (rc_chain sample_recon) (l_tx (sample_log 0)) (l_index (sample_log 0)) ''missing'' = ''1:77:0:missing''"
    by code_simp
  ultimately show ?thesis using y by simp
qed

section \<open>A second pass changes nothing\<close>

text \<open>
  C27. Idempotence. When a successful \<open>TokenTransferReconciler.ReconcileRange\<close> is repeated at the same head with
  nothing written in between, the repetition, if it succeeds, writes nothing at all: the same
  mismatches are counted, no exception is created and none is resolved or changed.
\<close>

theorem transfer_pass_idempotent:
  assumes "transfer_reconcile_range env f r lo hi w = (Inr res, v)"
    "transfer_reconcile_range env f r lo hi v = (Inr res', v')"
    "exact_node env (rc_contract r) logs" "exceptions_ok (w_db w)"
    "\<And>n l. rpc_latest env n = Inr l \<Longrightarrow> l = latest"
  shows "w_db v' = w_db v \<and> rr_created res' = 0 \<and> rr_mismatches res' = rr_mismatches res"
  by (rule transfers.range_again [OF assms(1,2) [unfolded transfer_reconcile_range_def] assms(3,4)])
     (rule assms(5))

definition sample_token :: erc20_filterer where
  "sample_token = \<lparr>f_token = 9, f_transfer_id = 3, f_has_approval = False, f_approval_id = 0,
     f_unpack_transfer = (\<lambda>_. Inr [BigInt 40]), f_unpack_approval = (\<lambda>_. Inr [])\<rparr>"

definition moved_log :: evm_log where
  "moved_log = \<lparr>l_address = 9, l_topics = [3, 4, 5], l_data = [], l_block = 10, l_tx = 77, l_index = 2,
     l_removed = False\<rparr>"

theorem transfer_pass_idempotent_witness:
  "let w1 = snd (transfer_reconcile_range (recon_env [moved_log]) sample_token sample_recon 8 30 (indexed_world 15))
   in w_db (snd (transfer_reconcile_range (recon_env [moved_log]) sample_token sample_recon 8 30 w1)) = w_db w1 \<and>
      open_refs (w_db w1) = {''1:9:77:2:missing''}"
proof -
  let ?f = "transfer_reconcile_range (recon_env [moved_log]) sample_token sample_recon 8 30"
  have one: "map_sum id rr_created (fst (?f (indexed_world 15))) = Inr 1"
    "map rx_ref (filter is_open (exceptions (w_db (snd (?f (indexed_world 15)))))) = [''1:9:77:2:missing'']"
    "map_sum id rr_skipped (fst (?f (snd (?f (indexed_world 15))))) = Inr 1" by code_simp+
  then obtain res v res' v' where y: "?f (indexed_world 15) = (Inr res, v)" "?f v = (Inr res', v')"
    by (cases "?f (indexed_world 15)"; cases "fst (?f (indexed_world 15))"; cases "?f (snd (?f (indexed_world 15)))";
        cases "fst (?f (snd (?f (indexed_world 15))))") auto
  have ok: "exceptions_ok (w_db (indexed_world 15))"
    by (simp add: no_exceptions_ok indexed_world_def empty_database_def)
  have head: "l = 20" if "rpc_latest (recon_env [moved_log]) n = Inr l" for n l using that by (simp add: recon_env_def)
  have "w_db v' = w_db v" using transfer_pass_idempotent [OF y recon_env_exact ok head] by simp
  moreover have "open_refs (w_db v) = set [''1:9:77:2:missing'']"
    using one(2) y(1) unfolding open_refs_def by (metis snd_conv)
  ultimately show ?thesis unfolding Let_def y(1) snd_conv y(2) by simp
qed

section \<open>Every path\<close>

text \<open>
  What the sweeps may write, on every path and under every fault: of the three workers' \<open>ReconcileNextBatch\<close>
  none changes an indexed table or the checkpoint of another stream (the checkpoints of the
  indexers above all), and there is never more than one open exception for a reference.
\<close>

theorem sweeps_only_book:
  "bookkeeping (rc_chain r) (rc_stream r) (w_db w) (w_db (snd (payroll_reconcile_next_batch env abi r batch w))) \<and>
   bookkeeping (rc_chain r) (rc_stream r) (w_db w) (w_db (snd (claim_reconcile_next_batch env abi r batch w))) \<and>
   bookkeeping (rc_chain r) (rc_stream r) (w_db w) (w_db (snd (transfer_reconcile_next_batch env f r batch w))) \<and>
   (exceptions_ok (w_db w) \<longrightarrow>
      exceptions_ok (w_db (snd (payroll_reconcile_next_batch env abi r batch w))) \<and>
      exceptions_ok (w_db (snd (claim_reconcile_next_batch env abi r batch w))) \<and>
      exceptions_ok (w_db (snd (transfer_reconcile_next_batch env f r batch w))))"
  using funding.next_batch_keeps claims.next_batch_keeps transfers.next_batch_keeps
  unfolding books.keeps_def oks.keeps_def payroll_reconcile_next_batch_def claim_reconcile_next_batch_def
    transfer_reconcile_next_batch_def by simp

theorem sweeps_only_book_witness:
  "exceptions_ok (w_db (snd (claim_reconcile_next_batch (recon_env [sample_log 0]) funded_abi sample_recon 50
     (indexed_world 15))))"
  using sweeps_only_book [of sample_recon "indexed_world 15" "recon_env [sample_log 0]" funded_abi 50]
    no_exceptions_ok [of "w_db (indexed_world 15)"]
  by (simp add: indexed_world_def empty_database_def)

text \<open>
  C28. Failing passes raise no false alarm either. Whatever the outcome of \<open>PayrollReconciler.ReconcileRange\<close>,
  under any RPC and database faults, an exception that is open afterwards was open before or
  reports, with its documents, a mismatch that is there between the confirmed logs and the stored
  fundings at a head the node really answered; in particular a pass that never got an answer opens none.
\<close>

theorem funding_pass_sound:
  assumes "payroll_reconcile_range env abi r lo hi w = (outcome, w')" "exact_node env (rc_contract r) logs"
    "x \<in> open_rows (w_db w')"
  shows "x \<in> open_rows (w_db w) \<or>
    (\<exists>n latest. rpc_latest env n = Inr latest \<and> lo \<le> recon_safe_target r latest \<and>
      (\<exists>m \<in> set (pass_found r (funding_recon abi env r) (fundings_in_range (rc_chain r)) logs
                   (recon_safe_target r latest) lo (min hi (recon_safe_target r latest)) (w_db w)).
         recorded_row m x))"
  using funding.range_sound [OF _ assms(2,3)] assms(1) unfolding payroll_reconcile_range_def by blast

text \<open>The database fails while the open exceptions are loaded: the pass ends in an error.\<close>

theorem funding_pass_sound_witness:
  "\<exists>e w' x m. payroll_reconcile_range ((recon_env [funding_log])\<lparr>db_fault :=
       (\<lambda>n. if n = 6 then Some (new_error ''conn lost'') else None)\<rparr>) funded_abi sample_recon 8 30 (indexed_world 15) = (Inl e, w') \<and>
     x \<in> open_rows (w_db w') \<and> recorded_row m x \<and>
     (\<exists>safe. m \<in> set (pass_found sample_recon (funding_recon funded_abi ((recon_env [funding_log])\<lparr>db_fault :=
       (\<lambda>n. if n = 6 then Some (new_error ''conn lost'') else None)\<rparr>) sample_recon) (fundings_in_range 1) [funding_log]
        safe 8 (min 30 safe) (w_db (indexed_world 15))))"
proof -
  define env where "env = (recon_env [funding_log])\<lparr>db_fault := (\<lambda>n. if n = 6 then Some (new_error ''conn lost'') else None)\<rparr>"
  let ?y = "payroll_reconcile_range env funded_abi sample_recon 8 30 (indexed_world 15)"
  have eval: "map_sum emsg rr_created (fst ?y) = Inl ''reconciliation failed to load open exceptions: failed to query open exceptions by entity_ref prefix: conn lost''"
    "map rx_ref (filter is_open (exceptions (w_db (snd ?y)))) = [''1:77:0:missing'']"
    unfolding env_def by code_simp+
  then obtain e w' where y: "?y = (Inl e, w')" by (cases ?y; cases "fst ?y") auto
  from eval(2) y have "filter is_open (exceptions (w_db w')) \<noteq> []" by auto
  then obtain x where "x \<in> set (filter is_open (exceptions (w_db w')))"
    by (metis list.set_intros(1) neq_Nil_conv)
  then have x: "x \<in> open_rows (w_db w')" by (simp add: open_rows_def)
  have node: "exact_node env (rc_contract sample_recon) [funding_log]"
    by (simp add: exact_node_def env_def recon_env_def)
  have "x \<notin> open_rows (w_db (indexed_world 15))" by (simp add: open_rows_def indexed_world_def empty_database_def)
  with funding_pass_sound [OF y node x] obtain safe m where
    "m \<in> set (pass_found sample_recon (funding_recon funded_abi env sample_recon) (fundings_in_range 1)
       [funding_log] safe 8 (min 30 safe) (w_db (indexed_world 15)))" "recorded_row m x"
    by (auto simp: sample_recon_def)
  then show ?thesis using y x unfolding env_def by blast
qed

end
