(* ===== verification/Sweep_Properties.thy ===== *)
theory Sweep_Properties
  imports Recon_Properties
begin

text \<open>
  The sweep of the event workers (\<open>ReconcileNextBatch\<close>) moves its cursor to the end of the batch
  whether or not the comparison could be made there: past blocks the indexer has not reached, and past
  a range that turned out to be unconfirmed.
\<close>

section \<open>References identify events\<close>

lemma hash_text_plain: "hex_faithful env \<Longrightarrow> CHR '':'' \<notin> set (hash_hex env h)"
proof
  assume "hex_faithful env" "CHR '':'' \<in> set (hash_hex env h)"
  then have "lower_char (CHR '':'') \<in> set (to_lower (hash_hex env h))" unfolding to_lower_def by simp
  moreover have "lower_char (CHR '':'') = CHR '':''" by code_simp
  ultimately show False using \<open>hex_faithful env\<close> by (simp add: hex_faithful_def)
qed

lemma event_ref_inj:
  assumes "hex_faithful env" "event_ref env c t i what = event_ref env c t' i' what'"
  shows "t = t' \<and> i = i' \<and> what = what'"
proof -
  have "hash_hex env t @ CHR '':'' # (dec_u64 i @ CHR '':'' # what) =
      hash_hex env t' @ CHR '':'' # (dec_u64 i' @ CHR '':'' # what')"
    using assms(2) by (simp add: event_ref_def)
  from split_at_sep [OF hash_text_plain [OF assms(1)] hash_text_plain [OF assms(1)] this]
  have h: "hash_hex env t = hash_hex env t'"
    and "dec_u64 i @ CHR '':'' # what = dec_u64 i' @ CHR '':'' # what'" by simp_all
  from split_at_sep [OF dec_u64_no_colon dec_u64_no_colon this(2)] have "i = i'" "what = what'" by simp_all
  moreover have "t = t'" using assms(1) h by (metis hex_faithful_def injD)
  ultimately show ?thesis by simp
qed

text \<open>
  A mismatch with a reference of an event comes from its comparison, which is not lagging or has
  found a stored row of the event, or from the duplicates among such rows.
\<close>

lemma compared_event:
  assumes "hex_faithful env" "m \<in> set (funding_compare env r safe has cp rows e)"
    "mm_ref m = event_ref env (rc_chain r) tx i what"
  shows "of_tx e = tx \<and> of_index e = i \<and>
    (has \<and> of_block e \<le> cp \<or> (\<exists>x \<in> set rows. funding_key env x = event_key env tx i))"
proof -
  let ?same = "filter (\<lambda>x. funding_key env x = event_key env (of_tx e) (of_index e)) rows"
  have "(\<exists>what'. mm_ref m = event_ref env (rc_chain r) (of_tx e) (of_index e) what') \<and>
      (has \<and> of_block e \<le> cp \<or> ?same \<noteq> [])"
  proof (cases ?same)
    case Nil
    then show ?thesis using assms(2) by (auto simp: funding_compare_def missing_funding_def not_less split: if_splits)
  next
    case (Cons x xs)
    then show ?thesis using assms(2)
      by (auto simp: funding_compare_def funding_entity_mismatch_def funding_amount_mismatch_def
          funding_block_mismatch_def split: if_splits)
  qed
  then obtain what' where ref: "mm_ref m = event_ref env (rc_chain r) (of_tx e) (of_index e) what'"
    and cause: "has \<and> of_block e \<le> cp \<or> ?same \<noteq> []" by blast
  from event_ref_inj [OF assms(1) ref [symmetric, unfolded assms(3)]]
  have "of_tx e = tx" "of_index e = i" by simp_all
  then show ?thesis using cause by (auto simp: filter_empty_conv)
qed

lemma duplicated_event:
  assumes "hex_faithful env" "m \<in> set (funding_duplicates env r rows)"
    "mm_ref m = event_ref env (rc_chain r) tx i what"
  shows "\<exists>x \<in> set rows. fm_tx x = tx \<and> fm_index x = i"
proof -
  obtain g where g: "g \<in> set (duplicate_groups r (funding_key env) rows)" "m = funding_duplicate env r g"
    using assms(2) by (auto simp: funding_duplicates_def)
  then have "g \<noteq> []" "set g \<subseteq> set rows" by (auto simp: duplicate_groups_def)
  moreover have "event_ref env (rc_chain r) (fm_tx (hd g)) (fm_index (hd g)) ''duplicate'' = event_ref env (rc_chain r) tx i what"
    using assms(3) g(2) by (simp add: funding_duplicate_def Let_def)
  ultimately show ?thesis using event_ref_inj [OF assms(1)] hd_in_set by blast
qed

definition funding_stored :: "int \<Rightarrow> evm_log \<Rightarrow> database \<Rightarrow> bool" where
  "funding_stored chain lg d \<longleftrightarrow> (\<exists>y \<in> set (payroll_fundings d). pf_chain y = chain \<and> pf_tx y = l_tx lg \<and>
     word_of_int (pf_index y) = l_index lg)"

lemma stored_row:
  assumes "x \<in> set (fundings_in_range chain lo hi d)" "fm_tx x = l_tx lg" "fm_index x = l_index lg"
  shows "funding_stored chain lg d"
proof -
  obtain n y where y: "(n, y) \<in> set (rows_in_range (\<lambda>r. pf_chain r = chain) pf_block pf_index lo hi (payroll_fundings d))"
    "x = funding_model (n, y)"
    using assms(1) by (auto simp: fundings_in_range_def)
  then show ?thesis using rows_in_range_member [OF y(1)] assms(2,3) by (auto simp: funding_stored_def funding_model_def)
qed

lemma keyed_row:
  assumes "hex_faithful env" "x \<in> set (fundings_in_range chain lo hi d)"
    "funding_key env x = event_key env (l_tx lg) (l_index lg)"
  shows "funding_stored chain lg d"
proof -
  have "fm_tx x = l_tx lg \<and> fm_index x = l_index lg"
    using assms(1,3) event_key_inj [OF assms(1)] by (auto simp: funding_key_def)
  then show ?thesis using stored_row [OF assms(2)] by blast
qed

section \<open>Lagging blocks are left behind\<close>

lemma less_is_succ: "b \<le> h \<Longrightarrow> h \<noteq> - 1 \<Longrightarrow> (b :: u64) < h + 1"
proof -
  assume "b \<le> h" "h \<noteq> - 1"
  from \<open>h \<noteq> - 1\<close> have "1 + h \<noteq> 0" by (metis add_eq_0_iff add.commute)
  from unatSuc [OF this] \<open>b \<le> h\<close> show "b < h + 1" by (simp add: word_less_nat_alt word_le_nat_alt add.commute)
qed

text \<open>
  C29. An event the indexer has not reached is skipped for good. When \<open>PayrollReconciler.ReconcileNextBatch\<close>
  succeeds over a batch that contains the block of a log above the indexer's checkpoint which is not
  stored yet, no exception of any kind is opened for the log, not even a missing one, and the cursor
  moves to the end of the batch: every later batch starts past the block, so the sweep never compares
  the log again, also when the indexer then fails to store it.
\<close>

theorem sweep_forgets_lag:
  assumes run: "payroll_reconcile_next_batch env abi r batch w = (Inr res, w')"
    and node: "exact_node env (rc_contract r) logs" and ok: "exceptions_ok (w_db w)" and hex: "hex_faithful env"
    and lg: "sweep_from r (w_db w) \<le> l_block lg" "l_block lg \<le> rr_to res"
    and once: "\<And>x. x \<in> set logs \<Longrightarrow> l_tx x = l_tx lg \<Longrightarrow> l_index x = l_index lg \<Longrightarrow> x = lg"
    and lag: "\<And>cp. checkpoint_seen r (w_db w) = Some cp \<Longrightarrow> cp < l_block lg"
    and unstored: "\<not> funding_stored (rc_chain r) lg (w_db w)"
    and cursor: "rc_checkpoints r" "rc_stream r \<noteq> []" "rr_to res \<noteq> - 1" "rc_start r \<le> rr_to res"
  shows "(\<forall>what. event_ref env (rc_chain r) (l_tx lg) (l_index lg) what \<in> open_refs (w_db w') \<longrightarrow>
      event_ref env (rc_chain r) (l_tx lg) (l_index lg) what \<in> open_refs (w_db w)) \<and>
    checkpoint_of (w_db w') (rc_chain r) (rc_stream r) = Some (rr_to res) \<and>
    l_block lg < sweep_from r (w_db w')"
proof -
  let ?ref = "event_ref env (rc_chain r) (l_tx lg) (l_index lg)"
  have none: "?ref what \<notin> mm_ref ` set (pass_found r (funding_recon abi env r) (fundings_in_range (rc_chain r)) logs
      safe lo cap (w_db w))" for what safe lo cap
  proof
    assume "?ref what \<in> mm_ref ` set (pass_found r (funding_recon abi env r) (fundings_in_range (rc_chain r)) logs
      safe lo cap (w_db w))"
    then obtain m where m: "mm_ref m = ?ref what" and found: "m \<in> set (pass_found r (funding_recon abi env r)
        (fundings_in_range (rc_chain r)) logs safe lo cap (w_db w))" by auto
    have "m \<notin> set (funding_duplicates env r (fundings_in_range (rc_chain r) lo cap (w_db w)))"
      using duplicated_event [OF hex _ m] stored_row unstored by blast
    then obtain x e where x: "x \<in> set logs" "funding_of_log abi env x = Some e"
        "m \<in> set (funding_compare env r safe (checkpoint_seen r (w_db w) \<noteq> None) (seen_block r (w_db w))
          (fundings_in_range (rc_chain r) lo cap (w_db w)) e)"
      using found unfolding found_iff funding_recon_def event_recon.simps by blast
    have hit: "of_tx e = l_tx lg" "of_index e = l_index lg" "checkpoint_seen r (w_db w) \<noteq> None"
      "of_block e \<le> seen_block r (w_db w)"
      using compared_event [OF hex x(3) m] keyed_row [OF hex] unstored by blast+
    have e: "of_tx e = l_tx x" "of_index e = l_index x" "of_block e = l_block x"
      using x(2) by (auto simp: funding_of_log_def split: sum.splits if_splits payroll_data.splits)
    have "x = lg" by (rule once [OF x(1)]) (use e hit in simp_all)
    then have "l_block lg \<le> seen_block r (w_db w)" using e(3) hit(4) by simp
    then show False using lag hit(3) by (auto simp: seen_block_def not_le split: option.splits)
  qed
  note run' = run [unfolded payroll_reconcile_next_batch_def]
  have "(\<forall>what. ?ref what \<in> open_refs (w_db w') \<longrightarrow> ?ref what \<in> open_refs (w_db w)) \<and> checkpoint_of (w_db w') (rc_chain r) (rc_stream r) = Some (rr_to res)"
    using run'
  proof (cases rule: funding.next_batch_cases)
    case (idle latest n)
    then show ?thesis using lg by simp
  next
    case (swept latest n w1 w2)
    have "rr_to res \<ge> sweep_from r (w_db w)" using lg by simp
    then have save: "save_checkpoint env (rc_chain r) (rc_stream r) (rr_to res) [] w2 = (Inr (), w')"
      using swept(5) cursor by simp
    have "open_refs (w_db w') = open_refs (w_db w2)"
      using save by (auto simp: save_checkpoint_def Inr_iffs stmt_checkpoint_def open_refs_def split: if_splits)
    moreover have "?ref what \<in> open_refs (w_db w)" if "?ref what \<in> open_refs (w_db w2)" for what
      using swept(4)
    proof (cases rule: funding.reconcile_range_cases)
      case (ahead l' n')
      then show ?thesis using that swept(3) by simp
    next
      case (pass l' n' v)
      have "exceptions_ok (w_db v)" using ok pass(4) swept(3) by simp
      from funding.compare_range_spec [OF pass(5) node this] show ?thesis
        using none [of what] that pass(4) swept(3) by (auto simp: pass_spec_def Let_def)
    qed
    ultimately show ?thesis using save_checkpoint_Inr [OF save] by auto
  qed
  moreover from this have "sweep_from r (w_db w') = rr_to res + 1"
    using cursor by (simp add: sweep_from_def)
  moreover have "l_block lg < rr_to res + 1"
    using lg(2) cursor(3) by (simp add: less_is_succ)
  ultimately show ?thesis by simp
qed

text \<open>The indexer stands at block 9, the funding is in block 10: the sweep moves to block 15.\<close>

theorem sweep_forgets_lag_witness:
  "let w' = snd (payroll_reconcile_next_batch (recon_env [funding_log]) funded_abi sample_recon 50 (indexed_world 9))
   in open_refs (w_db w') = {} \<and> sweep_from sample_recon (w_db w') = 16 \<and> l_block funding_log = 10"
proof -
  let ?y = "payroll_reconcile_next_batch (recon_env [funding_log]) funded_abi sample_recon 50 (indexed_world 9)"
  have eval: "map_sum id rr_to (fst ?y) = Inr 15" "exceptions (w_db (snd ?y)) = []" by code_simp+
  then obtain res w' where y: "?y = (Inr res, w')" and res: "rr_to res = 15" by (cases ?y; cases "fst ?y") auto
  have clean: "exceptions (w_db (indexed_world 9)) = []" by (simp add: indexed_world_def empty_database_def)
  have seen: "checkpoint_seen sample_recon (w_db (indexed_world 9)) = Some 9"
    "sweep_from sample_recon (w_db (indexed_world 9)) = 8" by code_simp+
  have facts: "l_block funding_log = 10" "rc_checkpoints sample_recon" "rc_stream sample_recon \<noteq> []"
    "rc_start sample_recon = 8" by code_simp+
  have unstored: "\<not> funding_stored (rc_chain sample_recon) funding_log (w_db (indexed_world 9))" by code_simp
  have "checkpoint_of (w_db w') (rc_chain sample_recon) (rc_stream sample_recon) = Some (rr_to res)"
    using sweep_forgets_lag [OF y recon_env_exact no_exceptions_ok [OF clean] recon_env_hex, of funding_log]
    using unstored by (simp add: facts seen res)
  then have "sweep_from sample_recon (w_db w') = 16" by (simp add: sweep_from_def facts res)
  then show ?thesis using y eval(2) facts(1) by (simp add: open_refs_def)
qed

section \<open>A head that moves back\<close>

text \<open>
  A batch that was not compared at all is swept as well. \<open>SalaryClaimReconciler.ReconcileNextBatch\<close> asks for
  the head, fixes the batch, and \<open>ReconcileRange\<close> asks again; when the second answer puts the confirmed
  head before the batch, the range is returned as unconfirmed without a comparison, with its end as
  \<open>ToBlock\<close>, and the cursor is saved at that end: no exception is opened or resolved, and the next sweep
  starts past blocks that were above the confirmed head.
\<close>

theorem sweep_skips_unchecked:
  assumes run: "claim_reconcile_next_batch env abi r batch w = (Inr res, w')"
    and node: "exact_node env (rc_contract r) logs" and ok: "exceptions_ok (w_db w)"
    and skipped: "rr_safe res < rr_from res" "sweep_from r (w_db w) \<le> rr_to res"
    and cursor: "rc_checkpoints r" "rc_stream r \<noteq> []"
  shows "exceptions (w_db w') = exceptions (w_db w) \<and> rr_rows res = 0 \<and> rr_onchain res = 0 \<and>
    rr_safe res < rr_to res \<and> checkpoint_of (w_db w') (rc_chain r) (rc_stream r) = Some (rr_to res)"
proof -
  note run' = run [unfolded claim_reconcile_next_batch_def]
  from run' show ?thesis
  proof (cases rule: claims.next_batch_cases)
    case (idle latest n)
    then show ?thesis using skipped(2) by simp
  next
    case (swept latest n w1 w2)
    have save: "save_checkpoint env (rc_chain r) (rc_stream r) (rr_to res) [] w2 = (Inr (), w')"
      using swept(5) cursor skipped(2) by simp
    then have same: "exceptions (w_db w') = exceptions (w_db w2)"
      by (auto simp: save_checkpoint_def Inr_iffs stmt_checkpoint_def split: if_splits)
    from swept(4) show ?thesis
    proof (cases rule: claims.reconcile_range_cases)
      case (ahead l' n')
      then show ?thesis
        using swept(3) skipped same save_checkpoint_Inr [OF save] by (simp add: no_result_def order.strict_trans2)
    next
      case (pass l' n' v)
      have "exceptions_ok (w_db v)" using ok pass(4) swept(3) by simp
      from claims.compare_range_spec [OF pass(5) node this]
      have "rr_from res \<le> rr_safe res" using pass(3) by (simp add: pass_spec_def Let_def)
      then show ?thesis using skipped(1) by simp
    qed
  qed
qed

text \<open>The node answers 20, then 10: blocks 8 to 15 are swept although only block 5 is confirmed.\<close>

theorem sweep_skips_unchecked_witness:
  "let env = (recon_env [sample_log 0])\<lparr>rpc_latest := (\<lambda>n. Inr (if n = 0 then 20 else 10))\<rparr>;
       w' = snd (claim_reconcile_next_batch env funded_abi sample_recon 50 (indexed_world 15))
   in exceptions (w_db w') = [] \<and> checkpoint_of (w_db w') 1 ''recon'' = Some 15"
proof -
  define env where "env = (recon_env [sample_log 0])\<lparr>rpc_latest := (\<lambda>n. Inr (if n = 0 then 20 else 10))\<rparr>"
  let ?y = "claim_reconcile_next_batch env funded_abi sample_recon 50 (indexed_world 15)"
  have eval: "map_sum id (\<lambda>res. (rr_from res, rr_to res, rr_safe res)) (fst ?y) = Inr (8, 15, 5)"
    unfolding env_def by code_simp
  then obtain res w' where y: "?y = (Inr res, w')" and res: "rr_from res = 8" "rr_to res = 15" "rr_safe res = 5"
    by (cases ?y; cases "fst ?y") auto
  have clean: "exceptions (w_db (indexed_world 15)) = []" by (simp add: indexed_world_def empty_database_def)
  have start: "sweep_from sample_recon (w_db (indexed_world 15)) = 8" by code_simp
  have node: "exact_node env (rc_contract sample_recon) [sample_log 0]"
    by (simp add: exact_node_def env_def recon_env_def)
  from sweep_skips_unchecked [OF y node no_exceptions_ok [OF clean]]
  have "exceptions (w_db w') = [] \<and> checkpoint_of (w_db w') 1 ''recon'' = Some 15"
    unfolding res start clean by (simp add: sample_recon_def)
  then show ?thesis using y by (simp flip: env_def)
qed

end
