(* ===== verification/Balance_Properties.thy ===== *)
theory Balance_Properties
  imports Balance_Facts Sweep_Properties
begin

text \<open>
  The properties of the balance worker: the two derivations of a balance agree, a successful pass
  settles exactly the references it compared, at a block that is confirmed and indexed; and the
  profiles are compared across blocks.
\<close>

section \<open>The comparisons settle their references\<close>

interpretation wallet_checks: reference_check "check_balance env r b balances" "balance_ref env r"
  "\<lambda>a. (case map_of balances a of None \<Rightarrow> 0 | Some v \<Rightarrow> v) \<noteq> bal a b" "\<lambda>a. a \<noteq> 0"
  "quiet env \<and> exact_calls env r bal flag" for env r b balances bal flag
proof
  show "recon.keeps (check_balance env r b balances a res)" "oks.keeps (check_balance env r b balances a res)"
    for a res
    unfolding check_balance_def Let_def call_with_retry_view query_balance_def
    by (auto intro!: recon.keeps_rules oks.keeps_rules keeps_recon_call record_once_keeps resolve_quietly_keeps
        split: sum.split list.split abi_value.split prod.split)
  show "open_refs (w_db w') = settle (open_refs (w_db w))
      (balance_ref env r a, (case map_of balances a of None \<Rightarrow> 0 | Some v \<Rightarrow> v) \<noteq> bal a b)"
    if asm: "quiet env \<and> exact_calls env r bal flag" "a \<noteq> 0" and run: "check_balance env r b balances a res w = (Inr res', w')"
      and ok: "exceptions_ok (w_db w)" for a res w res' w'
    by (rule compare_settles [OF run [unfolded check_balance_def Let_def if_not_P [OF asm(2)]]
          balance_call [OF _ conjunct2 [OF asm(1)]] _ conjunct1 [OF asm(1)] ok]) (simp_all add: balance_mismatch_def)
  show "br_target res' = br_target res" if run: "check_balance env r b balances a res w = (Inr res', w')" for a res w res' w'
  proof (cases "a = 0")
    case True
    then show ?thesis using run by (simp add: check_balance_def ret_def)
  next
    case False
    show ?thesis
      by (rule compare_target [OF run [unfolded check_balance_def Let_def if_not_P [OF False]]]) simp_all
  qed
qed

interpretation profile_checks: reference_check "check_state env r payroll b m property"
  "\<lambda>(a, _). state_ref env r a property" "\<lambda>(a, v). flag m a b \<noteq> v" "\<lambda>_. True"
  "quiet env \<and> exact_calls env r bal flag \<and> bc_payroll_abi r = Some payroll" for env r payroll b m property bal flag
proof
  show "recon.keeps (check_state env r payroll b m property x res)"
    "oks.keeps (check_state env r payroll b m property x res)" for x res
    unfolding check_state_def Let_def call_with_retry_view query_flag_def
    by (auto intro!: recon.keeps_rules oks.keeps_rules keeps_recon_call record_once_keeps resolve_quietly_keeps
        split: sum.split list.split prod.split)
  show "open_refs (w_db w') = settle (open_refs (w_db w))
      ((case x of (a, _) \<Rightarrow> state_ref env r a property), (case x of (a, v) \<Rightarrow> flag m a b \<noteq> v))"
    if asm: "quiet env \<and> exact_calls env r bal flag \<and> bc_payroll_abi r = Some payroll"
      and run: "check_state env r payroll b m property x res w = (Inr res', w')"
      and ok: "exceptions_ok (w_db w)" for x res w res' w'
  proof -
    obtain a db where x: "x = (a, db)" by (cases x)
    have "quiet env" "exact_calls env r bal flag" "bc_payroll_abi r = Some payroll" using asm by simp_all
    then have "open_refs (w_db w') = settle (open_refs (w_db w)) (state_ref env r a property, flag m a b \<noteq> db)"
      by (intro compare_settles [OF run [unfolded check_state_def Let_def x prod.case] flag_call _ _ ok])
        (simp_all add: state_mismatch_def)
    then show ?thesis by (simp add: x)
  qed
  show "br_target res' = br_target res"
    if run: "check_state env r payroll b m property x res w = (Inr res', w')" for x res w res' w'
  proof -
    obtain a db where x: "x = (a, db)" by (cases x)
    show ?thesis
      by (rule compare_target [OF run [unfolded check_state_def Let_def x prod.case]]) simp_all
  qed
qed

section \<open>The phases of a pass\<close>

lemma phase_keeps:
  "recon.keeps (reconcile_balances_at_block env r b res)" "oks.keeps (reconcile_balances_at_block env r b res)"
  "recon.keeps (reconcile_contract_balance_at_block env r b res)" "oks.keeps (reconcile_contract_balance_at_block env r b res)"
  "recon.keeps (reconcile_contract_states_at_block env r b res)" "oks.keeps (reconcile_contract_states_at_block env r b res)"
proof -
  show "recon.keeps (reconcile_balances_at_block env r b res)" "oks.keeps (reconcile_balances_at_block env r b res)"
    unfolding reconcile_balances_at_block_def get_relevant_addresses_def calculate_all_token_balances_def
    by (auto intro!: recon.keeps_rules oks.keeps_rules wallet_checks.all_keep)
  show "recon.keeps (reconcile_contract_balance_at_block env r b res)" "oks.keeps (reconcile_contract_balance_at_block env r b res)"
    unfolding reconcile_contract_balance_at_block_def calculate_token_balance_def call_with_retry_view query_balance_def
    by (auto intro!: recon.keeps_rules oks.keeps_rules keeps_recon_call record_once_keeps resolve_quietly_keeps
        split: sum.split list.split abi_value.split prod.split)
  show "recon.keeps (reconcile_contract_states_at_block env r b res)" "oks.keeps (reconcile_contract_states_at_block env r b res)"
    unfolding reconcile_contract_states_at_block_def list_employers_def list_employees_def
    by (auto intro!: recon.keeps_rules oks.keeps_rules profile_checks.all_keep split: option.split)
qed

lemma balance_frame [simp]:
  "relevant_addresses env chain token payroll b (d\<lparr>exceptions := xs\<rparr>) = relevant_addresses env chain token payroll b d"
  "token_balance chain token a b (d\<lparr>exceptions := xs\<rparr>) = token_balance chain token a b d"
  by (simp_all add: relevant_addresses_def moved_addresses_def token_rows_def token_balance_def live_rows_def)

lemma relevant_nonzero: "a \<in> set (relevant_addresses env chain token payroll b d) \<Longrightarrow> a \<noteq> 0"
  by (auto simp: relevant_addresses_def moved_addresses_def Let_def split: if_splits)

definition wallet_items ::
  "env \<Rightarrow> balance_reconciler \<Rightarrow> (address \<Rightarrow> u64 \<Rightarrow> int) \<Rightarrow> u64 \<Rightarrow> database \<Rightarrow> (string \<times> bool) list" where
  "wallet_items env r bal b d =
     map (\<lambda>a. (balance_ref env r a, token_balance (bc_chain r) (bc_token r) a b d \<noteq> bal a b))
       (relevant_addresses env (bc_chain r) (bc_token r) (bc_payroll r) b d)"

lemma wallets_settle:
  assumes "reconcile_balances_at_block env r b res w = (Inr res', w')" "quiet env" "exact_calls env r bal flag"
    "exceptions_ok (w_db w)"
  shows "open_refs (w_db w') = foldl settle (open_refs (w_db w)) (wallet_items env r bal b (w_db w))"
proof -
  let ?addrs = "relevant_addresses env (bc_chain r) (bc_token r) (bc_payroll r) b (w_db w)"
  let ?bals = "all_token_balances (bc_chain r) (bc_token r) b (w_db w)"
  from assms(1) obtain v1 where v1: "w_db v1 = w_db w" and
    more: "bind_go (wrapping ''failed to calculate database token balances''
        (calculate_all_token_balances env (bc_chain r) (bc_token r) b)) (\<lambda>balances.
      for_each (check_balance env r b balances) ?addrs res) v1 = (Inr res', w')"
    unfolding reconcile_balances_at_block_def get_relevant_addresses_def by (rule bind_query)
  from more obtain v where v: "w_db v = w_db w" "for_each (check_balance env r b ?bals) ?addrs res v = (Inr res', w')"
    unfolding calculate_all_token_balances_def v1 [symmetric] by (rule bind_query)
  have "open_refs (w_db w') = foldl settle (open_refs (w_db v))
      (map (\<lambda>a. (balance_ref env r a, (case map_of ?bals a of None \<Rightarrow> 0 | Some v \<Rightarrow> v) \<noteq> bal a b)) ?addrs)"
    by (rule wallet_checks.all_settle [OF _ _ v(2)]) (use assms v relevant_nonzero in auto)
  also have "map (\<lambda>a. (balance_ref env r a, (case map_of ?bals a of None \<Rightarrow> 0 | Some v \<Rightarrow> v) \<noteq> bal a b)) ?addrs =
      wallet_items env r bal b (w_db w)"
    unfolding wallet_items_def by (rule map_cong [OF refl]) (simp add: all_balances_agree relevant_nonzero)
  finally show ?thesis by (simp add: v(1))
qed

definition contract_items ::
  "env \<Rightarrow> balance_reconciler \<Rightarrow> (address \<Rightarrow> u64 \<Rightarrow> int) \<Rightarrow> u64 \<Rightarrow> database \<Rightarrow> (string \<times> bool) list" where
  "contract_items env r bal b d =
     (if bc_payroll r = 0 then []
      else [(contract_ref env r (bc_payroll r),
             token_balance (bc_chain r) (bc_token r) (bc_payroll r) b d \<noteq> bal (bc_payroll r) b)])"

lemma contract_settles:
  assumes "reconcile_contract_balance_at_block env r b res w = (Inr res', w')" "quiet env"
    "exact_calls env r bal flag" "exceptions_ok (w_db w)"
  shows "open_refs (w_db w') = foldl settle (open_refs (w_db w)) (contract_items env r bal b (w_db w))"
proof (cases "bc_payroll r = 0")
  case True
  then show ?thesis using assms(1)
    by (simp add: reconcile_contract_balance_at_block_def contract_items_def ret_def)
next
  case False
  let ?db = "token_balance (bc_chain r) (bc_token r) (bc_payroll r) b (w_db w)"
  from assms(1) [unfolded reconcile_contract_balance_at_block_def calculate_token_balance_def if_not_P [OF False]]
  obtain w0 where w0: "w_db w0 = w_db w" and
    run: "bind_go (wrapping (''operational error querying contract balanceOf at block '' @ dec_u64 b)
      (call_with_retry env r (query_balance env r contract_texts (bc_payroll r) b))) (\<lambda>v. if ?db = v
      then resolve_quietly env (contract_ref env r (bc_payroll r)) (res\<lparr>br_contracts := br_contracts res + 1\<rparr>)
      else record_once env ''failed creating contract balance mismatch exception''
        (contract_mismatch env r (bc_payroll r) v ?db b) (res\<lparr>br_mismatches := br_mismatches res + 1\<rparr>)) w0 = (Inr res', w')"
    by (rule bind_query)
  have "open_refs (w_db w') = settle (open_refs (w_db w0))
      (contract_ref env r (bc_payroll r), ?db \<noteq> bal (bc_payroll r) b)"
    by (rule compare_settles [OF run balance_call [OF _ assms(3)] _ assms(2)])
      (use assms(4) w0 in \<open>simp_all add: contract_mismatch_def\<close>)
  then show ?thesis using False w0 by (simp add: contract_items_def)
qed

definition sorted_profiles :: "env \<Rightarrow> balance_reconciler \<Rightarrow> ('r \<Rightarrow> int) \<Rightarrow> ('r \<Rightarrow> address) \<Rightarrow> 'r list \<Rightarrow> 'r list" where
  "sorted_profiles env r chain wallet t =
     sort_key (\<lambda>x. bc_collation r (addr_hex env (wallet x))) (filter (\<lambda>x. chain x = bc_chain r) t)"

definition state_items ::
  "env \<Rightarrow> balance_reconciler \<Rightarrow> (string \<Rightarrow> address \<Rightarrow> u64 \<Rightarrow> bool) \<Rightarrow> u64 \<Rightarrow> database \<Rightarrow> (string \<times> bool) list" where
  "state_items env r flag b d =
     (if bc_payroll_abi r = None \<or> \<not> bc_states r \<or> bc_payroll r = 0 then []
      else map (\<lambda>x. (state_ref env r (em_wallet x) ''is_employer_active'',
                     flag ''isEmployerActive'' (em_wallet x) b \<noteq> em_active x))
             (sorted_profiles env r em_chain em_wallet (employers d)) @
           map (\<lambda>x. (state_ref env r (ee_wallet x) ''is_employee_active'',
                     flag ''isEmployeeActive'' (ee_wallet x) b \<noteq> ee_active x))
             (sorted_profiles env r ee_chain ee_wallet (employees d)))"

lemma states_settle:
  assumes "reconcile_contract_states_at_block env r b res w = (Inr res', w')" "quiet env"
    "exact_calls env r bal flag" "exceptions_ok (w_db w)"
  shows "open_refs (w_db w') = foldl settle (open_refs (w_db w)) (state_items env r flag b (w_db w))"
proof (cases "bc_payroll_abi r = None \<or> \<not> bc_states r \<or> bc_payroll r = 0")
  case True
  then have "w' = w" using assms(1)
    by (auto simp: reconcile_contract_states_at_block_def ret_eq split: option.splits if_splits)
  then show ?thesis using True by (simp add: state_items_def)
next
  case False
  then obtain payroll where p: "bc_payroll_abi r = Some payroll" by auto
  let ?ers = "map (\<lambda>x. (em_wallet x, em_active x)) (sorted_profiles env r em_chain em_wallet (employers (w_db w)))"
  let ?ees = "\<lambda>d. map (\<lambda>x. (ee_wallet x, ee_active x)) (sorted_profiles env r ee_chain ee_wallet (employees d))"
  let ?er = "check_state env r payroll b ''isEmployerActive'' ''is_employer_active''"
  let ?ee = "check_state env r payroll b ''isEmployeeActive'' ''is_employee_active''"
  from False have states: "\<not> (\<not> bc_states r \<or> bc_payroll r = 0)" by blast
  from assms(1) [unfolded reconcile_contract_states_at_block_def p option.case if_not_P [OF states] list_employers_def]
  obtain w1 where w1: "w_db w1 = w_db w" and
    run1: "bind_go (for_each ?er ?ers res) (\<lambda>res'.
        bind_go (wrapping ''failed to list employees for state reconciliation''
          (list_employees env (bc_collation r) (bc_chain r))) (\<lambda>ees.
        for_each ?ee (map (\<lambda>x. (ee_wallet x, ee_active x)) ees) res')) w1 = (Inr res', w')"
    unfolding sorted_profiles_def by (rule bind_query)
  from run1 obtain s2 w2 where ers: "for_each ?er ?ers res w1 = (Inr s2, w2)" and
    run2: "bind_go (wrapping ''failed to list employees for state reconciliation''
          (list_employees env (bc_collation r) (bc_chain r))) (\<lambda>ees.
        for_each ?ee (map (\<lambda>x. (ee_wallet x, ee_active x)) ees) s2) w2 = (Inr res', w')"
    unfolding bind_Inr [of "for_each _ _ _"] by blast
  from run2 [unfolded list_employees_def] obtain w3 where w3: "w_db w3 = w_db w2" and
    ees: "for_each ?ee (?ees (w_db w2)) s2 w3 = (Inr res', w')"
    unfolding sorted_profiles_def by (rule bind_query)
  have asm: "quiet env \<and> exact_calls env r bal flag \<and> bc_payroll_abi r = Some payroll" using assms p by blast
  have ok1: "exceptions_ok (w_db w1)" using assms(4) w1 by simp
  have ok3: "exceptions_ok (w_db w3)" using oks.keepsD [OF profile_checks.all_keep(2) ers] ok1 w3 by simp
  have "exceptions_only (w_db w1) (w_db w2)" by (rule recon.keepsD [OF profile_checks.all_keep(1) ers])
  then have same: "employees (w_db w2) = employees (w_db w)" using w1 by (auto simp: exceptions_only_def)
  from profile_checks.all_settle [OF asm _ ees ok3] profile_checks.all_settle [OF asm _ ers ok1]
  show ?thesis using states p w1 w3 same by (simp add: state_items_def case_prod_beta comp_def)
qed

section \<open>The exact effect of a pass\<close>

lemma phase_target:
  "reconcile_balances_at_block env r b res w = (Inr res', w') \<Longrightarrow> br_target res' = br_target res"
  "reconcile_contract_balance_at_block env r b res w = (Inr res', w') \<Longrightarrow> br_target res' = br_target res"
  "reconcile_contract_states_at_block env r b res w = (Inr res', w') \<Longrightarrow> br_target res' = br_target res"
proof -
  show "br_target res' = br_target res" if "reconcile_balances_at_block env r b res w = (Inr res', w')"
    using that by (auto simp: reconcile_balances_at_block_def bind_Inr dest: wallet_checks.all_target)
  show "br_target res' = br_target res" if run: "reconcile_contract_balance_at_block env r b res w = (Inr res', w')"
  proof (cases "bc_payroll r = 0")
    case True
    then show ?thesis using run by (simp add: reconcile_contract_balance_at_block_def ret_def)
  next
    case False
    with run obtain v w0 where "bind_go (wrapping (''operational error querying contract balanceOf at block '' @ dec_u64 b)
        (call_with_retry env r (query_balance env r contract_texts (bc_payroll r) b))) (\<lambda>u. if v = u
      then resolve_quietly env (contract_ref env r (bc_payroll r)) (res\<lparr>br_contracts := br_contracts res + 1\<rparr>)
      else record_once env ''failed creating contract balance mismatch exception''
        (contract_mismatch env r (bc_payroll r) u v b) (res\<lparr>br_mismatches := br_mismatches res + 1\<rparr>)) w0 = (Inr res', w')"
      unfolding reconcile_contract_balance_at_block_def if_not_P [OF False]
        bind_Inr [of "wrapping _ (calculate_token_balance _ _ _ _ _)"] by blast
    then show ?thesis by (rule compare_target) simp_all
  qed
  show "br_target res' = br_target res" if "reconcile_contract_states_at_block env r b res w = (Inr res', w')"
    using that by (auto simp: reconcile_contract_states_at_block_def bind_Inr ret_def dest!: profile_checks.all_target
        split: option.splits if_splits)
qed

text \<open>Every comparison of a pass, in order, and whether it fails.\<close>

definition balance_items ::
  "env \<Rightarrow> balance_reconciler \<Rightarrow> (address \<Rightarrow> u64 \<Rightarrow> int) \<Rightarrow> (string \<Rightarrow> address \<Rightarrow> u64 \<Rightarrow> bool) \<Rightarrow> u64 \<Rightarrow> database
     \<Rightarrow> (string \<times> bool) list" where
  "balance_items env r bal flag b d = wallet_items env r bal b d @ contract_items env r bal b d @ state_items env r flag b d"

lemma item_frame: "exceptions_only d d' \<Longrightarrow>
    contract_items env r bal b d' = contract_items env r bal b d \<and> state_items env r flag b d' = state_items env r flag b d"
  by (auto simp: exceptions_only_def contract_items_def state_items_def)

lemma pass_settles:
  assumes b: "reconcile_balances_at_block env r b res w = (Inr res1, w1)"
    and c: "reconcile_contract_balance_at_block env r b res1 w1 = (Inr res2, w2)"
    and s: "reconcile_contract_states_at_block env r b res2 w2 = (Inr res3, w3)"
    and "quiet env" "exact_calls env r bal flag" "exceptions_ok (w_db w)"
  shows "open_refs (w_db w3) = foldl settle (open_refs (w_db w)) (balance_items env r bal flag b (w_db w))"
proof -
  have ok1: "exceptions_ok (w_db w1)" using oks.keepsD [OF phase_keeps(2) b] assms(6) by simp
  have ok2: "exceptions_ok (w_db w2)" using oks.keepsD [OF phase_keeps(4) c] ok1 by simp
  have d1: "exceptions_only (w_db w) (w_db w1)" by (rule recon.keepsD [OF phase_keeps(1) b])
  have d2: "exceptions_only (w_db w) (w_db w2)"
    using recon.D_trans [OF d1] recon.keepsD [OF phase_keeps(3) c] by blast
  show ?thesis
    using wallets_settle [OF b assms(4-6)] contract_settles [OF c assms(4,5) ok1] states_settle [OF s assms(4,5) ok2]
      item_frame [OF d1] item_frame [OF d2]
    by (simp add: balance_items_def)
qed

text \<open>The cases of \<open>ReconcileTargetBlock\<close>.\<close>

lemma balance_latest_Inr:
  "balance_latest env r w = (Inr latest, w') \<Longrightarrow> w_db w' = w_db w \<and> (\<exists>n. rpc_latest env n = Inr latest)"
  unfolding balance_latest_def wrapping_Inr call_with_retry_view
  using recon_call_Inr [OF untouched.keeps_call(1)] by (fastforce simp: latest_block_def rpc_answer)

text \<open>What the worker takes for the reach of the token indexer.\<close>

definition token_reach :: "balance_reconciler \<Rightarrow> u64 \<Rightarrow> database \<Rightarrow> u64" where
  "token_reach r safe d =
     (if bc_checkpoints r
      then (case checkpoint_of d (bc_chain r) (bc_token_stream r) of Some cp \<Rightarrow> cp | None \<Rightarrow> bc_start r)
      else safe)"

lemma token_checkpoint_Inr:
  "token_checkpoint env r safe w = (Inr cp, w') \<Longrightarrow> w_db w' = w_db w \<and> cp = token_reach r safe (w_db w)"
  by (auto simp: token_checkpoint_def token_reach_def Inr_iffs dest!: get_checkpoint_Inr split: if_splits)

lemma target_block_cases:
  assumes "reconcile_target_block env r requested w = (Inr res, w')"
  obtains (idle) "w_db w' = w_db w" "br_target res = 0"
  | (pass) n latest target res0 res1 res2 v w1 w2 where "rpc_latest env n = Inr latest" "bc_depth r \<le> latest"
      "target = effective_target requested (latest - bc_depth r) (token_reach r (latest - bc_depth r) (w_db w))"
      "bc_start r \<le> target" "w_db v = w_db w" "br_target res0 = target" "br_target res = target"
      "reconcile_balances_at_block env r target res0 v = (Inr res1, w1)"
      "reconcile_contract_balance_at_block env r target res1 w1 = (Inr res2, w2)"
      "reconcile_contract_states_at_block env r target res2 w2 = (Inr res, w')"
proof -
  from assms obtain latest w1 where latest: "balance_latest env r w = (Inr latest, w1)" and
    rest: "(if latest < bc_depth r then ret no_balance_result
     else
       let safe = latest - bc_depth r in
       bind_go (token_checkpoint env r safe) (\<lambda>cp.
       let target = effective_target requested safe cp;
           res = no_balance_result\<lparr>br_safe := safe, br_checkpoint := cp\<rparr>
       in
       if target < bc_start r then ret res
       else
         bind_go (reconcile_balances_at_block env r target (res\<lparr>br_target := target\<rparr>)) (\<lambda>res1.
         bind_go (reconcile_contract_balance_at_block env r target res1) (\<lambda>res2.
         reconcile_contract_states_at_block env r target res2)))) w1 = (Inr res, w')"
    unfolding reconcile_target_block_def bind_Inr [of "balance_latest env r"] by blast
  from balance_latest_Inr [OF latest] obtain n where w1: "w_db w1 = w_db w" and n: "rpc_latest env n = Inr latest" by blast
  let ?safe = "latest - bc_depth r"
  show thesis
  proof (cases "latest < bc_depth r")
    case True
    then have "w' = w1" "res = no_balance_result" using rest by (simp_all add: ret_def)
    then show thesis using idle w1 by (simp add: no_balance_result_def)
  next
    case False
    with rest obtain cp v where cp: "token_checkpoint env r ?safe w1 = (Inr cp, v)" and
      more: "(let target = effective_target requested ?safe cp;
           res = no_balance_result\<lparr>br_safe := ?safe, br_checkpoint := cp\<rparr>
       in
       if target < bc_start r then ret res
       else
         bind_go (reconcile_balances_at_block env r target (res\<lparr>br_target := target\<rparr>)) (\<lambda>res1.
         bind_go (reconcile_contract_balance_at_block env r target res1) (\<lambda>res2.
         reconcile_contract_states_at_block env r target res2))) v = (Inr res, w')"
      unfolding if_not_P [OF False] Let_def [of ?safe] bind_Inr [of "token_checkpoint _ _ _"] by blast
    let ?target = "effective_target requested ?safe cp"
    let ?res = "no_balance_result\<lparr>br_safe := ?safe, br_checkpoint := cp\<rparr>"
    from token_checkpoint_Inr [OF cp] w1 have v: "w_db v = w_db w" "cp = token_reach r ?safe (w_db w)" by simp_all
    show thesis
    proof (cases "?target < bc_start r")
      case True
      then have "w' = v" "res = ?res" using more by (simp_all add: ret_def Let_def)
      then show thesis using idle v by (simp add: no_balance_result_def)
    next
      case start: False
      with more obtain res1 x1 res2 x2 where
        "reconcile_balances_at_block env r ?target (?res\<lparr>br_target := ?target\<rparr>) v = (Inr res1, x1)"
        "reconcile_contract_balance_at_block env r ?target res1 x1 = (Inr res2, x2)"
        "reconcile_contract_states_at_block env r ?target res2 x2 = (Inr res, w')"
        unfolding Let_def if_not_P [OF start] bind_Inr by blast
      moreover have "br_target (?res\<lparr>br_target := ?target\<rparr>) = ?target" by simp
      moreover from calculation have "br_target res = ?target"
        using phase_target(1) phase_target(2) phase_target(3) by metis
      ultimately show thesis
        using pass [of n latest ?target v "?res\<lparr>br_target := ?target\<rparr>" res1 x1 res2 x2] n False start v
        by (simp add: not_less)
    qed
  qed
qed

section \<open>What settling means for one reference\<close>

lemma settle_other: "ref \<notin> fst ` set cs \<Longrightarrow> ref \<in> foldl settle refs cs \<longleftrightarrow> ref \<in> refs"
  by (induction cs rule: rev_induct) (auto simp: settle_def split: if_splits)

lemma settle_in: "x \<in> settle refs (ref, bad) \<longleftrightarrow> (if x = ref then bad else x \<in> refs)"
  by (simp add: settle_def)

lemma settle_checked:
  assumes "(ref, bad) \<in> set cs" "\<And>v. (ref, v) \<in> set cs \<Longrightarrow> v = bad"
  shows "ref \<in> foldl settle refs cs \<longleftrightarrow> bad"
  using assms
proof (induction cs rule: rev_induct)
  case (snoc c cs)
  obtain k v where c: "c = (k, v)" by (cases c)
  show ?case
  proof (cases "k = ref")
    case True
    then have "v = bad" by (intro snoc.prems(2)) (simp add: c)
    then have "foldl settle refs (cs @ [c]) = settle (foldl settle refs cs) (ref, bad)" by (simp add: c True)
    then show ?thesis by (simp add: settle_in)
  next
    case False
    then have "(ref, bad) \<in> set cs" using snoc.prems(1) c by simp
    then have "ref \<in> foldl settle refs cs \<longleftrightarrow> bad" by (rule snoc.IH) (intro snoc.prems(2), simp)
    moreover have "foldl settle refs (cs @ [c]) = settle (foldl settle refs cs) (k, v)" by (simp add: c)
    ultimately show ?thesis using False by (simp add: settle_in)
  qed
qed simp

text \<open>The documented behaviour of \<open>Address.Hex\<close>, up to case.\<close>

definition plain_addresses :: "env \<Rightarrow> bool" where
  "plain_addresses env \<longleftrightarrow> inj (lower_hex env) \<and> (\<forall>a. CHR '':'' \<notin> set (lower_hex env a))"

lemma balance_ref_inj: "plain_addresses env \<Longrightarrow> balance_ref env r a = balance_ref env r a' \<longleftrightarrow> a = a'"
  by (auto simp: balance_ref_def plain_addresses_def dest: injD)

lemma state_ref_inj:
  assumes "plain_addresses env" "state_ref env r a p = state_ref env r a' p'"
  shows "a = a' \<and> p = p'"
proof -
  have "lower_hex env a @ CHR '':'' # (p @ '':state_mismatch'') = lower_hex env a' @ CHR '':'' # (p' @ '':state_mismatch'')"
    using assms(2) by (simp add: state_ref_def)
  moreover have plain: "CHR '':'' \<notin> set (lower_hex env x)" for x using assms(1) by (simp add: plain_addresses_def)
  ultimately have "lower_hex env a = lower_hex env a' \<and> p @ '':state_mismatch'' = p' @ '':state_mismatch''"
    using split_at_sep [OF plain plain] by blast
  then show ?thesis using assms(1) by (auto simp: plain_addresses_def dest: injD)
qed

lemma other_kinds:
  "balance_ref env r a \<noteq> contract_ref env r a'" "balance_ref env r a \<noteq> state_ref env r a' p"
proof -
  show "balance_ref env r a \<noteq> contract_ref env r a'"
  proof
    assume "balance_ref env r a = contract_ref env r a'"
    then have "rev (balance_ref env r a) = rev (contract_ref env r a')" by simp
    then show False by (simp add: balance_ref_def contract_ref_def)
  qed
  show "balance_ref env r a \<noteq> state_ref env r a' p"
  proof
    assume "balance_ref env r a = state_ref env r a' p"
    then have "rev (balance_ref env r a) = rev (state_ref env r a' p)" by simp
    then show False by (simp add: balance_ref_def state_ref_def)
  qed
qed

lemma wallet_settled:
  assumes plain: "plain_addresses env" and a: "a \<in> set (relevant_addresses env (bc_chain r) (bc_token r) (bc_payroll r) b d)"
  shows "balance_ref env r a \<in> foldl settle refs (balance_items env r bal flag b d) \<longleftrightarrow>
    token_balance (bc_chain r) (bc_token r) a b d \<noteq> bal a b"
proof -
  have "balance_ref env r a \<notin> fst ` set (contract_items env r bal b d @ state_items env r flag b d)"
    by (auto simp: contract_items_def state_items_def other_kinds)
  then have "balance_ref env r a \<in> foldl settle refs (balance_items env r bal flag b d) \<longleftrightarrow>
      balance_ref env r a \<in> foldl settle refs (wallet_items env r bal b d)"
    using settle_other [of "balance_ref env r a" "contract_items env r bal b d @ state_items env r flag b d"]
    by (simp add: balance_items_def)
  also have "\<dots> \<longleftrightarrow> token_balance (bc_chain r) (bc_token r) a b d \<noteq> bal a b"
    by (rule settle_checked) (use a balance_ref_inj [OF plain] in \<open>auto simp: wallet_items_def\<close>)
  finally show ?thesis .
qed

lemma target_keeps:
  "recon.keeps (reconcile_target_block env r requested)" "oks.keeps (reconcile_target_block env r requested)"
  unfolding reconcile_target_block_def balance_latest_def token_checkpoint_def get_checkpoint_def
    call_with_retry_view Let_def
  by (auto intro!: recon.keeps_rules oks.keeps_rules keeps_recon_call phase_keeps)

text \<open>
  C30. The exact effect of \<open>BalanceReconciler.ReconcileTargetBlock\<close>. Let the database answer without
  faults (the worker swallows the errors of the statements that resolve exceptions) and the node
  answer contract calls with what the contracts hold. Then a successful pass changes only the
  exceptions and keeps one open exception per reference. Either it did nothing, or its target block is
  at or above the start block, at or below the confirmed head and at or below what the worker takes for
  the reach of the token indexer: its checkpoint, StartBlock when there is none, although nothing need be
  indexed there, and the confirmed head when the worker reads no checkpoints; then it settles its comparisons in order, and for every address that moved tokens or payroll, and for
  the payroll contract, TOKEN_BALANCE_MISMATCH is open afterwards exactly when the balance derived from
  the stored transfers differs from \<open>balanceOf\<close> at the target block.
\<close>

theorem balance_pass_exact:
  assumes run: "reconcile_target_block env r requested w = (Inr res, w')"
    and env: "quiet env" "exact_calls env r bal flag" "plain_addresses env" and ok: "exceptions_ok (w_db w)"
  shows "exceptions_only (w_db w) (w_db w') \<and> exceptions_ok (w_db w') \<and>
    (w_db w' = w_db w \<and> br_target res = 0 \<or>
     (\<exists>n latest. rpc_latest env n = Inr latest \<and> bc_depth r \<le> latest \<and>
       (let safe = latest - bc_depth r; b = br_target res in
        bc_start r \<le> b \<and> b \<le> safe \<and> b \<le> token_reach r safe (w_db w) \<and>
        open_refs (w_db w') = foldl settle (open_refs (w_db w)) (balance_items env r bal flag b (w_db w)) \<and>
        (\<forall>a \<in> set (relevant_addresses env (bc_chain r) (bc_token r) (bc_payroll r) b (w_db w)).
           balance_ref env r a \<in> open_refs (w_db w') \<longleftrightarrow>
           token_balance (bc_chain r) (bc_token r) a b (w_db w) \<noteq> bal a b))))"
proof -
  have kept: "exceptions_only (w_db w) (w_db w')" "exceptions_ok (w_db w')"
    using recon.keepsD [OF target_keeps(1) run] oks.keepsD [OF target_keeps(2) run] ok by simp_all
  from run show ?thesis
  proof (cases rule: target_block_cases)
    case idle
    then show ?thesis using kept by simp
  next
    case (pass n latest target res0 res1 res2 v w1 w2)
    have "exceptions_ok (w_db v)" using ok pass(5) by simp
    from pass_settles [OF pass(8-10) env(1,2) this] pass(5)
    have refs: "open_refs (w_db w') = foldl settle (open_refs (w_db w)) (balance_items env r bal flag target (w_db w))"
      by simp
    have "target \<le> latest - bc_depth r" "target \<le> token_reach r (latest - bc_depth r) (w_db w)"
      by (auto simp: pass(3) effective_target_def Let_def)
    then show ?thesis
      using kept pass(1,2,4,7) refs wallet_settled [OF env(3)] unfolding Let_def by blast
  qed
qed

text \<open>
  The worked example: token 9 with two transfers from the zero address, an employer removed at
  block 12. Contract calls carry the last byte of the address and of the block.
\<close>

definition byte_abi :: contract_abi where
  "byte_abi = \<lparr>abi_pack = (\<lambda>_ a. Inr [ucast a]), abi_unpack = (\<lambda>_ bs. Inr [AbiInt (uint (hd bs))]),
     abi_unpack_flags = (\<lambda>_ bs. Inr [last bs < 12])\<rparr>"

definition balance_env :: env where
  "balance_env = calm_env\<lparr>rpc_latest := (\<lambda>_. Inr 20), rpc_call := (\<lambda>_ _ data b. Inr (data @ [ucast b]))\<rparr>"

definition sample_balance :: balance_reconciler where
  "sample_balance = \<lparr>bc_chain = 1, bc_token = 9, bc_payroll = 3, bc_token_stream = ''t'', bc_stream = ''b'',
     bc_depth = 5, bc_window = 0, bc_start = 1, bc_token_abi = byte_abi, bc_payroll_abi = Some byte_abi,
     bc_states = True, bc_checkpoints = True, bc_retry = None, bc_collation = (\<lambda>s. s)\<rparr>"

definition minted :: "address \<Rightarrow> int \<Rightarrow> int \<Rightarrow> transfer_row" where
  "minted a v b = \<lparr>tr_chain = 1, tr_token = 9, tr_from = 0, tr_to = a, tr_amount = v, tr_tx = 77, tr_block = b,
     tr_time = 1000, tr_index = b, tr_removed = False\<rparr>"

definition removed_employer :: employer_row where
  "removed_employer = \<lparr>em_chain = 1, em_wallet = 6, em_active = False, em_deactivation = None, em_added_at = None,
     em_removed_at = Some 1200, em_tx = 78\<rparr>"

definition balance_world :: world where
  "balance_world = empty_world\<lparr>w_db := empty_database\<lparr>sync_checkpoints := [checkpoint_row_of 1 ''t'' 15 []],
     token_transfers := [minted 5 5 3, minted 7 9 4], employers := [removed_employer]\<rparr>\<rparr>"

definition byte_balance :: "address \<Rightarrow> u64 \<Rightarrow> int" where
  "byte_balance a b = uint (ucast a :: 8 word)"

definition byte_flag :: "string \<Rightarrow> address \<Rightarrow> u64 \<Rightarrow> bool" where
  "byte_flag m a b \<longleftrightarrow> (ucast b :: 8 word) < 12"

lemma balance_env_facts:
  "quiet balance_env" "exact_calls balance_env sample_balance byte_balance byte_flag" "plain_addresses balance_env"
proof -
  show "quiet balance_env" by (simp add: quiet_def balance_env_def calm_env_def)
  show "exact_calls balance_env sample_balance byte_balance byte_flag"
    by (auto simp: exact_calls_def balance_env_def sample_balance_def byte_abi_def byte_balance_def byte_flag_def)
  show "plain_addresses balance_env"
    using digit_plain dec_nat_digits
    by (auto simp: plain_addresses_def lower_hex_def balance_env_def calm_env_def inj_def word_unat_eq_iff)
qed

lemma balance_world_ok: "exceptions_ok (w_db balance_world)"
  by (simp add: no_exceptions_ok balance_world_def empty_database_def)

theorem balance_pass_exact_witness:
  "let w' = snd (reconcile_target_block balance_env sample_balance 10 balance_world) in
   balance_ref balance_env sample_balance 5 \<notin> open_refs (w_db w') \<and>
   balance_ref balance_env sample_balance 7 \<in> open_refs (w_db w')"
proof -
  let ?y = "reconcile_target_block balance_env sample_balance 10 balance_world"
  have eval: "map_sum id br_target (fst ?y) = Inr 10" by code_simp
  then obtain res w' where y: "?y = (Inr res, w')" and res: "br_target res = 10" by (cases ?y; cases "fst ?y") auto
  have addrs: "relevant_addresses balance_env 1 9 3 10 (w_db balance_world) = [3, 5, 7]"
    and sums: "token_balance 1 9 5 10 (w_db balance_world) = 5" "token_balance 1 9 7 10 (w_db balance_world) = 9"
      "byte_balance 5 10 = 5" "byte_balance 7 10 = 7" by code_simp+
  have conf: "bc_chain sample_balance = 1" "bc_token sample_balance = 9" "bc_payroll sample_balance = 3"
    by (simp_all add: sample_balance_def)
  from balance_pass_exact [OF y balance_env_facts balance_world_ok]
  have "\<forall>a \<in> set [3, 5, 7]. balance_ref balance_env sample_balance a \<in> open_refs (w_db w') \<longleftrightarrow>
      token_balance 1 9 a 10 (w_db balance_world) \<noteq> byte_balance a 10"
    unfolding res conf addrs Let_def by (elim conjE disjE exE) simp_all
  then show ?thesis using y sums by simp
qed

section \<open>The two derivations of a balance\<close>

text \<open>
  C31. \<open>CalculateAllTokenBalances\<close> and \<open>CalculateTokenBalance\<close> agree: for every address but the zero address the
  aggregated balance (0 when the address has no row) is the balance summed for it alone, at every
  block and for every token. The aggregated balances add up to what was minted less what was burned,
  the negated balance of the zero address.
\<close>

theorem token_balances_agree:
  "(\<forall>a. a \<noteq> 0 \<longrightarrow> (case map_of (all_token_balances chain token b d) a of None \<Rightarrow> 0 | Some v \<Rightarrow> v) =
      token_balance chain token a b d) \<and>
   sum_list (map snd (all_token_balances chain token b d)) = - token_balance chain token 0 b d"
  using all_balances_agree sum_all_balances by blast

theorem token_balances_agree_witness:
  "map_of (all_token_balances 1 9 10 (w_db balance_world)) 7 = Some 9 \<and>
   sum_list (map snd (all_token_balances 1 9 10 (w_db balance_world))) = 14"
proof -
  have eval: "map_of (all_token_balances 1 9 10 (w_db balance_world)) 7 \<noteq> None"
    "token_balance 1 9 7 10 (w_db balance_world) = 9" "token_balance 1 9 0 10 (w_db balance_world) = - 14" by code_simp+
  note agree = token_balances_agree [of 1 9 10 "w_db balance_world"]
  have "(case map_of (all_token_balances 1 9 10 (w_db balance_world)) 7 of None \<Rightarrow> 0 | Some v \<Rightarrow> v) = 9"
    using conjunct1 [OF agree, rule_format, of 7] eval(2) by simp
  then show ?thesis using conjunct2 [OF agree] eval by auto
qed

section \<open>Profiles are compared across blocks\<close>

text \<open>
  A false alarm. \<open>reconcileContractStatesAtBlock\<close> compares the flags of the contract at the target block with
  the rows of the employers as they are now. For an employer whose row is right at some head but whose
  flag was different at the target block (added or removed in between), a successful
  \<open>ReconcileTargetBlock\<close> leaves a CONTRACT_STATE_MISMATCH open although the database is correct.
\<close>

theorem state_alarm_across_blocks:
  assumes run: "reconcile_target_block env r requested w = (Inr res, w')" and ran: "br_target res \<noteq> 0"
    and env: "quiet env" "exact_calls env r bal flag" "plain_addresses env" and ok: "exceptions_ok (w_db w)"
    and states: "bc_payroll_abi r \<noteq> None" "bc_states r" "bc_payroll r \<noteq> 0"
    and row: "x \<in> set (employers (w_db w))" "em_chain x = bc_chain r" "keys_unique em_key (employers (w_db w))"
    and correct: "em_active x = flag ''isEmployerActive'' (em_wallet x) head"
    and changed: "flag ''isEmployerActive'' (em_wallet x) (br_target res) \<noteq> flag ''isEmployerActive'' (em_wallet x) head"
  shows "state_ref env r (em_wallet x) ''is_employer_active'' \<in> open_refs (w_db w')"
  using run
proof (cases rule: target_block_cases)
  case idle
  then show ?thesis using ran by simp
next
  case (pass n latest target res0 res1 res2 v w1 w2)
  let ?ref = "state_ref env r (em_wallet x) ''is_employer_active''"
  let ?items = "state_items env r flag target (w_db w)"
  have "exceptions_ok (w_db v)" using ok pass(5) by simp
  from pass_settles [OF pass(8-10) env(1,2) this] pass(5)
  have refs: "open_refs (w_db w') = foldl settle (foldl settle (open_refs (w_db w))
      (wallet_items env r bal target (w_db w) @ contract_items env r bal target (w_db w))) ?items"
    by (simp add: balance_items_def)
  have "(?ref, True) \<in> set ?items"
    using states row(1,2) correct changed pass(7) by (force simp: state_items_def sorted_profiles_def)
  moreover have "u = True" if u: "(?ref, u) \<in> set ?items" for u
  proof -
    have "(\<exists>y. y \<in> set (employers (w_db w)) \<and> em_chain y = bc_chain r \<and>
        ?ref = state_ref env r (em_wallet y) ''is_employer_active'' \<and>
        u = (flag ''isEmployerActive'' (em_wallet y) target \<noteq> em_active y)) \<or>
      (\<exists>y. ?ref = state_ref env r (ee_wallet (y :: employee_row)) ''is_employee_active'')"
      using u by (simp add: state_items_def sorted_profiles_def image_iff split: if_splits) blast
    then consider (er) y where "y \<in> set (employers (w_db w))" "em_chain y = bc_chain r"
        "?ref = state_ref env r (em_wallet y) ''is_employer_active''"
        "u = (flag ''isEmployerActive'' (em_wallet y) target \<noteq> em_active y)"
      | (ee) y where "?ref = state_ref env r (ee_wallet (y :: employee_row)) ''is_employee_active''"
      by blast
    then show ?thesis
    proof cases
      case er
      then have "em_wallet y = em_wallet x" using state_ref_inj [OF env(3) er(3)] by simp
      then have "y = x" using er(1,2) row by (auto simp: keys_unique_def em_key_def distinct_map inj_on_def)
      then show ?thesis using er(4) correct changed pass(7) by simp
    next
      case ee
      then show ?thesis using state_ref_inj [OF env(3) ee] by simp
    qed
  qed
  ultimately show ?thesis unfolding refs using settle_checked [of ?ref True ?items] by blast
qed

theorem state_alarm_across_blocks_witness:
  "byte_flag ''isEmployerActive'' 6 15 = em_active removed_employer \<and>
   state_ref balance_env sample_balance 6 ''is_employer_active'' \<in>
     open_refs (w_db (snd (reconcile_target_block balance_env sample_balance 10 balance_world)))"
proof -
  let ?y = "reconcile_target_block balance_env sample_balance 10 balance_world"
  have "map_sum id br_target (fst ?y) = Inr 10" by code_simp
  then obtain res w' where y: "?y = (Inr res, w')" and res: "br_target res = 10" by (cases ?y; cases "fst ?y") auto
  have flags: "\<not> byte_flag ''isEmployerActive'' 6 15" "byte_flag ''isEmployerActive'' 6 10" by code_simp+
  have row: "em_wallet removed_employer = 6" "\<not> em_active removed_employer" "em_chain removed_employer = 1"
    by (simp_all add: removed_employer_def)
  have "state_ref balance_env sample_balance (em_wallet removed_employer) ''is_employer_active'' \<in> open_refs (w_db w')"
    by (rule state_alarm_across_blocks [OF y _ balance_env_facts balance_world_ok, where head = 15])
      (simp_all add: res flags row sample_balance_def balance_world_def keys_unique_def)
  then show ?thesis using y flags row by simp
qed

end
