(* ===== verification/Reconciler_Command.thy ===== *)
theory Reconciler_Command
  imports Configuration Balance_Properties
begin

text \<open>
  \<open>cmd/reconciler/main.go\<close>: the flags, the construction of the four reconcilers from the
  configuration, one pass over them and the loop. \<open>log.Fatalf\<close> ends the command with its text as
  error. What the command obtains from libraries is the record \<open>command_lib\<close>: go-ethereum's
  conversions and its reading of the ABI texts (the texts of \<open>internal/abi\<close> are well-formed, so parsing
  them does not fail), and whether the node, the database and Redis can be reached. Printing is not
  modelled.
\<close>

section \<open>What a command is given\<close>

record command_lib =
  cl_hex :: hex_lib
  cl_files :: abi_lib
  cl_float :: "string \<Rightarrow> rat option"
  cl_dial :: "goerror option"
  cl_connect :: "goerror option"
  cl_migrate :: "goerror option"
  cl_redis :: bool
  cl_payroll_abi :: payroll_abi
  cl_escrow_event :: "hash \<Rightarrow> goerror + string"
  cl_payroll_calls :: contract_abi
  cl_token_calls :: "token_abi \<Rightarrow> contract_abi"
  cl_map_order :: "string list \<Rightarrow> string list"
  cl_collation :: "string \<Rightarrow> string"

definition reached :: "string \<Rightarrow> goerror option \<Rightarrow> goerror + unit" where
  "reached msg e = (case e of None \<Rightarrow> Inr () | Some x \<Rightarrow> Inl (wrap_error msg x))"

definition configured_address :: "command_lib \<Rightarrow> string \<Rightarrow> address" where
  "configured_address lib s = hl_address (cl_hex lib) s"

section \<open>Types of reconciliation\<close>

datatype recon_kind = ReconPayroll | ReconClaims | ReconTransfers | ReconBalance | ReconAll

definition normalise_type :: "string \<Rightarrow> goerror + recon_kind" where
  "normalise_type t =
     (let s = to_lower (trim_space t) in
      if s \<in> {''payroll'', ''payroll-funding'', ''funding''} then Inr ReconPayroll
      else if s \<in> {''salary-claims'', ''salary-claim'', ''claims'', ''claim''} then Inr ReconClaims
      else if s \<in> {''token-transfers'', ''token-transfer'', ''tokens'', ''token''} then Inr ReconTransfers
      else if s \<in> {''balance'', ''balances'', ''token-balance'', ''token-balances'', ''contract-balance''}
        then Inr ReconBalance
      else if s \<in> {''all'', ''both''} then Inr ReconAll
      else Inl (new_error (''unsupported reconciliation type '' @ quote t @
        '': must be 'payroll', 'salary-claims', 'token-transfers', 'balance', or 'all'' @ [CHR 0x27])))"

definition wants :: "recon_kind \<Rightarrow> recon_kind \<Rightarrow> bool" where
  "wants kind part \<longleftrightarrow> kind = part \<or> kind = ReconAll"

section \<open>The reconcilers\<close>

text \<open>The configurations of the reconcilers; \<open>start\<close> is the first payroll block of the command.\<close>

definition payroll_recon_config :: "command_lib \<Rightarrow> config \<Rightarrow> u64 \<Rightarrow> string \<Rightarrow> reconciler" where
  "payroll_recon_config lib c start stream = \<lparr>rc_chain = cfg_chain_id c,
     rc_contract = configured_address lib (cfg_payroll_contract c),
     rc_index_stream = cfg_payroll_stream_id c, rc_stream = stream,
     rc_depth = cfg_confirmation_depth c, rc_window = cfg_reconciliation_block_window c,
     rc_start = start, rc_retry = None, rc_checkpoints = True, rc_map_order = cl_map_order lib\<rparr>"

definition transfer_recon_config :: "command_lib \<Rightarrow> config \<Rightarrow> reconciler" where
  "transfer_recon_config lib c = \<lparr>rc_chain = cfg_chain_id c,
     rc_contract = configured_address lib (cfg_token_address c),
     rc_index_stream = cfg_token_stream_id c, rc_stream = cfg_reconciliation_token_stream_id c,
     rc_depth = cfg_confirmation_depth c, rc_window = cfg_reconciliation_block_window c,
     rc_start = cfg_token_start_block c, rc_retry = None, rc_checkpoints = True,
     rc_map_order = cl_map_order lib\<rparr>"

definition balance_recon_config :: "command_lib \<Rightarrow> config \<Rightarrow> token_abi \<Rightarrow> balance_reconciler" where
  "balance_recon_config lib c parsed = \<lparr>bc_chain = cfg_chain_id c,
     bc_token = configured_address lib (cfg_token_address c),
     bc_payroll = configured_address lib (cfg_payroll_contract c),
     bc_token_stream = cfg_token_stream_id c, bc_stream = cfg_reconciliation_token_balance_stream_id c,
     bc_depth = cfg_confirmation_depth c, bc_window = 0, bc_start = cfg_token_start_block c,
     bc_token_abi = cl_token_calls lib parsed, bc_payroll_abi = Some (cl_payroll_calls lib),
     bc_states = True, bc_checkpoints = True, bc_retry = None, bc_collation = cl_collation lib\<rparr>"

definition build_payroll :: "command_lib \<Rightarrow> config \<Rightarrow> u64 \<Rightarrow> goerror + reconciler" where
  "build_payroll lib c start =
     and_then (wrap_sum ''failed to initialize payroll reconciler''
       (new_payroll_reconciler False True True True True
          (payroll_recon_config lib c start (cfg_reconciliation_stream_id c)))) (\<lambda>r.
     Inr (set_recon_policy (retry_policy_of c) r))"

definition build_claims :: "command_lib \<Rightarrow> config \<Rightarrow> u64 \<Rightarrow> goerror + reconciler" where
  "build_claims lib c start =
     and_then (wrap_sum ''failed to initialize salary claim reconciler''
       (new_claim_reconciler False True True True True
          (payroll_recon_config lib c start (cfg_reconciliation_salary_claim_stream_id c)))) (\<lambda>r.
     Inr (set_recon_policy (retry_policy_of c) r))"

definition build_transfers :: "env \<Rightarrow> command_lib \<Rightarrow> config \<Rightarrow> goerror + erc20_filterer \<times> reconciler" where
  "build_transfers env lib c =
     and_then (wrap_sum ''invalid token configuration for reconciliation''
       (validate_token_config (cl_hex lib) (cl_files lib) c)) (\<lambda>c'.
     and_then (wrap_sum ''failed to initialize token filterer''
       (new_generic_erc20_filterer (configured_address lib (cfg_token_address c')) (cfg_parsed_token_abi c'))) (\<lambda>f.
     and_then (wrap_sum ''failed to initialize token transfer reconciler''
       (new_transfer_reconciler env False True True True True (transfer_recon_config lib c'))) (\<lambda>r.
     Inr (f, set_recon_policy (retry_policy_of c) r))))"

definition build_balance ::
  "env \<Rightarrow> command_lib \<Rightarrow> config \<Rightarrow> goerror + balance_reconciler" where
  "build_balance env lib c =
     and_then (wrap_sum ''invalid token configuration for balance reconciliation''
       (validate_token_config (cl_hex lib) (cl_files lib) c)) (\<lambda>c'.
     case cfg_parsed_token_abi c' of
       None \<Rightarrow> Inl (wrap_error ''failed to initialize balance reconciler''
                 (new_error ''token ABI cannot be nil''))
     | Some parsed \<Rightarrow>
         and_then (wrap_sum ''failed to initialize balance reconciler''
           (new_balance_reconciler env False True True True True (balance_recon_config lib c' parsed))) (\<lambda>r.
         Inr (set_balance_policy (retry_policy_of c) r)))"

record reconcilers =
  rs_payroll :: "reconciler option"
  rs_claims :: "reconciler option"
  rs_transfers :: "(erc20_filterer \<times> reconciler) option"
  rs_balance :: "balance_reconciler option"

definition optional :: "bool \<Rightarrow> goerror + 'a \<Rightarrow> goerror + 'a option" where
  "optional b m = (if b then and_then m (\<lambda>x. Inr (Some x)) else Inr None)"

definition build_reconcilers ::
  "env \<Rightarrow> command_lib \<Rightarrow> recon_kind \<Rightarrow> config \<Rightarrow> goerror + reconcilers" where
  "build_reconcilers env lib kind c =
     and_then (optional (wants kind ReconPayroll) (build_payroll lib c (cfg_start_block c))) (\<lambda>p.
     and_then (optional (wants kind ReconClaims) (build_claims lib c (cfg_start_block c))) (\<lambda>s.
     and_then (optional (wants kind ReconTransfers) (build_transfers env lib c)) (\<lambda>t.
     and_then (optional (wants kind ReconBalance) (build_balance env lib c)) (\<lambda>b.
     Inr \<lparr>rs_payroll = p, rs_claims = s, rs_transfers = t, rs_balance = b\<rparr>))))"

section \<open>One pass\<close>

record recon_flags =
  rf_type :: string
  rf_from :: u64
  rf_to :: u64
  rf_window :: u64
  rf_batch :: u64
  rf_loop :: bool
  rf_interval :: int

definition pass_batch :: "recon_flags \<Rightarrow> config \<Rightarrow> u64" where
  "pass_batch fl c = (if 0 < rf_batch fl then rf_batch fl else cfg_block_batch_size c)"

text \<open>An event worker by window, by range, or by its sweep.\<close>

definition event_pass ::
  "recon_flags \<Rightarrow> config \<Rightarrow> (u64 \<Rightarrow> 'a go) \<Rightarrow> (u64 \<Rightarrow> u64 \<Rightarrow> 'a go) \<Rightarrow> (u64 \<Rightarrow> 'a go) \<Rightarrow> 'a go" where
  "event_pass fl c by_window by_range by_batch =
     (if 0 < rf_window fl then by_window (rf_window fl)
      else if 0 < rf_from fl \<and> 0 < rf_to fl then by_range (rf_from fl) (rf_to fl)
      else by_batch (pass_batch fl c))"

definition balance_pass :: "env \<Rightarrow> recon_flags \<Rightarrow> config \<Rightarrow> balance_reconciler \<Rightarrow> balance_result go" where
  "balance_pass env fl c r =
     (if 0 < rf_to fl then reconcile_target_block env r (rf_to fl)
      else if 0 < rf_window fl then balance_recent_window env r (rf_window fl)
      else balance_next_batch env r (pass_batch fl c))"

definition when_built :: "'a option \<Rightarrow> ('a \<Rightarrow> 'b go) \<Rightarrow> unit go" where
  "when_built x m = (case x of None \<Rightarrow> ret () | Some r \<Rightarrow> bind_go (m r) (\<lambda>_. ret ()))"

definition execute_pass ::
  "env \<Rightarrow> payroll_abi \<Rightarrow> recon_flags \<Rightarrow> config \<Rightarrow> reconcilers \<Rightarrow> unit go" where
  "execute_pass env abi fl c rs =
     bind_go (when_built (rs_payroll rs) (\<lambda>r. wrapping ''payroll reconciliation failed''
       (event_pass fl c (payroll_reconcile_recent_window env abi r) (payroll_reconcile_range env abi r)
          (payroll_reconcile_next_batch env abi r)))) (\<lambda>_.
     bind_go (when_built (rs_claims rs) (\<lambda>r. wrapping ''salary claim reconciliation failed''
       (event_pass fl c (claim_reconcile_recent_window env abi r) (claim_reconcile_range env abi r)
          (claim_reconcile_next_batch env abi r)))) (\<lambda>_.
     bind_go (when_built (rs_transfers rs) (\<lambda>(f, r). wrapping ''token transfer reconciliation failed''
       (event_pass fl c (transfer_reconcile_recent_window env f r) (transfer_reconcile_range env f r)
          (transfer_reconcile_next_batch env f r)))) (\<lambda>_.
     when_built (rs_balance rs) (\<lambda>r. wrapping ''contract and token balance reconciliation failed''
       (balance_pass env fl c r)))))"

section \<open>The command\<close>

definition required_addresses :: "recon_kind \<Rightarrow> config \<Rightarrow> goerror + unit" where
  "required_addresses kind c =
     (if kind \<noteq> ReconTransfers \<and> cfg_payroll_contract c = [] then
        Inl (new_error ''PAYROLL_CONTRACT_ADDRESS is required for payroll/balance reconciliation'')
      else if kind \<in> {ReconTransfers, ReconBalance, ReconAll} \<and> cfg_token_address c = [] then
        Inl (new_error ''TOKEN_ADDRESS is required for token transfer/balance reconciliation'')
      else Inr ())"

definition loop_interval :: "recon_flags \<Rightarrow> config \<Rightarrow> int" where
  "loop_interval fl c = (if 0 < rf_interval fl then rf_interval fl else cfg_reconciliation_interval c)"

definition reconciler_setup ::
  "env \<Rightarrow> command_lib \<Rightarrow> query \<Rightarrow> recon_flags \<Rightarrow> goerror + config \<times> reconcilers" where
  "reconciler_setup env lib getenv fl =
     and_then (normalise_type (rf_type fl)) (\<lambda>kind.
     and_then (wrap_sum ''configuration error'' (load (cl_float lib) getenv)) (\<lambda>c.
     and_then (required_addresses kind c) (\<lambda>_.
     and_then (reached ''failed to connect to RPC'' (cl_dial lib)) (\<lambda>_.
     and_then (reached ''failed to connect to database'' (cl_connect lib)) (\<lambda>_.
     and_then (build_reconcilers env lib kind c) (\<lambda>rs.
     Inr (c, rs)))))))"

definition reconciler_once ::
  "env \<Rightarrow> payroll_abi \<Rightarrow> recon_flags \<Rightarrow> config \<Rightarrow> reconcilers \<Rightarrow> unit go" where
  "reconciler_once env abi fl c rs =
     wrapping ''reconciliation execution failed'' (execute_pass env abi fl c rs)"

text \<open>
  With \<open>-loop\<close>: the states the command goes through. An error of a pass is only logged; between the
  ticks of the timer time passes.
\<close>

inductive recon_loop ::
  "env \<Rightarrow> payroll_abi \<Rightarrow> recon_flags \<Rightarrow> config \<Rightarrow> reconcilers \<Rightarrow> world \<Rightarrow> world \<Rightarrow> bool"
  for env abi fl c rs w where
  started: "recon_loop env abi fl c rs w (snd (execute_pass env abi fl c rs w))"
| ticked: "recon_loop env abi fl c rs w w1 \<Longrightarrow>
    recon_loop env abi fl c rs w (snd (execute_pass env abi fl c rs w1))"
| waited: "recon_loop env abi fl c rs w w1 \<Longrightarrow> recon_loop env abi fl c rs w (next_tick w1)"

text \<open>All states of a run of the command, in either mode.\<close>

definition recon_reaches ::
  "env \<Rightarrow> payroll_abi \<Rightarrow> recon_flags \<Rightarrow> config \<Rightarrow> reconcilers \<Rightarrow> world \<Rightarrow> world \<Rightarrow> bool" where
  "recon_reaches env abi fl c rs w w' \<longleftrightarrow>
     (if rf_loop fl then recon_loop env abi fl c rs w w'
      else w' = snd (reconciler_once env abi fl c rs w))"

end
