(* ===== verification/Indexer_Command.thy ===== *)
theory Indexer_Command
  imports Live_Monitor Reconciler_Command
begin

text \<open>
  \<open>cmd/indexer/main.go\<close>: the flags and how they override the configuration, the construction of the
  three services, and the three modes of the command: live monitoring, a reconciliation check and the
  historical backfill of the streams one after the other. \<open>log.Fatalf\<close> ends the command with its text
  as error. The database is the one the migrations have set up.
\<close>

section \<open>Flags\<close>

record indexer_flags =
  fl_to_block :: u64
  fl_from_block :: u64
  fl_batch_size :: u64
  fl_live :: bool
  fl_poll_interval :: int
  fl_confirmations :: u64
  fl_stream :: string
  fl_max_retries :: int
  fl_initial_backoff :: int
  fl_reconcile :: bool
  fl_recon_type :: string
  fl_recon_window :: u64

definition start_block_of :: "indexer_flags \<Rightarrow> config \<Rightarrow> u64" where
  "start_block_of fl c = (if 0 < fl_from_block fl then fl_from_block fl else cfg_start_block c)"

definition batch_size_of :: "indexer_flags \<Rightarrow> config \<Rightarrow> u64" where
  "batch_size_of fl c = (if 0 < fl_batch_size fl then fl_batch_size fl else cfg_block_batch_size c)"

definition apply_flags :: "indexer_flags \<Rightarrow> config \<Rightarrow> config" where
  "apply_flags fl c = c\<lparr>
     cfg_confirmation_depth := (if 0 < fl_confirmations fl then fl_confirmations fl else cfg_confirmation_depth c),
     cfg_live_poll_interval := (if 0 < fl_poll_interval fl then fl_poll_interval fl else cfg_live_poll_interval c),
     cfg_rpc_max_retries := (if 0 < fl_max_retries fl then fl_max_retries fl else cfg_rpc_max_retries c),
     cfg_rpc_initial_backoff :=
       (if 0 < fl_initial_backoff fl then fl_initial_backoff fl else cfg_rpc_initial_backoff c)\<rparr>"

definition is_live_mode :: "indexer_flags \<Rightarrow> config \<Rightarrow> bool" where
  "is_live_mode fl c \<longleftrightarrow> fl_live fl \<or> cfg_live_monitor_enabled c"

definition escrow_contract_of :: "config \<Rightarrow> string" where
  "escrow_contract_of c =
     (if cfg_escrow_contract c = [] then cfg_wtf_escrow_contract c else cfg_escrow_contract c)"

text \<open>\<open>isZeroAddress\<close>; a text of zeros trims to the empty text.\<close>

definition zero_address_text :: "string \<Rightarrow> bool" where
  "zero_address_text addr \<longleftrightarrow>
     (let a = trim_prefix ''0x'' (to_lower addr) in a = [] \<or> list_all (\<lambda>c. c = CHR ''0'') a)"

definition selected :: "indexer_flags \<Rightarrow> string \<Rightarrow> bool" where
  "selected fl name \<longleftrightarrow> fl_stream fl = ''all'' \<or> fl_stream fl = name"

section \<open>Services\<close>

definition payroll_service ::
  "command_lib \<Rightarrow> indexer_flags \<Rightarrow> config \<Rightarrow> (payroll_abi \<times> retry_policy) option" where
  "payroll_service lib fl c =
     (if cfg_payroll_contract c \<noteq> [] \<and> hl_is_address (cl_hex lib) (cfg_payroll_contract c) \<and>
         selected fl ''payroll''
      then Some (cl_payroll_abi lib, new_retryer (retry_policy_of c)) else None)"

definition token_service ::
  "env \<Rightarrow> command_lib \<Rightarrow> indexer_flags \<Rightarrow> config \<Rightarrow> goerror + token_indexer option" where
  "token_service env lib fl c =
     (if cfg_token_address c = [] \<or> \<not> selected fl ''token'' then Inr None
      else
        and_then (wrap_sum ''token configuration invalid''
          (validate_token_config (cl_hex lib) (cl_files lib) c)) (\<lambda>c'.
        and_then (wrap_sum ''failed to create generic ERC-20 filterer''
          (new_generic_erc20_filterer (configured_address lib (cfg_token_address c')) (cfg_parsed_token_abi c'))) (\<lambda>f.
        and_then (wrap_sum ''failed to create token indexer''
          (new_token_indexer env True (Some f) True (cfg_chain_id c') (cfg_token_start_block c')
             (batch_size_of fl c') (cfg_confirmation_depth c') (cfg_token_stream_id c'))) (\<lambda>ti.
        Inr (Some (set_token_policy (retry_policy_of c') ti))))))"

definition escrow_service :: "command_lib \<Rightarrow> indexer_flags \<Rightarrow> config \<Rightarrow> goerror + escrow_indexer option" where
  "escrow_service lib fl c =
     (let contract = escrow_contract_of c in
      if contract \<noteq> [] \<and> hl_is_address (cl_hex lib) contract \<and> \<not> zero_address_text contract \<and>
         selected fl ''escrow''
      then and_then (wrap_sum ''failed to create WTFEscrow indexer'' (new_escrow_indexer True True
        \<lparr>ei_event_by_id = cl_escrow_event lib, ei_redis = cl_redis lib,
         ei_contract = configured_address lib contract, ei_chain = cfg_chain_id c,
         ei_stream = cfg_escrow_stream_id c, ei_start = cfg_escrow_start_block c,
         ei_batch = batch_size_of fl c, ei_policy = default_retry_policy False\<rparr>))
        (\<lambda>ei. Inr (Some (set_escrow_policy (retry_policy_of c) ei)))
      else Inr None)"

record services =
  sv_payroll :: "(payroll_abi \<times> retry_policy) option"
  sv_token :: "token_indexer option"
  sv_escrow :: "escrow_indexer option"

definition build_services ::
  "env \<Rightarrow> command_lib \<Rightarrow> indexer_flags \<Rightarrow> config \<Rightarrow> goerror + services" where
  "build_services env lib fl c =
     and_then (token_service env lib fl c) (\<lambda>ti.
     and_then (escrow_service lib fl c) (\<lambda>ei.
     Inr \<lparr>sv_payroll = payroll_service lib fl c, sv_token = ti, sv_escrow = ei\<rparr>))"

section \<open>Live monitoring\<close>

text \<open>\<open>LiveMonitorConfig\<close> with the services; \<open>MaxBatchesPerPoll\<close> is left to its default.\<close>

definition live_config :: "command_lib \<Rightarrow> indexer_flags \<Rightarrow> config \<Rightarrow> services \<Rightarrow> live_monitor" where
  "live_config lib fl c sv = \<lparr>lm_chain = cfg_chain_id c, lm_depth = cfg_confirmation_depth c,
     lm_batch = batch_size_of fl c, lm_interval = cfg_live_poll_interval c,
     lm_payroll_contract = configured_address lib (cfg_payroll_contract c),
     lm_payroll_stream = cfg_payroll_stream_id c, lm_payroll_start = start_block_of fl c,
     lm_token_address = configured_address lib (cfg_token_address c),
     lm_token_stream = cfg_token_stream_id c, lm_limit = 0,
     lm_escrow_contract = configured_address lib (escrow_contract_of c),
     lm_escrow_stream = cfg_escrow_stream_id c, lm_payroll = sv_payroll sv, lm_token = sv_token sv,
     lm_escrow = sv_escrow sv\<rparr>"

section \<open>Backfill\<close>

text \<open>\<open>token_safe_block\<close> is the expression the command repeats: the confirmed head, or the head.\<close>

definition backfill_target :: "indexer_flags \<Rightarrow> config \<Rightarrow> u64 \<Rightarrow> u64" where
  "backfill_target fl c latest =
     (if 0 < fl_to_block fl then fl_to_block fl
      else case cfg_backfill_to_block c of
        Some b \<Rightarrow> b
      | None \<Rightarrow> token_safe_block (cfg_confirmation_depth c) latest)"

text \<open>A target before the first block of a stream is replaced by the confirmed head.\<close>

definition stream_target :: "config \<Rightarrow> u64 \<Rightarrow> u64 \<Rightarrow> u64 \<Rightarrow> u64" where
  "stream_target c latest start goal =
     (if goal < start then token_safe_block (cfg_confirmation_depth c) latest else goal)"

text \<open>Steps that may not return.\<close>

type_synonym 'a run = "world \<Rightarrow> ((goerror + 'a) \<times> world) option"

definition then_run :: "'a run \<Rightarrow> ('a \<Rightarrow> 'b run) \<Rightarrow> 'b run" where
  "then_run m k = (\<lambda>w. case m w of
       None \<Rightarrow> None | Some (Inl e, w') \<Rightarrow> Some (Inl e, w') | Some (Inr x, w') \<Rightarrow> k x w')"

definition phase_end :: "string \<Rightarrow> goerror option \<Rightarrow> goerror + unit" where
  "phase_end msg e = (case e of None \<Rightarrow> Inr () | Some x \<Rightarrow> Inl (wrap_error msg x))"

definition payroll_options :: "command_lib \<Rightarrow> indexer_flags \<Rightarrow> config \<Rightarrow> u64 \<Rightarrow> backfill_options" where
  "payroll_options lib fl c goal = \<lparr>bo_chain = cfg_chain_id c,
     bo_contract = configured_address lib (cfg_payroll_contract c), bo_start = start_block_of fl c,
     bo_target = goal, bo_batch = batch_size_of fl c, bo_stream = cfg_payroll_stream_id c\<rparr>"

definition payroll_phase ::
  "env \<Rightarrow> command_lib \<Rightarrow> indexer_flags \<Rightarrow> config \<Rightarrow> services \<Rightarrow> u64 \<Rightarrow> unit run" where
  "payroll_phase env lib fl c sv goal = (\<lambda>w. case sv_payroll sv of
       None \<Rightarrow> Some (Inr (), w)
     | Some svc \<Rightarrow> map_option (\<lambda>((_, e), w'). (phase_end ''payroll indexing error'' e, w'))
         (run_backfill env (snd svc) (fst svc) (payroll_options lib fl c goal) w))"

definition token_phase :: "env \<Rightarrow> config \<Rightarrow> services \<Rightarrow> u64 \<Rightarrow> u64 \<Rightarrow> unit run" where
  "token_phase env c sv latest goal = (\<lambda>w. case sv_token sv of
       None \<Rightarrow> Some (Inr (), w)
     | Some ti \<Rightarrow> map_option (\<lambda>((_, _, e), w'). (phase_end ''token indexing error'' e, w'))
         (token_run_backfill env ti (stream_target c latest (cfg_token_start_block c) goal) w))"

definition escrow_phase :: "env \<Rightarrow> config \<Rightarrow> services \<Rightarrow> u64 \<Rightarrow> u64 \<Rightarrow> unit run" where
  "escrow_phase env c sv latest goal = (\<lambda>w. case sv_escrow sv of
       None \<Rightarrow> Some (Inr (), w)
     | Some ei \<Rightarrow> map_option (\<lambda>((_, _, e), w'). (phase_end ''escrow indexing error'' e, w'))
         (escrow_run_backfill env ei (stream_target c latest (cfg_escrow_start_block c) goal) w))"

definition backfill_phases ::
  "env \<Rightarrow> command_lib \<Rightarrow> indexer_flags \<Rightarrow> config \<Rightarrow> services \<Rightarrow> u64 \<Rightarrow> u64 \<Rightarrow> unit run" where
  "backfill_phases env lib fl c sv latest goal =
     then_run (payroll_phase env lib fl c sv goal) (\<lambda>_.
     then_run (token_phase env c sv latest goal) (\<lambda>_. escrow_phase env c sv latest goal))"

section \<open>The reconciliation check\<close>

definition check_or_window :: "indexer_flags \<Rightarrow> string \<Rightarrow> (u64 \<Rightarrow> 'a go) \<Rightarrow> 'a go \<Rightarrow> unit go" where
  "check_or_window fl msg by_window whole =
     bind_go (wrapping msg (if 0 < fl_recon_window fl then by_window (fl_recon_window fl) else whole))
       (\<lambda>_. ret ())"

definition check_payroll ::
  "env \<Rightarrow> command_lib \<Rightarrow> indexer_flags \<Rightarrow> config \<Rightarrow> u64 \<Rightarrow> unit go" where
  "check_payroll env lib fl c goal =
     bind_go (of_sum (build_payroll lib c (start_block_of fl c))) (\<lambda>r.
     check_or_window fl ''payroll reconciliation execution failed''
       (payroll_reconcile_recent_window env (cl_payroll_abi lib) r)
       (payroll_reconcile_range env (cl_payroll_abi lib) r (start_block_of fl c) goal))"

definition check_claims ::
  "env \<Rightarrow> command_lib \<Rightarrow> indexer_flags \<Rightarrow> config \<Rightarrow> u64 \<Rightarrow> unit go" where
  "check_claims env lib fl c goal =
     bind_go (of_sum (build_claims lib c (start_block_of fl c))) (\<lambda>r.
     check_or_window fl ''salary claim reconciliation execution failed''
       (claim_reconcile_recent_window env (cl_payroll_abi lib) r)
       (claim_reconcile_range env (cl_payroll_abi lib) r (start_block_of fl c) goal))"

definition check_transfers ::
  "env \<Rightarrow> command_lib \<Rightarrow> indexer_flags \<Rightarrow> config \<Rightarrow> u64 \<Rightarrow> u64 \<Rightarrow> unit go" where
  "check_transfers env lib fl c latest goal =
     (if cfg_token_address c = [] then
        fail (new_error ''TOKEN_ADDRESS is required for token transfer reconciliation'')
      else bind_go (of_sum (build_transfers env lib c)) (\<lambda>(f, r).
        check_or_window fl ''token transfer reconciliation execution failed''
          (transfer_reconcile_recent_window env f r)
          (transfer_reconcile_range env f r (cfg_token_start_block c)
             (stream_target c latest (cfg_token_start_block c) goal))))"

definition check_balances ::
  "env \<Rightarrow> command_lib \<Rightarrow> indexer_flags \<Rightarrow> config \<Rightarrow> u64 \<Rightarrow> u64 \<Rightarrow> unit go" where
  "check_balances env lib fl c latest goal =
     (if cfg_token_address c = [] then
        fail (new_error ''TOKEN_ADDRESS is required for balance reconciliation'')
      else if cfg_payroll_contract c = [] then
        fail (new_error ''PAYROLL_CONTRACT_ADDRESS is required for balance reconciliation'')
      else bind_go (of_sum (build_balance env lib c)) (\<lambda>r.
        check_or_window fl ''balance reconciliation execution failed''
          (balance_recent_window env r)
          (reconcile_target_block env r (stream_target c latest (cfg_token_start_block c) goal))))"

definition wanted :: "recon_kind \<Rightarrow> recon_kind \<Rightarrow> unit go \<Rightarrow> unit go" where
  "wanted kind part m = (if wants kind part then m else ret ())"

definition reconcile_check ::
  "env \<Rightarrow> command_lib \<Rightarrow> indexer_flags \<Rightarrow> config \<Rightarrow> u64 \<Rightarrow> u64 \<Rightarrow> unit go" where
  "reconcile_check env lib fl c latest goal =
     bind_go (of_sum (normalise_type (fl_recon_type fl))) (\<lambda>kind.
     bind_go (wanted kind ReconPayroll (check_payroll env lib fl c goal)) (\<lambda>_.
     bind_go (wanted kind ReconClaims (check_claims env lib fl c goal)) (\<lambda>_.
     bind_go (wanted kind ReconTransfers (check_transfers env lib fl c latest goal)) (\<lambda>_.
     wanted kind ReconBalance (check_balances env lib fl c latest goal)))))"

definition is_reconcile_mode :: "indexer_flags \<Rightarrow> bool" where
  "is_reconcile_mode fl \<longleftrightarrow>
     fl_reconcile fl \<or> fl_stream fl = ''reconcile'' \<or> fl_stream fl = ''reconciliation''"

section \<open>The command\<close>

definition load_flagged :: "command_lib \<Rightarrow> query \<Rightarrow> indexer_flags \<Rightarrow> goerror + config" where
  "load_flagged lib getenv fl =
     and_then (wrap_sum ''configuration error'' (load (cl_float lib) getenv)) (\<lambda>c. Inr (apply_flags fl c))"

text \<open>The command ends, or hands over to \<open>Start\<close> of the live monitor.\<close>

datatype outcome = Complete | Monitoring live_monitor

definition indexer_connect :: "command_lib \<Rightarrow> goerror + unit" where
  "indexer_connect lib =
     and_then (reached ''failed to connect to RPC'' (cl_dial lib)) (\<lambda>_.
     and_then (reached ''failed to connect to database'' (cl_connect lib)) (\<lambda>_.
     reached ''failed to run migrations'' (cl_migrate lib)))"

definition run_mode ::
  "env \<Rightarrow> command_lib \<Rightarrow> indexer_flags \<Rightarrow> config \<Rightarrow> services \<Rightarrow> u64 \<Rightarrow> outcome run" where
  "run_mode env lib fl c sv latest =
     (if is_live_mode fl c then
        (\<lambda>w. Some (and_then (wrap_sum ''failed to initialize live monitor''
           (new_live_monitor True True (live_config lib fl c sv))) (\<lambda>m. Inr (Monitoring m)), w))
      else
        let goal = backfill_target fl c latest in
        if is_reconcile_mode fl
        then (\<lambda>w. Some (bind_go (reconcile_check env lib fl c latest goal) (\<lambda>_. ret Complete) w))
        else then_run (backfill_phases env lib fl c sv latest goal) (\<lambda>_ w. Some (Inr Complete, w)))"

definition indexer_command :: "env \<Rightarrow> command_lib \<Rightarrow> query \<Rightarrow> indexer_flags \<Rightarrow> outcome run" where
  "indexer_command env lib getenv fl =
     then_run (\<lambda>w. Some (load_flagged lib getenv fl, w)) (\<lambda>c.
     then_run (\<lambda>w. Some (indexer_connect lib, w)) (\<lambda>_.
     then_run (\<lambda>w. Some (wrapping ''failed to fetch latest block'' (latest_block env) w)) (\<lambda>latest.
     then_run (\<lambda>w. Some (build_services env lib fl c, w)) (\<lambda>sv.
     run_mode env lib fl c sv latest))))"

text \<open>All states of a run: the final one, and those of the monitor.\<close>

definition indexer_reaches ::
  "env \<Rightarrow> command_lib \<Rightarrow> query \<Rightarrow> indexer_flags \<Rightarrow> world \<Rightarrow> world \<Rightarrow> bool" where
  "indexer_reaches env lib getenv fl w w' \<longleftrightarrow>
     (\<exists>r w1. indexer_command env lib getenv fl w = Some (r, w1) \<and>
        (w' = w1 \<or> (\<exists>m. r = Inr (Monitoring m) \<and> monitor_run env m w1 w')))"

end
