(* ===== verification/Blockchain_Client.thy ===== *)
theory Blockchain_Client
  imports Escrow_Properties Token_Properties
begin

text \<open>
  \<open>internal/blockchain/client.go\<close>: the client the services use, over go-ethereum's \<open>ethclient\<close>, with
  its own retry loop around every request. The methods of \<open>ethclient\<close> are the record \<open>eth_client\<close>, each
  answering as a function of the tick. The other theories see the client as the functions \<open>rpc_*\<close> of
  the environment; \<open>client_makes_honest\<close> shows that log answers of this client over a node that answers
  from the chain are what they assume.
\<close>

section \<open>The library\<close>

record filter_query =
  fq_from :: int
  fq_to :: int
  fq_addresses :: "address list"
  fq_topics :: "hash list list"

record eth_tx =
  et_to :: "address option"
  et_raw :: bytes

record eth_receipt =
  rcpt_block_hash :: hash
  rcpt_index :: nat
  rcpt_block :: int
  rcpt_gas :: u64
  rcpt_status :: u64

record eth_header =
  eh_number :: int
  eh_hash :: hash
  eh_parent :: hash
  eh_time :: u64

record call_msg =
  cm_to :: "address option"
  cm_data :: bytes

record eth_client =
  eth_block_number :: "nat \<Rightarrow> goerror + u64"
  eth_filter_logs :: "nat \<Rightarrow> filter_query \<Rightarrow> goerror + evm_log list"
  eth_transaction_by_hash :: "nat \<Rightarrow> hash \<Rightarrow> goerror + eth_tx \<times> bool"
  eth_transaction_receipt :: "nat \<Rightarrow> hash \<Rightarrow> goerror + eth_receipt"
  eth_transaction_sender :: "nat \<Rightarrow> eth_tx \<Rightarrow> hash \<Rightarrow> nat \<Rightarrow> goerror + address"
  eth_block_time :: "nat \<Rightarrow> int \<Rightarrow> goerror + u64"
  eth_header_by_number :: "nat \<Rightarrow> int \<Rightarrow> goerror + eth_header option"
  eth_call_contract :: "nat \<Rightarrow> call_msg \<Rightarrow> int option \<Rightarrow> goerror + bytes"

section \<open>The retry loop\<close>

definition rate_limited :: "goerror \<Rightarrow> bool" where
  "rate_limited e \<longleftrightarrow> contains_any (emsg e) [''429'', ''Too Many Requests'']"

definition adjusted_backoff :: "nat \<Rightarrow> int \<Rightarrow> goerror \<Rightarrow> int" where
  "adjusted_backoff k backoff e = (if rate_limited e then int k * 1200 * millisecond else backoff)"

text \<open>Attempt number \<open>k\<close>, with \<open>left\<close> more to follow; a wait ends early with the error of the context.\<close>

fun attempts :: "env \<Rightarrow> 'a go \<Rightarrow> nat \<Rightarrow> nat \<Rightarrow> int \<Rightarrow> 'a go" where
  "attempts env op left k backoff w =
     (case ctx_error env w of
        Some e \<Rightarrow> (Inl e, w)
      | None \<Rightarrow>
          (case op w of
             (Inr x, w1) \<Rightarrow> (Inr x, w1)
           | (Inl e, w1) \<Rightarrow>
               (case left of
                  0 \<Rightarrow> (Inl e, w1)
                | Suc rest \<Rightarrow>
                    (case sleep env (adjusted_backoff k backoff e) w1 of
                       (Inl e', w2) \<Rightarrow> (Inl e', w2)
                     | (Inr _, w2) \<Rightarrow> attempts env op rest (Suc k) (2 * adjusted_backoff k backoff e) w2))))"

declare attempts.simps [simp del]

definition client_retry :: "env \<Rightarrow> 'a go \<Rightarrow> 'a go" where
  "client_retry env op = attempts env op 2 1 (300 * millisecond)"

section \<open>The methods\<close>

definition client_latest_block :: "env \<Rightarrow> eth_client \<Rightarrow> u64 go" where
  "client_latest_block env eth =
     wrapping ''failed to get latest block'' (client_retry env (rpc (eth_block_number eth)))"

definition client_get_logs :: "env \<Rightarrow> eth_client \<Rightarrow> address \<Rightarrow> u64 \<Rightarrow> u64 \<Rightarrow> evm_log list go" where
  "client_get_logs env eth c lo hi =
     wrapping (''failed to fetch logs for '' @ addr_hex env c) (client_retry env (rpc (\<lambda>n. eth_filter_logs eth n
       \<lparr>fq_from = uint lo, fq_to = uint hi, fq_addresses = [c], fq_topics = []\<rparr>)))"

definition client_get_token_logs ::
  "env \<Rightarrow> eth_client \<Rightarrow> address \<Rightarrow> hash \<Rightarrow> u64 \<Rightarrow> u64 \<Rightarrow> evm_log list go" where
  "client_get_token_logs env eth c topic lo hi =
     wrapping (''failed to fetch token logs for '' @ addr_hex env c @ '' in blocks '' @ range_text lo hi)
       (client_retry env (rpc (\<lambda>n. eth_filter_logs eth n
         \<lparr>fq_from = uint lo, fq_to = uint hi, fq_addresses = [c], fq_topics = [[topic]]\<rparr>)))"

definition request_metadata :: "env \<Rightarrow> eth_client \<Rightarrow> hash \<Rightarrow> tx_metadata go" where
  "request_metadata env eth h =
     bind_go (rpc (\<lambda>n. eth_transaction_by_hash eth n h)) (\<lambda>(tx, pending).
     if pending then fail (new_error (''transaction '' @ hash_hex env h @ '' is still pending''))
     else
       bind_go (rpc (\<lambda>n. eth_transaction_receipt eth n h)) (\<lambda>receipt.
       bind_go (rpc (\<lambda>n. eth_transaction_sender eth n tx (rcpt_block_hash receipt) (rcpt_index receipt))) (\<lambda>sender.
       ret \<lparr>tm_hash = h, tm_block = word_of_int (rcpt_block receipt), tm_sender = sender,
         tm_recipient = et_to tx, tm_gas = rcpt_gas receipt, tm_status = rcpt_status receipt\<rparr>)))"

definition client_transaction_metadata :: "env \<Rightarrow> eth_client \<Rightarrow> hash \<Rightarrow> tx_metadata option go" where
  "client_transaction_metadata env eth h =
     bind_go (wrapping (''failed to fetch transaction metadata for '' @ hash_hex env h)
       (client_retry env (request_metadata env eth h))) (\<lambda>m. ret (Some m))"

definition client_block_timestamp :: "env \<Rightarrow> eth_client \<Rightarrow> u64 \<Rightarrow> u64 go" where
  "client_block_timestamp env eth b =
     wrapping (''failed to fetch block '' @ dec_u64 b)
       (client_retry env (rpc (\<lambda>n. eth_block_time eth n (uint b))))"

definition client_block_header :: "env \<Rightarrow> eth_client \<Rightarrow> u64 \<Rightarrow> block_header go" where
  "client_block_header env eth b =
     bind_go (wrapping (''failed to fetch block header for '' @ dec_u64 b)
       (client_retry env (rpc (\<lambda>n. eth_header_by_number eth n (uint b))))) (\<lambda>header.
     case header of
       None \<Rightarrow> fail (new_error (''block header for '' @ dec_u64 b @ '' is nil''))
     | Some h \<Rightarrow> ret \<lparr>h_number = word_of_int (eh_number h), h_hash = eh_hash h, h_parent = eh_parent h,
         h_time = eh_time h\<rparr>)"

definition client_call_contract ::
  "env \<Rightarrow> eth_client \<Rightarrow> call_msg \<Rightarrow> int option \<Rightarrow> bytes go" where
  "client_call_contract env eth msg b =
     wrapping (''failed to call contract '' @
         (case cm_to msg of None \<Rightarrow> ''unknown'' | Some a \<Rightarrow> addr_hex env a))
       (client_retry env (rpc (\<lambda>n. eth_call_contract eth n msg b)))"

section \<open>What a request does to the world\<close>

text \<open>A request changes only tick and trace.\<close>

definition same_store :: "world \<Rightarrow> world \<Rightarrow> bool" where
  "same_store w w' \<longleftrightarrow> w_db w' = w_db w \<and> w_redis w' = w_redis w"

definition store_kept :: "'a go \<Rightarrow> bool" where
  "store_kept m \<longleftrightarrow> (\<forall>w r w'. m w = (r, w') \<longrightarrow> same_store w w')"

lemma store_keptI: "(\<And>w r w'. m w = (r, w') \<Longrightarrow> same_store w w') \<Longrightarrow> store_kept m"
  by (simp add: store_kept_def)

lemma store_keptD: "store_kept m \<Longrightarrow> m w = (r, w') \<Longrightarrow> same_store w w'"
  by (simp add: store_kept_def)

lemma same_store_trans: "same_store a b \<Longrightarrow> same_store b c \<Longrightarrow> same_store a c"
  by (simp add: same_store_def)

lemma store_kept_basic: "store_kept (rpc f)" "store_kept (ret x)" "store_kept (fail e)" "store_kept (sleep env d)"
  by (auto simp: store_kept_def same_store_def rpc_def ret_def fail_def sleep_def split: option.splits)

lemma store_kept_bind:
  assumes "store_kept m" "\<And>x. store_kept (k x)"
  shows "store_kept (bind_go m k)"
proof (rule store_keptI)
  fix w r w' assume run: "bind_go m k w = (r, w')"
  obtain q w1 where m: "m w = (q, w1)" by fastforce
  note first = store_keptD [OF assms(1) m]
  show "same_store w w'"
  proof (cases q)
    case (Inl e)
    then show ?thesis using run m first by (simp add: bind_go_def)
  next
    case (Inr x)
    then have "k x w1 = (r, w')" using run m by (simp add: bind_go_def)
    then show ?thesis using first store_keptD [OF assms(2)] same_store_trans by blast
  qed
qed

lemma store_kept_wrapping: "store_kept m \<Longrightarrow> store_kept (wrapping s m)"
  by (fastforce simp: store_kept_def wrapping_def split: prod.splits sum.splits)

lemma store_kept_attempts:
  assumes "store_kept op"
  shows "store_kept (attempts env op left k b)"
proof (induction left arbitrary: k b)
  case 0
  show ?case
    using assms by (fastforce simp: store_kept_def same_store_def attempts.simps [of env op 0]
        split: option.splits sum.splits prod.splits)
next
  case (Suc left)
  show ?case
  proof (rule store_keptI)
    fix w r w' assume run: "attempts env op (Suc left) k b w = (r, w')"
    obtain q w1 where op: "op w = (q, w1)" by fastforce
    note first = store_keptD [OF assms op]
    show "same_store w w'"
    proof (cases "ctx_error env w = None \<and> isl q")
      case True
      then obtain e where e: "q = Inl e" "ctx_error env w = None" by (auto simp: isl_def)
      have "bind_go (sleep env (adjusted_backoff k b e))
          (\<lambda>_. attempts env op left (Suc k) (2 * adjusted_backoff k b e)) w1 = (r, w')"
        using run op e by (simp add: attempts.simps [of env op "Suc left"] bind_go_def split: prod.splits sum.splits)
      then have "same_store w1 w'" by (rule store_keptD [OF store_kept_bind [OF store_kept_basic(4) Suc]])
      then show ?thesis using first same_store_trans by blast
    next
      case False
      then have "w' = w \<or> w' = w1"
        using run op by (cases q) (auto simp: attempts.simps [of env op "Suc left"] split: option.splits)
      then show ?thesis using first by (auto simp: same_store_def)
    qed
  qed
qed

lemma store_kept_request: "store_kept (wrapping s (client_retry env (rpc f)))"
  unfolding client_retry_def by (intro store_kept_wrapping store_kept_attempts store_kept_basic)

lemma store_kept_metadata: "store_kept (request_metadata env eth h)"
  unfolding request_metadata_def by (auto intro!: store_kept_bind store_kept_basic split: prod.split)

section \<open>What a request returns\<close>

lemma attempts_Inr:
  assumes "attempts env op left k b w = (Inr x, w')"
  shows "\<exists>v. op v = (Inr x, w')"
  using assms
proof (induction left arbitrary: k b w)
  case 0
  then show ?case by (auto simp: attempts.simps [of env _ 0] split: option.splits sum.splits prod.splits)
next
  case (Suc left)
  obtain q w1 where op: "op w = (q, w1)" by fastforce
  show ?case
  proof (cases q)
    case (Inl e)
    then have "\<exists>w2. attempts env op left (Suc k) (2 * adjusted_backoff k b e) w2 = (Inr x, w')"
      using Suc.prems op by (auto simp: attempts.simps [of env _ "Suc left"] split: option.splits prod.splits sum.splits)
    then show ?thesis using Suc.IH by blast
  next
    case (Inr y)
    then have "y = x \<and> w1 = w'" using Suc.prems op
      by (simp add: attempts.simps [of env _ "Suc left"] split: option.splits)
    then show ?thesis using Inr op by blast
  qed
qed

lemma rpc_Inr: "rpc f v = (Inr x, w') \<longleftrightarrow> f (w_tick v) = Inr x \<and> w' = next_tick v"
  by (auto simp: rpc_def)

lemma retried_answer:
  assumes "wrapping s (client_retry env (rpc f)) w = (Inr x, w')"
  shows "\<exists>n. f n = Inr x \<and> w_tick w' = Suc n"
proof -
  from assms obtain v where "rpc f v = (Inr x, w')"
    by (auto simp: wrapping_Inr client_retry_def dest!: attempts_Inr)
  then show ?thesis by (auto simp: rpc_Inr)
qed

text \<open>Three attempts, two ticks apart, when each of the first two fails.\<close>

lemma retried_succeeds:
  assumes "\<And>n. ctx_err env n = None \<and> sleep_err env n = None" "i < 3" "f (w_tick w + 2 * i) = Inr y"
  shows "\<exists>x w'. wrapping s (client_retry env (rpc f)) w = (Inr x, w')"
proof -
  have sleeping: "sleep env d v = (Inr (), next_tick (emit (Slept d) v))" for d v
    using assms(1) by (simp add: sleep_def)
  have no_error: "ctx_error env v = None" for v
    using assms(1) by (simp add: ctx_error_def)
  have "\<exists>x v'. attempts env (rpc f) left k b v = (Inr x, v')"
    if "j \<le> left" "f (w_tick v + 2 * j) = Inr y" for left k b v j
    using that
  proof (induction left arbitrary: k b v j)
    case 0
    then show ?case by (simp add: attempts.simps [of env _ 0] no_error rpc_def)
  next
    case (Suc left)
    show ?case
    proof (cases "f (w_tick v)")
      case (Inr x)
      then show ?thesis by (simp add: attempts.simps [of env _ "Suc left"] no_error rpc_def)
    next
      case (Inl e)
      then obtain j' where j: "j = Suc j'" using Suc.prems(2) by (cases j) simp_all
      have "\<exists>x v'. attempts env (rpc f) left (Suc k) (2 * adjusted_backoff k b e)
          (next_tick (emit (Slept (adjusted_backoff k b e)) (next_tick v))) = (Inr x, v')"
        using Suc.prems j by (intro Suc.IH [of j']) simp_all
      then show ?thesis using Inl
        by (simp add: attempts.simps [of env _ "Suc left"] no_error rpc_def sleeping)
    qed
  qed
  from this [of i 2 w 1 "300 * millisecond"] assms(2,3)
  show ?thesis by (auto simp: client_retry_def wrapping_def)
qed

section \<open>The chain behind the node\<close>

text \<open>
  What is on chain, apart from any client: the heads the node has, the logs in chain order, the
  mined transactions, the blocks and the results of contract calls.
\<close>

record mined_tx =
  mt_tx :: eth_tx
  mt_receipt :: eth_receipt
  mt_sender :: address

record chain_view =
  cv_head :: "nat \<Rightarrow> u64"
  cv_logs :: "evm_log list"
  cv_tx :: "hash \<Rightarrow> mined_tx option"
  cv_block :: "int \<Rightarrow> eth_header option"
  cv_call :: "call_msg \<Rightarrow> int option \<Rightarrow> bytes"

text \<open>
  The documented semantics of a filter query: the block range, one of the addresses (any, when none is
  given), and at each given position a topic of the given alternatives.
\<close>

fun topics_match :: "hash list list \<Rightarrow> hash list \<Rightarrow> bool" where
  "topics_match [] ts = True"
| "topics_match (alts # q) [] = False"
| "topics_match (alts # q) (t # ts) = ((alts = [] \<or> t \<in> set alts) \<and> topics_match q ts)"

definition selects :: "filter_query \<Rightarrow> evm_log \<Rightarrow> bool" where
  "selects q lg \<longleftrightarrow> fq_from q \<le> uint (l_block lg) \<and> uint (l_block lg) \<le> fq_to q \<and>
     (fq_addresses q = [] \<or> l_address lg \<in> set (fq_addresses q)) \<and> topics_match (fq_topics q) (l_topics lg)"

text \<open>A node that may fail to answer, and answers from the chain when it does.\<close>

definition faithful_node :: "eth_client \<Rightarrow> chain_view \<Rightarrow> bool" where
  "faithful_node eth cv \<longleftrightarrow>
     (\<forall>n b. eth_block_number eth n = Inr b \<longrightarrow> b = cv_head cv n) \<and>
     (\<forall>n q lgs. eth_filter_logs eth n q = Inr lgs \<longrightarrow> lgs = filter (selects q) (cv_logs cv)) \<and>
     (\<forall>n h tx. eth_transaction_by_hash eth n h = Inr (tx, False) \<longrightarrow> (\<exists>m. cv_tx cv h = Some m \<and> mt_tx m = tx)) \<and>
     (\<forall>n h r. eth_transaction_receipt eth n h = Inr r \<longrightarrow> (\<exists>m. cv_tx cv h = Some m \<and> mt_receipt m = r)) \<and>
     (\<forall>n h m a. cv_tx cv h = Some m \<and> eth_transaction_sender eth n (mt_tx m)
          (rcpt_block_hash (mt_receipt m)) (rcpt_index (mt_receipt m)) = Inr a \<longrightarrow> a = mt_sender m) \<and>
     (\<forall>n b t. eth_block_time eth n b = Inr t \<longrightarrow> (\<exists>h. cv_block cv b = Some h \<and> eh_time h = t)) \<and>
     (\<forall>n b h. eth_header_by_number eth n b = Inr (Some h) \<longrightarrow> cv_block cv b = Some h \<and> eh_number h = b) \<and>
     (\<forall>n msg b r. eth_call_contract eth n msg b = Inr r \<longrightarrow> r = cv_call cv msg b)"

lemma faithfulD:
  assumes "faithful_node eth cv"
  shows "eth_block_number eth n = Inr bn \<Longrightarrow> bn = cv_head cv n"
    "eth_filter_logs eth n q = Inr lgs \<Longrightarrow> lgs = filter (selects q) (cv_logs cv)"
    "eth_transaction_by_hash eth n h = Inr (tx, False) \<Longrightarrow> \<exists>m. cv_tx cv h = Some m \<and> mt_tx m = tx"
    "eth_transaction_receipt eth n h = Inr rc \<Longrightarrow> \<exists>m. cv_tx cv h = Some m \<and> mt_receipt m = rc"
    "cv_tx cv h = Some m \<Longrightarrow> eth_transaction_sender eth n (mt_tx m) (rcpt_block_hash (mt_receipt m))
       (rcpt_index (mt_receipt m)) = Inr a \<Longrightarrow> a = mt_sender m"
    "eth_block_time eth n b = Inr t \<Longrightarrow> \<exists>h. cv_block cv b = Some h \<and> eh_time h = t"
    "eth_header_by_number eth n b = Inr (Some hdr) \<Longrightarrow> cv_block cv b = Some hdr \<and> eh_number hdr = b"
    "eth_call_contract eth n msg bo = Inr r \<Longrightarrow> r = cv_call cv msg bo"
  using assms by (simp_all add: faithful_node_def)

lemma selected_logs:
  "selects \<lparr>fq_from = uint lo, fq_to = uint hi, fq_addresses = [c], fq_topics = []\<rparr> lg \<longleftrightarrow>
     l_address lg = c \<and> lo \<le> l_block lg \<and> l_block lg \<le> hi"
  "selects \<lparr>fq_from = uint lo, fq_to = uint hi, fq_addresses = [c], fq_topics = [[topic]]\<rparr> lg \<longleftrightarrow>
     l_address lg = c \<and> lo \<le> l_block lg \<and> l_block lg \<le> hi \<and> l_topics lg \<noteq> [] \<and> hd (l_topics lg) = topic"
  by (cases "l_topics lg"; auto simp: selects_def word_le_def)+

lemma request_metadata_served:
  assumes "faithful_node eth cv" "request_metadata env eth h w = (Inr m, w')"
  shows "\<exists>t. cv_tx cv h = Some t \<and> m = \<lparr>tm_hash = h, tm_block = word_of_int (rcpt_block (mt_receipt t)),
    tm_sender = mt_sender t, tm_recipient = et_to (mt_tx t), tm_gas = rcpt_gas (mt_receipt t),
    tm_status = rcpt_status (mt_receipt t)\<rparr>"
proof -
  from assms(2) obtain n1 n2 n3 tx rc a where
    "eth_transaction_by_hash eth n1 h = Inr (tx, False)" "eth_transaction_receipt eth n2 h = Inr rc"
    and sender: "eth_transaction_sender eth n3 tx (rcpt_block_hash rc) (rcpt_index rc) = Inr a"
    and m: "m = \<lparr>tm_hash = h, tm_block = word_of_int (rcpt_block rc), tm_sender = a, tm_recipient = et_to tx,
      tm_gas = rcpt_gas rc, tm_status = rcpt_status rc\<rparr>"
    by (auto simp: request_metadata_def bind_Inr rpc_def ret_eq fail_def split: if_splits)
  then obtain t where t: "cv_tx cv h = Some t" "mt_tx t = tx" "mt_receipt t = rc"
    using faithfulD(3,4) [OF assms(1)] by (metis option.inject)
  then have "a = mt_sender t" using faithfulD(5) [OF assms(1) t(1)] sender by simp
  then show ?thesis using t m by simp
qed

text \<open>What the methods ask \<open>ethclient\<close> for, and that they change nothing but tick and trace.\<close>

lemma client_requests:
  "client_latest_block env eth w = (Inr bn, w') \<Longrightarrow>
     \<exists>n. eth_block_number eth n = Inr bn \<and> w_tick w' = Suc n"
  "client_get_logs env eth c lo hi w = (Inr lgs, w') \<Longrightarrow>
     \<exists>n. eth_filter_logs eth n \<lparr>fq_from = uint lo, fq_to = uint hi, fq_addresses = [c], fq_topics = []\<rparr> = Inr lgs"
  "client_get_token_logs env eth c topic lo hi w = (Inr lgs, w') \<Longrightarrow>
     \<exists>n. eth_filter_logs eth n \<lparr>fq_from = uint lo, fq_to = uint hi, fq_addresses = [c], fq_topics = [[topic]]\<rparr> = Inr lgs"
  "client_transaction_metadata env eth h w = (Inr mo, w') \<Longrightarrow>
     \<exists>m v. mo = Some m \<and> request_metadata env eth h v = (Inr m, w')"
  "client_block_timestamp env eth b w = (Inr ts, w') \<Longrightarrow> \<exists>n. eth_block_time eth n (uint b) = Inr ts"
  "client_block_header env eth b w = (Inr hd', w') \<Longrightarrow> \<exists>n h. eth_header_by_number eth n (uint b) = Inr (Some h) \<and>
     hd' = \<lparr>h_number = word_of_int (eh_number h), h_hash = eh_hash h, h_parent = eh_parent h, h_time = eh_time h\<rparr>"
  "client_call_contract env eth msg bo w = (Inr r, w') \<Longrightarrow> \<exists>n. eth_call_contract eth n msg bo = Inr r"
  unfolding client_latest_block_def client_get_logs_def client_get_token_logs_def client_transaction_metadata_def
    client_block_timestamp_def client_block_header_def client_call_contract_def
  by (auto simp: bind_Inr ret_eq fail_eq wrapping_Inr client_retry_def rpc_Inr split: option.splits
      dest!: retried_answer [unfolded client_retry_def wrapping_Inr] attempts_Inr) (intro exI conjI, assumption, simp_all)

lemma client_store_kept:
  "store_kept (client_latest_block env eth)" "store_kept (client_get_logs env eth c lo hi)"
  "store_kept (client_get_token_logs env eth c topic lo hi)" "store_kept (client_transaction_metadata env eth h)"
  "store_kept (client_block_timestamp env eth b)" "store_kept (client_block_header env eth b)"
  "store_kept (client_call_contract env eth msg bo)"
  unfolding client_latest_block_def client_get_logs_def client_get_token_logs_def client_transaction_metadata_def
    client_block_timestamp_def client_block_header_def client_call_contract_def client_retry_def
  by (auto intro!: store_kept_wrapping store_kept_attempts store_kept_bind store_kept_basic store_kept_metadata
      split: option.split)

text \<open>
  An environment whose log answers are answers of the client is honest for every contract and every
  token, as the indexers ask: the logs they are verified against are those of the chain.
\<close>

lemma client_makes_honest:
  assumes "faithful_node eth cv"
  shows "(\<And>n a lo hi lgs. rpc_logs env n a lo hi = Inr lgs \<Longrightarrow> \<exists>w w'. client_get_logs env0 eth a lo hi w = (Inr lgs, w')) \<Longrightarrow>
      honest env c (filter (\<lambda>lg. l_address lg = c) (cv_logs cv))"
    and "(\<And>n a t lo hi lgs. rpc_token_logs env n a t lo hi = Inr lgs \<Longrightarrow>
        \<exists>w w'. client_get_token_logs env0 eth a t lo hi w = (Inr lgs, w')) \<Longrightarrow>
      honest_topics env c (filter (\<lambda>lg. l_address lg = c) (cv_logs cv))"
  unfolding honest_def honest_topics_def
  by (fastforce dest!: client_requests faithfulD(2) [OF assms] simp: selected_logs)+

text \<open>
  C9. The client answers from the chain. Let the node behind it fail whenever it likes but answer from the
  chain when it answers. Then a call of the client that succeeds, after however many attempts, leaves
  database and Redis alone and returns: the head at the time of its last request; exactly the logs
  of the contract, or of the contract with the topic, in the block range, both ends included, in the
  node's order; the hash, block, sender, recipient, gas and status of the mined transaction, and never
  a pending one; the timestamp and the header of the block asked for; the result of the call asked for.
  And a request for logs does succeed when nothing is cancelled and the node answers one of the three
  attempts.
\<close>

theorem client_serves_chain:
  assumes "faithful_node eth cv"
  shows "(client_latest_block env eth w = (Inr head, w1) \<longrightarrow>
      same_store w w1 \<and> (\<exists>n. w_tick w1 = Suc n \<and> head = cv_head cv n)) \<and>
    (client_get_logs env eth c lo hi w = (Inr lgs, w2) \<longrightarrow> same_store w w2 \<and>
      lgs = filter (\<lambda>lg. l_address lg = c \<and> lo \<le> l_block lg \<and> l_block lg \<le> hi) (cv_logs cv)) \<and>
    (client_get_token_logs env eth c topic lo hi w = (Inr tlgs, w3) \<longrightarrow> same_store w w3 \<and>
      tlgs = filter (\<lambda>lg. l_address lg = c \<and> lo \<le> l_block lg \<and> l_block lg \<le> hi \<and>
        l_topics lg \<noteq> [] \<and> hd (l_topics lg) = topic) (cv_logs cv)) \<and>
    (client_transaction_metadata env eth h w = (Inr mo, w4) \<longrightarrow> same_store w w4 \<and>
      (\<exists>t. cv_tx cv h = Some t \<and> mo = Some \<lparr>tm_hash = h, tm_block = word_of_int (rcpt_block (mt_receipt t)),
        tm_sender = mt_sender t, tm_recipient = et_to (mt_tx t), tm_gas = rcpt_gas (mt_receipt t),
        tm_status = rcpt_status (mt_receipt t)\<rparr>)) \<and>
    (client_block_timestamp env eth b w = (Inr ts, w5) \<longrightarrow> same_store w w5 \<and>
      (\<exists>bh. cv_block cv (uint b) = Some bh \<and> ts = eh_time bh)) \<and>
    (client_block_header env eth b w = (Inr header, w6) \<longrightarrow> same_store w w6 \<and>
      (\<exists>bh. cv_block cv (uint b) = Some bh \<and>
        header = \<lparr>h_number = b, h_hash = eh_hash bh, h_parent = eh_parent bh, h_time = eh_time bh\<rparr>)) \<and>
    (client_call_contract env eth msg bo w = (Inr out, w7) \<longrightarrow> same_store w w7 \<and> out = cv_call cv msg bo) \<and>
    ((\<forall>n. ctx_err env n = None \<and> sleep_err env n = None) \<and>
      (\<exists>i < 3. \<forall>q. \<exists>x. eth_filter_logs eth (w_tick w + 2 * i) q = Inr x) \<longrightarrow>
      (\<exists>x w'. client_get_logs env eth c lo hi w = (Inr x, w')) \<and>
      (\<exists>x w'. client_get_token_logs env eth c topic lo hi w = (Inr x, w')))"
proof -
  note served = faithfulD [OF assms]
  have logs: "filter (selects \<lparr>fq_from = uint lo, fq_to = uint hi, fq_addresses = [c], fq_topics = []\<rparr>) (cv_logs cv) =
      filter (\<lambda>lg. l_address lg = c \<and> lo \<le> l_block lg \<and> l_block lg \<le> hi) (cv_logs cv)"
    "filter (selects \<lparr>fq_from = uint lo, fq_to = uint hi, fq_addresses = [c], fq_topics = [[topic]]\<rparr>) (cv_logs cv) =
      filter (\<lambda>lg. l_address lg = c \<and> lo \<le> l_block lg \<and> l_block lg \<le> hi \<and>
        l_topics lg \<noteq> [] \<and> hd (l_topics lg) = topic) (cv_logs cv)"
    by (simp_all add: selected_logs cong: filter_cong)
  note kept = client_store_kept [THEN store_keptD]
  show ?thesis
    apply (intro conjI impI)
    subgoal by (rule kept)
    subgoal by (auto dest!: client_requests(1) served(1))
    subgoal by (rule kept)
    subgoal using served(2) logs(1) by (auto dest!: client_requests(2))
    subgoal by (rule kept)
    subgoal using served(2) logs(2) by (auto dest!: client_requests(3))
    subgoal by (rule kept)
    subgoal by (auto dest!: client_requests(4) request_metadata_served [OF assms])
    subgoal by (rule kept)
    subgoal by (auto dest!: client_requests(5) served(6))
    subgoal by (rule kept)
    subgoal by (auto dest!: client_requests(6) served(7))
    subgoal by (rule kept)
    subgoal by (auto dest!: client_requests(7) served(8))
    subgoal unfolding client_get_logs_def by (blast intro: retried_succeeds)
    subgoal unfolding client_get_token_logs_def by (blast intro: retried_succeeds)
    done
qed

text \<open>A node that is rate limited at its first request and then serves one escrow log.\<close>

definition sample_chain_view :: chain_view where
  "sample_chain_view = \<lparr>cv_head = (\<lambda>_. 20), cv_logs = [sample_escrow_log],
     cv_tx = (\<lambda>_. Some \<lparr>mt_tx = \<lparr>et_to = Some 9, et_raw = []\<rparr>,
       mt_receipt = \<lparr>rcpt_block_hash = 5, rcpt_index = 0, rcpt_block = 10, rcpt_gas = 21000, rcpt_status = 1\<rparr>,
       mt_sender = 3\<rparr>),
     cv_block = (\<lambda>b. Some \<lparr>eh_number = b, eh_hash = 5, eh_parent = 4, eh_time = 1000\<rparr>),
     cv_call = (\<lambda>_ _. [])\<rparr>"

definition sample_eth :: eth_client where
  "sample_eth = \<lparr>eth_block_number = (\<lambda>n. if n = 0 then Inl (new_error ''429 Too Many Requests'') else Inr 20),
     eth_filter_logs = (\<lambda>n q. if n = 0 then Inl (new_error ''429 Too Many Requests'')
       else Inr (filter (selects q) [sample_escrow_log])),
     eth_transaction_by_hash = (\<lambda>n h. Inr (\<lparr>et_to = Some 9, et_raw = []\<rparr>, n = 0)),
     eth_transaction_receipt = (\<lambda>n h. Inr \<lparr>rcpt_block_hash = 5, rcpt_index = 0, rcpt_block = 10, rcpt_gas = 21000,
       rcpt_status = 1\<rparr>),
     eth_transaction_sender = (\<lambda>n tx b i. Inr 3), eth_block_time = (\<lambda>n b. Inr 1000),
     eth_header_by_number = (\<lambda>n b. Inr (Some \<lparr>eh_number = b, eh_hash = 5, eh_parent = 4, eh_time = 1000\<rparr>)),
     eth_call_contract = (\<lambda>n m b. Inr [])\<rparr>"

lemma sample_eth_faithful: "faithful_node sample_eth sample_chain_view"
  by (auto simp: faithful_node_def sample_eth_def sample_chain_view_def split: if_splits)

theorem client_serves_chain_witness:
  "fst (client_get_logs calm_env sample_eth 9 8 12 empty_world) = Inr [sample_escrow_log] \<and>
   fst (client_get_logs calm_env sample_eth 7 8 12 empty_world) = Inr []"
proof -
  let ?w = empty_world and ?run = "\<lambda>a. client_get_logs calm_env sample_eth a 8 12 empty_world"
  let ?in = "\<lambda>a lg. l_address lg = a \<and> 8 \<le> l_block lg \<and> l_block lg \<le> 12"
  have second: "\<exists>i < 3. \<forall>q. \<exists>x. eth_filter_logs sample_eth (w_tick ?w + 2 * i) q = Inr x"
    by (rule exI [of _ 1]) (simp add: sample_eth_def empty_world_def)
  have calm: "\<forall>n. ctx_err calm_env n = None \<and> sleep_err calm_env n = None" by simp
  have logs: "cv_logs sample_chain_view = [sample_escrow_log]" by (simp add: sample_chain_view_def)
  have "fst (?run a) = Inr (filter (?in a) [sample_escrow_log])" for a
  proof -
    note use = client_serves_chain [OF sample_eth_faithful, of calm_env ?w _ _ a 8 12, unfolded logs]
    note succeeds = use [THEN conjunct2, THEN conjunct2, THEN conjunct2, THEN conjunct2, THEN conjunct2,
      THEN conjunct2, THEN conjunct2, THEN mp, THEN conjunct1]
    from succeeds [OF conjI [OF calm second]] obtain lgs w' where run: "?run a = (Inr lgs, w')" by (elim exE)
    from use [THEN conjunct2, THEN conjunct1, THEN mp, OF run] have "lgs = filter (?in a) [sample_escrow_log]"
      by (rule conjunct2)
    then show ?thesis by (simp only: run fst_conv)
  qed
  then show ?thesis by (simp add: sample_escrow_log_def)
qed

section \<open>Bounds of the retries\<close>

lemma sleep_run: "sleep env d w = (r, w') \<Longrightarrow> w_trace w' = w_trace w @ [Slept d] \<and> w_tick w' = Suc (w_tick w)"
  by (auto simp: sleep_def split: option.splits)

lemma attempts_cases:
  assumes "attempts env (rpc f) left k b w = (r, w')"
  obtains (gone) "w' = w" | (answered) "w' = next_tick w"
  | (waited) e v where "left \<noteq> 0" "w_trace v = w_trace w @ [Slept (adjusted_backoff k b e)]" "w_tick v = w_tick w + 2"
      "w' = v \<or> attempts env (rpc f) (left - 1) (Suc k) (2 * adjusted_backoff k b e) v = (r, w')"
proof -
  have rpc: "rpc f w = (f (w_tick w), next_tick w)" by (simp add: rpc_def)
  note step = assms [unfolded attempts.simps [of env "rpc f" left k b w] rpc]
  show ?thesis
  proof (cases "ctx_error env w")
    case (Some x)
    then show ?thesis using step gone by simp
  next
    case None
    show ?thesis
    proof (cases "f (w_tick w)")
      case (Inr x)
      then show ?thesis using step None answered by simp
    next
      case (Inl e)
      show ?thesis
      proof (cases left)
        case 0
        then show ?thesis using step None Inl answered by simp
      next
        case (Suc m)
        obtain q v where sl: "sleep env (adjusted_backoff k b e) (next_tick w) = (q, v)" by fastforce
        have "w' = v \<or> attempts env (rpc f) m (Suc k) (2 * adjusted_backoff k b e) v = (r, w')"
          using step None Inl Suc sl by (cases q) simp_all
        then show ?thesis using sleep_run [OF sl] Suc waited [of v e] by simp
      qed
    qed
  qed
qed

text \<open>
  C10. Every request of the client is sent at most three times, with at most two waits: the first of 300 ms, or
  1.2 s after a rate limit, the second of twice that, or 2.4 s after a rate limit; so a call never
  waits more than 3.6 s in all, whatever the node answers.
\<close>

theorem client_retry_bounded:
  assumes "client_retry env (rpc f) w = (r, w')"
  shows "w_tick w' \<le> w_tick w + 5 \<and>
    (\<exists>waits. w_trace w' = w_trace w @ map Slept waits \<and>
       (waits = [] \<or>
        (\<exists>a \<in> {300 * millisecond, 1200 * millisecond}. waits = [a] \<or>
           (\<exists>b \<in> {2 * a, 2400 * millisecond}. waits = [a, b]))) \<and>
       sum_list waits \<le> 3600 * millisecond)"
proof -
  let ?ms = millisecond
  have first: "adjusted_backoff 1 (300 * ?ms) e \<in> {300 * ?ms, 1200 * ?ms}" for e
    by (simp add: adjusted_backoff_def)
  have second: "adjusted_backoff 2 (2 * a) e \<in> {2 * a, 2400 * ?ms}" for a e
    by (simp add: adjusted_backoff_def)
  have ms: "0 < ?ms" by (simp add: millisecond_def)
  from assms have run: "attempts env (rpc f) 2 1 (300 * ?ms) w = (r, w')" by (simp add: client_retry_def)
  then show ?thesis
  proof (cases rule: attempts_cases)
    case gone
    then show ?thesis using ms by (intro conjI exI [of _ "[]"]) simp_all
  next
    case answered
    then show ?thesis using ms by (intro conjI exI [of _ "[]"]) simp_all
  next
    case (waited e v)
    let ?a = "adjusted_backoff 1 (300 * ?ms) e"
    have one: ?thesis if "w_tick w' \<le> w_tick v + 1" "w_trace w' = w_trace v"
      using that waited(2,3) first [of e] ms by (intro conjI exI [of _ "[?a]"]) auto
    have two: ?thesis if "w_tick w' \<le> w_tick v + 3" "w_trace w' = w_trace v @ [Slept (adjusted_backoff 2 (2 * ?a) e')]" for e'
      using that waited(2,3) first [of e] second [of ?a e'] ms
      by (intro conjI exI [of _ "[?a, adjusted_backoff 2 (2 * ?a) e']"]) auto
    have "w' = v \<or> attempts env (rpc f) 1 2 (2 * ?a) v = (r, w')" using waited(4) by (simp add: numeral_2_eq_2)
    then show ?thesis
    proof
      assume "w' = v"
      then show ?thesis using one by simp
    next
      assume "attempts env (rpc f) 1 2 (2 * ?a) v = (r, w')"
      then show ?thesis
      proof (cases rule: attempts_cases)
        case (waited e' v')
        have "w' = v' \<or> attempts env (rpc f) 0 3 (2 * adjusted_backoff 2 (2 * ?a) e') v' = (r, w')"
          using waited(4) by (simp add: numeral_3_eq_3)
        then have "w' = v' \<or> w' = next_tick v'" by (auto elim: attempts_cases)
        then show ?thesis using two [of e'] waited(2,3) by auto
      qed (use one in simp_all)
    qed
  qed
qed

theorem client_retry_bounded_witness:
  "let w' = snd (client_retry calm_env (rpc (eth_block_number sample_eth)) empty_world) in
     w_trace w' = [Slept (1200 * millisecond)] \<and> w_tick w' \<le> 5"
proof -
  let ?y = "client_retry calm_env (rpc (eth_block_number sample_eth)) empty_world"
  obtain r w' where y: "?y = (r, w')" by fastforce
  have "w_trace (snd ?y) = [Slept (1200 * millisecond)]" by code_simp
  then show ?thesis using client_retry_bounded [OF y] y by (simp add: empty_world_def Let_def)
qed

end
