(* ===== verification/Command_Facts.thy ===== *)
theory Command_Facts
  imports Indexer_Command Blockchain_Client
begin

text \<open>
  Facts about the commands and the services they build: the default stream ids do not collide, what
  a backfill of one stream leaves alone, writers that leave the streams of the indexer alone, and
  that each phase of the indexer keeps checkpoint safety.
\<close>

section \<open>Stream ids\<close>

definition stream_variables :: "string list" where
  "stream_variables = [''PAYROLL_STREAM_ID'', ''TOKEN_STREAM_ID'', ''ESCROW_STREAM_ID'', ''RECONCILIATION_STREAM_ID'',
     ''RECONCILIATION_SALARY_CLAIM_STREAM_ID'', ''RECONCILIATION_TOKEN_STREAM_ID'',
     ''RECONCILIATION_TOKEN_BALANCE_STREAM_ID'']"

definition default_streams :: "query \<Rightarrow> bool" where
  "default_streams getenv \<longleftrightarrow> (\<forall>k \<in> set stream_variables. getenv k = [])"

text \<open>The default ids differ in their beginnings.\<close>

definition named_streams :: "config \<Rightarrow> bool" where
  "named_streams c \<longleftrightarrow>
     prefix ''monthly_payroll'' (cfg_payroll_stream_id c) \<and> prefix ''erc20_transfers'' (cfg_token_stream_id c) \<and>
     prefix ''wtf_escrow'' (cfg_escrow_stream_id c) \<and>
     prefix ''reconciliation_payroll'' (cfg_reconciliation_stream_id c) \<and>
     prefix ''reconciliation_salary'' (cfg_reconciliation_salary_claim_stream_id c) \<and>
     prefix ''reconciliation_erc20'' (cfg_reconciliation_token_stream_id c) \<and>
     prefix ''reconciliation_token'' (cfg_reconciliation_token_balance_stream_id c)"

lemma load_named_streams:
  assumes "load parse_float getenv = Inr c" "default_streams getenv"
  shows "named_streams c"
proof -
  have unset: "getenv ''PAYROLL_STREAM_ID'' = []" "getenv ''TOKEN_STREAM_ID'' = []" "getenv ''ESCROW_STREAM_ID'' = []"
    "getenv ''RECONCILIATION_STREAM_ID'' = []" "getenv ''RECONCILIATION_SALARY_CLAIM_STREAM_ID'' = []"
    "getenv ''RECONCILIATION_TOKEN_STREAM_ID'' = []" "getenv ''RECONCILIATION_TOKEN_BALANCE_STREAM_ID'' = []"
    using assms(2) by (simp_all add: default_streams_def stream_variables_def)
  from assms(1) have ids: "cfg_payroll_stream_id c = load_payroll_stream getenv"
    "cfg_token_stream_id c = load_token_stream getenv"
    "cfg_escrow_stream_id c = or_default (getenv ''ESCROW_STREAM_ID'') ''wtf_escrow''"
    "cfg_reconciliation_stream_id c = or_default (getenv ''RECONCILIATION_STREAM_ID'') ''reconciliation_payroll_funding''"
    "cfg_reconciliation_salary_claim_stream_id c =
       or_default (getenv ''RECONCILIATION_SALARY_CLAIM_STREAM_ID'') ''reconciliation_salary_claim''"
    "cfg_reconciliation_token_stream_id c =
       load_token_cursor getenv ''RECONCILIATION_TOKEN_STREAM_ID'' ''reconciliation_erc20_transfers''"
    "cfg_reconciliation_token_balance_stream_id c =
       load_token_cursor getenv ''RECONCILIATION_TOKEN_BALANCE_STREAM_ID'' ''reconciliation_token_balance''"
    by (auto simp: load_def and_then_Inr Let_def)
  show ?thesis unfolding named_streams_def ids
    by (simp add: unset load_payroll_stream_def load_token_stream_def load_token_cursor_def payroll_stream_id_def
        or_default_def Let_def)
qed

lemma named_flags [simp]:
  "named_streams (apply_flags fl c) = named_streams c"
  by (simp add: named_streams_def apply_flags_def)

lemma prefixes_differ: "prefix p s \<Longrightarrow> prefix q t \<Longrightarrow> \<not> prefix p q \<Longrightarrow> \<not> prefix q p \<Longrightarrow> s \<noteq> t"
  using prefix_same_cases by blast

section \<open>The services of a command\<close>

lemma validate_keeps:
  "validate_token_config lib al c = Inr c' \<Longrightarrow> \<exists>p. c' = c\<lparr>cfg_parsed_token_abi := p\<rparr>"
  by (auto simp: validate_token_config_def Let_def and_then_Inr split: if_splits option.splits)

lemma token_service_facts:
  assumes "token_service env lib fl c = Inr (Some ti)" "prefix ''erc20_transfers'' (cfg_token_stream_id c)"
  shows "ti_chain ti = cfg_chain_id c" "prefix ''erc20_transfers'' (ti_stream ti)"
    "ti_start ti = cfg_token_start_block c"
proof -
  from assms(1) obtain c' f t p where "c' = c\<lparr>cfg_parsed_token_abi := p\<rparr>"
    "new_token_indexer env True (Some f) True (cfg_chain_id c') (cfg_token_start_block c')
       (batch_size_of fl c') (cfg_confirmation_depth c') (cfg_token_stream_id c') = Inr t"
    "ti = set_token_policy (retry_policy_of c') t"
    by (auto simp: token_service_def and_then_Inr wrap_sum_Inr split: if_splits dest!: validate_keeps)
  then show "ti_chain ti = cfg_chain_id c" "prefix ''erc20_transfers'' (ti_stream ti)"
    "ti_start ti = cfg_token_start_block c"
    using assms(2) by (auto simp: new_token_indexer_def set_token_policy_def)
qed

lemma escrow_service_facts:
  assumes "escrow_service lib fl c = Inr (Some ei)" "prefix ''wtf_escrow'' (cfg_escrow_stream_id c)"
  shows "ei_chain ei = cfg_chain_id c" "prefix ''wtf_escrow'' (ei_stream ei)"
  using assms by (auto simp: escrow_service_def Let_def set_escrow_policy_def new_escrow_indexer_def escrow_defaults_def
      and_then_Inr wrap_sum_Inr split: if_splits)

lemma live_config_simps [simp]:
  "lm_chain (live_config lib fl c sv) = cfg_chain_id c"
  "lm_payroll_stream (live_config lib fl c sv) = cfg_payroll_stream_id c"
  "lm_payroll_start (live_config lib fl c sv) = start_block_of fl c"
  "lm_payroll_contract (live_config lib fl c sv) = configured_address lib (cfg_payroll_contract c)"
  "lm_payroll (live_config lib fl c sv) = sv_payroll sv" "lm_token (live_config lib fl c sv) = sv_token sv"
  "lm_escrow (live_config lib fl c sv) = sv_escrow sv"
  by (simp_all add: live_config_def)

lemma services_distinct:
  assumes "build_services env lib fl c = Inr sv" "named_streams c"
  shows "distinct_streams (live_config lib fl c sv)"
proof -
  from assms(1) have tok: "token_service env lib fl c = Inr (sv_token sv)" and esc: "escrow_service lib fl c = Inr (sv_escrow sv)"
    by (auto simp: build_services_def and_then_Inr)
  have t: "prefix ''erc20_transfers'' (ti_stream ti)" if "sv_token sv = Some ti" for ti
    using token_service_facts(2) [of env lib fl c ti] tok that assms(2) by (simp add: named_streams_def)
  have e: "prefix ''wtf_escrow'' (ei_stream ei)" if "sv_escrow sv = Some ei" for ei
    using escrow_service_facts(2) [of lib fl c ei] esc that assms(2) by (simp add: named_streams_def)
  have p: "prefix ''monthly_payroll'' (cfg_payroll_stream_id c)"
    using assms(2) by (simp add: named_streams_def)
  have "ti_stream ti \<noteq> cfg_payroll_stream_id c" if "sv_token sv = Some ti" for ti
    by (rule prefixes_differ [OF t [OF that] p]) simp_all
  moreover have "ei_stream ei \<noteq> cfg_payroll_stream_id c" if "sv_escrow sv = Some ei" for ei
    by (rule prefixes_differ [OF e [OF that] p]) simp_all
  moreover have "ei_stream ei \<noteq> ti_stream ti" if "sv_token sv = Some ti" "sv_escrow sv = Some ei" for ti ei
    by (rule prefixes_differ [OF e [OF that(2)] t [OF that(1)]]) simp_all
  ultimately show ?thesis by (simp add: distinct_streams_def)
qed

section \<open>The phases of a backfill\<close>

context effect_relation
begin

lemma keeps_chunk_loop:
  assumes "\<And>lo hi s. keeps (body lo hi s)" "chunk_loop body batch target lo prev s w = Some y"
  shows "R w (snd y)"
  using assms(2)
proof (induction rule: chunk_loop_induct)
  case (failed lo prev s w e w')
  then show ?case using keepsD [OF assms(1)] by simp
next
  case (more lo prev s w s' w' y)
  then show ?case using R_trans keepsD [OF assms(1)] by blast
qed (simp add: R_refl)

end

lemma others_keeps_payroll_chunk: "others.keeps chain stream (payroll_chunk env pol abi chain contract stream lo hi u)"
  unfolding payroll_chunk_def index_range_with_retry_def
  by (auto intro!: others.keeps_retry_rules others_keeps_checkpoint frame_others [OF frame_keeps_index_range])

text \<open>A backfill keeps the laws of the database and every checkpoint but its own.\<close>

definition backfill_frame :: "int \<Rightarrow> string \<Rightarrow> database \<Rightarrow> database \<Rightarrow> bool" where
  "backfill_frame chain stream d d' \<longleftrightarrow> legal d d' \<and> other_checkpoints chain stream d d'"

lemma backfill_frame_same: "d' = d \<Longrightarrow> backfill_frame chain stream d d'"
  by (simp add: backfill_frame_def legal_refl others.D_refl)

lemma payroll_frame:
  assumes "run_backfill env pol abi opts w = Some ((prev, err), w')" "bo_stream opts \<noteq> []"
  shows "backfill_frame (bo_chain opts) (bo_stream opts) (w_db w) (w_db w')"
proof -
  have o: "bo_chain (with_defaults opts) = bo_chain opts" "bo_stream (with_defaults opts) = bo_stream opts"
    using assms(2) by (simp_all add: with_defaults_def)
  from assms(1) show ?thesis
  proof (cases rule: backfill_cases)
    case (looped lo w1)
    have "legal (w_db w1) (w_db w')"
      using payroll_stream.chunk_loop_legal [OF looped(4)] by simp
    moreover have "other_checkpoints (bo_chain opts) (bo_stream opts) (w_db w1) (w_db w')"
      using others.keeps_chunk_loop [OF others_keeps_payroll_chunk looped(4)] by (simp add: o)
    ultimately show ?thesis by (simp add: backfill_frame_def looped(1))
  qed (simp_all add: backfill_frame_same)
qed

lemma token_frame:
  assumes "token_run_backfill env ti target w = Some ((prev, n, err), w')"
  shows "backfill_frame (ti_chain ti) (ti_stream ti) (w_db w) (w_db w')"
  using assms
proof (cases rule: token_backfill_cases)
  case (looped lo w1 w2 goal)
  have same: "w_db w2 = w_db w" using looped(1,2) token_start_Inr by fastforce
  show ?thesis
  proof (cases "goal < lo")
    case True
    then show ?thesis using looped(3) same by (auto intro: backfill_frame_same)
  next
    case False
    then have loop: "chunk_loop (token_chunk env ''token index range'' ti) (ti_batch ti) goal lo (lo - 1) 0 w2
        = Some ((prev, n, err), w')" using looped(3) by simp
    show ?thesis
      using law.keeps_chunk_loop [OF law_keeps_token_chunk loop] others.keeps_chunk_loop [OF others_keeps_chunks(1) loop]
      by (simp add: backfill_frame_def same)
  qed
qed (simp add: backfill_frame_same)

lemma escrow_frame:
  assumes "escrow_run_backfill env ei target w = Some ((prev, n, err), w')"
  shows "backfill_frame (ei_chain ei) (ei_stream ei) (w_db w) (w_db w')"
proof -
  obtain r w1 where st: "escrow_start_block env ei w = (r, w1)" by fastforce
  have same: "w_db w1 = w_db w" by (rule untouched.keepsD [OF untouched_starts(1) st])
  show ?thesis
  proof (cases r)
    case (Inl e)
    then have "w' = w1" using assms st by (simp add: escrow_run_backfill_def)
    then show ?thesis by (simp add: backfill_frame_same same)
  next
    case (Inr lo)
    show ?thesis
    proof (cases "lo > target")
      case True
      then have "w' = w1" using assms st Inr by (simp add: escrow_run_backfill_def)
      then show ?thesis by (simp add: backfill_frame_same same)
    next
      case False
      then have loop: "chunk_loop (escrow_chunk env ''escrow backfill'' ei) (ei_batch ei) target lo (lo - 1) 0 w1
          = Some ((prev, n, err), w')" using assms st Inr by (simp add: escrow_run_backfill_def)
      show ?thesis
        using law.keeps_chunk_loop [OF law_keeps_escrow_chunk loop] others.keeps_chunk_loop [OF others_keeps_chunks(2) loop]
        by (simp add: backfill_frame_def same)
    qed
  qed
qed

section \<open>Writers that leave the streams alone\<close>

text \<open>The checkpoint rows a monitor resumes from, and what a writer outside them keeps.\<close>

definition live_streams :: "live_monitor \<Rightarrow> (int \<times> string) set" where
  "live_streams m = insert (lm_chain m, lm_payroll_stream m)
     ((\<lambda>ti. (ti_chain ti, ti_stream ti)) ` set_option (lm_token m) \<union>
      (\<lambda>ei. (ei_chain ei, ei_stream ei)) ` set_option (lm_escrow m))"

definition undisturbed :: "(int \<times> string) set \<Rightarrow> database \<Rightarrow> database \<Rightarrow> bool" where
  "undisturbed S d d' \<longleftrightarrow>
     (\<forall>k. has_row ev_key k (chain_events d) \<longrightarrow> has_row ev_key k (chain_events d')) \<and>
     (\<forall>k. has_row tr_key k (token_transfers d) \<longrightarrow> has_row tr_key k (token_transfers d')) \<and>
     (\<forall>k. has_row es_key k (escrow_events d) \<longrightarrow> has_row es_key k (escrow_events d')) \<and>
     (\<forall>c s. (c, s) \<notin> S \<longrightarrow> checkpoint_of d' c s = checkpoint_of d c s)"

interpretation undisturbed: db_relation "undisturbed S" for S
  by unfold_locales (auto simp: undisturbed_def)

lemma undisturbed_safe:
  assumes "undisturbed S d d'" "live_streams m \<inter> S = {}" "monitor_safe env m lp lt le d"
  shows "monitor_safe env m lp lt le d'"
proof -
  have cp: "checkpoint_of d' c s = checkpoint_of d c s" if "(c, s) \<in> live_streams m" for c s
    using assms(1,2) that unfolding undisturbed_def by blast
  have pay: "payroll_recorded c a d lg \<Longrightarrow> payroll_recorded c a d' lg" for c a lg
    using assms(1) by (simp add: undisturbed_def payroll_recorded_def)
  have tok: "token_recorded ti d lg \<Longrightarrow> token_recorded ti d' lg" for ti lg
    using assms(1) unfolding undisturbed_def token_recorded_def by blast
  have esc: "escrow_recorded c a d lg \<Longrightarrow> escrow_recorded c a d' lg" for c a lg
    using assms(1) by (simp add: undisturbed_def escrow_recorded_def)
  show ?thesis
    using assms(3) cp pay tok esc
    unfolding monitor_safe_def payroll_safe_def token_safe_def escrow_safe_def live_streams_def by simp
qed

lemma exceptions_undisturbed: "exceptions_only d d' \<Longrightarrow> undisturbed S d d'"
  by (auto simp: exceptions_only_def undisturbed_def checkpoint_of_def)

lemma recon_undisturbed: "recon.keeps m \<Longrightarrow> undisturbed.keeps S m"
  unfolding recon.keeps_def undisturbed.keeps_def using exceptions_undisturbed by blast

section \<open>The modes of the indexer\<close>

lemma then_run_cases:
  assumes "then_run m k w = Some y"
  obtains (failed) e w1 where "m w = Some (Inl e, w1)" "y = (Inl e, w1)"
  | (passed) x w1 where "m w = Some (Inr x, w1)" "k x w1 = Some y"
  using assms by (auto simp: then_run_def split: option.splits prod.splits sum.splits)

text \<open>A step that keeps a property of the database whenever it returns.\<close>

definition run_keeps :: "(database \<Rightarrow> bool) \<Rightarrow> 'a run \<Rightarrow> bool" where
  "run_keeps P m \<longleftrightarrow> (\<forall>w y. P (w_db w) \<longrightarrow> m w = Some y \<longrightarrow> P (w_db (snd y)))"

lemma run_keepsD: "run_keeps P m \<Longrightarrow> m w = Some (r, w') \<Longrightarrow> P (w_db w) \<Longrightarrow> P (w_db w')"
  by (fastforce simp: run_keeps_def)

lemma run_keeps_then:
  assumes "run_keeps P m" "\<And>x. run_keeps P (k x)"
  shows "run_keeps P (then_run m k)"
  unfolding run_keeps_def
proof (intro allI impI)
  fix w y
  assume "P (w_db w)" and run: "then_run m k w = Some y"
  from run show "P (w_db (snd y))"
  proof (cases rule: then_run_cases)
    case (failed e w1)
    then show ?thesis using run_keepsD [OF assms(1)] \<open>P (w_db w)\<close> by simp
  next
    case (passed x w1)
    have "P (w_db w1)" using run_keepsD [OF assms(1) passed(1) \<open>P (w_db w)\<close>] .
    then show ?thesis using assms(2) passed(2) unfolding run_keeps_def by blast
  qed
qed

lemma run_keeps_done: "run_keeps P (\<lambda>w. Some (r, w))"
  by (simp add: run_keeps_def)

lemma run_keeps_go:
  assumes "undisturbed.keeps {} m"
  shows "run_keeps (monitor_safe env mo lp lt le) (\<lambda>w. Some (m w))"
  unfolding run_keeps_def
proof (intro allI impI)
  fix w y
  assume safe: "monitor_safe env mo lp lt le (w_db w)" and y: "Some (m w) = Some y"
  obtain r w' where run: "m w = (r, w')" by fastforce
  then have "y = (r, w')" using y by simp
  then show "monitor_safe env mo lp lt le (w_db (snd y))"
    using undisturbed_safe [OF undisturbed.keepsD [OF assms run] _ safe] by simp
qed

text \<open>\<open>m\<close> describes the streams also when the mode is not the live one.\<close>

lemma payroll_phase_safe:
  assumes "m = live_config lib fl c sv" "honest_node env m lp lt le" "distinct_streams m"
    "cfg_payroll_stream_id c \<noteq> []"
  shows "run_keeps (monitor_safe env m lp lt le) (payroll_phase env lib fl c sv goal)"
  unfolding run_keeps_def
proof (intro allI impI)
  fix w y
  assume safe: "monitor_safe env m lp lt le (w_db w)" and run: "payroll_phase env lib fl c sv goal w = Some y"
  show "monitor_safe env m lp lt le (w_db (snd y))"
  proof (cases "sv_payroll sv")
    case None
    then show ?thesis using run safe by (auto simp: payroll_phase_def)
  next
    case (Some svc)
    let ?o = "payroll_options lib fl c goal"
    from run Some obtain prev err w' where ran: "run_backfill env (snd svc) (fst svc) ?o w = Some ((prev, err), w')"
      and y: "w_db (snd y) = w_db w'"
      by (auto simp: payroll_phase_def)
    have o: "bo_chain ?o = lm_chain m" "bo_contract ?o = lm_payroll_contract m" "bo_start ?o = lm_payroll_start m"
      "bo_stream (with_defaults ?o) = lm_payroll_stream m" "bo_stream ?o = lm_payroll_stream m" "bo_stream ?o \<noteq> []"
      using assms(4) by (simp_all add: payroll_options_def assms(1) with_defaults_def)
    have own: "payroll_safe (lm_chain m) (lm_payroll_contract m) (lm_payroll_stream m) (lm_payroll_start m) lp (w_db w')"
      using run_backfill_safe [OF _ ran, of lp] assms(2) monitor_safe_parts(1) [OF safe]
      by (simp add: o honest_node_def)
    have frame: "legal (w_db w) (w_db w')" "other_checkpoints (lm_chain m) (lm_payroll_stream m) (w_db w) (w_db w')"
      using payroll_frame [OF ran o(6)] by (simp_all add: backfill_frame_def o)
    have "token_safe ti lt (w_db w')" if "lm_token m = Some ti" for ti
      using safe_kept_by_others(2) [OF frame _ monitor_safe_parts(2) [OF safe that]] assms(3) that
      by (simp add: distinct_streams_def)
    moreover have "escrow_safe ei le (w_db w')" if "timestamps_answered env" "lm_escrow m = Some ei" for ei
      using safe_kept_by_others(3) [OF frame _ monitor_safe_parts(3) [OF safe that]] assms(3) that(2)
      by (simp add: distinct_streams_def)
    ultimately show ?thesis using own by (simp add: monitor_safe_def y)
  qed
qed

lemma token_phase_safe:
  assumes "m = live_config lib fl c sv" "honest_node env m lp lt le" "distinct_streams m"
  shows "run_keeps (monitor_safe env m lp lt le) (token_phase env c sv latest goal)"
  unfolding run_keeps_def
proof (intro allI impI)
  fix w y
  assume safe: "monitor_safe env m lp lt le (w_db w)" and run: "token_phase env c sv latest goal w = Some y"
  show "monitor_safe env m lp lt le (w_db (snd y))"
  proof (cases "sv_token sv")
    case None
    then show ?thesis using run safe by (auto simp: token_phase_def)
  next
    case (Some ti)
    then have ti: "lm_token m = Some ti" by (simp add: assms(1))
    from run Some obtain target prev n err w' where ran: "token_run_backfill env ti target w = Some ((prev, n, err), w')"
      and y: "w_db (snd y) = w_db w'"
      by (auto simp: token_phase_def)
    have own: "token_safe ti lt (w_db w')"
      using token_backfill_safe [OF _ monitor_safe_parts(2) [OF safe ti] ran] assms(2) ti
      by (simp add: honest_node_def)
    have frame: "legal (w_db w) (w_db w')" "other_checkpoints (ti_chain ti) (ti_stream ti) (w_db w) (w_db w')"
      using token_frame [OF ran] by (simp_all add: backfill_frame_def)
    have "payroll_safe (lm_chain m) (lm_payroll_contract m) (lm_payroll_stream m) (lm_payroll_start m) lp (w_db w')"
      using safe_kept_by_others(1) [OF frame _ monitor_safe_parts(1) [OF safe]] assms(3) ti
      by (auto simp: distinct_streams_def)
    moreover have "escrow_safe ei le (w_db w')" if "timestamps_answered env" "lm_escrow m = Some ei" for ei
      using safe_kept_by_others(3) [OF frame _ monitor_safe_parts(3) [OF safe that]] assms(3) that(2) ti
      by (simp add: distinct_streams_def)
    ultimately show ?thesis using own ti by (simp add: monitor_safe_def y)
  qed
qed

lemma escrow_phase_safe:
  assumes "m = live_config lib fl c sv" "honest_node env m lp lt le" "distinct_streams m"
  shows "run_keeps (monitor_safe env m lp lt le) (escrow_phase env c sv latest goal)"
  unfolding run_keeps_def
proof (intro allI impI)
  fix w y
  assume safe: "monitor_safe env m lp lt le (w_db w)" and run: "escrow_phase env c sv latest goal w = Some y"
  show "monitor_safe env m lp lt le (w_db (snd y))"
  proof (cases "sv_escrow sv")
    case None
    then show ?thesis using run safe by (auto simp: escrow_phase_def)
  next
    case (Some ei)
    then have ei: "lm_escrow m = Some ei" by (simp add: assms(1))
    from run Some obtain target prev n err w' where ran: "escrow_run_backfill env ei target w = Some ((prev, n, err), w')"
      and y: "w_db (snd y) = w_db w'"
      by (auto simp: escrow_phase_def)
    have own: "escrow_safe ei le (w_db w')" if "timestamps_answered env"
      using escrow_backfill_safe [OF _ that monitor_safe_parts(3) [OF safe that ei] ran] assms(2) ei
      by (simp add: honest_node_def)
    have frame: "legal (w_db w) (w_db w')" "other_checkpoints (ei_chain ei) (ei_stream ei) (w_db w) (w_db w')"
      using escrow_frame [OF ran] by (simp_all add: backfill_frame_def)
    have "payroll_safe (lm_chain m) (lm_payroll_contract m) (lm_payroll_stream m) (lm_payroll_start m) lp (w_db w')"
      using safe_kept_by_others(1) [OF frame _ monitor_safe_parts(1) [OF safe]] assms(3) ei
      by (auto simp: distinct_streams_def)
    moreover have "token_safe ti lt (w_db w')" if "lm_token m = Some ti" for ti
      using safe_kept_by_others(2) [OF frame _ monitor_safe_parts(2) [OF safe that]] assms(3) that ei
      by (auto simp: distinct_streams_def)
    ultimately show ?thesis using own ei by (simp add: monitor_safe_def y)
  qed
qed

end
