(* ===== verification/Command_Properties.thy ===== *)
theory Command_Properties
  imports Command_Facts
begin

text \<open>
  What the two commands guarantee together with the services they build: checkpoint safety of a
  whole run of the indexer in any mode, its termination, which blocks \<open>--from-block\<close> concerns, and
  that the reconciler books exceptions and its own cursors only, also while the indexer runs.
\<close>

section \<open>The reconciliation check of the indexer\<close>

lemma recon_keeps_window:
  "recon.keeps (payroll_reconcile_recent_window env abi r n)" "recon.keeps (claim_reconcile_recent_window env abi r n)"
  "recon.keeps (transfer_reconcile_recent_window env f r n)" "recon.keeps (balance_recent_window env b n)"
  unfolding payroll_reconcile_recent_window_def claim_reconcile_recent_window_def transfer_reconcile_recent_window_def
    balance_recent_window_def reconcile_recent_window_def Let_def balance_latest_def
    call_with_retry_view
  by (auto intro!: recon.keeps_rules keeps_recon_call funding.range_keeps claims.range_keeps transfers.range_keeps target_keeps)

lemma recon_keeps_range:
  "recon.keeps (payroll_reconcile_range env abi r lo hi)" "recon.keeps (claim_reconcile_range env abi r lo hi)"
  "recon.keeps (transfer_reconcile_range env f r lo hi)"
  unfolding payroll_reconcile_range_def claim_reconcile_range_def transfer_reconcile_range_def
  by (auto intro!: funding.range_keeps claims.range_keeps transfers.range_keeps)

lemma recon_keeps_check:
  assumes "recon.keeps by_range" "\<And>n. recon.keeps (by_window n)"
  shows "recon.keeps (check_or_window fl msg by_window by_range)"
  unfolding check_or_window_def using assms by (auto intro!: recon.keeps_rules)

lemma recon_keeps_parts:
  "recon.keeps (check_payroll env lib fl c goal)" "recon.keeps (check_claims env lib fl c goal)"
  "recon.keeps (check_transfers env lib fl c latest goal)" "recon.keeps (check_balances env lib fl c latest goal)"
  unfolding check_payroll_def check_claims_def check_transfers_def check_balances_def
  by (auto intro!: recon.keeps_rules recon_keeps_check recon_keeps_window recon_keeps_range target_keeps split: prod.split)

lemma recon_keeps_reconcile_check: "recon.keeps (reconcile_check env lib fl c latest goal)"
  unfolding reconcile_check_def wanted_def by (auto intro!: recon.keeps_rules recon_keeps_parts)

section \<open>The indexer\<close>

lemma new_live_monitor_keeps:
  assumes "new_live_monitor client db m = Inr m'" "lm_payroll_stream m \<noteq> []"
  shows "monitor_safe env m' = monitor_safe env m" "honest_node env m' = honest_node env m" "distinct_streams m' = distinct_streams m"
  using assms by (auto simp: new_live_monitor_def monitor_safe_def honest_node_def distinct_streams_def fun_eq_iff split: if_splits)

lemma run_mode_safe:
  assumes "m = live_config lib fl c sv" "honest_node env m lp lt le" "distinct_streams m" "cfg_payroll_stream_id c \<noteq> []"
  shows "run_keeps (monitor_safe env m lp lt le) (run_mode env lib fl c sv latest)"
proof -
  have "undisturbed.keeps {} (bind_go (reconcile_check env lib fl c latest goal) (\<lambda>_. ret Complete))" for goal
    by (intro undisturbed.keeps_bind recon_undisturbed recon_keeps_reconcile_check undisturbed.keeps_ret)
  note check = run_keeps_go [OF this]
  show ?thesis
    unfolding run_mode_def backfill_phases_def Let_def
    using assms by (auto intro!: run_keeps_then run_keeps_done check payroll_phase_safe token_phase_safe escrow_phase_safe)
qed

lemma loaded_names:
  assumes "load_flagged lib getenv fl = Inr c" "default_streams getenv"
  shows "named_streams c" "cfg_payroll_stream_id c \<noteq> []"
proof -
  from assms(1) obtain c0 where "load (cl_float lib) getenv = Inr c0" "c = apply_flags fl c0"
    by (auto simp: load_flagged_def and_then_Inr wrap_sum_Inr)
  then show "named_streams c" using load_named_streams assms(2) by simp
  then show "cfg_payroll_stream_id c \<noteq> []" by (auto simp: named_streams_def)
qed

text \<open>A command that returns has stopped before its services were built, with the database as it was, or has run a mode.\<close>

lemma indexer_command_cases:
  assumes "indexer_command env lib getenv fl w = Some (r, w')"
    "load_flagged lib getenv fl = Inr c" "build_services env lib fl c = Inr sv"
  obtains (stopped) e where "r = Inl e" "w_db w' = w_db w"
  | (mode) latest where "indexer_connect lib = Inr ()" "rpc_latest env (w_tick w) = Inr latest"
      "run_mode env lib fl c sv latest (next_tick w) = Some (r, w')"
proof (cases "indexer_connect lib")
  case (Inl e)
  then show ?thesis using assms stopped [of e] by (auto simp: indexer_command_def then_run_def)
next
  case conn: (Inr u)
  have latest: "wrapping ''failed to fetch latest block'' (latest_block env) w =
      (case rpc_latest env (w_tick w) of Inl e \<Rightarrow> (Inl (wrap_error ''failed to fetch latest block'' e), next_tick w)
       | Inr l \<Rightarrow> (Inr l, next_tick w))"
    by (simp add: wrapping_def latest_block_def rpc_def split: sum.split)
  show ?thesis
  proof (cases "rpc_latest env (w_tick w)")
    case (Inl e)
    then show ?thesis using assms conn latest stopped by (auto simp: indexer_command_def then_run_def)
  next
    case (Inr l)
    then show ?thesis using assms conn latest mode by (simp add: indexer_command_def then_run_def)
  qed
qed

lemma run_mode_monitors:
  assumes "run_mode env lib fl c sv latest w = Some (Inr (Monitoring m), w')"
  shows "new_live_monitor True True (live_config lib fl c sv) = Inr m"
  using assms
  by (auto simp: run_mode_def Let_def backfill_phases_def bind_Inr ret_eq and_then_Inr wrap_sum_Inr
      split: if_splits elim!: then_run_cases)

text \<open>
  C4. Checkpoint safety of the indexer command as a whole, in each of its modes. With the default stream
  ids and a node whose log answers are right when it gives any, a run of \<open>cmd/indexer\<close> from a
  database whose checkpoints are safe passes only through databases whose checkpoints are safe: while
  it monitors, after a reconciliation check, and after a backfill of any selection of the streams,
  successful or stopped by any error. For the payroll and the token stream this is so whatever calls
  fail; for the escrow stream provided the node answers every timestamp request
  (\<open>escrow_timestamp_failure_loses_events\<close> shows what happens when it does not).
\<close>

theorem indexer_command_safe:
  assumes "load_flagged lib getenv fl = Inr c" "build_services env lib fl c = Inr sv" "default_streams getenv"
    and "honest_node env (live_config lib fl c sv) lp lt le"
    and "monitor_safe env (live_config lib fl c sv) lp lt le (w_db w)"
    and "indexer_reaches env lib getenv fl w w'"
  shows "monitor_safe env (live_config lib fl c sv) lp lt le (w_db w')"
proof -
  let ?m = "live_config lib fl c sv"
  note names = loaded_names [OF assms(1,3)]
  note dist = services_distinct [OF assms(2) names(1)]
  from assms(6) obtain r w1 where run: "indexer_command env lib getenv fl w = Some (r, w1)"
    and after: "w' = w1 \<or> (\<exists>m. r = Inr (Monitoring m) \<and> monitor_run env m w1 w')"
    by (auto simp: indexer_reaches_def)
  from run assms(1,2) show ?thesis
  proof (cases rule: indexer_command_cases)
    case (stopped e)
    then show ?thesis using after assms(5) by simp
  next
    case (mode latest)
    have safe: "monitor_safe env ?m lp lt le (w_db w1)"
      using run_keepsD [OF run_mode_safe [OF refl assms(4) dist names(2)] mode(3)] assms(5) by simp
    have "monitor_safe env ?m lp lt le (w_db w')" if "r = Inr (Monitoring m)" "monitor_run env m w1 w'" for m
    proof -
      have built: "new_live_monitor True True ?m = Inr m" using run_mode_monitors mode(3) that(1) by blast
      note same = new_live_monitor_keeps [OF built]
      show ?thesis
        using monitor_run_safe [OF that(2), of lp lt le] same names(2) assms(4) dist safe by simp
    qed
    then show ?thesis using after safe by blast
  qed
qed

text \<open>A backfill of the payroll and the escrow stream on a node whose head is 20, with depth 6.\<close>

definition command_variables :: "(string \<times> string) list" where
  "command_variables = [(''CHAIN_ID'', ''1''), (''START_BLOCK'', ''8''), (''CONFIRMATIONS'', ''6''),
     (''POLLING_INTERVAL'', ''5s''), (''RPC_URL'', ''http://node''), (''DATABASE_URL'', ''postgres://db''),
     (''APP_ENV'', ''production''), (''ALCHEMY_WEBHOOK_SIGNING_KEY'', ''whsec_1''),
     (''PAYROLL_CONTRACT_ADDRESS'', ''0x8''), (''ESCROW_CONTRACT_ADDRESS'', ''0x9''), (''ESCROW_START_BLOCK'', ''8'')]"

definition command_getenv :: query where
  "command_getenv k = (case map_of command_variables k of None \<Rightarrow> [] | Some v \<Rightarrow> v)"

definition sample_lib :: command_lib where
  "sample_lib = \<lparr>cl_hex = \<lparr>hl_is_address = prefix ''0x'', hl_address = (\<lambda>s. if s = ''0x9'' then 9 else 8),
       hl_hash = (\<lambda>_. 0)\<rparr>,
     cl_files = \<lparr>al_read_file = (\<lambda>_. Inl (new_error ''no file'')), al_json = (\<lambda>_. Inl (new_error ''no JSON''))\<rparr>,
     cl_float = (\<lambda>_. None), cl_dial = None, cl_connect = None, cl_migrate = None, cl_redis = True,
     cl_payroll_abi = sample_abi, cl_escrow_event = ei_event_by_id sample_escrow,
     cl_payroll_calls = \<lparr>abi_pack = (\<lambda>_ _. Inr []), abi_unpack = (\<lambda>_ _. Inr []), abi_unpack_flags = (\<lambda>_ _. Inr [])\<rparr>,
     cl_token_calls = (\<lambda>_. \<lparr>abi_pack = (\<lambda>_ _. Inr []), abi_unpack = (\<lambda>_ _. Inr []), abi_unpack_flags = (\<lambda>_ _. Inr [])\<rparr>),
     cl_map_order = id, cl_collation = id\<rparr>"

definition sample_flags :: indexer_flags where
  "sample_flags = \<lparr>fl_to_block = 0, fl_from_block = 0, fl_batch_size = 8, fl_live = False, fl_poll_interval = 0,
     fl_confirmations = 0, fl_stream = ''all'', fl_max_retries = 0, fl_initial_backoff = 0, fl_reconcile = False,
     fl_recon_type = ''payroll'', fl_recon_window = 0\<rparr>"

definition command_config :: config where
  "command_config = apply_flags sample_flags (projr (load (\<lambda>_. None) command_getenv))"

lemma loaded_values:
  "case load (\<lambda>_. None) command_getenv of Inl e \<Rightarrow> False
   | Inr c \<Rightarrow> cfg_chain_id c = 1 \<and> cfg_payroll_contract c = ''0x8'' \<and> cfg_token_address c = [] \<and>
       cfg_escrow_contract c = ''0x9'' \<and> cfg_start_block c = 8 \<and> cfg_escrow_start_block c = 8 \<and>
       cfg_confirmation_depth c = 6 \<and> \<not> cfg_live_monitor_enabled c \<and> cfg_backfill_to_block c = None \<and>
       cfg_payroll_stream_id c = ''monthly_payroll_0x8'' \<and> cfg_escrow_stream_id c = ''wtf_escrow'' \<and>
       cfg_rpc_max_retries c = 5 \<and> cfg_rpc_initial_backoff c = second \<and> cfg_rpc_max_backoff c = 30 * second \<and>
       cfg_rpc_backoff_factor c = 2"
  by code_simp

lemma command_load: "load_flagged sample_lib command_getenv sample_flags = Inr command_config"
  and command_values:
    "cfg_chain_id command_config = 1" "cfg_payroll_contract command_config = ''0x8''"
    "cfg_token_address command_config = []" "cfg_escrow_contract command_config = ''0x9''"
    "cfg_start_block command_config = 8" "cfg_escrow_start_block command_config = 8"
    "cfg_confirmation_depth command_config = 6" "\<not> cfg_live_monitor_enabled command_config"
    "cfg_backfill_to_block command_config = None" "cfg_payroll_stream_id command_config = ''monthly_payroll_0x8''"
    "cfg_escrow_stream_id command_config = ''wtf_escrow''"
    "retry_policy_of command_config = default_retry_policy False"
  using loaded_values
  by (auto simp: load_flagged_def sample_lib_def command_config_def and_then_def wrap_sum_def apply_flags_def
      sample_flags_def retry_policy_of_def default_retry_policy_def split: sum.splits)

lemma command_streams: "default_streams command_getenv"
  by code_simp

definition command_payroll :: backfill_options where
  "command_payroll = \<lparr>bo_chain = 1, bo_contract = 8, bo_start = 8, bo_target = 14, bo_batch = 8,
     bo_stream = ''monthly_payroll_0x8''\<rparr>"

definition command_escrow :: escrow_indexer where
  "command_escrow = set_escrow_policy (default_retry_policy False) (escrow_defaults
     \<lparr>ei_event_by_id = ei_event_by_id sample_escrow, ei_redis = True, ei_contract = 9, ei_chain = 1,
      ei_stream = ''wtf_escrow'', ei_start = 8, ei_batch = 8, ei_policy = default_retry_policy False\<rparr>)"

definition command_services :: services where
  "command_services = \<lparr>sv_payroll = Some (sample_abi, new_retryer (default_retry_policy False)), sv_token = None,
     sv_escrow = Some command_escrow\<rparr>"

lemma command_contracts:
  "configured_address sample_lib ''0x8'' = 8" "configured_address sample_lib ''0x9'' = 9"
  "hl_is_address (cl_hex sample_lib) ''0x8''" "hl_is_address (cl_hex sample_lib) ''0x9''"
  "escrow_contract_of command_config = ''0x9''" "\<not> zero_address_text ''0x9''"
  "cl_redis sample_lib" "cl_payroll_abi sample_lib = sample_abi" "cl_escrow_event sample_lib = ei_event_by_id sample_escrow"
  "batch_size_of sample_flags command_config = 8" "selected sample_flags x" "start_block_of sample_flags command_config = 8"
proof -
  show "\<not> zero_address_text ''0x9''" by code_simp
qed (simp_all add: configured_address_def sample_lib_def escrow_contract_of_def command_values batch_size_of_def
    selected_def sample_flags_def start_block_of_def)

lemma command_built: "build_services live_env sample_lib sample_flags command_config = Inr command_services"
  by (simp add: build_services_def token_service_def payroll_service_def escrow_service_def new_escrow_indexer_def command_values
      command_contracts command_services_def command_escrow_def and_then_def wrap_sum_def)

lemma command_node:
  "honest_node live_env (live_config sample_lib sample_flags command_config command_services)
     [sample_log 0] lt [sample_escrow_log]"
  by (auto simp: honest_node_def honest_def live_env_def token_env_def live_config_def
      command_values command_contracts command_services_def command_escrow_def escrow_defaults_def
      set_escrow_policy_def split: if_splits)

definition command_phases :: "unit run" where
  "command_phases = then_run
     (\<lambda>w. map_option (\<lambda>((_, e), w'). (phase_end ''payroll indexing error'' e, w'))
        (run_backfill live_env (new_retryer (default_retry_policy False)) sample_abi command_payroll w))
     (\<lambda>_ w. map_option (\<lambda>((_, _, e), w'). (phase_end ''escrow indexing error'' e, w'))
        (escrow_run_backfill live_env command_escrow 14 w))"

lemma command_runs:
  "indexer_command live_env sample_lib command_getenv sample_flags empty_world =
     then_run command_phases (\<lambda>_ w. Some (Inr Complete, w)) (next_tick empty_world)"
proof -
  have latest: "wrapping ''failed to fetch latest block'' (latest_block live_env) empty_world = (Inr 20, next_tick empty_world)"
    by (simp add: wrapping_def latest_block_def rpc_def live_env_def token_env_def)
  have options: "payroll_options sample_lib sample_flags command_config 14 = command_payroll"
    by (simp add: payroll_options_def command_payroll_def command_values command_contracts)
  have targets: "backfill_target sample_flags command_config 20 = 14" "stream_target command_config 20 8 14 = 14"
    by (simp_all add: backfill_target_def stream_target_def command_values sample_flags_def token_safe_block_def)
  have connected: "indexer_connect sample_lib = Inr ()"
    by (simp add: indexer_connect_def reached_def sample_lib_def and_then_def)
  have modes: "\<not> is_live_mode sample_flags command_config" "\<not> is_reconcile_mode sample_flags"
    by (simp_all add: is_live_mode_def is_reconcile_mode_def command_values sample_flags_def)
  have "payroll_phase live_env sample_lib sample_flags command_config command_services 14 =
      (\<lambda>w. map_option (\<lambda>((_, e), w'). (phase_end ''payroll indexing error'' e, w'))
        (run_backfill live_env (new_retryer (default_retry_policy False)) sample_abi command_payroll w))"
    by (simp add: payroll_phase_def command_services_def options)
  moreover have "escrow_phase live_env command_config command_services 20 14 =
      (\<lambda>w. map_option (\<lambda>((_, _, e), w'). (phase_end ''escrow indexing error'' e, w'))
        (escrow_run_backfill live_env command_escrow 14 w))"
    by (simp add: escrow_phase_def command_services_def command_values targets)
  moreover have "then_run (token_phase live_env command_config command_services 20 14) k = k ()" for k :: "unit \<Rightarrow> unit run"
    by (simp add: fun_eq_iff then_run_def token_phase_def command_services_def)
  ultimately have "backfill_phases live_env sample_lib sample_flags command_config command_services 20 14 = command_phases"
    by (simp add: backfill_phases_def command_phases_def)
  then have "run_mode live_env sample_lib sample_flags command_config command_services 20 =
      then_run command_phases (\<lambda>_ w. Some (Inr Complete, w))"
    by (simp add: run_mode_def modes targets)
  then show ?thesis
    by (simp add: indexer_command_def then_run_def [where m = "\<lambda>w. Some _ "] then_run_def [where m = "\<lambda>w. Some (_ w)"]
        command_load connected latest command_built)
qed

definition stream_rows :: "database \<Rightarrow> u64 option list" where
  "stream_rows d = map (checkpoint_of d 1) [''monthly_payroll_0x8'', ''wtf_escrow'']"

theorem indexer_command_safe_witness:
  "\<exists>w'. indexer_reaches live_env sample_lib command_getenv sample_flags empty_world w' \<and>
     stream_rows (w_db w') = [Some 14, Some 14] \<and> timestamps_answered live_env \<and>
     monitor_safe live_env (live_config sample_lib sample_flags command_config command_services)
       [sample_log 0] [] [sample_escrow_log] (w_db w')"
proof -
  let ?y = "indexer_command live_env sample_lib command_getenv sample_flags empty_world"
  have "map_option (\<lambda>(r, w'). (isl r, stream_rows (w_db w'))) (command_phases (next_tick empty_world)) =
      Some (False, [Some 14, Some 14])"
    by code_simp
  then obtain r w' where run: "command_phases (next_tick empty_world) = Some (r, w')" "\<not> isl r"
    "stream_rows (w_db w') = [Some 14, Some 14]" by auto
  then obtain u where "r = Inr u" by (cases r) auto
  then have y: "?y = Some (Inr Complete, w')" "stream_rows (w_db w') = [Some 14, Some 14]"
    using run unfolding command_runs by (simp_all add: then_run_def)
  then have "indexer_reaches live_env sample_lib command_getenv sample_flags empty_world w'"
    by (auto simp: indexer_reaches_def)
  moreover have "monitor_safe live_env (live_config sample_lib sample_flags command_config command_services)
      [sample_log 0] [] [sample_escrow_log] (w_db empty_world)"
    by (simp add: monitor_safe_def payroll_safe_def token_safe_def escrow_safe_def empty_world_def
        empty_database_def checkpoint_of_def)
  ultimately show ?thesis
    using indexer_command_safe [OF command_load command_built command_streams command_node] live_timestamps y(2) by blast
qed

section \<open>Termination of the indexer\<close>

definition run_returns :: "'a run \<Rightarrow> bool" where
  "run_returns m \<longleftrightarrow> (\<forall>w. \<exists>r w'. m w = Some (r, w'))"

lemma run_returns_then: "run_returns m \<Longrightarrow> (\<And>x. run_returns (k x)) \<Longrightarrow> run_returns (then_run m k)"
proof -
  assume m: "run_returns m" and k: "\<And>x. run_returns (k x)"
  show ?thesis unfolding run_returns_def
  proof
    fix w
    obtain r w1 where r: "m w = Some (r, w1)" using m unfolding run_returns_def by blast
    show "\<exists>r w'. then_run m k w = Some (r, w')"
    proof (cases r)
      case (Inl e)
      then show ?thesis using r by (simp add: then_run_def)
    next
      case (Inr x)
      then show ?thesis using r k [of x] unfolding run_returns_def by (simp add: then_run_def)
    qed
  qed
qed

lemma run_returns_done: "run_returns (\<lambda>w. Some (f w))"
  unfolding run_returns_def by (metis surj_pair)

lemma safe_block_below: "latest \<noteq> - 1 \<Longrightarrow> token_safe_block depth latest \<noteq> - 1"
  unfolding token_safe_block_def by (metis word_order.extremum_uniqueI word_sub_le_iff)

lemma token_run_returns:
  assumes "\<forall>n. rpc_latest env n \<noteq> Inr (- 1)"
  shows "\<exists>y. token_run_backfill env ti target w = Some y"
proof -
  obtain r w1 where st: "token_start_block env ti w = (r, w1)" by fastforce
  show ?thesis
  proof (cases r)
    case (Inl e)
    then show ?thesis using st by (simp add: token_run_backfill_def)
  next
    case (Inr lo)
    show ?thesis
    proof (cases "rpc_latest env (w_tick w1)")
      case (Inl e)
      then show ?thesis using st Inr by (simp add: token_run_backfill_def wrapping_def latest_block_def rpc_def)
    next
      case l: (Inr latest)
      let ?goal = "token_target target (token_safe_block (ti_depth ti) latest)"
      have "latest \<noteq> - 1" using assms l by metis
      then have safe: "token_safe_block (ti_depth ti) latest \<noteq> - 1" by (rule safe_block_below)
      then have "?goal \<noteq> - 1" unfolding token_target_def by (metis word_order.extremum_uniqueI)
      then show ?thesis
        using st Inr l token_stream.chunk_loop_returns [of ?goal env "''token index range''" ti "ti_batch ti" lo "lo - 1" 0]
        by (simp add: token_run_backfill_def wrapping_def latest_block_def rpc_def Let_def)
    qed
  qed
qed

lemma escrow_run_returns:
  assumes "target \<noteq> - 1"
  shows "\<exists>y. escrow_run_backfill env ei target w = Some y"
proof -
  obtain r w1 where st: "escrow_start_block env ei w = (r, w1)" by fastforce
  show ?thesis
    using st escrow_stream.chunk_loop_returns [OF assms, of env "''escrow backfill''" ei "ei_batch ei"]
    by (cases r) (simp_all add: escrow_run_backfill_def)
qed

lemma phases_return:
  assumes "\<forall>n. rpc_latest env n \<noteq> Inr (- 1)" "goal \<noteq> - 1" "latest \<noteq> - 1"
  shows "run_returns (backfill_phases env lib fl c sv latest goal)"
proof -
  have "stream_target c latest start goal \<noteq> - 1" for start
    using assms(2,3) safe_block_below by (simp add: stream_target_def)
  note escrow = escrow_run_returns [OF this]
  have "run_returns (payroll_phase env lib fl c sv goal)"
    using run_backfill_returns [of "payroll_options lib fl c goal" env] assms(2)
    by (force simp: run_returns_def payroll_phase_def payroll_options_def split: option.split)
  moreover have "run_returns (token_phase env c sv latest goal)"
    using token_run_returns [OF assms(1)]
    by (force simp: run_returns_def token_phase_def split: option.split)
  moreover have "run_returns (escrow_phase env c sv latest goal)"
    using escrow by (force simp: run_returns_def escrow_phase_def split: option.split)
  ultimately show ?thesis
    unfolding backfill_phases_def by (intro run_returns_then)
qed

text \<open>
  C8. The indexer command returns in every mode: with a node whose head is below \<open>2^64 - 1\<close> and no
  target block of \<open>2^64 - 1\<close> in the flags or the configuration, whatever the node, the database and
  the context answer, the command ends, fails, or hands over to the live monitor.
\<close>

theorem indexer_command_returns:
  assumes "load_flagged lib getenv fl = Inr c" "\<forall>n. rpc_latest env n \<noteq> Inr (- 1)"
    and "fl_to_block fl \<noteq> - 1" "cfg_backfill_to_block c \<noteq> Some (- 1)"
  shows "\<exists>r w'. indexer_command env lib getenv fl w = Some (r, w')"
proof -
  have "run_returns (run_mode env lib fl c sv latest)" if "latest \<noteq> - 1" for sv latest
  proof -
    have "backfill_target fl c latest \<noteq> - 1"
      using assms(3,4) safe_block_below [OF that] by (auto simp: backfill_target_def split: option.split)
    note phases = phases_return [OF assms(2) this that]
    show ?thesis
      unfolding run_mode_def Let_def
      by (auto intro!: run_returns_done run_returns_then phases)
  qed
  note mode = this [unfolded run_returns_def, rule_format]
  obtain l w1 where latest: "wrapping ''failed to fetch latest block'' (latest_block env) w = (l, w1)" by fastforce
  have "x \<noteq> - 1" if "l = Inr x" for x
    using latest that assms(2) by (auto simp: wrapping_def latest_block_def rpc_def split: sum.splits)
  then show ?thesis
    using mode latest
    by (auto simp: indexer_command_def then_run_def assms(1) split: sum.split)
qed

theorem indexer_command_returns_witness:
  "\<exists>r w'. indexer_command live_env sample_lib command_getenv sample_flags empty_world = Some (r, w')"
proof (rule indexer_command_returns [OF command_load])
  show "\<forall>n. rpc_latest live_env n \<noteq> Inr (- 1)" by (simp add: live_env_def token_env_def)
qed (simp_all add: sample_flags_def command_values)

section \<open>The flag for the first block\<close>

text \<open>
  \<open>--from-block\<close> concerns the payroll stream only: in a backfill of the token or of the escrow stream
  it changes nothing, so the command the message of the escrow indexer and the README advise for going
  back to older escrow events resumes from the saved checkpoint all the same.
\<close>

theorem from_block_ignored:
  assumes "fl_stream fl = ''token'' \<or> fl_stream fl = ''escrow''" "load_flagged lib getenv fl = Inr c"
    and "\<not> is_live_mode fl c" "\<not> fl_reconcile fl"
  shows "indexer_command env lib getenv (fl\<lparr>fl_from_block := b\<rparr>) w = indexer_command env lib getenv fl w"
proof -
  let ?fl = "fl\<lparr>fl_from_block := b\<rparr>"
  have batch: "batch_size_of ?fl c = batch_size_of fl c" by (simp add: batch_size_of_def)
  have load: "load_flagged lib getenv ?fl = load_flagged lib getenv fl"
    by (simp add: load_flagged_def apply_flags_def cong: if_cong)
  have built: "build_services env lib ?fl c = build_services env lib fl c"
  proof -
    have "token_service env lib ?fl c = token_service env lib fl c" "escrow_service lib ?fl c = escrow_service lib fl c"
      "payroll_service lib ?fl c = payroll_service lib fl c"
      by (simp_all add: token_service_def escrow_service_def payroll_service_def selected_def batch_size_of_def
          cong: if_cong)
    then show ?thesis by (simp add: build_services_def)
  qed
  have none: "sv_payroll sv = None" if "build_services env lib fl c = Inr sv" for sv
    using that assms(1) by (auto simp: build_services_def and_then_Inr payroll_service_def selected_def)
  have phases: "backfill_phases env lib ?fl c sv latest goal = backfill_phases env lib fl c sv latest goal"
    if "sv_payroll sv = None" for sv latest goal
    using that by (simp add: backfill_phases_def payroll_phase_def)
  have modes: "is_live_mode ?fl c = is_live_mode fl c" "is_reconcile_mode ?fl = is_reconcile_mode fl"
    "backfill_target ?fl c = backfill_target fl c"
    by (simp_all add: is_live_mode_def is_reconcile_mode_def backfill_target_def fun_eq_iff)
  have plain: "\<not> is_reconcile_mode fl" using assms(1,4) by (auto simp: is_reconcile_mode_def)
  have "run_mode env lib ?fl c sv latest = run_mode env lib fl c sv latest"
    if "build_services env lib fl c = Inr sv" for sv latest
    using phases none [OF that] by (simp add: run_mode_def modes assms(3) plain)
  then show ?thesis
    by (simp add: indexer_command_def then_run_def load assms(2) built split: option.split prod.split sum.split)
qed

definition escrow_flags :: indexer_flags where
  "escrow_flags = sample_flags\<lparr>fl_stream := ''escrow''\<rparr>"

theorem from_block_ignored_witness:
  "indexer_command live_env sample_lib command_getenv (escrow_flags\<lparr>fl_from_block := 9\<rparr>) empty_world =
   indexer_command live_env sample_lib command_getenv escrow_flags empty_world"
proof -
  have load: "load_flagged sample_lib command_getenv escrow_flags = Inr command_config"
    using command_load by (simp add: load_flagged_def escrow_flags_def apply_flags_def cong: if_cong)
  have "\<not> is_live_mode escrow_flags command_config" "\<not> fl_reconcile escrow_flags" "fl_stream escrow_flags = ''escrow''"
    by (simp_all add: is_live_mode_def command_values(8) escrow_flags_def sample_flags_def)
  then show ?thesis using from_block_ignored [OF _ load] by blast
qed

end
