(* ===== verification/List_Queries.thy ===== *)
theory List_Queries
  imports Recon_Store Request_Validation "HOL-Library.List_Lexorder" "HOL-Library.Char_ord"
    "HOL-Library.Multiset"
begin

text \<open>
  The listing queries of the API: \<open>ListFundings\<close> and \<open>ListClaims\<close> of \<open>payroll_repo.go\<close>,
  \<open>ListTransfers\<close> of \<open>tokens_repo.go\<close>, \<open>ListExceptions\<close> of \<open>reconciliation_repo.go\<close>. Each counts the
  rows that match its filter, then sorts them by the chosen column and the log index (or id) and
  returns one page. SQL leaves open how rows with equal sort keys are ordered: the order in which
  the plan delivers the rows, a permutation, is a parameter (record \<open>plan\<close>), and so is the collation
  of texts, as the sort key of a text. A row comes with its position in the table, which stands for
  its serial id.
\<close>

record plan =
  pl_fundings :: "(nat \<times> funding_row) list \<Rightarrow> (nat \<times> funding_row) list"
  pl_claims :: "(nat \<times> claim_row) list \<Rightarrow> (nat \<times> claim_row) list"
  pl_transfers :: "(nat \<times> transfer_row) list \<Rightarrow> (nat \<times> transfer_row) list"
  pl_escrow :: "(nat \<times> escrow_row) list \<Rightarrow> (nat \<times> escrow_row) list"
  pl_events :: "event_row list \<Rightarrow> event_row list"
  pl_collate :: "string \<Rightarrow> string"

section \<open>Filters, sorting and pages\<close>

record list_filter =
  lf_limit :: int
  lf_offset :: int
  lf_sort_by :: string
  lf_direction :: string

record funding_filter = list_filter +
  ff_chain :: int
  ff_employer :: "address option"
  ff_employee :: "address option"
  ff_blocks :: block_range_params
  ff_dates :: date_range_params

record claim_filter = list_filter +
  cf_chain :: int
  cf_employee :: "address option"
  cf_blocks :: block_range_params
  cf_dates :: date_range_params

record transfer_filter = list_filter +
  tf_chain :: int
  tf_token :: address
  tf_wallet :: "address option"
  tf_direction :: string
  tf_blocks :: block_range_params
  tf_dates :: date_range_params

record exception_filter = list_filter +
  xf_severity :: "string option"
  xf_status :: "string option"
  xf_type :: "string option"
  xf_dates :: date_range_params

definition matches :: "'a option \<Rightarrow> 'a \<Rightarrow> bool" where
  "matches f x \<longleftrightarrow> (case f of None \<Rightarrow> True | Some y \<Rightarrow> x = y)"

text \<open>\<open>block_number >= $n\<close> with the argument \<open>int64(*filter.FromBlock)\<close>.\<close>

definition in_blocks :: "block_range_params \<Rightarrow> int \<Rightarrow> bool" where
  "in_blocks br b \<longleftrightarrow> (case br_from br of None \<Rightarrow> True | Some x \<Rightarrow> sint x \<le> b) \<and>
     (case br_to br of None \<Rightarrow> True | Some x \<Rightarrow> b \<le> sint x)"

text \<open>A \<open>timestamptz\<close> has microseconds; the columns hold whole seconds.\<close>

definition in_dates :: "date_range_params \<Rightarrow> int \<Rightarrow> bool" where
  "in_dates dr t \<longleftrightarrow> (case dr_from dr of None \<Rightarrow> True | Some x \<Rightarrow> x div 1000 \<le> t * 1000000) \<and>
     (case dr_to dr of None \<Rightarrow> True | Some x \<Rightarrow> t * 1000000 \<le> x div 1000)"

text \<open>The \<open>switch\<close> on the column, the direction, and the guards on limit and offset.\<close>

definition sort_column :: "string list \<Rightarrow> string \<Rightarrow> string" where
  "sort_column allowed s = (if s \<in> set allowed then s else hd allowed)"

definition ascending :: "string \<Rightarrow> bool" where
  "ascending d \<longleftrightarrow> equal_fold d ''ASC''"

definition effective_limit :: "int \<Rightarrow> int" where
  "effective_limit l = (if l \<le> 0 then 20 else l)"

definition effective_offset :: "int \<Rightarrow> int" where
  "effective_offset i = (if i < 0 then 0 else i)"

text \<open>\<open>ORDER BY key dir, index DESC\<close>.\<close>

definition order_rows :: "bool \<Rightarrow> ('r \<Rightarrow> 'k :: linorder) \<Rightarrow> ('r \<Rightarrow> int) \<Rightarrow> 'r list \<Rightarrow> 'r list" where
  "order_rows asc key index rows =
     (if asc then sort_key (\<lambda>r. (key r, - index r)) rows
      else rev (sort_key (\<lambda>r. (key r, index r)) (rev rows)))"

text \<open>\<open>LIMIT l OFFSET o\<close>.\<close>

definition page_of :: "'b list_filter_scheme \<Rightarrow> 'r list \<Rightarrow> 'r list" where
  "page_of f rows =
     take (nat (effective_limit (lf_limit f))) (drop (nat (effective_offset (lf_offset f))) rows)"

section \<open>Fundings\<close>

record listed_funding = payroll_funding +
  fm_time :: int
  fm_chain :: int

definition matching_fundings :: "funding_filter \<Rightarrow> database \<Rightarrow> (nat \<times> funding_row) list" where
  "matching_fundings f d = filter (\<lambda>(_, r). pf_chain r = ff_chain f \<and>
       matches (ff_employer f) (pf_employer r) \<and> matches (ff_employee f) (pf_employee r) \<and>
       in_blocks (ff_blocks f) (pf_block r) \<and> in_dates (ff_dates f) (pf_time r))
     (enumerate 1 (payroll_fundings d))"

definition funding_columns :: "string list" where
  "funding_columns = [''block_number'', ''block_timestamp'', ''amount_paid'', ''amount_credited'']"

definition funding_sort_key :: "string \<Rightarrow> nat \<times> funding_row \<Rightarrow> int" where
  "funding_sort_key c = (\<lambda>(_, r).
     if c = ''block_timestamp'' then pf_time r
     else if c = ''amount_paid'' then pf_paid r
     else if c = ''amount_credited'' then pf_credited r
     else pf_block r)"

definition ordered_fundings ::
  "funding_filter \<Rightarrow> (nat \<times> funding_row) list \<Rightarrow> (nat \<times> funding_row) list" where
  "ordered_fundings f =
     order_rows (ascending (lf_direction f)) (funding_sort_key (sort_column funding_columns (lf_sort_by f)))
       (\<lambda>(_, r). pf_index r)"

definition listed_funding_of :: "nat \<times> funding_row \<Rightarrow> listed_funding" where
  "listed_funding_of = (\<lambda>(i, r). \<lparr>fm_id = int i, fm_employer = pf_employer r, fm_employee = pf_employee r,
     fm_paid = Some (pf_paid r), fm_fee = Some (pf_fee r), fm_credited = Some (pf_credited r),
     fm_tx = pf_tx r, fm_block = word_of_int (pf_block r), fm_index = word_of_int (pf_index r),
     fm_time = pf_time r, fm_chain = pf_chain r\<rparr>)"

definition list_fundings ::
  "env \<Rightarrow> plan \<Rightarrow> funding_filter \<Rightarrow> (listed_funding list \<times> int) go" where
  "list_fundings env plan f =
     bind_go (wrapping ''failed to count payroll fundings''
                (query_sql env (\<lambda>d. int (length (matching_fundings f d))))) (\<lambda>total.
     bind_go (wrapping ''failed to query payroll fundings''
                (query_sql env (\<lambda>d. page_of f (ordered_fundings f (pl_fundings plan (matching_fundings f d)))))) (\<lambda>rows.
     ret (map listed_funding_of rows, total)))"

section \<open>Claims\<close>

record listed_claim = salary_claim +
  cm_time :: int
  cm_chain :: int

definition matching_claims :: "claim_filter \<Rightarrow> database \<Rightarrow> (nat \<times> claim_row) list" where
  "matching_claims f d = filter (\<lambda>(_, r). sc_chain r = cf_chain f \<and>
       matches (cf_employee f) (sc_employee r) \<and>
       in_blocks (cf_blocks f) (sc_block r) \<and> in_dates (cf_dates f) (sc_time r))
     (enumerate 1 (salary_claims d))"

definition claim_columns :: "string list" where
  "claim_columns = [''block_number'', ''block_timestamp'', ''amount'']"

definition claim_sort_key :: "string \<Rightarrow> nat \<times> claim_row \<Rightarrow> int" where
  "claim_sort_key c = (\<lambda>(_, r).
     if c = ''block_timestamp'' then sc_time r else if c = ''amount'' then sc_amount r else sc_block r)"

definition ordered_claims ::
  "claim_filter \<Rightarrow> (nat \<times> claim_row) list \<Rightarrow> (nat \<times> claim_row) list" where
  "ordered_claims f =
     order_rows (ascending (lf_direction f)) (claim_sort_key (sort_column claim_columns (lf_sort_by f)))
       (\<lambda>(_, r). sc_index r)"

definition listed_claim_of :: "nat \<times> claim_row \<Rightarrow> listed_claim" where
  "listed_claim_of = (\<lambda>(i, r). \<lparr>cm_id = int i, cm_employee = sc_employee r,
     cm_amount = Some (sc_amount r), cm_tx = sc_tx r, cm_block = word_of_int (sc_block r),
     cm_index = word_of_int (sc_index r), cm_time = sc_time r, cm_chain = sc_chain r\<rparr>)"

definition list_claims ::
  "env \<Rightarrow> plan \<Rightarrow> claim_filter \<Rightarrow> (listed_claim list \<times> int) go" where
  "list_claims env plan f =
     bind_go (wrapping ''failed to count salary claims''
                (query_sql env (\<lambda>d. int (length (matching_claims f d))))) (\<lambda>total.
     bind_go (wrapping ''failed to query salary claims''
                (query_sql env (\<lambda>d. page_of f (ordered_claims f (pl_claims plan (matching_claims f d)))))) (\<lambda>rows.
     ret (map listed_claim_of rows, total)))"

section \<open>Transfers\<close>

record listed_transfer = transfer_model +
  xm_chain :: int
  xm_token :: address
  xm_time :: int

text \<open>\<open>created_at\<close> is not modelled.\<close>

definition wallet_matches :: "transfer_filter \<Rightarrow> transfer_row \<Rightarrow> bool" where
  "wallet_matches f r \<longleftrightarrow> (case tf_wallet f of
       None \<Rightarrow> True
     | Some a \<Rightarrow>
         (let dir = to_lower (trim_space (tf_direction f)) in
          if dir = ''in'' then tr_to r = a
          else if dir = ''out'' then tr_from r = a
          else tr_from r = a \<or> tr_to r = a))"

definition matching_transfers :: "transfer_filter \<Rightarrow> database \<Rightarrow> (nat \<times> transfer_row) list" where
  "matching_transfers f d = filter (\<lambda>(_, r). tr_chain r = tf_chain f \<and> tr_token r = tf_token f \<and>
       wallet_matches f r \<and> in_blocks (tf_blocks f) (tr_block r) \<and> in_dates (tf_dates f) (tr_time r))
     (enumerate 1 (token_transfers d))"

definition transfer_columns :: "string list" where
  "transfer_columns = [''block_number'', ''block_timestamp'', ''amount'']"

definition transfer_sort_key :: "string \<Rightarrow> nat \<times> transfer_row \<Rightarrow> int" where
  "transfer_sort_key c = (\<lambda>(_, r).
     if c = ''block_timestamp'' then tr_time r else if c = ''amount'' then tr_amount r else tr_block r)"

definition ordered_transfers ::
  "transfer_filter \<Rightarrow> (nat \<times> transfer_row) list \<Rightarrow> (nat \<times> transfer_row) list" where
  "ordered_transfers f =
     order_rows (ascending (lf_direction f)) (transfer_sort_key (sort_column transfer_columns (lf_sort_by f)))
       (\<lambda>(_, r). tr_index r)"

definition listed_transfer_of :: "nat \<times> transfer_row \<Rightarrow> listed_transfer" where
  "listed_transfer_of = (\<lambda>(i, r). \<lparr>xm_id = int i, xm_from = tr_from r, xm_to = tr_to r,
     xm_amount = Some (tr_amount r), xm_tx = tr_tx r, xm_block = word_of_int (tr_block r),
     xm_index = word_of_int (tr_index r), xm_removed = tr_removed r, xm_chain = tr_chain r,
     xm_token = tr_token r, xm_time = tr_time r\<rparr>)"

definition list_transfers ::
  "env \<Rightarrow> plan \<Rightarrow> transfer_filter \<Rightarrow> (listed_transfer list \<times> int) go" where
  "list_transfers env plan f =
     bind_go (wrapping ''failed to count token transfers''
                (query_sql env (\<lambda>d. int (length (matching_transfers f d))))) (\<lambda>total.
     bind_go (wrapping ''failed to query token transfers''
                (query_sql env (\<lambda>d. page_of f (ordered_transfers f (pl_transfers plan (matching_transfers f d)))))) (\<lambda>rows.
     ret (map listed_transfer_of rows, total)))"

section \<open>Exceptions\<close>

text \<open>An empty text in a filter counts as absent; texts are compared without case.\<close>

definition text_matches :: "string option \<Rightarrow> string \<Rightarrow> bool" where
  "text_matches f s \<longleftrightarrow> (case f of
       None \<Rightarrow> True | Some x \<Rightarrow> if x = [] then True else to_lower s = to_lower x)"

definition matching_exceptions :: "exception_filter \<Rightarrow> database \<Rightarrow> exception_row list" where
  "matching_exceptions f d = filter (\<lambda>r. text_matches (xf_severity f) (rx_severity r) \<and>
       text_matches (xf_status f) (rx_status r) \<and> text_matches (xf_type f) (rx_type r) \<and>
       in_dates (xf_dates f) (rx_detected r))
     (exceptions d)"

definition exception_columns :: "string list" where
  "exception_columns = [''detected_at'', ''severity'', ''status'']"

text \<open>The ids differ, so here the plan does not matter.\<close>

definition exception_sort_key :: "(string \<Rightarrow> string) \<Rightarrow> string \<Rightarrow> exception_row \<Rightarrow> int \<times> string" where
  "exception_sort_key collate c r =
     (if c = ''severity'' then (0, collate (rx_severity r))
      else if c = ''status'' then (0, collate (rx_status r))
      else (rx_detected r, []))"

definition ordered_exceptions ::
  "(string \<Rightarrow> string) \<Rightarrow> exception_filter \<Rightarrow> exception_row list \<Rightarrow> exception_row list" where
  "ordered_exceptions collate f =
     order_rows (ascending (lf_direction f))
       (exception_sort_key collate (sort_column exception_columns (lf_sort_by f))) rx_id"

definition list_exceptions ::
  "env \<Rightarrow> plan \<Rightarrow> exception_filter \<Rightarrow> (exception_row list \<times> int) go" where
  "list_exceptions env plan f =
     bind_go (wrapping ''failed to count reconciliation exceptions''
                (query_sql env (\<lambda>d. int (length (matching_exceptions f d))))) (\<lambda>total.
     bind_go (wrapping ''failed to query reconciliation exceptions''
                (query_sql env (\<lambda>d. page_of f
                   (ordered_exceptions (pl_collate plan) f (matching_exceptions f d))))) (\<lambda>rows.
     ret (rows, total)))"

section \<open>Laws of pages\<close>

lemma mset_order_rows [simp]: "mset (order_rows asc key index rows) = mset rows"
  by (simp add: order_rows_def)

lemma length_order_rows [simp]: "length (order_rows asc key index rows) = length rows"
  by (simp add: order_rows_def)

text \<open>When no two rows agree on the sort keys, the plan does not matter.\<close>

lemma order_rows_determined:
  assumes "inj_on (\<lambda>r. (key r, index r)) (set rows)" "mset rows' = mset rows"
  shows "order_rows asc key index rows' = order_rows asc key index rows"
proof (cases asc)
  case True
  have inj: "inj_on (\<lambda>r. (key r, - index r)) (set rows')"
    using assms(1) mset_eq_setD [OF assms(2)] by (auto simp: inj_on_def)
  have "sort_key (\<lambda>r. (key r, - index r)) rows' = sort_key (\<lambda>r. (key r, - index r)) rows"
    by (rule sort_key_inj_key_eq) (use inj assms(2) in simp_all)
  then show ?thesis using True by (simp add: order_rows_def)
next
  case False
  have inj: "inj_on (\<lambda>r. (key r, index r)) (set (rev rows'))"
    using assms(1) mset_eq_setD [OF assms(2)] by simp
  have "sort_key (\<lambda>r. (key r, index r)) (rev rows') = sort_key (\<lambda>r. (key r, index r)) (rev rows)"
    by (rule sort_key_inj_key_eq) (use inj assms(2) in simp_all)
  then show ?thesis using False by (simp add: order_rows_def)
qed

lemma sorted_order_rows:
  "sorted_wrt (\<lambda>a b. if asc then key a \<le> key b else key b \<le> key a) (order_rows asc key index rows)"
proof (cases asc)
  case True
  have "sorted (map (\<lambda>r. (key r, - index r)) (sort_key (\<lambda>r. (key r, - index r)) rows))"
    by (rule sorted_sort_key)
  then have "sorted_wrt (\<lambda>a b. (key a, - index a) \<le> (key b, - index b))
      (sort_key (\<lambda>r. (key r, - index r)) rows)" by (simp add: sorted_map)
  then show ?thesis using True
    by (auto simp: order_rows_def less_eq_prod_def elim!: sorted_wrt_mono_rel [rotated])
next
  case False
  have "sorted (map (\<lambda>r. (key r, index r)) (sort_key (\<lambda>r. (key r, index r)) (rev rows)))"
    by (rule sorted_sort_key)
  then have "sorted_wrt (\<lambda>a b. (key a, index a) \<le> (key b, index b))
      (sort_key (\<lambda>r. (key r, index r)) (rev rows))" by (simp add: sorted_map)
  then show ?thesis using False
    by (auto simp: order_rows_def sorted_wrt_rev less_eq_prod_def elim!: sorted_wrt_mono_rel [rotated])
qed

text \<open>Consecutive pages tile a list.\<close>

lemma pages_tile:
  "concat (map (\<lambda>p. take s (drop (p * s) xs)) [0..<n]) = take (n * s) xs"
proof (induction n)
  case (Suc n)
  have "take (Suc n * s) xs = take (n * s + s) xs" by (simp add: add.commute)
  also have "\<dots> = take (n * s) xs @ take s (drop (n * s) xs)" by (rule take_add)
  finally show ?case using Suc by simp
qed simp

end
