(* ===== verification/Read_Api.thy ===== *)
theory Read_Api
  imports Configuration List_Queries Persistence
begin

text \<open>
  The REST API over the tables: \<open>internal/api/handlers\<close>, \<open>internal/api/responses\<close>, the operator and
  CORS middleware, and the queries of \<open>sync_repo.go\<close>, \<open>transactions_repo.go\<close>, \<open>employers_repo.go\<close>,
  \<open>employees_repo.go\<close> and \<open>escrow_events_repo.go\<close> they call. A response is a value; its JSON encoding
  is not modelled. The columns \<open>funds\<close>, \<open>total_salary_per_second\<close> and \<open>total_leaves\<close>, which the service
  never writes, hold their default \<open>0\<close>.
\<close>

section \<open>Responses\<close>

record pagination_meta =
  pm_page :: int
  pm_size :: int
  pm_total :: int
  pm_has_next :: bool

datatype 'a response =
    Success 'a
  | Listing "'a" pagination_meta
  | Failure int string string

definition write_list :: "'a \<Rightarrow> int \<Rightarrow> int \<Rightarrow> int \<Rightarrow> 'a response" where
  "write_list rows page psize matched =
     Listing rows \<lparr>pm_page = page, pm_size = psize, pm_total = matched,
       pm_has_next = wrap_int (page * psize) < matched\<rparr>"

text \<open>A check that answers the request when it fails; a query whose failure is an internal error.\<close>

definition checked ::
  "string \<Rightarrow> goerror + 'a \<Rightarrow> ('a \<Rightarrow> 'b response go) \<Rightarrow> 'b response go" where
  "checked code m k = (case m of Inl e \<Rightarrow> ret (Failure 400 code (emsg e)) | Inr x \<Rightarrow> k x)"

definition queried :: "string \<Rightarrow> 'a go \<Rightarrow> ('a \<Rightarrow> 'b response go) \<Rightarrow> 'b response go" where
  "queried msg m k = bind_go (attempt m) (\<lambda>r. case r of
       Inl e \<Rightarrow> ret (Failure 500 ''INTERNAL_SERVER_ERROR'' (msg @ '': '' @ emsg e))
     | Inr x \<Rightarrow> k x)"

definition optional_address :: "hex_lib \<Rightarrow> query \<Rightarrow> string \<Rightarrow> goerror + address option" where
  "optional_address lib q key =
     (if q key = [] then Inr None
      else and_then (wrap_sum (''invalid '' @ key @ '' address'') (validate_address lib (q key)))
             (\<lambda>a. Inr (Some a)))"

text \<open>The sort columns of a handler map every name to itself.\<close>

definition own_names :: "string list \<Rightarrow> (string \<times> string) list" where
  "own_names cs = map (\<lambda>c. (c, c)) cs"

section \<open>Middleware\<close>

text \<open>\<open>RequireOperatorAuth\<close>; \<open>header\<close> gives the value of a request header.\<close>

definition provided_key :: "query \<Rightarrow> string" where
  "provided_key header =
     (let auth = header ''Authorization'';
          k = (if prefix ''Bearer '' auth then trim_prefix ''Bearer '' auth else []) in
      trim_space (if k = [] then header ''X-API-Key'' else k))"

definition require_operator_auth :: "string \<Rightarrow> query \<Rightarrow> 'a response go \<Rightarrow> 'a response go" where
  "require_operator_auth expected header next_handler =
     (if expected = [] then
        ret (Failure 401 ''UNAUTHORIZED'' ''operator API key not configured on server'')
      else if provided_key header = [] \<or> provided_key header \<noteq> expected then
        ret (Failure 401 ''UNAUTHORIZED'' ''unauthorized: invalid or missing operator API key'')
      else next_handler)"

text \<open>\<open>strings.Split(s, ",")\<close>.\<close>

fun split_commas :: "string \<Rightarrow> string list" where
  "split_commas [] = [[]]"
| "split_commas (c # s) = (case split_commas s of
     [] \<Rightarrow> [] | t # ts \<Rightarrow> if c = CHR '','' then [] # t # ts else (c # t) # ts)"

definition cors_allowed :: "string \<Rightarrow> string \<Rightarrow> bool" where
  "cors_allowed allowed origin \<longleftrightarrow> origin \<noteq> [] \<and>
     list_ex (\<lambda>x. x = ''*'' \<or> equal_fold x origin) (map trim_space (split_commas allowed))"

section \<open>Lists\<close>

definition payroll_fundings_handler ::
  "env \<Rightarrow> plan \<Rightarrow> hex_lib \<Rightarrow> config \<Rightarrow> query \<Rightarrow> listed_funding list response go" where
  "payroll_fundings_handler env plan lib cfg q =
     checked ''INVALID_PAGINATION'' (parse_pagination q) (\<lambda>pag.
     checked ''INVALID_BLOCK_RANGE'' (parse_block_range q) (\<lambda>blocks.
     checked ''INVALID_DATE_RANGE'' (parse_date_range q) (\<lambda>dates.
     checked ''INVALID_ADDRESS'' (optional_address lib q ''employer'') (\<lambda>employer.
     checked ''INVALID_ADDRESS'' (optional_address lib q ''employee'') (\<lambda>employee.
     checked ''BAD_REQUEST''
       (parse_sort q (own_names [''block_number'', ''block_timestamp'', ''amount_paid'', ''amount_credited''])
          ''block_number'' ''DESC'') (\<lambda>srt.
     queried ''failed to query payroll fundings''
       (list_fundings env plan \<lparr>lf_limit = pg_size pag, lf_offset = pg_offset pag,
          lf_sort_by = so_by srt, lf_direction = so_direction srt, ff_chain = cfg_chain_id cfg,
          ff_employer = employer, ff_employee = employee, ff_blocks = blocks, ff_dates = dates\<rparr>)
       (\<lambda>(rows, matched). ret (write_list rows (pg_page pag) (pg_size pag) matched))))))))"

definition payroll_claims_handler ::
  "env \<Rightarrow> plan \<Rightarrow> hex_lib \<Rightarrow> config \<Rightarrow> query \<Rightarrow> listed_claim list response go" where
  "payroll_claims_handler env plan lib cfg q =
     checked ''INVALID_PAGINATION'' (parse_pagination q) (\<lambda>pag.
     checked ''INVALID_BLOCK_RANGE'' (parse_block_range q) (\<lambda>blocks.
     checked ''INVALID_DATE_RANGE'' (parse_date_range q) (\<lambda>dates.
     checked ''INVALID_ADDRESS'' (optional_address lib q ''employee'') (\<lambda>employee.
     checked ''BAD_REQUEST''
       (parse_sort q (own_names [''block_number'', ''block_timestamp'', ''amount''])
          ''block_number'' ''DESC'') (\<lambda>srt.
     queried ''failed to query salary claims''
       (list_claims env plan \<lparr>lf_limit = pg_size pag, lf_offset = pg_offset pag,
          lf_sort_by = so_by srt, lf_direction = so_direction srt, cf_chain = cfg_chain_id cfg,
          cf_employee = employee, cf_blocks = blocks, cf_dates = dates\<rparr>)
       (\<lambda>(rows, matched). ret (write_list rows (pg_page pag) (pg_size pag) matched)))))))"

definition parse_direction :: "query \<Rightarrow> goerror + string" where
  "parse_direction q =
     (let d = to_lower (trim_space (q ''direction'')) in
      if d = [] then Inr ''all''
      else if d \<noteq> ''in'' \<and> d \<noteq> ''out'' \<and> d \<noteq> ''all'' then
        Inl (new_error (''invalid direction '' @ CHR 0x27 # d @ CHR 0x27 #
          '': must be 'in', 'out', or 'all'' @ [CHR 0x27]))
      else Inr d)"

definition token_transfers_handler ::
  "env \<Rightarrow> plan \<Rightarrow> hex_lib \<Rightarrow> config \<Rightarrow> string \<Rightarrow> query \<Rightarrow> listed_transfer list response go" where
  "token_transfers_handler env plan lib cfg raw_token q =
     checked ''INVALID_ADDRESS''
       (wrap_sum ''invalid token address'' (validate_address lib raw_token)) (\<lambda>token.
     checked ''INVALID_PAGINATION'' (parse_pagination q) (\<lambda>pag.
     checked ''INVALID_BLOCK_RANGE'' (parse_block_range q) (\<lambda>blocks.
     checked ''INVALID_DATE_RANGE'' (parse_date_range q) (\<lambda>dates.
     checked ''INVALID_ADDRESS'' (optional_address lib q ''wallet'') (\<lambda>wallet.
     checked ''INVALID_DIRECTION'' (parse_direction q) (\<lambda>direction.
     checked ''BAD_REQUEST''
       (parse_sort q (own_names [''block_number'', ''block_timestamp'', ''amount''])
          ''block_number'' ''DESC'') (\<lambda>srt.
     queried ''failed to query token transfers''
       (list_transfers env plan \<lparr>lf_limit = pg_size pag, lf_offset = pg_offset pag,
          lf_sort_by = so_by srt, lf_direction = so_direction srt, tf_chain = cfg_chain_id cfg,
          tf_token = token, tf_wallet = wallet, tf_direction = direction, tf_blocks = blocks,
          tf_dates = dates\<rparr>)
       (\<lambda>(rows, matched). ret (write_list rows (pg_page pag) (pg_size pag) matched)))))))))"

text \<open>A filter that must be one of the given words.\<close>

definition parse_choice :: "query \<Rightarrow> string \<Rightarrow> string list \<Rightarrow> string \<Rightarrow> goerror + string option" where
  "parse_choice q key choices hint =
     (let v = to_lower (trim_space (q key)) in
      if v = [] then Inr None
      else if v \<in> set choices then Inr (Some v)
      else Inl (new_error (''invalid '' @ key @ '' '' @ CHR 0x27 # v @ CHR 0x27 # '': must be '' @ hint)))"

definition reconciliation_exceptions_handler ::
  "env \<Rightarrow> plan \<Rightarrow> query \<Rightarrow> exception_row list response go" where
  "reconciliation_exceptions_handler env plan q =
     checked ''INVALID_PAGINATION'' (parse_pagination q) (\<lambda>pag.
     checked ''INVALID_DATE_RANGE'' (parse_date_range q) (\<lambda>dates.
     checked ''BAD_REQUEST''
       (parse_choice q ''severity'' [''low'', ''medium'', ''high'', ''critical'']
          ''low, medium, high, or critical'') (\<lambda>severity.
     checked ''BAD_REQUEST'' (parse_choice q ''status'' [''open'', ''resolved''] ''open or resolved'') (\<lambda>status.
     (let typ = trim_space (q ''type'') in
     checked ''BAD_REQUEST''
       (parse_sort q (own_names [''detected_at'', ''severity'', ''status'']) ''detected_at'' ''DESC'') (\<lambda>srt.
     queried ''failed to query reconciliation exceptions''
       (list_exceptions env plan \<lparr>lf_limit = pg_size pag, lf_offset = pg_offset pag,
          lf_sort_by = so_by srt, lf_direction = so_direction srt, xf_severity = severity,
          xf_status = status, xf_type = (if typ = [] then None else Some typ), xf_dates = dates\<rparr>)
       (\<lambda>(rows, matched). ret (write_list rows (pg_page pag) (pg_size pag) matched))))))))"

section \<open>Synchronisation status\<close>

record checkpoint_record =
  ck_chain :: int
  ck_stream :: string
  ck_block :: u64
  ck_hash :: string

record stream_status =
  ss_stream :: string
  ss_token :: "string option"
  ss_block :: u64
  ss_lag :: int
  ss_status :: string

record sync_status =
  sy_chain :: int
  sy_latest :: u64
  sy_safe :: u64
  sy_streams :: "stream_status list"

text \<open>\<open>updated_at\<close> is not modelled.\<close>

definition get_all_checkpoints :: "env \<Rightarrow> plan \<Rightarrow> int \<Rightarrow> checkpoint_record list go" where
  "get_all_checkpoints env plan chain =
     wrapping ''failed to query sync checkpoints'' (query_sql env (\<lambda>d.
       map (\<lambda>r. \<lparr>ck_chain = cp_chain r, ck_stream = cp_stream r, ck_block = word_of_int (cp_block r),
                  ck_hash = cp_hash r\<rparr>)
         (sort_key (\<lambda>r. pl_collate plan (cp_stream r))
           (filter (\<lambda>r. cp_chain r = chain) (sync_checkpoints d)))))"

text \<open>\<open>COALESCE(MAX(...), 0)\<close>, and the conversion that follows it.\<close>

definition max_or_zero :: "int list \<Rightarrow> int" where
  "max_or_zero xs = (case xs of [] \<Rightarrow> 0 | x # ys \<Rightarrow> foldr max ys x)"

definition positive_block :: "int \<Rightarrow> u64" where
  "positive_block b = (if 0 < b then word_of_int b else 0)"

definition checkpoint_blocks :: "int \<Rightarrow> database \<Rightarrow> int list" where
  "checkpoint_blocks chain d = map cp_block (filter (\<lambda>r. cp_chain r = chain) (sync_checkpoints d))"

definition get_latest_chain_block :: "env \<Rightarrow> int \<Rightarrow> u64 go" where
  "get_latest_chain_block env chain =
     wrapping ''failed to query max indexed block''
       (query_sql env (\<lambda>d. positive_block (max_or_zero (checkpoint_blocks chain d))))"

definition extract_token_from_stream_id :: "string \<Rightarrow> string option" where
  "extract_token_from_stream_id s =
     (if prefix ''erc20_transfers_'' s then
        (let a = trim_prefix ''erc20_transfers_'' s in if has_0x a then Some a else None)
      else None)"

definition stream_token :: "string \<Rightarrow> string \<Rightarrow> string option" where
  "stream_token stream token =
     (if stream = ''erc20_transfers'' \<and> token \<noteq> [] then Some token
      else (case extract_token_from_stream_id stream of
          Some a \<Rightarrow> Some a | None \<Rightarrow> if token \<noteq> [] then Some token else None))"

definition build_stream_status :: "checkpoint_record \<Rightarrow> u64 \<Rightarrow> string \<Rightarrow> stream_status" where
  "build_stream_status rec latest token =
     (let lag = (if ck_block rec \<le> latest then sint (latest - ck_block rec) else 0) in
      \<lparr>ss_stream = ck_stream rec, ss_token = stream_token (ck_stream rec) token,
       ss_block = ck_block rec, ss_lag = lag,
       ss_status = (if 10 < lag then ''catching_up'' else if 0 < lag then ''syncing'' else ''synced'')\<rparr>)"

definition sync_status_handler :: "env \<Rightarrow> plan \<Rightarrow> config \<Rightarrow> sync_status response go" where
  "sync_status_handler env plan cfg =
     queried ''failed to load sync checkpoints'' (get_all_checkpoints env plan (cfg_chain_id cfg)) (\<lambda>cps.
     queried ''failed to determine latest block'' (get_latest_chain_block env (cfg_chain_id cfg)) (\<lambda>latest.
     ret (Success \<lparr>sy_chain = cfg_chain_id cfg, sy_latest = latest,
       sy_safe = (if cfg_confirmation_depth cfg < latest then latest - cfg_confirmation_depth cfg
                  else latest),
       sy_streams = map (\<lambda>cp. build_stream_status cp latest (cfg_token_address cfg)) cps\<rparr>)))"

text \<open>\<open>POST /v1/sync/backfill\<close>: the decoded body, or the error of the JSON decoder.\<close>

record backfill_request =
  bf_from :: u64
  bf_to :: u64
  bf_stream :: string

definition sync_backfill_handler :: "goerror + backfill_request \<Rightarrow> unit response go" where
  "sync_backfill_handler body =
     checked ''BAD_REQUEST'' (wrap_sum ''invalid JSON request body'' body) (\<lambda>req.
     if bf_from req = 0 then
       ret (Failure 400 ''INVALID_BLOCK_RANGE'' ''from_block must be greater than 0'')
     else if bf_to req < bf_from req then
       ret (Failure 400 ''INVALID_BLOCK_RANGE'' (''to_block ('' @ dec_u64 (bf_to req) @
         '') must be greater than or equal to from_block ('' @ dec_u64 (bf_from req) @ '')''))
     else if 50000 < bf_to req - bf_from req then
       ret (Failure 400 ''INVALID_BLOCK_RANGE''
         ''requested range exceeds maximum allowed limit of 50000 blocks'')
     else ret (Failure 501 ''NOT_IMPLEMENTED''
       (''asynchronous backfill queue is not yet implemented; RPC backfill must be triggered via '' @
        ''cmd/indexer --stream=escrow --from-block=X --to-block=Y'')))"

section \<open>Single resources\<close>

record transaction_model =
  tn_hash :: hash
  tn_chain :: int
  tn_block :: u64
  tn_sender :: address
  tn_recipient :: "address option"
  tn_gas :: u64
  tn_status :: string
  tn_confirmations :: u64
  tn_first_seen :: int

record transaction_event =
  te_name :: string
  te_contract :: address
  te_index :: u64
  te_data :: raw_json

text \<open>
  \<open>GetByHash\<close>. Every row has a block number and gas; \<open>error_data\<close> and \<open>finalized_at\<close> are never
  written.
\<close>

definition transaction_of :: "tx_row \<Rightarrow> transaction_model" where
  "transaction_of r = \<lparr>tn_hash = tx_hash r, tn_chain = tx_chain r, tn_block = word_of_int (tx_block r),
     tn_sender = tx_sender r, tn_recipient = tx_recipient r, tn_gas = word_of_int (tx_gas r),
     tn_status = tx_status r, tn_confirmations = word_of_int (tx_confirmations r),
     tn_first_seen = tx_first_seen r\<rparr>"

definition transaction_events :: "plan \<Rightarrow> int \<Rightarrow> hash \<Rightarrow> database \<Rightarrow> transaction_event list" where
  "transaction_events plan chain h d =
     map (\<lambda>r. \<lparr>te_name = ev_name r, te_contract = ev_contract r, te_index = word_of_int (ev_index r),
                te_data = ev_raw r\<rparr>)
       (sort_key ev_index (pl_events plan
          (filter (\<lambda>r. ev_chain r = chain \<and> ev_tx r = h) (chain_events d))))"

definition get_by_hash ::
  "env \<Rightarrow> plan \<Rightarrow> int \<Rightarrow> hash \<Rightarrow> (transaction_model \<times> transaction_event list) option go" where
  "get_by_hash env plan chain h =
     bind_go (wrapping ''failed to query transaction''
       (query_sql env (\<lambda>d. find_row tx_key (chain, h) (transactions d)))) (\<lambda>found.
     case found of
       None \<Rightarrow> ret None
     | Some r \<Rightarrow>
         bind_go (wrapping (''failed to query events for tx '' @ hash_hex env h)
           (query_sql env (transaction_events plan chain h))) (\<lambda>evs.
         ret (Some (transaction_of r, evs))))"

definition get_latest_block_number :: "env \<Rightarrow> int \<Rightarrow> u64 go" where
  "get_latest_block_number env chain =
     wrapping ''failed to query latest block number'' (query_sql env (\<lambda>d.
       positive_block (max_or_zero
         (map tx_block (filter (\<lambda>r. tx_chain r = chain) (transactions d)) @ checkpoint_blocks chain d))))"

record transaction_response =
  tp_hash :: string
  tp_chain :: int
  tp_sender :: string
  tp_recipient :: "string option"
  tp_status :: string
  tp_block :: u64
  tp_confirmations :: u64
  tp_gas :: string
  tp_events :: "transaction_event list"
  tp_explorer :: string
  tp_first_seen :: int

definition confirmations_of :: "goerror + u64 \<Rightarrow> transaction_model \<Rightarrow> u64" where
  "confirmations_of latest t = (case latest of
       Inl _ \<Rightarrow> tn_confirmations t
     | Inr n \<Rightarrow> if tn_block t \<le> n \<and> tn_confirmations t < n - tn_block t + 1
                then n - tn_block t + 1 else tn_confirmations t)"

definition transaction_handler ::
  "env \<Rightarrow> plan \<Rightarrow> hex_lib \<Rightarrow> config \<Rightarrow> string \<Rightarrow> transaction_response response go" where
  "transaction_handler env plan lib cfg raw_hash =
     checked ''INVALID_TRANSACTION_HASH'' (validate_tx_hash lib raw_hash) (\<lambda>h.
     queried ''failed to query transaction'' (get_by_hash env plan (cfg_chain_id cfg) h) (\<lambda>found.
     case found of
       None \<Rightarrow> ret (Failure 404 ''TRANSACTION_NOT_FOUND'' (''transaction '' @ hash_hex env h @
                '' not found on chain '' @ dec_int (cfg_chain_id cfg)))
     | Some (t, evs) \<Rightarrow>
         bind_go (attempt (get_latest_block_number env (cfg_chain_id cfg))) (\<lambda>latest.
         ret (Success \<lparr>tp_hash = hash_hex env (tn_hash t), tp_chain = tn_chain t,
           tp_sender = addr_hex env (tn_sender t),
           tp_recipient = map_option (addr_hex env) (tn_recipient t), tp_status = tn_status t,
           tp_block = tn_block t, tp_confirmations = confirmations_of latest t,
           tp_gas = dec_u64 (tn_gas t), tp_events = evs,
           tp_explorer = explorer_tx_url cfg (hash_hex env (tn_hash t)),
           tp_first_seen = tn_first_seen t\<rparr>))))"

record employee_summary =
  es_address :: string
  es_salary :: string
  es_active :: bool

record employer_response =
  er_address :: string
  er_active :: bool
  er_funds :: string
  er_total_salary :: string
  er_added :: "int option"
  er_removed :: "int option"
  er_tx :: "string option"
  er_employees :: "employee_summary list"
  er_active_count :: int

text \<open>\<open>ORDER BY added_at DESC NULLS LAST, wallet ASC\<close>.\<close>

definition employees_of :: "env \<Rightarrow> plan \<Rightarrow> int \<Rightarrow> address \<Rightarrow> database \<Rightarrow> employee_row list" where
  "employees_of env plan chain a d =
     sort_key (\<lambda>r. case ee_added_at r of
         None \<Rightarrow> (1 :: int, 0, pl_collate plan (addr_hex env (ee_wallet r)))
       | Some t \<Rightarrow> (0, - t, pl_collate plan (addr_hex env (ee_wallet r))))
       (filter (\<lambda>r. ee_chain r = chain \<and> ee_employer r = a) (employees d))"

definition get_employer :: "env \<Rightarrow> plan \<Rightarrow> int \<Rightarrow> address \<Rightarrow> employer_response option go" where
  "get_employer env plan chain a =
     bind_go (wrapping ''failed to query employer''
       (query_sql env (\<lambda>d. find_row em_key (chain, a) (employers d)))) (\<lambda>found.
     case found of
       None \<Rightarrow> ret None
     | Some r \<Rightarrow>
         bind_go (wrapping (''failed to query employees for employer '' @ addr_hex env a)
           (query_sql env (employees_of env plan chain a))) (\<lambda>es.
         ret (Some \<lparr>er_address = addr_hex env (em_wallet r), er_active = em_active r,
           er_funds = ''0'', er_total_salary = ''0'', er_added = em_added_at r,
           er_removed = em_removed_at r, er_tx = Some (hash_hex env (em_tx r)),
           er_employees = map (\<lambda>e. \<lparr>es_address = addr_hex env (ee_wallet e),
             es_salary = dec_int (ee_salary e), es_active = ee_active e\<rparr>) es,
           er_active_count = int (length (filter ee_active es))\<rparr>)))"

definition employer_handler ::
  "env \<Rightarrow> plan \<Rightarrow> hex_lib \<Rightarrow> config \<Rightarrow> string \<Rightarrow> employer_response response go" where
  "employer_handler env plan lib cfg raw_address =
     checked ''INVALID_ADDRESS'' (validate_address lib raw_address) (\<lambda>a.
     queried ''failed to query employer'' (get_employer env plan (cfg_chain_id cfg) a) (\<lambda>found.
     case found of
       None \<Rightarrow> ret (Failure 404 ''EMPLOYER_NOT_FOUND'' (''employer '' @ addr_hex env a @
                '' not found on chain '' @ dec_int (cfg_chain_id cfg)))
     | Some r \<Rightarrow> ret (Success r)))"

record employee_response =
  ep_address :: string
  ep_employer :: string
  ep_salary :: string
  ep_last_withdraw :: "int option"
  ep_active :: bool
  ep_total_leaves :: string
  ep_allocation :: "string option"
  ep_added :: "int option"
  ep_removed :: "int option"
  ep_tx :: "string option"
  ep_fundings :: "listed_funding list"
  ep_claims :: "listed_claim list"

text \<open>The two histories: the latest 50, by block and log index.\<close>

definition funding_history :: "plan \<Rightarrow> int \<Rightarrow> address \<Rightarrow> database \<Rightarrow> listed_funding list" where
  "funding_history plan chain a d = map listed_funding_of (take 50
     (order_rows False (\<lambda>(_, r). pf_block r) (\<lambda>(_, r). pf_index r) (pl_fundings plan
       (filter (\<lambda>(_, r). pf_chain r = chain \<and> pf_employee r = a) (enumerate 1 (payroll_fundings d))))))"

definition claim_history :: "plan \<Rightarrow> int \<Rightarrow> address \<Rightarrow> database \<Rightarrow> listed_claim list" where
  "claim_history plan chain a d = map listed_claim_of (take 50
     (order_rows False (\<lambda>(_, r). sc_block r) (\<lambda>(_, r). sc_index r) (pl_claims plan
       (filter (\<lambda>(_, r). sc_chain r = chain \<and> sc_employee r = a) (enumerate 1 (salary_claims d))))))"

definition get_employee :: "env \<Rightarrow> plan \<Rightarrow> int \<Rightarrow> address \<Rightarrow> employee_response option go" where
  "get_employee env plan chain a =
     bind_go (wrapping ''failed to query employee''
       (query_sql env (\<lambda>d. find_row ee_key (chain, a) (employees d)))) (\<lambda>found.
     case found of
       None \<Rightarrow> ret None
     | Some r \<Rightarrow>
         bind_go (wrapping (''failed to query fundings for employee '' @ addr_hex env a)
           (query_sql env (funding_history plan chain a))) (\<lambda>fs.
         bind_go (wrapping (''failed to query claims for employee '' @ addr_hex env a)
           (query_sql env (claim_history plan chain a))) (\<lambda>cs.
         ret (Some \<lparr>ep_address = addr_hex env (ee_wallet r), ep_employer = addr_hex env (ee_employer r),
           ep_salary = dec_int (ee_salary r), ep_last_withdraw = ee_last_withdraw r,
           ep_active = ee_active r, ep_total_leaves = ''0'',
           ep_allocation = map_option dec_int (ee_allocation r), ep_added = ee_added_at r,
           ep_removed = ee_removed_at r, ep_tx = Some (hash_hex env (ee_tx r)),
           ep_fundings = fs, ep_claims = cs\<rparr>))))"

definition employee_handler ::
  "env \<Rightarrow> plan \<Rightarrow> hex_lib \<Rightarrow> config \<Rightarrow> string \<Rightarrow> employee_response response go" where
  "employee_handler env plan lib cfg raw_address =
     checked ''INVALID_ADDRESS'' (validate_address lib raw_address) (\<lambda>a.
     queried ''failed to query employee'' (get_employee env plan (cfg_chain_id cfg) a) (\<lambda>found.
     case found of
       None \<Rightarrow> ret (Failure 404 ''EMPLOYEE_NOT_FOUND'' (''employee '' @ addr_hex env a @
                '' not found on chain '' @ dec_int (cfg_chain_id cfg)))
     | Some r \<Rightarrow> ret (Success r)))"

section \<open>Escrow events\<close>

text \<open>The decimal text of an escrow id given in either base.\<close>

definition parse_escrow_id :: "string \<Rightarrow> goerror + string" where
  "parse_escrow_id raw =
     (let s = trim_space raw in
      if s = [] then Inl (new_error ''missing escrow id parameter'')
      else if prefix ''0x'' (to_lower s) then
        (case parse_big 16 (drop 2 s) of
           None \<Rightarrow> Inl (new_error ''invalid hex escrow id'') | Some i \<Rightarrow> Inr (dec_int i))
      else (case parse_big 10 s of
           None \<Rightarrow> Inl (new_error (''invalid decimal escrow id: '' @ s)) | Some i \<Rightarrow> Inr (dec_int i)))"

text \<open>\<open>escrow_id = CAST($1 AS NUMERIC)\<close>; the model of an event is \<open>escrow_event\<close>, with its id.\<close>

definition same_numeric :: "string option \<Rightarrow> string \<Rightarrow> bool" where
  "same_numeric c s \<longleftrightarrow> (case c of None \<Rightarrow> False | Some t \<Rightarrow> parse_big 10 t = parse_big 10 s)"

definition escrow_event_of :: "nat \<times> escrow_row \<Rightarrow> int \<times> escrow_event" where
  "escrow_event_of = (\<lambda>(i, r). (int i, \<lparr>e_chain = es_chain r, e_contract = es_contract r,
     e_type = es_type r, e_tx = es_tx r, e_block = word_of_int (es_block r), e_time = es_time r,
     e_index = word_of_int (es_index r), e_removed = es_removed r, e_id = es_id r,
     e_amount = es_amount r, e_raw = es_raw r\<rparr>))"

definition get_escrow_events_by_id :: "env \<Rightarrow> plan \<Rightarrow> string \<Rightarrow> (int \<times> escrow_event) list go" where
  "get_escrow_events_by_id env plan s =
     wrapping ''failed to query escrow events by escrow_id'' (query_sql env (\<lambda>d.
       map escrow_event_of (sort_key (\<lambda>(_, r). (es_block r, es_index r)) (pl_escrow plan
         (filter (\<lambda>(_, r). same_numeric (es_id r) s) (enumerate 1 (escrow_events d)))))))"

definition get_escrow_event_by_tx :: "env \<Rightarrow> plan \<Rightarrow> hash \<Rightarrow> int \<Rightarrow> (int \<times> escrow_event) option go" where
  "get_escrow_event_by_tx env plan h i =
     wrapping ''failed to query escrow event by tx and log index'' (query_sql env (\<lambda>d.
       case pl_escrow plan (filter (\<lambda>(_, r). es_tx r = h \<and> es_index r = i) (enumerate 1 (escrow_events d))) of
         [] \<Rightarrow> None | r # _ \<Rightarrow> Some (escrow_event_of r)))"

definition get_escrow_event_count :: "env \<Rightarrow> int \<Rightarrow> int go" where
  "get_escrow_event_count env chain =
     wrapping ''failed to count escrow events''
       (query_sql env (\<lambda>d. int (length (filter (\<lambda>r. es_chain r = chain) (escrow_events d)))))"

record escrow_listing =
  el_events :: "(int \<times> escrow_event) list"
  el_total :: int
  el_id :: string

definition escrow_events_handler ::
  "env \<Rightarrow> plan \<Rightarrow> string \<Rightarrow> escrow_listing response go" where
  "escrow_events_handler env plan raw_id =
     checked ''INVALID_ADDRESS'' (parse_escrow_id raw_id) (\<lambda>s.
     queried ''failed to query escrow events'' (get_escrow_events_by_id env plan s) (\<lambda>evs.
     ret (Success \<lparr>el_events = evs, el_total = int (length evs), el_id = s\<rparr>)))"

section \<open>Readiness\<close>

definition ready_handler :: "env \<Rightarrow> bool \<Rightarrow> config option \<Rightarrow> unit response go" where
  "ready_handler env pool cfg =
     (if \<not> pool then ret (Failure 503 ''SERVICE_NOT_READY'' ''database connection pool is nil'')
      else bind_go (attempt (query_sql env (\<lambda>_. ()))) (\<lambda>ping. case ping of
          Inl e \<Rightarrow> ret (Failure 503 ''SERVICE_NOT_READY'' (''database ping failed: '' @ emsg e))
        | Inr _ \<Rightarrow>
            (case cfg of
               None \<Rightarrow> ret (Failure 503 ''SERVICE_NOT_READY'' ''RPC URL is unconfigured'')
             | Some c \<Rightarrow> if cfg_rpc_url c = []
                 then ret (Failure 503 ''SERVICE_NOT_READY'' ''RPC URL is unconfigured'')
                 else ret (Success ()))))"

end
