(* ===== verification/Webhook.thy ===== *)
theory Webhook
  imports Escrow_Indexer Go_Text
begin

text \<open>
  The push path of the escrow events: \<open>internal/api/handlers/webhook.go\<close>,
  \<open>internal/api/middleware/alchemy_auth.go\<close> and \<open>internal/models/alchemy.go\<close>. A notification is
  authenticated by its HMAC signature, and each of its logs is filtered by contract, claimed in
  Redis with \<open>SETNX\<close>, decoded, stored and announced. HMAC-SHA256, the JSON decoder and the
  hexadecimal conversions of go-ethereum are parameters of the handler (fields of
  \<open>webhook_handler\<close>); a Redis key is present until its expiry.
\<close>

section \<open>Authentication\<close>

definition verify_alchemy_signature :: "(string \<Rightarrow> string \<Rightarrow> bytes) \<Rightarrow> string \<Rightarrow> string \<Rightarrow> string \<Rightarrow> bool" where
  "verify_alchemy_signature hmac body signature key =
     (if key = [] \<or> signature = [] then False
      else
        let sig = to_lower (trim_prefix ''0X'' (trim_prefix ''0x'' (trim_space signature)));
            expected = hex_encode (hmac key body) in
        if length sig \<noteq> length expected then False else expected = sig)"

section \<open>The payload\<close>

record alchemy_log =
  al_tx :: string
  al_index :: int
  al_block :: string
  al_address :: string
  al_data :: string
  al_topics :: "string list"
  al_account :: string
  al_removed :: bool

text \<open>\<open>wp_created\<close> is None for the zero time.\<close>

record webhook_payload =
  wp_created :: "int option"
  wp_number :: string
  wp_logs :: "alchemy_log list"

record webhook_config =
  wc_key :: string
  wc_escrow :: string
  wc_wtf_escrow :: string
  wc_chain :: int

record webhook_handler =
  wh_cfg :: "webhook_config option"
  wh_repo :: bool
  wh_redis :: bool
  wh_event_by_id :: "hash \<Rightarrow> goerror + string"
  wh_hmac :: "string \<Rightarrow> string \<Rightarrow> bytes"
  wh_unmarshal :: "string \<Rightarrow> goerror + webhook_payload"
  wh_address :: "string \<Rightarrow> address"
  wh_hash :: "string \<Rightarrow> hash"
  wh_bytes :: "string \<Rightarrow> bytes"

section \<open>Decoding\<close>

definition parse_block_number :: "string \<Rightarrow> int" where
  "parse_block_number s0 =
     (let s = trim_space s0;
          decimal = (case parse_int 10 s of Some n \<Rightarrow> n | None \<Rightarrow> 0) in
      if s = [] then 0
      else if prefix ''0x'' s \<or> prefix ''0X'' s then
        (case parse_int 16 (drop 2 s) of Some n \<Rightarrow> n | None \<Rightarrow> decimal)
      else decimal)"

definition parse_bigint_hex :: "string \<Rightarrow> int option" where
  "parse_bigint_hex s = parse_big 16 (trim_prefix ''0X'' (trim_prefix ''0x'' s))"

definition is_zero_address :: "string \<Rightarrow> bool" where
  "is_zero_address addr \<longleftrightarrow> list_all (\<lambda>c. c = CHR ''0'') (trim_prefix ''0x'' (to_lower addr))"

definition alchemy_id :: "alchemy_log \<Rightarrow> string option" where
  "alchemy_id al = (if 1 < length (al_topics al)
     then map_option dec_int (parse_bigint_hex (al_topics al ! 1)) else None)"

definition alchemy_word :: "webhook_handler \<Rightarrow> alchemy_log \<Rightarrow> string option" where
  "alchemy_word h al =
     (if al_data al \<noteq> [] \<and> al_data al \<noteq> ''0x'' then first_word (wh_bytes h (al_data al)) else None)"

definition alchemy_topic_field :: "env \<Rightarrow> webhook_handler \<Rightarrow> string \<Rightarrow> nat \<Rightarrow> alchemy_log \<Rightarrow> (string \<times> string) list" where
  "alchemy_topic_field env h name i al =
     (if i < length (al_topics al) then [(name, addr_hex env (wh_address h (al_topics al ! i)))] else [])"

definition alchemy_word_fields :: "webhook_handler \<Rightarrow> string list \<Rightarrow> alchemy_log \<Rightarrow> (string \<times> string) list" where
  "alchemy_word_fields h names al =
     (case alchemy_word h al of None \<Rightarrow> [] | Some s \<Rightarrow> map (\<lambda>n. (n, s)) names)"

text \<open>\<open>decodeAlchemyLog\<close>: event name, escrow id, amount and raw data.\<close>

definition decode_alchemy_log ::
  "env \<Rightarrow> webhook_handler \<Rightarrow> alchemy_log \<Rightarrow> string \<times> string option \<times> string option \<times> (string \<times> string) list" where
  "decode_alchemy_log env h al =
     (if al_topics al = [] then (''Unknown'', None, None, [])
      else
        let eid = alchemy_id al;
            idf = (case eid of None \<Rightarrow> [] | Some s \<Rightarrow> [(''escrowId'', s)]);
            t = wh_hash h (hd (al_topics al));
            word = alchemy_word h al in
        if t = topic_escrow_created then
          (''EscrowCreated'', eid, word, idf @ alchemy_topic_field env h ''buyer'' 2 al @
             alchemy_topic_field env h ''seller'' 3 al @ alchemy_word_fields h [''amount''] al)
        else if t = topic_escrow_released then
          (''EscrowReleased'', eid, word, idf @ alchemy_word_fields h [''amount''] al)
        else if t = topic_escrow_refunded then
          (''EscrowRefunded'', eid, word, idf @ alchemy_word_fields h [''amount''] al)
        else if t = topic_dispute_resolved then
          (''DisputeResolved'', eid, word, idf @ alchemy_topic_field env h ''winner'' 2 al @
             alchemy_word_fields h [''amountReleased'', ''amount''] al)
        else if t = topic_delivery_acknowledged then
          (''DeliveryAcknowledged'', eid, None, idf @ alchemy_word_fields h [''deliveryTime''] al)
        else if t = topic_dispute_raised then
          (''DisputeRaised'', eid, None, idf @ alchemy_topic_field env h ''raisedBy'' 2 al @
             alchemy_word_fields h [''disputeFee''] al)
        else
          (case wh_event_by_id h t of
             Inr name \<Rightarrow> (name, eid, None, idf)
           | Inl _ \<Rightarrow> (''Unknown'', eid, None, idf)))"

section \<open>One log\<close>

definition expected_contract :: "webhook_handler \<Rightarrow> string" where
  "expected_contract h = (case wh_cfg h of
       None \<Rightarrow> []
     | Some c \<Rightarrow> trim_space (if wc_escrow c \<noteq> [] then wc_escrow c else wc_wtf_escrow c))"

definition alchemy_address :: "alchemy_log \<Rightarrow> string" where
  "alchemy_address al = (if al_address al = [] then al_account al else al_address al)"

definition other_contract :: "webhook_handler \<Rightarrow> alchemy_log \<Rightarrow> bool" where
  "other_contract h al \<longleftrightarrow>
     expected_contract h \<noteq> [] \<and> \<not> is_zero_address (expected_contract h) \<and>
     alchemy_address al \<noteq> [] \<and> \<not> equal_fold (alchemy_address al) (expected_contract h)"

text \<open>\<open>redisClient.SetNX\<close> with an expiry, and the key of a log.\<close>

definition redis_has :: "env \<Rightarrow> world \<Rightarrow> string \<Rightarrow> bool" where
  "redis_has env w key = (case w_redis w key of None \<Rightarrow> False | Some expiry \<Rightarrow> now env w < expiry)"

definition set_nx :: "env \<Rightarrow> string \<Rightarrow> int \<Rightarrow> bool go" where
  "set_nx env key ttl = (\<lambda>w.
     case redis_fault env (w_tick w) of
       Some e \<Rightarrow> (Inl e, next_tick w)
     | None \<Rightarrow>
         if redis_has env w key then (Inr False, next_tick w)
         else (Inr True, (next_tick w)\<lparr>w_redis := (w_redis w)(key \<mapsto> now env w + ttl)\<rparr>))"

definition dedupe_key :: "alchemy_log \<Rightarrow> string" where
  "dedupe_key al = ''wtf:chain:evt:'' @ al_tx al @ '':'' @ dec_int (al_index al)"

definition dedupe_ttl :: int where
  "dedupe_ttl = 30 * 24 * 3600"

text \<open>Whether the log is to be processed: an unreachable Redis and a known key both mean no.\<close>

definition claim_log :: "env \<Rightarrow> webhook_handler \<Rightarrow> alchemy_log \<Rightarrow> bool go" where
  "claim_log env h al =
     (if wh_redis h
      then bind_go (attempt (set_nx env (dedupe_key al) dedupe_ttl))
             (\<lambda>r. ret (case r of Inl _ \<Rightarrow> False | Inr fresh \<Rightarrow> fresh))
      else ret True)"

definition webhook_event :: "env \<Rightarrow> webhook_handler \<Rightarrow> webhook_payload \<Rightarrow> int \<Rightarrow> alchemy_log \<Rightarrow> escrow_event" where
  "webhook_event env h p time al =
     (let (name, eid, amount, raw) = decode_alchemy_log env h al;
          number = parse_block_number (if al_block al = [] then wp_number p else al_block al);
          chain = (case wh_cfg h of
                     Some c \<Rightarrow> if wc_chain c > 0 then wc_chain c else 11155111
                   | None \<Rightarrow> 11155111);
          contract = (if alchemy_address al = []
                      then (case wh_cfg h of
                              Some c \<Rightarrow> if wc_escrow c = [] then wc_wtf_escrow c else wc_escrow c
                            | None \<Rightarrow> [])
                      else alchemy_address al) in
      \<lparr>e_chain = chain, e_contract = wh_address h contract, e_type = name, e_tx = wh_hash h (al_tx al),
       e_block = word_of_int number, e_time = (case wp_created p of Some t \<Rightarrow> t | None \<Rightarrow> time),
       e_index = word_of_int (al_index al), e_removed = al_removed al, e_id = eid, e_amount = amount,
       e_raw = raw\<rparr>)"

definition webhook_message :: "alchemy_log \<Rightarrow> escrow_event \<Rightarrow> (string \<times> string) list" where
  "webhook_message al ev =
     [(''escrowId'', text_or_empty (e_id ev)), (''txHash'', al_tx al),
      (''eventType'', e_type ev), (''amount'', text_or_empty (e_amount ev))]"

definition webhook_store :: "env \<Rightarrow> webhook_handler \<Rightarrow> webhook_payload \<Rightarrow> alchemy_log \<Rightarrow> unit go" where
  "webhook_store env h p al = with_now env (\<lambda>time.
     let ev = webhook_event env h p time al in
     bind_go (if wh_repo h then bind_go (attempt (repo_save_escrow_event env (Some ev))) (\<lambda>_. ret ())
              else ret ()) (\<lambda>_.
     if wh_redis h
     then bind_go (publish env ''wtf:chain:events'' (webhook_message al ev))
            (\<lambda>_. publish env ''wtf:chain:settled'' (webhook_message al ev))
     else ret ()))"

definition webhook_log :: "env \<Rightarrow> webhook_handler \<Rightarrow> webhook_payload \<Rightarrow> alchemy_log \<Rightarrow> unit go" where
  "webhook_log env h p al =
     (if other_contract h al then ret ()
      else bind_go (claim_log env h al) (\<lambda>mine. if mine then webhook_store env h p al else ret ()))"

section \<open>The handler\<close>

record webhook_request =
  rq_body :: "goerror + string"
  rq_signature :: string

definition signing_key :: "webhook_handler \<Rightarrow> string" where
  "signing_key h = (case wh_cfg h of None \<Rightarrow> [] | Some c \<Rightarrow> wc_key c)"

definition webhook_logs :: "env \<Rightarrow> webhook_handler \<Rightarrow> webhook_payload \<Rightarrow> unit go" where
  "webhook_logs env h p = for_each (\<lambda>al _. webhook_log env h p al) (wp_logs p) ()"

definition handle_alchemy_webhook :: "env \<Rightarrow> webhook_handler \<Rightarrow> webhook_request \<Rightarrow> (nat \<times> string) go" where
  "handle_alchemy_webhook env h rq =
     (case rq_body rq of
        Inl _ \<Rightarrow> ret (400, ''Failed to read request body'')
      | Inr body \<Rightarrow>
          if \<not> verify_alchemy_signature (wh_hmac h) body (rq_signature rq) (signing_key h)
          then ret (401, ''Invalid signature'')
          else
            (case wh_unmarshal h body of
               Inl _ \<Rightarrow> ret (400, ''Malformed JSON payload'')
             | Inr p \<Rightarrow>
                 bind_go (webhook_logs env h p) (\<lambda>_. ret (200, ''ok''))))"

end
