(* ===== verification/Webhook_Properties.thy ===== *)
theory Webhook_Properties
  imports Webhook Escrow_Properties
begin

text \<open>
  What the webhook guarantees and what it does not: only authenticated requests have an effect;
  with a healthy Redis a redelivered notification has none; the event it stores is the event the
  RPC path stores for the same log. The same deduplication swallows the notification that
  a log was removed by a reorganisation, and loses an event whose insert failed.
\<close>

section \<open>Claims in Redis\<close>

text \<open>A key that is held for the whole time under consideration.\<close>

definition key_held :: "env \<Rightarrow> world \<Rightarrow> string \<Rightarrow> bool" where
  "key_held env w key \<longleftrightarrow> (\<exists>expiry. w_redis w key = Some expiry \<and> (\<forall>n. clock env n < expiry))"

text \<open>The run is shorter than the expiry of a claim, and Redis answers.\<close>

definition redis_healthy :: "env \<Rightarrow> bool" where
  "redis_healthy env \<longleftrightarrow> (\<forall>n. redis_fault env n = None) \<and> (\<forall>m n. clock env n < clock env m + dedupe_ttl)"

definition holds_kept :: "env \<Rightarrow> world \<Rightarrow> world \<Rightarrow> bool" where
  "holds_kept env w w' \<longleftrightarrow> (\<forall>k. key_held env w k \<longrightarrow> key_held env w' k)"

interpretation holds: effect_relation "holds_kept env" for env :: env
  by unfold_locales (auto simp: holds_kept_def key_held_def)

lemma key_held_has: "key_held env w k \<Longrightarrow> redis_has env w k"
  by (auto simp: key_held_def redis_has_def now_def)

lemma same_redis_held: "w_redis w' = w_redis w \<Longrightarrow> holds_kept env w w'"
  by (simp add: holds_kept_def key_held_def)

lemma exec_sql_redis: "w_redis (snd (exec_sql env f w)) = w_redis w"
  by (auto simp: exec_sql_def split: option.split sum.split)

lemma publish_redis: "w_redis (snd (publish env ch msg w)) = w_redis w"
  by (auto simp: publish_def split: option.split)

lemma holds_keeps_parts:
  "holds.keeps env (exec_sql env f)" "holds.keeps env (publish env ch msg)"
  "holds.keeps env (set_nx env key ttl)"
proof -
  show "holds.keeps env (exec_sql env f)" "holds.keeps env (publish env ch msg)"
    by (simp_all add: holds.keeps_def same_redis_held exec_sql_redis publish_redis)
  have "key_held env w' k" if "key_held env w k" "set_nx env key ttl w = (r, w')" for w w' k r
    using that key_held_has [OF that(1)]
    by (auto simp: set_nx_def key_held_def split: option.splits if_splits)
  then show "holds.keeps env (set_nx env key ttl)"
    by (simp add: holds.keeps_def holds_kept_def) (metis prod.collapse)
qed

lemma holds_keeps_store: "holds.keeps env (webhook_store env h p al)"
  unfolding webhook_store_def repo_save_escrow_event_def Let_def
  by (auto intro!: holds.keeps_rules holds_keeps_parts)

lemma holds_keeps_log: "holds.keeps env (webhook_log env h p al)"
  unfolding webhook_log_def claim_log_def
  by (auto intro!: holds.keeps_rules holds_keeps_parts holds_keeps_store)

lemma holds_keeps_logs: "holds.keeps env (webhook_logs env h p)"
  unfolding webhook_logs_def by (intro holds.keeps_for_each holds_keeps_log)

lemma webhook_store_Inr: "fst (webhook_store env h p al w) = Inr ()"
  by (auto simp: webhook_store_def with_now_def Let_def go_unfold publish_def split: option.split prod.split sum.split)

lemma webhook_log_Inr: "\<exists>w'. webhook_log env h p al w = (Inr (), w')"
  using webhook_store_Inr [of env h p al] by (auto simp: webhook_log_def claim_log_def go_unfold split: prod.split sum.split)
    (metis prod.collapse)+

lemma webhook_logs_Inr: "\<exists>w'. webhook_logs env h p w = (Inr (), w')"
proof -
  have "\<exists>w'. for_each (\<lambda>al _. webhook_log env h p al) als () w = (Inr (), w')" for als w
  proof (induction als arbitrary: w)
    case (Cons al als)
    obtain w1 where "webhook_log env h p al w = (Inr (), w1)" using webhook_log_Inr by blast
    then show ?case using Cons [of w1] by (simp add: bind_go_def)
  qed (simp add: ret_def)
  then show ?thesis by (simp add: webhook_logs_def)
qed

text \<open>A log that is processed holds its key afterwards; a log whose key is held has no effect.\<close>

lemma set_nx_claims:
  assumes "redis_healthy env" "set_nx env key dedupe_ttl w = (r, w')"
  shows "(\<exists>fresh. r = Inr fresh) \<and> redis_has env w key = (r = Inr False) \<and>
    (key_held env w' key \<or> r = Inr False)"
  using assms by (auto simp: set_nx_def redis_healthy_def key_held_def now_def split: if_splits)

lemma held_no_effect:
  assumes "redis_healthy env" "wh_redis h" "key_held env w (dedupe_key al)" "webhook_log env h p al w = (r, w')"
  shows "w_db w' = w_db w \<and> w_trace w' = w_trace w \<and> w_redis w' = w_redis w"
  using assms key_held_has [OF assms(3)]
  by (auto simp: webhook_log_def claim_log_def set_nx_def redis_healthy_def go_unfold split: if_splits)

lemma held_logs_no_effect:
  assumes "redis_healthy env" "wh_redis h"
    and "\<And>al. al \<in> set als \<Longrightarrow> other_contract h al \<or> key_held env w (dedupe_key al)"
    and "for_each (\<lambda>al _. webhook_log env h p al) als () w = (r, w')"
  shows "w_db w' = w_db w \<and> w_trace w' = w_trace w \<and> w_redis w' = w_redis w"
  using assms(3,4)
proof (induction als arbitrary: w)
  case (Cons al als)
  obtain w1 where one: "webhook_log env h p al w = (Inr (), w1)" using webhook_log_Inr by blast
  then have rest: "for_each (\<lambda>al _. webhook_log env h p al) als () w1 = (r, w')"
    using Cons.prems(2) by (simp add: bind_go_def)
  have same: "w_db w1 = w_db w \<and> w_trace w1 = w_trace w \<and> w_redis w1 = w_redis w"
    using Cons.prems(1) [of al] held_no_effect [OF assms(1,2) _ one] one
    by (auto simp: webhook_log_def ret_def)
  then have "other_contract h x \<or> key_held env w1 (dedupe_key x)" if "x \<in> set als" for x
    using Cons.prems(1) [of x] that by (simp add: key_held_def)
  from Cons.IH [OF this rest] same show ?case by simp
qed (simp add: ret_def)

text \<open>No claim expires during the run.\<close>

definition claims_last :: "env \<Rightarrow> world \<Rightarrow> bool" where
  "claims_last env w \<longleftrightarrow> (\<forall>k. w_redis w k \<noteq> None \<longrightarrow> key_held env w k)"

definition last_kept :: "env \<Rightarrow> world \<Rightarrow> world \<Rightarrow> bool" where
  "last_kept env w w' \<longleftrightarrow> (redis_healthy env \<and> claims_last env w \<longrightarrow> claims_last env w')"

interpretation lasting: effect_relation "last_kept env" for env :: env
  by unfold_locales (auto simp: last_kept_def claims_last_def key_held_def)

lemma lasting_keeps_parts:
  "lasting.keeps env (exec_sql env f)" "lasting.keeps env (publish env ch msg)"
  "lasting.keeps env (set_nx env key dedupe_ttl)"
proof -
  show "lasting.keeps env (exec_sql env f)" "lasting.keeps env (publish env ch msg)"
    by (simp_all add: lasting.keeps_def last_kept_def claims_last_def key_held_def exec_sql_redis publish_redis)
  show "lasting.keeps env (set_nx env key dedupe_ttl)"
    by (auto simp: lasting.keeps_def last_kept_def claims_last_def key_held_def set_nx_def redis_healthy_def now_def
        split: option.split)
qed

lemma lasting_keeps_log: "lasting.keeps env (webhook_log env h p al)"
  unfolding webhook_log_def claim_log_def webhook_store_def repo_save_escrow_event_def Let_def
  by (auto intro!: lasting.keeps_rules lasting_keeps_parts)

lemma log_claims:
  assumes "redis_healthy env" "wh_redis h" "claims_last env w" "\<not> other_contract h al"
    and "webhook_log env h p al w = (r, w')"
  shows "key_held env w' (dedupe_key al)"
proof -
  obtain s w1 where nx: "set_nx env (dedupe_key al) dedupe_ttl w = (s, w1)" by fastforce
  note claim = set_nx_claims [OF assms(1) nx]
  show ?thesis
  proof (cases "s = Inr False")
    case True
    then have "key_held env w (dedupe_key al)"
      using claim assms(3) by (auto simp: claims_last_def redis_has_def split: option.splits)
    then show ?thesis using held_no_effect [OF assms(1,2) _ assms(5)] by (simp add: key_held_def)
  next
    case False
    then have "key_held env w1 (dedupe_key al)" and s: "s = Inr True" using claim by auto
    moreover have "webhook_store env h p al w1 = (r, w')"
      using assms(2,4,5) nx s by (simp add: webhook_log_def claim_log_def go_unfold)
    then have "holds_kept env w1 w'" using holds_keeps_store by (rule holds.keepsD [rotated])
    ultimately show ?thesis by (simp add: holds_kept_def)
  qed
qed

lemma logs_claim:
  assumes "redis_healthy env" "wh_redis h" "claims_last env w" "al \<in> set als" "\<not> other_contract h al"
    and "for_each (\<lambda>al _. webhook_log env h p al) als () w = (r, w')"
  shows "key_held env w' (dedupe_key al)"
  using assms(3,4,6)
proof (induction als arbitrary: w)
  case (Cons x als)
  obtain w1 where one: "webhook_log env h p x w = (Inr (), w1)" using webhook_log_Inr by blast
  then have rest: "for_each (\<lambda>al _. webhook_log env h p al) als () w1 = (r, w')"
    using Cons.prems(3) by (simp add: bind_go_def)
  have last: "claims_last env w1"
    using lasting.keepsD [OF lasting_keeps_log one] Cons.prems(1) assms(1) by (simp add: last_kept_def)
  show ?case
  proof (cases "al \<in> set als")
    case True
    then show ?thesis using Cons.IH [OF last _ rest] by simp
  next
    case False
    then have "key_held env w1 (dedupe_key al)"
      using log_claims [OF assms(1,2) Cons.prems(1) assms(5)] one Cons.prems(2) by auto
    moreover have "holds_kept env w1 w'"
      using holds.keepsD [OF holds.keeps_for_each rest] holds_keeps_log by blast
    ultimately show ?thesis by (simp add: holds_kept_def)
  qed
qed simp

text \<open>A second notification whose logs were all in the first has no effect.\<close>

lemma redelivery_ignored:
  assumes "redis_healthy env" "wh_redis h" "claims_last env w"
    and "webhook_logs env h p w = (r1, w1)" "webhook_logs env h q w1 = (r2, w2)"
    and "\<And>al. al \<in> set (wp_logs q) \<Longrightarrow> \<exists>x \<in> set (wp_logs p). dedupe_key x = dedupe_key al \<and>
      (other_contract h x \<longrightarrow> other_contract h al)"
  shows "w_db w2 = w_db w1 \<and> w_trace w2 = w_trace w1 \<and> w_redis w2 = w_redis w1"
proof (rule held_logs_no_effect [OF assms(1,2)])
  show "for_each (\<lambda>al _. webhook_log env h q al) (wp_logs q) () w1 = (r2, w2)"
    using assms(5) by (simp add: webhook_logs_def)
  fix al assume "al \<in> set (wp_logs q)"
  then obtain x where x: "x \<in> set (wp_logs p)" "dedupe_key x = dedupe_key al" "other_contract h x \<longrightarrow> other_contract h al"
    using assms(6) by blast
  show "other_contract h al \<or> key_held env w1 (dedupe_key al)"
    using logs_claim [OF assms(1,2,3) x(1) _ assms(4) [unfolded webhook_logs_def]] x(2,3) by auto
qed

section \<open>Properties of the handler\<close>

lemma handle_cases:
  assumes "handle_alchemy_webhook env h rq w = (r, w')"
  obtains (rejected) "w' = w" "\<And>t. r \<noteq> Inr (200, t)"
  | (accepted) body p where "rq_body rq = Inr body"
      "verify_alchemy_signature (wh_hmac h) body (rq_signature rq) (signing_key h)"
      "wh_unmarshal h body = Inr p" "webhook_logs env h p w = (Inr (), w')" "r = Inr (200, ''ok'')"
proof (cases "rq_body rq")
  case (Inl e)
  then show ?thesis using assms rejected by (auto simp: handle_alchemy_webhook_def ret_def)
next
  case (Inr body)
  show ?thesis
  proof (cases "verify_alchemy_signature (wh_hmac h) body (rq_signature rq) (signing_key h)")
    case False
    then show ?thesis using assms Inr rejected by (auto simp: handle_alchemy_webhook_def ret_def)
  next
    case True
    show ?thesis
    proof (cases "wh_unmarshal h body")
      case (Inl e)
      then show ?thesis using assms \<open>rq_body rq = _\<close> True rejected by (auto simp: handle_alchemy_webhook_def ret_def)
    next
      case p: (Inr p)
      obtain w1 where run: "webhook_logs env h p w = (Inr (), w1)" using webhook_logs_Inr by blast
      then show ?thesis using assms Inr True p accepted [OF Inr True p]
        by (simp add: handle_alchemy_webhook_def bind_go_def ret_def)
    qed
  qed
qed

lemma verify_mac:
  assumes "verify_alchemy_signature hmac body sig key"
  shows "key \<noteq> [] \<and> hex_decode (to_lower (trim_prefix ''0X'' (trim_prefix ''0x'' (trim_space sig)))) = Some (hmac key body)"
proof -
  have "key \<noteq> []" "hex_encode (hmac key body) = to_lower (trim_prefix ''0X'' (trim_prefix ''0x'' (trim_space sig)))"
    using assms by (simp_all add: verify_alchemy_signature_def Let_def split: if_splits)
  then show ?thesis by (metis hex_decode_encode)
qed

text \<open>
  Only authenticated requests have an effect. If a request changes anything, database, Redis
  or channels, then a signing key is configured, the signature header is the hexadecimal text of
  the MAC of exactly this body under that key, and the answer is 200; a deployment without a key
  rejects everything.
\<close>

theorem webhook_authenticated:
  assumes "handle_alchemy_webhook env h rq w = (Inr (status, text), w')" "w' \<noteq> w"
  shows "status = 200 \<and> signing_key h \<noteq> [] \<and> (\<exists>body. rq_body rq = Inr body \<and>
    hex_decode (to_lower (trim_prefix ''0X'' (trim_prefix ''0x'' (trim_space (rq_signature rq))))) =
      Some (wh_hmac h (signing_key h) body))"
  using assms(1)
proof (cases rule: handle_cases)
  case rejected
  then show ?thesis using assms(2) by simp
next
  case (accepted body p)
  then show ?thesis using verify_mac [OF accepted(2)] by auto
qed

text \<open>
  C18. Redelivery is idempotent. With a Redis that answers, a second delivery of the same request
  within the 30 days its claims last gets the same answer and changes neither the database nor Redis,
  and announces nothing.
\<close>

theorem webhook_idempotent:
  assumes "redis_healthy env" "wh_redis h" "claims_last env w"
    and "handle_alchemy_webhook env h rq w = (r1, w1)" "handle_alchemy_webhook env h rq w1 = (r2, w2)"
  shows "r2 = r1 \<and> w_db w2 = w_db w1 \<and> w_trace w2 = w_trace w1 \<and> w_redis w2 = w_redis w1"
  using assms(4)
proof (cases rule: handle_cases)
  case rejected
  then show ?thesis using assms(4,5) by simp
next
  case (accepted body p)
  show ?thesis using assms(5)
  proof (cases rule: handle_cases)
    case rejected
    have "r2 = Inr (200, ''ok'')" using accepted assms(5) webhook_logs_Inr [of env h p w1]
      by (auto simp: handle_alchemy_webhook_def bind_go_def ret_def)
    then show ?thesis using rejected(2) by blast
  next
    case second: (accepted body' p')
    have "p' = p" using accepted second by simp
    then show ?thesis
      using redelivery_ignored [OF assms(1,2,3) accepted(4) second(4)] second(5) accepted(5) by auto
  qed
qed

text \<open>A handler with a one-byte MAC, for a payload with one escrow creation of 5 units.\<close>

definition sample_alchemy :: alchemy_log where
  "sample_alchemy = \<lparr>al_tx = ''0x4d'', al_index = 3, al_block = ''0xa'', al_address = ''0xAB'', al_data = ''0x05'',
     al_topics = [''c'', ''0x2a'', ''b'', ''s''], al_account = [], al_removed = False\<rparr>"

definition sample_payload :: webhook_payload where
  "sample_payload = \<lparr>wp_created = Some 1000, wp_number = ''10'', wp_logs = [sample_alchemy]\<rparr>"

definition sample_handler :: webhook_handler where
  "sample_handler = \<lparr>wh_cfg = Some \<lparr>wc_key = ''k'', wc_escrow = '' 0xab'', wc_wtf_escrow = [], wc_chain = 1\<rparr>,
     wh_repo = True, wh_redis = True, wh_event_by_id = (\<lambda>_. Inl (new_error ''no event'')),
     wh_hmac = (\<lambda>k b. [of_nat (length k + length b)]), wh_unmarshal = (\<lambda>_. Inr sample_payload),
     wh_address = (\<lambda>s. of_nat (length s)),
     wh_hash = (\<lambda>s. if s = ''c'' then topic_escrow_created else of_nat (length s)),
     wh_bytes = (\<lambda>s. replicate 31 0 @ [5])\<rparr>"

definition sample_request :: webhook_request where
  "sample_request = \<lparr>rq_body = Inr ''body'', rq_signature = '' 0X05''\<rparr>"

definition short_env :: env where
  "short_env = calm_env\<lparr>clock := (\<lambda>_. 5000)\<rparr>"

lemma short_healthy: "redis_healthy short_env" "claims_last short_env empty_world"
  by (simp_all add: redis_healthy_def short_env_def calm_env_def dedupe_ttl_def claims_last_def empty_world_def)

theorem webhook_authenticated_witness:
  "signing_key sample_handler \<noteq> [] \<and>
   hex_decode (to_lower (trim_prefix ''0X'' (trim_prefix ''0x'' (trim_space (rq_signature sample_request))))) =
     Some (wh_hmac sample_handler (signing_key sample_handler) ''body'')"
proof -
  let ?y = "handle_alchemy_webhook short_env sample_handler sample_request empty_world"
  have "fst ?y = Inr (200, ''ok'')" "length (escrow_events (w_db (snd ?y))) = 1" by code_simp+
  then obtain w' where run: "?y = (Inr (200, ''ok''), w')" "length (escrow_events (w_db w')) = 1"
    by (metis prod.collapse)
  then have "w' \<noteq> empty_world" by (auto simp: empty_world_def empty_database_def)
  then show ?thesis using webhook_authenticated [OF run(1)] by (simp add: sample_request_def)
qed

theorem webhook_idempotent_witness:
  "\<exists>r w1 w2. handle_alchemy_webhook short_env sample_handler sample_request empty_world = (r, w1) \<and>
     handle_alchemy_webhook short_env sample_handler sample_request w1 = (r, w2) \<and> w_db w2 = w_db w1 \<and>
     w_trace w2 = w_trace w1"
proof -
  have h: "wh_redis sample_handler" by (simp add: sample_handler_def)
  obtain r1 w1 where one: "handle_alchemy_webhook short_env sample_handler sample_request empty_world = (r1, w1)"
    by fastforce
  obtain r2 w2 where two: "handle_alchemy_webhook short_env sample_handler sample_request w1 = (r2, w2)" by fastforce
  show ?thesis using webhook_idempotent [OF short_healthy(1) h short_healthy(2) one two] one two by blast
qed

text \<open>
  A reorganisation is not seen. When the node drops a block, Alchemy sends the same logs again
  with \<open>removed\<close> set; the deduplication key does not contain the flag, so after the first
  notification the second has no effect: the stored events keep \<open>removed = false\<close>, and nothing is
  announced.
\<close>

theorem webhook_ignores_removal:
  assumes "redis_healthy env" "wh_redis h" "claims_last env w"
    and "webhook_logs env h p w = (r1, w1)"
    and "webhook_logs env h (p\<lparr>wp_logs := map (al_removed_update (\<lambda>_. True)) (wp_logs p)\<rparr>) w1 = (r2, w2)"
  shows "w_db w2 = w_db w1 \<and> w_trace w2 = w_trace w1"
proof -
  have "\<exists>x \<in> set (wp_logs p). dedupe_key x = dedupe_key al \<and> (other_contract h x \<longrightarrow> other_contract h al)"
    if "al \<in> set (wp_logs (p\<lparr>wp_logs := map (al_removed_update (\<lambda>_. True)) (wp_logs p)\<rparr>))" for al
    using that by (auto simp: dedupe_key_def other_contract_def alchemy_address_def)
  from redelivery_ignored [OF assms this] show ?thesis by simp
qed

theorem webhook_ignores_removal_witness:
  "\<exists>w1 w2. webhook_logs short_env sample_handler sample_payload empty_world = (Inr (), w1) \<and>
     map es_removed (escrow_events (w_db w1)) = [False] \<and>
     webhook_logs short_env sample_handler (sample_payload\<lparr>wp_logs := [sample_alchemy\<lparr>al_removed := True\<rparr>]\<rparr>) w1
       = (Inr (), w2) \<and> w_db w2 = w_db w1"
proof -
  have h: "wh_redis sample_handler" by (simp add: sample_handler_def)
  obtain w1 where one: "webhook_logs short_env sample_handler sample_payload empty_world = (Inr (), w1)"
    using webhook_logs_Inr by blast
  have "map es_removed (escrow_events (w_db (snd (webhook_logs short_env sample_handler sample_payload empty_world)))) = [False]"
    by code_simp
  then have rows: "map es_removed (escrow_events (w_db w1)) = [False]" by (simp only: one snd_conv)
  let ?p = "sample_payload\<lparr>wp_logs := [sample_alchemy\<lparr>al_removed := True\<rparr>]\<rparr>"
  obtain w2 where two: "webhook_logs short_env sample_handler ?p w1 = (Inr (), w2)"
    using webhook_logs_Inr by blast
  have p: "sample_payload\<lparr>wp_logs := map (al_removed_update (\<lambda>_. True)) (wp_logs sample_payload)\<rparr> = ?p"
    by (simp add: sample_payload_def)
  show ?thesis
    using webhook_ignores_removal [OF short_healthy(1) h short_healthy(2) one, unfolded p, OF two] one two rows
    by (intro exI [of _ w1] exI [of _ w2] conjI) simp_all
qed



section \<open>Agreement of the two ingestion paths\<close>

text \<open>How Alchemy writes a log of the chain: every value as hexadecimal text.\<close>

definition hash_text :: "hash \<Rightarrow> string" where
  "hash_text x = ''0x'' @ replicate (64 - length (hex_nat (unat x))) (CHR ''0'') @ hex_nat (unat x)"

definition alchemy_of :: "string \<Rightarrow> evm_log \<Rightarrow> alchemy_log" where
  "alchemy_of contract lg = \<lparr>al_tx = hash_text (l_tx lg), al_index = uint (l_index lg),
     al_block = ''0x'' @ hex_nat (unat (l_block lg)), al_address = contract,
     al_data = ''0x'' @ hex_encode (l_data lg), al_topics = map hash_text (l_topics lg),
     al_account = [], al_removed = l_removed lg\<rparr>"

text \<open>What go-ethereum documents of \<open>HexToHash\<close>, \<open>HexToAddress\<close> (which crops to the last
  20 bytes) and \<open>FromHex\<close>.\<close>

definition hex_laws :: "webhook_handler \<Rightarrow> bool" where
  "hex_laws h \<longleftrightarrow> (\<forall>x. wh_hash h (hash_text x) = x) \<and>
     (\<forall>x. wh_address h (hash_text x) = topic_address x) \<and>
     (\<forall>bs. wh_bytes h (''0x'' @ hex_encode bs) = bs)"

text \<open>The ABI names the six events of the contract, the same for both paths.\<close>

definition canonical_names :: "webhook_handler \<Rightarrow> escrow_indexer \<Rightarrow> bool" where
  "canonical_names h ei \<longleftrightarrow> wh_event_by_id h = ei_event_by_id ei \<and>
     ei_event_by_id ei topic_escrow_created = Inr ''EscrowCreated'' \<and>
     ei_event_by_id ei topic_escrow_released = Inr ''EscrowReleased'' \<and>
     ei_event_by_id ei topic_escrow_refunded = Inr ''EscrowRefunded'' \<and>
     ei_event_by_id ei topic_dispute_resolved = Inr ''DisputeResolved'' \<and>
     ei_event_by_id ei topic_delivery_acknowledged = Inr ''DeliveryAcknowledged'' \<and>
     ei_event_by_id ei topic_dispute_raised = Inr ''DisputeRaised''"

text \<open>Both paths are configured for the same chain and contract.\<close>

definition same_target :: "webhook_handler \<Rightarrow> escrow_indexer \<Rightarrow> string \<Rightarrow> bool" where
  "same_target h ei contract \<longleftrightarrow> contract \<noteq> [] \<and> wh_address h contract = ei_contract ei \<and>
     (\<exists>c. wh_cfg h = Some c \<and> wc_chain c = ei_chain ei \<and> 0 < ei_chain ei)"

lemma digits_from_zeros: "digits_from 16 0 (replicate k (CHR ''0'') @ s) = digits_from 16 0 s"
  by (induction k) (simp_all add: digit_of_def)

lemma parse_hash_text: "parse_bigint_hex (hash_text x) = Some (uint x)"
proof -
  let ?s = "replicate (64 - length (hex_nat (unat x))) (CHR ''0'') @ hex_nat (unat x)"
  have digits: "digits_from 16 0 ?s = Some (unat x)"
    by (simp add: digits_from_zeros digits_hex_nat)
  have trim: "trim_prefix ''0X'' (trim_prefix ''0x'' (hash_text x)) = ?s"
  proof -
    have "\<not> prefix ''0X'' ?s"
    proof
      assume "prefix ''0X'' ?s"
      then have "CHR ''X'' \<in> set ?s" by (auto simp only: prefix_def) simp
      then have "digit_of (CHR ''X'') \<noteq> None" using digits by (rule digits_from_members)
      then show False by (simp add: digit_of_def)
    qed
    then show ?thesis by (simp add: trim_prefix_def hash_text_def)
  qed
  obtain c cs where s: "?s = c # cs" by (cases ?s) auto
  then have "split_sign ?s = (False, ?s)"
    using digits_from_head [of 16 0 c cs] digits by (auto simp: split_sign_def)
  then have "parse_big 16 ?s = Some (int (unat x))"
    using digits s by (simp add: parse_big_def digits_value_def)
  then show ?thesis using trim by (simp add: parse_bigint_hex_def uint_nat [symmetric])
qed

lemma alchemy_fields_agree:
  assumes "hex_laws h"
  shows "alchemy_id (alchemy_of contract lg) = escrow_id_of (l_topics lg)"
    and "alchemy_word h (alchemy_of contract lg) = first_word (l_data lg)"
    and "alchemy_word_fields h names (alchemy_of contract lg) = word_fields names (l_data lg)"
    and "alchemy_topic_field env h name i (alchemy_of contract lg) = topic_field env name i (l_topics lg)"
proof -
  show "alchemy_id (alchemy_of contract lg) = escrow_id_of (l_topics lg)"
    by (auto simp: alchemy_id_def escrow_id_of_def alchemy_of_def parse_hash_text)
  have nil: "hex_encode bs = [] \<longleftrightarrow> bs = []" for bs by (cases bs) (auto simp: hex_encode_def)
  show word: "alchemy_word h (alchemy_of contract lg) = first_word (l_data lg)"
    using assms by (auto simp: alchemy_word_def alchemy_of_def hex_laws_def first_word_def nil)
  show "alchemy_word_fields h names (alchemy_of contract lg) = word_fields names (l_data lg)"
    by (simp add: alchemy_word_fields_def word_fields_def word)
  show "alchemy_topic_field env h name i (alchemy_of contract lg) = topic_field env name i (l_topics lg)"
    using assms by (simp add: alchemy_topic_field_def topic_field_def alchemy_of_def hex_laws_def)
qed

lemma decode_alchemy_agrees:
  assumes "hex_laws h" "canonical_names h ei" "l_topics lg \<noteq> []"
    and "ei_event_by_id ei (hd (l_topics lg)) = Inr name"
  shows "decode_alchemy_log env h (alchemy_of contract lg) =
    (name, escrow_id_of (l_topics lg), fst (escrow_fields env (l_topics lg) (l_data lg)),
     (case escrow_id_of (l_topics lg) of None \<Rightarrow> [] | Some s \<Rightarrow> [(''escrowId'', s)]) @
       snd (escrow_fields env (l_topics lg) (l_data lg)))"
proof -
  have topics: "al_topics (alchemy_of contract lg) \<noteq> []"
    "wh_hash h (hd (al_topics (alchemy_of contract lg))) = hd (l_topics lg)"
    using assms(1,3) by (auto simp: alchemy_of_def hex_laws_def hd_map)
  consider "hd (l_topics lg) = topic_escrow_created" | "hd (l_topics lg) = topic_escrow_released"
    | "hd (l_topics lg) = topic_escrow_refunded" | "hd (l_topics lg) = topic_dispute_resolved"
    | "hd (l_topics lg) = topic_delivery_acknowledged" | "hd (l_topics lg) = topic_dispute_raised"
    | "hd (l_topics lg) \<notin> {topic_escrow_created, topic_escrow_released, topic_escrow_refunded,
        topic_dispute_resolved, topic_delivery_acknowledged, topic_dispute_raised}" by blast
  then show ?thesis
    by cases (use topics assms(2,4) in \<open>simp_all add: decode_alchemy_log_def escrow_fields_def Let_def
      alchemy_fields_agree [OF assms(1)] canonical_names_def topic_defs\<close>)
qed

lemma parse_block_hex:
  assumes "b < 2 ^ 63"
  shows "parse_block_number (''0x'' @ hex_nat b) = int b"
proof -
  have "\<not> is_space c" if "c \<in> set (''0x'' @ hex_nat b)" for c
  proof (cases "c \<in> set (hex_nat b)")
    case True
    then have "digit_of c \<noteq> None" using digits_hex_nat [of b] by (rule digits_from_members)
    then show ?thesis by (auto simp: digit_of_def is_space_def Let_def split: if_splits)
  next
    case False
    then show ?thesis using that by (auto simp: is_space_def)
  qed
  then have "trim_space (''0x'' @ hex_nat b) = ''0x'' @ hex_nat b" by (rule trim_space_id)
  then show ?thesis using assms by (simp add: parse_block_number_def Let_def parse_int_hex)
qed

text \<open>
  C17. The two ingestion paths agree. For every log the RPC path decodes, the event that the
  webhook builds from Alchemy's rendering of the same log is equal to it in every field, raw data
  included, except the timestamp (the webhook stores the time of the notification); so both
  paths upsert the same row.
\<close>

theorem webhook_matches_indexer:
  assumes "hex_laws h" "canonical_names h ei" "same_target h ei contract"
    and "unat (l_block lg) < 2 ^ 63"
    and "decode_escrow_log env ei lg cache w = (Inr (ev, cache'), w')"
  shows "webhook_event env h p time (alchemy_of contract lg) =
      ev\<lparr>e_time := (case wp_created p of Some t \<Rightarrow> t | None \<Rightarrow> time)\<rparr> \<and>
    es_key (escrow_row_of (webhook_event env h p time (alchemy_of contract lg))) = es_key (escrow_row_of ev)"
proof -
  from assms(5) obtain name t where topics: "l_topics lg \<noteq> []"
    and name: "ei_event_by_id ei (hd (l_topics lg)) = Inr name"
    and ev: "ev = escrow_event_from_log (ei_chain ei) (ei_contract ei) name (l_tx lg) (l_block lg) t
        (l_index lg) (l_removed lg) (escrow_id_of (l_topics lg))
        (fst (escrow_fields env (l_topics lg) (l_data lg)))
        ((case escrow_id_of (l_topics lg) of None \<Rightarrow> [] | Some s \<Rightarrow> [(''escrowId'', s)]) @
           snd (escrow_fields env (l_topics lg) (l_data lg)))"
    by (auto simp: decode_escrow_log_def fail_eq bind_Inr ret_eq split: if_splits sum.splits)
  have block: "(word_of_int (parse_block_number (''0x'' @ hex_nat (unat (l_block lg)))) :: u64) = l_block lg"
    using parse_block_hex [OF assms(4)] by simp
  have parts: "al_block (alchemy_of contract lg) = ''0x'' @ hex_nat (unat (l_block lg))"
    "alchemy_address (alchemy_of contract lg) = contract" "al_tx (alchemy_of contract lg) = hash_text (l_tx lg)"
    "al_index (alchemy_of contract lg) = uint (l_index lg)" "al_removed (alchemy_of contract lg) = l_removed lg"
    by (simp_all add: alchemy_of_def alchemy_address_def)
  have "webhook_event env h p time (alchemy_of contract lg) =
      ev\<lparr>e_time := (case wp_created p of Some t \<Rightarrow> t | None \<Rightarrow> time)\<rparr>"
    using assms(1,3) block
    by (auto simp: webhook_event_def Let_def decode_alchemy_agrees [OF assms(1,2) topics name] parts ev
        escrow_event_from_log_def same_target_def hex_laws_def)
  then show ?thesis by (simp add: es_key_def escrow_row_of_def)
qed

definition canonical_abi :: "hash \<Rightarrow> goerror + string" where
  "canonical_abi t =
     (if t = topic_escrow_created then Inr ''EscrowCreated''
      else if t = topic_escrow_released then Inr ''EscrowReleased''
      else if t = topic_escrow_refunded then Inr ''EscrowRefunded''
      else if t = topic_dispute_resolved then Inr ''DisputeResolved''
      else if t = topic_delivery_acknowledged then Inr ''DeliveryAcknowledged''
      else if t = topic_dispute_raised then Inr ''DisputeRaised''
      else Inl (new_error ''no event''))"

definition hex_handler :: webhook_handler where
  "hex_handler = sample_handler\<lparr>wh_event_by_id := canonical_abi,
     wh_hash := (\<lambda>s. word_of_int (the (parse_bigint_hex s))),
     wh_address := (\<lambda>s. topic_address (word_of_int (the (parse_bigint_hex s)))),
     wh_bytes := (\<lambda>s. the (hex_decode (drop 2 s)))\<rparr>"

theorem webhook_matches_indexer_witness:
  "\<exists>ev cache' w'. decode_escrow_log escrow_env (sample_escrow\<lparr>ei_event_by_id := canonical_abi\<rparr>) sample_escrow_log
       Map.empty empty_world = (Inr (ev, cache'), w') \<and>
     webhook_event escrow_env hex_handler sample_payload 0 (alchemy_of ''0x9'' sample_escrow_log) = ev\<lparr>e_time := 1000\<rparr>"
proof -
  let ?ei = "sample_escrow\<lparr>ei_event_by_id := canonical_abi\<rparr>"
  have "escrow_known ?ei sample_escrow_log" "timestamps_answered escrow_env"
    by (simp_all add: escrow_known_def sample_escrow_log_def canonical_abi_def timestamps_answered_def
        escrow_env_def calm_env_def)
  then obtain ev cache' w' where run: "decode_escrow_log escrow_env ?ei sample_escrow_log Map.empty empty_world
      = (Inr (ev, cache'), w')"
    using decode_escrow_known [of escrow_env ?ei sample_escrow_log Map.empty empty_world]
    by (metis prod.collapse)
  have laws: "hex_laws hex_handler"
    by (simp add: hex_laws_def hex_handler_def parse_hash_text)
  have names: "canonical_names hex_handler ?ei"
    by (simp add: canonical_names_def hex_handler_def canonical_abi_def topic_defs)
  have target: "same_target hex_handler ?ei ''0x9''"
    by (simp add: same_target_def hex_handler_def sample_handler_def sample_escrow_def escrow_defaults_def) code_simp
  show ?thesis
    using webhook_matches_indexer [OF laws names target _ run, of sample_payload 0] run
    by (simp add: sample_escrow_log_def sample_payload_def)
qed

end
