(* ===== verification/Api_Router.thy ===== *)
theory Api_Router
  imports Read_Api Webhook_Properties "HOL-Library.List_Lexorder" "HOL-Library.Char_ord"
begin

text \<open>
  \<open>internal/api/router.go\<close> with the middleware around it: the routes of \<open>NewRouter\<close>, how \<open>http.ServeMux\<close>
  chooses one, and what a request gets through \<open>RequestID\<close>, \<open>CORS\<close> and \<open>Logger\<close>. The handlers of the model
  do not panic, so \<open>Recoverer\<close> hands every request on. Whatever an unauthenticated client asks, nothing
  but the answer depends on it.
\<close>

section \<open>Paths\<close>

text \<open>\<open>cleanPath\<close> of \<open>net/http\<close>: rooted, without empty and dotted segments; a final slash stays.\<close>

fun path_segments :: "string \<Rightarrow> string list" where
  "path_segments [] = [[]]"
| "path_segments (c # s) = (case path_segments s of
     [] \<Rightarrow> [] | t # ts \<Rightarrow> if c = CHR ''/'' then [] # t # ts else (c # t) # ts)"

definition resolve_segment :: "string \<Rightarrow> string list \<Rightarrow> string list" where
  "resolve_segment seg stack =
     (if seg = [] \<or> seg = ''.'' then stack else if seg = ''..'' then tl stack else seg # stack)"

definition clean_path :: "string \<Rightarrow> string" where
  "clean_path p =
     (let stack = rev (fold resolve_segment (path_segments p) []);
          np = (if stack = [] then ''/'' else concat (map (\<lambda>s. CHR ''/'' # s) stack)) in
      if p \<noteq> [] \<and> last p = CHR ''/'' \<and> np \<noteq> ''/'' then np @ ''/'' else np)"

text \<open>\<open>url.PathUnescape\<close>; a segment with a malformed escape is matched as it is.\<close>

fun path_unescape :: "string \<Rightarrow> string option" where
  "path_unescape [] = Some []"
| "path_unescape (c # s) =
     (if c = CHR ''%'' then
        (case s of
           a # b # t \<Rightarrow> (case (hex_decode [a, b], path_unescape t) of
               (Some [x], Some u) \<Rightarrow> Some (char_of (unat x) # u)
             | _ \<Rightarrow> None)
         | _ \<Rightarrow> None)
      else map_option (Cons c) (path_unescape s))"

definition request_segments :: "string \<Rightarrow> string list" where
  "request_segments p = map (\<lambda>s. case path_unescape s of None \<Rightarrow> s | Some t \<Rightarrow> t) (tl (path_segments p))"

section \<open>Routes\<close>

datatype endpoint =
    Alchemy_Webhook | Health | Ready | Sync_Status | Sync_Backfill | Transaction_By_Hash
  | Employer_By_Address | Employee_By_Address | Payroll_Fundings | Payroll_Claims | Token_Transfers
  | Recon_Exceptions | Escrow_Events | Chain_Events

datatype pattern_segment = Literal string | Wildcard

definition routes :: "(string \<times> pattern_segment list \<times> endpoint) list" where
  "routes =
     [(''POST'', [Literal ''api'', Literal ''indexer'', Literal ''webhook''], Alchemy_Webhook),
      (''GET'', [Literal ''health''], Health),
      (''GET'', [Literal ''ready''], Ready),
      (''GET'', [Literal ''v1'', Literal ''sync'', Literal ''status''], Sync_Status),
      (''POST'', [Literal ''v1'', Literal ''sync'', Literal ''backfill''], Sync_Backfill),
      (''GET'', [Literal ''v1'', Literal ''transactions'', Wildcard], Transaction_By_Hash),
      (''GET'', [Literal ''v1'', Literal ''employers'', Wildcard], Employer_By_Address),
      (''GET'', [Literal ''v1'', Literal ''employees'', Wildcard], Employee_By_Address),
      (''GET'', [Literal ''v1'', Literal ''payroll'', Literal ''fundings''], Payroll_Fundings),
      (''GET'', [Literal ''v1'', Literal ''payroll'', Literal ''claims''], Payroll_Claims),
      (''GET'', [Literal ''v1'', Literal ''tokens'', Wildcard, Literal ''transfers''], Token_Transfers),
      (''GET'', [Literal ''v1'', Literal ''reconciliation'', Literal ''exceptions''], Recon_Exceptions),
      (''GET'', [Literal ''v1'', Literal ''escrow'', Wildcard, Literal ''events''], Escrow_Events),
      (''GET'', [Literal ''api'', Literal ''chain'', Literal ''events'', Wildcard], Chain_Events)]"

text \<open>The value of the wildcard (no route has two); a wildcard stands for one segment, not the empty one.\<close>

fun match_segments :: "pattern_segment list \<Rightarrow> string list \<Rightarrow> string option" where
  "match_segments [] [] = Some []"
| "match_segments (Literal l # ps) (s # ss) = (if l = s then match_segments ps ss else None)"
| "match_segments (Wildcard # ps) (s # ss) =
     (if s = [] then None else map_option (\<lambda>_. s) (match_segments ps ss))"
| "match_segments _ _ = None"

definition method_matches :: "string \<Rightarrow> string \<Rightarrow> bool" where
  "method_matches wanted actual \<longleftrightarrow> actual = wanted \<or> wanted = ''GET'' \<and> actual = ''HEAD''"

definition matching :: "string \<Rightarrow> (string \<times> endpoint \<times> string) list" where
  "matching p = List.map_filter (\<lambda>(m, ps, e). map_option (\<lambda>v. (m, e, v)) (match_segments ps (request_segments p))) routes"

datatype routed = Moved string | Unknown_Path | Wrong_Method "string list" | Handled endpoint string

definition route :: "string \<Rightarrow> string \<Rightarrow> routed" where
  "route actual p =
     (if actual \<noteq> ''CONNECT'' \<and> clean_path p \<noteq> p then Moved (clean_path p)
      else
        case filter (\<lambda>(m, e, v). method_matches m actual) (matching p) of
          (m, e, v) # _ \<Rightarrow> Handled e v
        | [] \<Rightarrow>
            if matching p = [] then Unknown_Path
            else Wrong_Method (sort (remdups
              (concat (map (\<lambda>(m, e, v). if m = ''GET'' then [''GET'', ''HEAD''] else [m]) (matching p))))))"

section \<open>At most one route\<close>

lemma matching_iff:
  "(m, e, v) \<in> set (matching p) \<longleftrightarrow> (\<exists>ps. (m, ps, e) \<in> set routes \<and> match_segments ps (request_segments p) = Some v)"
  by (force simp: matching_def List.map_filter_def)

lemma match_literals: "match_segments (map Literal ls) ss = Some v \<longleftrightarrow> ss = ls \<and> v = []"
proof (induction ls arbitrary: ss)
  case Nil
  then show ?case by (cases ss) auto
next
  case (Cons l ls)
  then show ?case by (cases ss) auto
qed

text \<open>Whether one path can match two patterns.\<close>

fun compatible :: "pattern_segment \<Rightarrow> pattern_segment \<Rightarrow> bool" where
  "compatible (Literal l) (Literal k) = (l = k)"
| "compatible _ _ = True"

definition overlap :: "pattern_segment list \<Rightarrow> pattern_segment list \<Rightarrow> bool" where
  "overlap ps qs = list_all2 compatible ps qs"

fun fits :: "pattern_segment \<Rightarrow> string \<Rightarrow> bool" where
  "fits (Literal l) s = (l = s)"
| "fits Wildcard s = (s \<noteq> [])"

lemma match_fits: "match_segments ps ss = Some v \<Longrightarrow> list_all2 fits ps ss"
  by (induction ps ss arbitrary: v rule: match_segments.induct) (auto split: if_splits)

lemma compatible_if_fits: "fits p s \<Longrightarrow> fits q s \<Longrightarrow> compatible p q"
  by (cases p; cases q) auto

lemma overlap_if_match:
  "match_segments ps ss = Some v \<Longrightarrow> match_segments qs ss = Some u \<Longrightarrow> overlap ps qs"
  by (auto dest!: match_fits simp: overlap_def list_all2_conv_all_nth) (metis compatible_if_fits)

lemma routes_apart: "list_all (\<lambda>(m, ps, e). list_all (\<lambda>(m', qs, e'). e = e' \<or> \<not> overlap ps qs) routes) routes"
  by code_simp

lemma endpoints_distinct: "distinct (map (snd \<circ> snd) routes)"
  by (simp add: routes_def)

lemma one_route:
  assumes "(m, ps, e) \<in> set routes" "(m', qs, e') \<in> set routes" "match_segments ps ss = Some v" "match_segments qs ss = Some u"
  shows "(m, ps, e) = (m', qs, e') \<and> v = u"
proof -
  have "e = e'"
    using routes_apart assms(1,2) overlap_if_match [OF assms(3,4)] by (fastforce simp: list_all_iff)
  moreover have "inj_on (snd \<circ> snd) (set routes)" using endpoints_distinct by (simp add: distinct_map)
  ultimately have "(m, ps, e) = (m', qs, e')"
    using inj_onD [of "snd \<circ> snd" "set routes" "(m, ps, e)" "(m', qs, e')"] assms(1,2) by simp
  then show ?thesis using assms(3,4) by simp
qed

text \<open>So \<open>ServeMux\<close> has nothing to choose: a path is answered as the one route that matches it says.\<close>

lemma handled_iff:
  "route actual p = Handled e v \<longleftrightarrow> (actual = ''CONNECT'' \<or> clean_path p = p) \<and>
     (\<exists>m ps. (m, ps, e) \<in> set routes \<and> match_segments ps (request_segments p) = Some v \<and> method_matches m actual)"
proof -
  let ?hits = "filter (\<lambda>(m, e, v). method_matches m actual) (matching p)"
  have hit: "(m, e', v') \<in> set ?hits \<longleftrightarrow> (\<exists>ps. (m, ps, e') \<in> set routes \<and>
      match_segments ps (request_segments p) = Some v' \<and> method_matches m actual)" for m e' v'
    by (auto simp: matching_iff)
  have same: "(m, e1, v1) = (m', e2, v2)"
    if hits: "(m, e1, v1) \<in> set ?hits" "(m', e2, v2) \<in> set ?hits" for m e1 v1 m' e2 v2
  proof -
    obtain ps qs where "(m, ps, e1) \<in> set routes" "match_segments ps (request_segments p) = Some v1"
      "(m', qs, e2) \<in> set routes" "match_segments qs (request_segments p) = Some v2"
      using hits unfolding hit by blast
    then show ?thesis using one_route by blast
  qed
  have first: "(case ?hits of (m, e', v') # _ \<Rightarrow> Handled e' v' | [] \<Rightarrow> x) = Handled e v \<longleftrightarrow> (\<exists>m. (m, e, v) \<in> set ?hits)"
    if "x \<noteq> Handled e v" for x
  proof (cases ?hits)
    case (Cons h hs)
    obtain m' e' v' where h: "h = (m', e', v')" by (cases h) auto
    have here: "(m', e', v') \<in> set ?hits" unfolding Cons h by simp
    have "(m, e, v) = (m', e', v')" if "(m, e, v) \<in> set ?hits" for m
      using same [OF that here] .
    then have "(\<exists>m. (m, e, v) \<in> set ?hits) \<longleftrightarrow> e = e' \<and> v = v'" using here by blast
    moreover have "(case ?hits of (m, e', v') # _ \<Rightarrow> Handled e' v' | [] \<Rightarrow> x) = Handled e' v'"
      by (simp only: Cons h list.case prod.case)
    ultimately show ?thesis by auto
  next
    case Nil
    show ?thesis unfolding Nil using that by simp
  qed
  show ?thesis
  proof (cases "actual \<noteq> ''CONNECT'' \<and> clean_path p \<noteq> p")
    case True
    then show ?thesis by (simp add: route_def)
  next
    case False
    define miss where "miss = (if matching p = [] then Unknown_Path
      else Wrong_Method (sort (remdups
        (concat (map (\<lambda>(m, e, v). if m = ''GET'' then [''GET'', ''HEAD''] else [m]) (matching p))))))"
    have "route actual p = (case ?hits of (m, e', v') # _ \<Rightarrow> Handled e' v' | [] \<Rightarrow> miss)"
      unfolding route_def miss_def by (rule if_not_P) (rule False)
    moreover have "miss \<noteq> Handled e v" by (simp add: miss_def)
    ultimately have "route actual p = Handled e v \<longleftrightarrow> (\<exists>m. (m, e, v) \<in> set ?hits)" using first by metis
    then show ?thesis unfolding hit using False by blast
  qed
qed

section \<open>Requests and answers\<close>

text \<open>
  The escaped path, the query parameters and headers by name, the body or the error of reading it, and the
  16 random bytes \<open>generateID\<close> would draw.
\<close>

record http_request =
  ht_method :: string
  ht_path :: string
  ht_query :: query
  ht_header :: query
  ht_body :: "goerror + string"
  ht_random :: bytes

datatype answer =
    Redirected string
  | Not_Found
  | Not_Allowed "string list"
  | No_Content
  | Webhook_Answer "nat \<times> string"
  | Health_Answer "unit response"
  | Ready_Answer "unit response"
  | Status_Answer "sync_status response"
  | Backfill_Answer "unit response"
  | Transaction_Answer "transaction_response response"
  | Employer_Answer "employer_response response"
  | Employee_Answer "employee_response response"
  | Fundings_Answer "listed_funding list response"
  | Claims_Answer "listed_claim list response"
  | Transfers_Answer "listed_transfer list response"
  | Exceptions_Answer "exception_row list response"
  | Escrow_Answer "escrow_listing response"

fun response_status :: "'a response \<Rightarrow> int" where
  "response_status (Success x) = 200"
| "response_status (Listing x p) = 200"
| "response_status (Failure n code msg) = n"

fun answer_status :: "answer \<Rightarrow> int" where
  "answer_status (Redirected p) = 301"
| "answer_status Not_Found = 404"
| "answer_status (Not_Allowed ms) = 405"
| "answer_status No_Content = 204"
| "answer_status (Webhook_Answer a) = int (fst a)"
| "answer_status (Health_Answer r) = response_status r"
| "answer_status (Ready_Answer r) = response_status r"
| "answer_status (Status_Answer r) = response_status r"
| "answer_status (Backfill_Answer r) = response_status r"
| "answer_status (Transaction_Answer r) = response_status r"
| "answer_status (Employer_Answer r) = response_status r"
| "answer_status (Employee_Answer r) = response_status r"
| "answer_status (Fundings_Answer r) = response_status r"
| "answer_status (Claims_Answer r) = response_status r"
| "answer_status (Transfers_Answer r) = response_status r"
| "answer_status (Exceptions_Answer r) = response_status r"
| "answer_status (Escrow_Answer r) = response_status r"

text \<open>What \<open>NewRouter\<close> closes over; \<open>as_decode\<close> is the JSON decoder of the backfill request.\<close>

record api_server =
  as_pool :: bool
  as_cfg :: config
  as_webhook :: webhook_handler
  as_plan :: plan
  as_hex :: hex_lib
  as_decode :: "goerror + string \<Rightarrow> goerror + backfill_request"

definition webhook_config_of :: "config \<Rightarrow> webhook_config" where
  "webhook_config_of cfg = \<lparr>wc_key = cfg_webhook_signing_key cfg, wc_escrow = cfg_escrow_contract cfg,
     wc_wtf_escrow = cfg_wtf_escrow_contract cfg, wc_chain = cfg_chain_id cfg\<rparr>"

text \<open>\<open>lib\<close> brings the plan, the conversions, the decoders and the MAC.\<close>

definition new_router :: "api_server \<Rightarrow> config \<Rightarrow> bool \<Rightarrow> api_server" where
  "new_router lib cfg redis = lib\<lparr>as_pool := True, as_cfg := cfg,
     as_webhook := (as_webhook lib)\<lparr>wh_cfg := Some (webhook_config_of cfg), wh_repo := True, wh_redis := redis\<rparr>\<rparr>"

text \<open>The status and the time, which is not modelled.\<close>

definition health_handler :: "unit response go" where
  "health_handler = ret (Success ())"

definition answering :: "('a \<Rightarrow> answer) \<Rightarrow> 'a go \<Rightarrow> answer go" where
  "answering f m = bind_go m (\<lambda>x. ret (f x))"

fun handle :: "env \<Rightarrow> api_server \<Rightarrow> http_request \<Rightarrow> endpoint \<Rightarrow> string \<Rightarrow> answer go" where
  "handle env srv rq Alchemy_Webhook v = answering Webhook_Answer (handle_alchemy_webhook env (as_webhook srv)
     \<lparr>rq_body = ht_body rq, rq_signature = ht_header rq ''X-Alchemy-Signature''\<rparr>)"
| "handle env srv rq Health v = answering Health_Answer health_handler"
| "handle env srv rq Ready v = answering Ready_Answer (ready_handler env (as_pool srv) (Some (as_cfg srv)))"
| "handle env srv rq Sync_Status v = answering Status_Answer (sync_status_handler env (as_plan srv) (as_cfg srv))"
| "handle env srv rq Sync_Backfill v = answering Backfill_Answer
     (require_operator_auth (cfg_operator_api_key (as_cfg srv)) (ht_header rq)
       (sync_backfill_handler (as_decode srv (ht_body rq))))"
| "handle env srv rq Transaction_By_Hash v =
     answering Transaction_Answer (transaction_handler env (as_plan srv) (as_hex srv) (as_cfg srv) v)"
| "handle env srv rq Employer_By_Address v =
     answering Employer_Answer (employer_handler env (as_plan srv) (as_hex srv) (as_cfg srv) v)"
| "handle env srv rq Employee_By_Address v =
     answering Employee_Answer (employee_handler env (as_plan srv) (as_hex srv) (as_cfg srv) v)"
| "handle env srv rq Payroll_Fundings v =
     answering Fundings_Answer (payroll_fundings_handler env (as_plan srv) (as_hex srv) (as_cfg srv) (ht_query rq))"
| "handle env srv rq Payroll_Claims v =
     answering Claims_Answer (payroll_claims_handler env (as_plan srv) (as_hex srv) (as_cfg srv) (ht_query rq))"
| "handle env srv rq Token_Transfers v =
     answering Transfers_Answer (token_transfers_handler env (as_plan srv) (as_hex srv) (as_cfg srv) v (ht_query rq))"
| "handle env srv rq Recon_Exceptions v =
     answering Exceptions_Answer (reconciliation_exceptions_handler env (as_plan srv) (ht_query rq))"
| "handle env srv rq Escrow_Events v = answering Escrow_Answer (escrow_events_handler env (as_plan srv) v)"
| "handle env srv rq Chain_Events v = answering Escrow_Answer (escrow_events_handler env (as_plan srv) v)"

definition serve_mux :: "env \<Rightarrow> api_server \<Rightarrow> http_request \<Rightarrow> answer go" where
  "serve_mux env srv rq =
     (case route (ht_method rq) (ht_path rq) of
        Moved p \<Rightarrow> ret (Redirected p)
      | Unknown_Path \<Rightarrow> ret Not_Found
      | Wrong_Method ms \<Rightarrow> ret (Not_Allowed ms)
      | Handled e v \<Rightarrow> handle env srv rq e v)"

section \<open>Middleware\<close>

datatype log_level = Info | Warn | Error

record access_entry =
  ae_level :: log_level
  ae_method :: string
  ae_path :: string
  ae_status :: int
  ae_request_id :: string

definition level_of :: "int \<Rightarrow> log_level" where
  "level_of status = (if 500 \<le> status then Error else if 400 \<le> status then Warn else Info)"

record reply =
  rp_answer :: answer
  rp_headers :: "(string \<times> string) list"
  rp_log :: "access_entry option"

definition request_id :: "http_request \<Rightarrow> string" where
  "request_id rq = (let given = trim_space (ht_header rq ''X-Request-ID'') in
     if given = [] then hex_encode (ht_random rq) else given)"

definition cors_headers :: "string \<Rightarrow> string \<Rightarrow> (string \<times> string) list" where
  "cors_headers allowed origin =
     (if cors_allowed allowed origin then
        [(''Access-Control-Allow-Origin'', origin),
         (''Access-Control-Allow-Methods'', ''GET, POST, OPTIONS''),
         (''Access-Control-Allow-Headers'', ''Content-Type, Authorization, X-API-Key, X-Request-ID''),
         (''Access-Control-Max-Age'', ''86400'')]
      else [])"

text \<open>The line \<open>Logger\<close> writes, without duration, size and remote address.\<close>

definition logged :: "http_request \<Rightarrow> answer go \<Rightarrow> (answer \<times> access_entry option) go" where
  "logged rq next_handler = bind_go next_handler (\<lambda>a.
     ret (a, Some \<lparr>ae_level = level_of (answer_status a), ae_method = ht_method rq, ae_path = ht_path rq,
       ae_status = answer_status a, ae_request_id = request_id rq\<rparr>))"

definition serve :: "env \<Rightarrow> api_server \<Rightarrow> http_request \<Rightarrow> reply go" where
  "serve env srv rq =
     bind_go (if ht_method rq = ''OPTIONS'' then ret (No_Content, None) else logged rq (serve_mux env srv rq))
       (\<lambda>(a, entry). ret \<lparr>rp_answer = a,
          rp_headers = (''X-Request-ID'', request_id rq) #
            cors_headers (cfg_cors_allowed_origins (as_cfg srv)) (ht_header rq ''Origin''),
          rp_log = entry\<rparr>)"

section \<open>What a request can change\<close>

definition same_state :: "world \<Rightarrow> world \<Rightarrow> bool" where
  "same_state w w' \<longleftrightarrow> w_db w' = w_db w \<and> w_redis w' = w_redis w \<and> w_trace w' = w_trace w"

interpretation reading: effect_relation same_state
  by unfold_locales (auto simp: same_state_def)

lemma reading_checked: "(\<And>x. reading.keeps (k x)) \<Longrightarrow> reading.keeps (checked code m k)"
  by (auto simp: checked_def intro: reading.keeps_rules split: sum.split)

lemma reading_queried: "reading.keeps m \<Longrightarrow> (\<And>x. reading.keeps (k x)) \<Longrightarrow> reading.keeps (queried msg m k)"
  by (auto simp: queried_def intro!: reading.keeps_rules split: sum.split)

lemmas reading_rules = reading.keeps_rules reading_checked reading_queried

lemma reading_lists:
  "reading.keeps (list_fundings env plan ff)" "reading.keeps (list_claims env plan cf)"
  "reading.keeps (list_transfers env plan tf)" "reading.keeps (list_exceptions env plan xf)"
  unfolding list_fundings_def list_claims_def list_transfers_def list_exceptions_def
  by (intro reading_rules)+

lemma reading_gets:
  "reading.keeps (get_all_checkpoints env plan c)" "reading.keeps (get_latest_chain_block env c)"
  "reading.keeps (get_by_hash env plan c h)" "reading.keeps (get_latest_block_number env c)"
  "reading.keeps (get_employer env plan c a)" "reading.keeps (get_employee env plan c a)"
  "reading.keeps (get_escrow_events_by_id env plan s)"
  unfolding get_all_checkpoints_def get_latest_chain_block_def get_by_hash_def get_latest_block_number_def
    get_employer_def get_employee_def get_escrow_events_by_id_def
  by (auto intro!: reading_rules split: option.split)

lemmas handler_defs = health_handler_def ready_handler_def sync_status_handler_def require_operator_auth_def
  sync_backfill_handler_def transaction_handler_def employer_handler_def employee_handler_def
  payroll_fundings_handler_def payroll_claims_handler_def token_transfers_handler_def
  reconciliation_exceptions_handler_def escrow_events_handler_def

text \<open>Every handler but the webhook's only reads.\<close>

lemma reading_handlers: "e \<noteq> Alchemy_Webhook \<Longrightarrow> reading.keeps (handle env srv rq e v)"
  by (cases e) (auto simp: answering_def handler_defs Let_def
      intro!: reading_rules reading_lists reading_gets split: option.split sum.split)


text \<open>No handler gives up without an answer.\<close>

definition answers :: "'a go \<Rightarrow> bool" where
  "answers m \<longleftrightarrow> (\<forall>w. \<exists>x w'. m w = (Inr x, w'))"

lemma answers_ret: "answers (ret x)"
  by (simp add: answers_def ret_def)

lemma answers_attempt: "answers (attempt m)"
  by (simp add: answers_def attempt_def split: prod.split)

lemma answers_bind: "answers m \<Longrightarrow> (\<And>x. answers (k x)) \<Longrightarrow> answers (bind_go m k)"
  unfolding answers_def bind_Inr by blast

lemma answers_checked: "(\<And>x. answers (k x)) \<Longrightarrow> answers (checked code s k)"
  by (simp add: checked_def answers_ret split: sum.split)

lemma answers_queried: "(\<And>x. answers (k x)) \<Longrightarrow> answers (queried msg m k)"
  unfolding queried_def
  by (intro answers_bind answers_attempt) (simp add: answers_ret split: sum.split)

lemmas answers_rules = answers_ret answers_attempt answers_bind answers_checked answers_queried

lemma answers_webhook: "answers (handle_alchemy_webhook env h rq)"
proof -
  have "answers (webhook_logs env h p)" for p using webhook_logs_Inr by (simp add: answers_def)
  then show ?thesis unfolding handle_alchemy_webhook_def
    by (auto intro!: answers_rules split: sum.split)
qed

lemma answers_handlers: "answers (handle env srv rq e v)"
  by (cases e) (auto simp: answering_def handler_defs Let_def
      intro!: answers_rules answers_webhook split: option.split sum.split)

lemma answers_serve: "answers (serve env srv rq)"
  unfolding serve_def logged_def serve_mux_def
  by (auto intro!: answers_rules answers_handlers split: routed.split prod.split)

lemma route_webhook:
  assumes "route actual p = Handled Alchemy_Webhook v"
  shows "actual = ''POST'' \<and> request_segments p = [''api'', ''indexer'', ''webhook'']"
proof -
  obtain m ps where ps: "(m, ps, Alchemy_Webhook) \<in> set routes" "match_segments ps (request_segments p) = Some v"
      "method_matches m actual"
    using assms by (auto simp: handled_iff)
  then have "m = ''POST''" "ps = map Literal [''api'', ''indexer'', ''webhook'']" by (simp_all add: routes_def)
  then show ?thesis using ps(2,3) match_literals [of "[''api'', ''indexer'', ''webhook'']"]
    by (simp add: method_matches_def)
qed

lemma serve_cases:
  assumes "serve env srv rq w = (Inr rp, w')"
  shows "same_state w w' \<or> (\<exists>v a. route (ht_method rq) (ht_path rq) = Handled Alchemy_Webhook v \<and>
    rp_answer rp = Webhook_Answer a \<and> handle_alchemy_webhook env (as_webhook srv)
      \<lparr>rq_body = ht_body rq, rq_signature = ht_header rq ''X-Alchemy-Signature''\<rparr> w = (Inr a, w'))"
proof (cases "ht_method rq = ''OPTIONS''")
  case True
  then show ?thesis using assms by (auto simp: serve_def ret_eq same_state_def)
next
  case False
  then obtain w1 where mux: "serve_mux env srv rq w = (Inr (rp_answer rp), w1)" "w' = w1"
    using assms by (auto simp: serve_def logged_def bind_Inr ret_eq)
  show ?thesis
  proof (cases "\<exists>v. route (ht_method rq) (ht_path rq) = Handled Alchemy_Webhook v")
    case True
    then show ?thesis using mux by (auto simp: serve_mux_def answering_def bind_Inr ret_eq)
  next
    case other: False
    have "reading.keeps (serve_mux env srv rq)" unfolding serve_mux_def
      using other by (auto intro!: reading.keeps_rules reading_handlers split: routed.split)
    then show ?thesis using reading.keepsD mux by blast
  qed
qed

end
