(* ===== verification/Database_Setup.thy ===== *)
theory Database_Setup
  imports Configuration "HOL-Library.List_Lexorder" "HOL-Library.Char_ord" "HOL-Library.Sublist"
begin

text \<open>
  \<open>internal/persistence/postgres.go\<close> and \<open>migrations.go\<close>: the schema name, the connection, and the
  runner of the migrations. Scripts are parameters (what they do to the schema), the list of applied
  versions is the table \<open>schema_migrations\<close>. A fault may hit every statement; a transaction whose commit
  fails leaves no trace.
\<close>

section \<open>Connecting\<close>

definition default_schema :: string where
  "default_schema = ''indexer''"

definition name_start :: "char \<Rightarrow> bool" where
  "name_start c \<longleftrightarrow> (let n = of_char c :: nat in (97 \<le> n \<and> n \<le> 122) \<or> (65 \<le> n \<and> n \<le> 90) \<or> n = 95)"

definition name_char :: "char \<Rightarrow> bool" where
  "name_char c \<longleftrightarrow> name_start c \<or> (let n = of_char c :: nat in 48 \<le> n \<and> n \<le> 57)"

definition schema_pattern :: "string \<Rightarrow> bool" where
  "schema_pattern s = (case s of [] \<Rightarrow> False | c # cs \<Rightarrow> name_start c \<and> list_all name_char cs)"

definition schema_name :: "query \<Rightarrow> goerror + string" where
  "schema_name getenv =
     (let s = or_default (getenv ''DB_SCHEMA'') default_schema in
      if schema_pattern s then Inr s
      else Inl (new_error (''invalid DB_SCHEMA '' @ quote s @ '': must match [a-zA-Z_][a-zA-Z0-9_]*'')))"

text \<open>\<open>pgx.Identifier.Sanitize\<close> of one part.\<close>

definition sanitize :: "string \<Rightarrow> string" where
  "sanitize s = [CHR 0x22] @ concat (map (\<lambda>c. if c = CHR 0x22 then [c, c] else [c]) s) @ [CHR 0x22]"

text \<open>What pgx answers: to parsing the URL, connecting, a statement, creating the pool and the ping.\<close>

record pgx_lib =
  pl_parse :: "string \<Rightarrow> goerror option"
  pl_connect :: "goerror option"
  pl_exec :: "string \<Rightarrow> goerror option"
  pl_pool :: "goerror option"
  pl_ping :: "goerror option"

definition succeeded :: "string \<Rightarrow> goerror option \<Rightarrow> goerror + unit" where
  "succeeded msg e = (case e of None \<Rightarrow> Inr () | Some x \<Rightarrow> Inl (wrap_error msg x))"

definition ensure_schema :: "pgx_lib \<Rightarrow> string \<Rightarrow> goerror + unit" where
  "ensure_schema lib schema =
     and_then (succeeded ''failed to connect to PostgreSQL'' (pl_connect lib)) (\<lambda>_.
     succeeded (''failed to create schema '' @ quote schema)
       (pl_exec lib (''CREATE SCHEMA IF NOT EXISTS '' @ sanitize schema)))"

text \<open>The pool with the schema it is bound to, and the statement each of its connections starts with.\<close>

record postgres =
  pg_schema :: string
  pg_after_connect :: string

definition new_postgres :: "pgx_lib \<Rightarrow> query \<Rightarrow> string \<Rightarrow> goerror + postgres" where
  "new_postgres lib getenv url =
     (if url = [] then Inl (new_error ''database URL is empty'')
      else
        and_then (schema_name getenv) (\<lambda>schema.
        and_then (succeeded ''failed to parse database URL'' (pl_parse lib url)) (\<lambda>_.
        and_then (ensure_schema lib schema) (\<lambda>_.
        and_then (succeeded ''failed to create PostgreSQL pool'' (pl_pool lib)) (\<lambda>_.
        and_then (succeeded ''failed to connect to PostgreSQL'' (pl_ping lib)) (\<lambda>_.
        Inr \<lparr>pg_schema = schema,
          pg_after_connect = ''SET search_path TO '' @ sanitize schema @ '', public''\<rparr>))))))"

text \<open>An accepted name is a plain identifier, so no statement built from it says anything else.\<close>

lemma sanitize_plain: "list_all name_char s \<Longrightarrow> sanitize s = [CHR 0x22] @ s @ [CHR 0x22]"
proof -
  assume plain: "list_all name_char s"
  have "\<not> name_char (CHR 0x22)" by (simp add: name_char_def name_start_def)
  then have "concat (map (\<lambda>c. if c = CHR 0x22 then [c, c] else [c]) s) = s"
    using plain by (induction s) auto
  then show ?thesis by (simp add: sanitize_def)
qed

lemma schema_name_plain:
  assumes "schema_name getenv = Inr s"
  shows "s \<noteq> [] \<and> list_all name_char s \<and> sanitize s = [CHR 0x22] @ s @ [CHR 0x22]"
proof -
  have "schema_pattern s" using assms by (auto simp: schema_name_def Let_def split: if_splits)
  then have "s \<noteq> []" "list_all name_char s"
    by (auto simp: schema_pattern_def name_char_def split: list.splits)
  then show ?thesis by (simp add: sanitize_plain)
qed

section \<open>Migrations\<close>

text \<open>The table of the applied versions, if it exists, and the rest of the schema.\<close>

record 's catalog =
  cat_versions :: "string list option"
  cat_schema :: 's

record 's setup_world =
  sw_db :: "'s catalog"
  sw_printed :: "string list"
  sw_tick :: nat

text \<open>The directory, the script a file holds, what a script does, and the faults of the database.\<close>

record 's migration_lib =
  ml_entries :: "goerror + (string \<times> bool) list"
  ml_read :: "string \<Rightarrow> goerror + string"
  ml_exec :: "string \<Rightarrow> 's \<Rightarrow> goerror + 's"
  ml_fault :: "nat \<Rightarrow> goerror option"

type_synonym ('s, 'a) setup_step = "'s setup_world \<Rightarrow> (goerror + 'a) \<times> 's setup_world"

definition bind_setup :: "('s, 'a) setup_step \<Rightarrow> ('a \<Rightarrow> ('s, 'b) setup_step) \<Rightarrow> ('s, 'b) setup_step" where
  "bind_setup m k = (\<lambda>w. case m w of (Inl e, w') \<Rightarrow> (Inl e, w') | (Inr x, w') \<Rightarrow> k x w')"

definition lift_setup :: "goerror + 'a \<Rightarrow> ('s, 'a) setup_step" where
  "lift_setup r = (\<lambda>w. (r, w))"

definition setup_error :: "string \<Rightarrow> ('s, 'a) setup_step \<Rightarrow> ('s, 'a) setup_step" where
  "setup_error msg m = (\<lambda>w. case m w of (Inl e, w') \<Rightarrow> (Inl (wrap_error msg e), w') | y \<Rightarrow> y)"

text \<open>One request to the database.\<close>

definition request :: "'s migration_lib \<Rightarrow> ('s catalog \<Rightarrow> goerror + 'a \<times> 's catalog) \<Rightarrow> ('s, 'a) setup_step" where
  "request lib f = (\<lambda>w.
     let w1 = w\<lparr>sw_tick := Suc (sw_tick w)\<rparr> in
     case ml_fault lib (sw_tick w) of
       Some e \<Rightarrow> (Inl e, w1)
     | None \<Rightarrow> (case f (sw_db w) of Inl e \<Rightarrow> (Inl e, w1) | Inr (x, d) \<Rightarrow> (Inr x, w1\<lparr>sw_db := d\<rparr>)))"

definition create_versions :: "'s catalog \<Rightarrow> goerror + unit \<times> 's catalog" where
  "create_versions d = Inr ((), d\<lparr>cat_versions := Some (case cat_versions d of None \<Rightarrow> [] | Some vs \<Rightarrow> vs)\<rparr>)"

definition missing_table :: goerror where
  "missing_table = new_error ''relation schema_migrations does not exist''"

definition version_exists :: "string \<Rightarrow> 's catalog \<Rightarrow> goerror + bool \<times> 's catalog" where
  "version_exists v d = (case cat_versions d of None \<Rightarrow> Inl missing_table | Some vs \<Rightarrow> Inr (v \<in> set vs, d))"

definition run_script :: "'s migration_lib \<Rightarrow> string \<Rightarrow> 's catalog \<Rightarrow> goerror + unit \<times> 's catalog" where
  "run_script lib content d =
     (case ml_exec lib content (cat_schema d) of Inl e \<Rightarrow> Inl e | Inr s \<Rightarrow> Inr ((), d\<lparr>cat_schema := s\<rparr>))"

definition insert_version :: "string \<Rightarrow> 's catalog \<Rightarrow> goerror + unit \<times> 's catalog" where
  "insert_version v d = (case cat_versions d of
       None \<Rightarrow> Inl missing_table
     | Some vs \<Rightarrow>
         if v \<in> set vs then Inl (new_error ''duplicate key value violates unique constraint'')
         else if 255 < length v then Inl (new_error ''value too long for type character varying(255)'')
         else Inr ((), d\<lparr>cat_versions := Some (vs @ [v])\<rparr>))"

text \<open>Begin, script, record, commit; every failure brings back the database of the begin.\<close>

definition apply_migration :: "'s migration_lib \<Rightarrow> string \<Rightarrow> string \<Rightarrow> ('s, unit) setup_step" where
  "apply_migration lib filename content = (\<lambda>w.
     let tx =
       bind_setup (setup_error (''failed to begin transaction for '' @ filename)
         (request lib (\<lambda>d. Inr ((), d)))) (\<lambda>_.
       bind_setup (setup_error (''failed to execute migration '' @ filename)
         (request lib (run_script lib content))) (\<lambda>_.
       bind_setup (setup_error (''failed to record migration '' @ filename)
         (request lib (insert_version filename))) (\<lambda>_.
       setup_error (''failed to commit migration '' @ filename) (request lib (\<lambda>d. Inr ((), d))))))
     in case tx w of
          (Inl e, w') \<Rightarrow> (Inl e, w'\<lparr>sw_db := sw_db w\<rparr>)
        | (Inr u, w') \<Rightarrow> (Inr u, w'\<lparr>sw_printed := sw_printed w' @ [filename]\<rparr>))"

definition migrate_file :: "'s migration_lib \<Rightarrow> string \<Rightarrow> ('s, unit) setup_step" where
  "migrate_file lib filename =
     bind_setup (setup_error (''failed to check migration status for '' @ filename)
       (request lib (version_exists filename))) (\<lambda>exists.
     if exists then lift_setup (Inr ())
     else
       bind_setup (setup_error (''failed to read migration file '' @ filename)
         (lift_setup (ml_read lib filename))) (\<lambda>content.
       apply_migration lib filename content))"

fun migrate_files :: "'s migration_lib \<Rightarrow> string list \<Rightarrow> ('s, unit) setup_step" where
  "migrate_files lib [] = lift_setup (Inr ())"
| "migrate_files lib (f # fs) = bind_setup (migrate_file lib f) (\<lambda>_. migrate_files lib fs)"

definition up_files :: "(string \<times> bool) list \<Rightarrow> string list" where
  "up_files entries = sort (map fst (filter (\<lambda>(name, is_dir). \<not> is_dir \<and> suffix ''.up.sql'' name) entries))"

definition run_migrations :: "'s migration_lib \<Rightarrow> bool \<Rightarrow> string \<Rightarrow> ('s, unit) setup_step" where
  "run_migrations lib pool dir =
     (if \<not> pool then lift_setup (Inl (new_error ''database pool is nil''))
      else
        bind_setup (setup_error ''failed to create schema_migrations table'' (request lib create_versions)) (\<lambda>_.
        bind_setup (setup_error (''failed to read migrations directory '' @ dir)
          (lift_setup (ml_entries lib))) (\<lambda>entries.
        migrate_files lib (up_files entries))))"

section \<open>What a run does\<close>

definition versions :: "'s catalog \<Rightarrow> string list" where
  "versions d = (case cat_versions d of None \<Rightarrow> [] | Some vs \<Rightarrow> vs)"

text \<open>The reference: the scripts of the files one after the other.\<close>

fun run_scripts :: "'s migration_lib \<Rightarrow> string list \<Rightarrow> 's \<Rightarrow> goerror + 's" where
  "run_scripts lib [] s = Inr s"
| "run_scripts lib (f # fs) s =
     and_then (ml_read lib f) (\<lambda>c. and_then (ml_exec lib c s) (\<lambda>s'. run_scripts lib fs s'))"

lemma run_scripts_append:
  "run_scripts lib (fs @ gs) s = and_then (run_scripts lib fs s) (run_scripts lib gs)"
proof (induction fs arbitrary: s)
  case (Cons f fs)
  then show ?case by (cases "ml_read lib f") (auto simp: and_then_def split: sum.split)
qed (simp add: and_then_def)

lemma run_scripts_fault [simp]: "run_scripts (lib\<lparr>ml_fault := f\<rparr>) fs s = run_scripts lib fs s"
proof (induction fs arbitrary: s)
  case (Cons g fs)
  then have "run_scripts (lib\<lparr>ml_fault := f\<rparr>) fs = run_scripts lib fs" by (simp add: fun_eq_iff)
  then show ?case by simp
qed simp

lemma request_cases:
  assumes "request lib f w = (r, w')"
  obtains (failed) e where "r = Inl e" "sw_db w' = sw_db w" "sw_printed w' = sw_printed w"
  | (answered) x where "r = Inr x" "f (sw_db w) = Inr (x, sw_db w')" "sw_printed w' = sw_printed w"
  using assms by (auto simp: request_def Let_def split: option.splits sum.splits prod.splits)

lemma bind_setup_Inr: "bind_setup m k w = (Inr y, w') \<longleftrightarrow> (\<exists>x w1. m w = (Inr x, w1) \<and> k x w1 = (Inr y, w'))"
  by (auto simp: bind_setup_def split: prod.splits sum.splits)

lemma setup_error_Inr: "setup_error msg m w = (Inr x, w') \<longleftrightarrow> m w = (Inr x, w')"
  by (auto simp: setup_error_def split: prod.splits sum.splits)

lemma request_Inr:
  "request lib f w = (Inr x, w') \<Longrightarrow> f (sw_db w) = Inr (x, sw_db w') \<and> sw_printed w' = sw_printed w"
  by (auto elim: request_cases)

lemma request_frame:
  "request lib f w = (r, w') \<Longrightarrow> sw_printed w' = sw_printed w \<and> (\<forall>e. r = Inl e \<longrightarrow> sw_db w' = sw_db w)"
  by (auto elim!: request_cases)

definition silent :: "('s, 'a) setup_step \<Rightarrow> bool" where
  "silent m \<longleftrightarrow> (\<forall>w. sw_printed (snd (m w)) = sw_printed w)"

lemma silent_rules:
  "silent (request lib f)" "silent m \<Longrightarrow> silent (setup_error msg m)"
  "silent m \<Longrightarrow> (\<And>x. silent (k x)) \<Longrightarrow> silent (bind_setup m k)"
  by (auto simp: silent_def request_def setup_error_def bind_setup_def Let_def split: option.split sum.split prod.split)
    (metis snd_conv)+

lemma apply_migration_cases:
  assumes "apply_migration lib f c w = (r, w')"
  obtains (failed) e where "r = Inl e" "sw_db w' = sw_db w" "sw_printed w' = sw_printed w"
  | (applied) vs s where "r = Inr ()" "cat_versions (sw_db w) = Some vs" "f \<notin> set vs"
      "ml_exec lib c (cat_schema (sw_db w)) = Inr s" "sw_db w' = \<lparr>cat_versions = Some (vs @ [f]), cat_schema = s\<rparr>"
      "sw_printed w' = sw_printed w @ [f]"
proof -
  let ?tx = "bind_setup (setup_error (''failed to begin transaction for '' @ f) (request lib (\<lambda>d. Inr ((), d)))) (\<lambda>_.
       bind_setup (setup_error (''failed to execute migration '' @ f) (request lib (run_script lib c))) (\<lambda>_.
       bind_setup (setup_error (''failed to record migration '' @ f) (request lib (insert_version f))) (\<lambda>_.
       setup_error (''failed to commit migration '' @ f) (request lib (\<lambda>d. Inr ((), d))))))"
  have quiet: "silent ?tx" by (intro silent_rules)
  obtain r1 w1 where tx: "?tx w = (r1, w1)" by fastforce
  then have printed: "sw_printed w1 = sw_printed w" using quiet unfolding silent_def by (metis snd_conv)
  show ?thesis
  proof (cases r1)
    case (Inl e)
    then show ?thesis using assms tx printed failed by (auto simp: apply_migration_def)
  next
    case (Inr u)
    with tx obtain v1 v2 v3 where steps: "request lib (\<lambda>d. Inr ((), d)) w = (Inr (), v1)"
      "request lib (run_script lib c) v1 = (Inr (), v2)" "request lib (insert_version f) v2 = (Inr (), v3)"
      "request lib (\<lambda>d. Inr ((), d)) v3 = (Inr (), w1)"
      by (auto simp: bind_setup_Inr setup_error_Inr)
    have "sw_db v1 = sw_db w" "sw_db w1 = sw_db v3"
      using request_Inr [OF steps(1)] request_Inr [OF steps(4)] by simp_all
    moreover obtain s where "ml_exec lib c (cat_schema (sw_db v1)) = Inr s" "sw_db v2 = (sw_db v1)\<lparr>cat_schema := s\<rparr>"
      using request_Inr [OF steps(2)] by (auto simp: run_script_def split: sum.splits)
    moreover obtain vs where "cat_versions (sw_db v2) = Some vs" "f \<notin> set vs"
      "sw_db v3 = (sw_db v2)\<lparr>cat_versions := Some (vs @ [f])\<rparr>"
      using request_Inr [OF steps(3)] by (auto simp: insert_version_def split: option.splits if_splits)
    ultimately show ?thesis
      using assms tx Inr printed applied [of vs s] by (auto simp: apply_migration_def)
  qed
qed

lemma migrate_file_cases:
  assumes "migrate_file lib f w = (r, w')" "cat_versions (sw_db w) = Some vs"
  obtains (failed) e where "r = Inl e" "sw_db w' = sw_db w" "sw_printed w' = sw_printed w"
  | (known) "f \<in> set vs" "r = Inr ()" "sw_db w' = sw_db w" "sw_printed w' = sw_printed w"
  | (applied) c s where "f \<notin> set vs" "r = Inr ()" "ml_read lib f = Inr c" "ml_exec lib c (cat_schema (sw_db w)) = Inr s"
      "sw_db w' = \<lparr>cat_versions = Some (vs @ [f]), cat_schema = s\<rparr>" "sw_printed w' = sw_printed w @ [f]"
proof -
  obtain q w1 where q: "request lib (version_exists f) w = (q, w1)" by fastforce
  show ?thesis
  proof (cases q)
    case (Inl e)
    then show ?thesis
      using assms(1) q failed request_frame [OF q] by (auto simp: migrate_file_def bind_setup_def setup_error_def)
  next
    case (Inr b)
    then have b: "b = (f \<in> set vs)" and same: "sw_db w1 = sw_db w" "sw_printed w1 = sw_printed w"
      using request_Inr [of lib "version_exists f" w b w1] q assms(2) by (auto simp: version_exists_def)
    have next_step: "migrate_file lib f w = (if b then (Inr (), w1)
        else bind_setup (setup_error (''failed to read migration file '' @ f) (lift_setup (ml_read lib f)))
               (\<lambda>content. apply_migration lib f content) w1)"
      using q Inr by (simp add: migrate_file_def bind_setup_def setup_error_def lift_setup_def)
    show ?thesis
    proof (cases b)
      case True
      then show ?thesis using next_step assms(1) b same known by auto
    next
      case False
      show ?thesis
      proof (cases "ml_read lib f")
        case (Inl e)
        then show ?thesis
          using next_step assms(1) False same failed by (auto simp: bind_setup_def setup_error_def lift_setup_def)
      next
        case c: (Inr c)
        then have run: "apply_migration lib f c w1 = (r, w')"
          using next_step assms(1) False by (simp add: bind_setup_def setup_error_def lift_setup_def)
        then show ?thesis
          by (cases rule: apply_migration_cases) (use same failed applied c b False assms(2) in auto)
      qed
    qed
  qed
qed

lemma migrate_files_run:
  assumes "migrate_files lib fs w = (r, w')" "cat_versions (sw_db w) = Some vs" "distinct fs"
  shows "\<exists>done rest. filter (\<lambda>f. f \<notin> set vs) fs = done @ rest \<and> cat_versions (sw_db w') = Some (vs @ done) \<and>
    run_scripts lib done (cat_schema (sw_db w)) = Inr (cat_schema (sw_db w')) \<and>
    sw_printed w' = sw_printed w @ done \<and> (r = Inr () \<longrightarrow> rest = [])"
  using assms
proof (induction fs arbitrary: w vs)
  case Nil
  then show ?case by (auto simp: lift_setup_def)
next
  case (Cons f fs)
  obtain q w1 where q: "migrate_file lib f w = (q, w1)" by fastforce
  from q Cons.prems(2) show ?case
  proof (cases rule: migrate_file_cases)
    case (failed e)
    then have "r = Inl e" "w' = w1" using Cons.prems(1) q by (simp_all add: bind_setup_def)
    then show ?thesis using failed Cons.prems(2)
      by (intro exI [of _ "[]"] exI [of _ "filter (\<lambda>f. f \<notin> set vs) (f # fs)"]) simp
  next
    case known
    then have "migrate_files lib fs w1 = (r, w')" using Cons.prems(1) q by (simp add: bind_setup_def)
    from Cons.IH [OF this] show ?thesis using known Cons.prems(2,3) by simp
  next
    case (applied c s)
    then have run: "migrate_files lib fs w1 = (r, w')" using Cons.prems(1) q by (simp add: bind_setup_def)
    have "cat_versions (sw_db w1) = Some (vs @ [f])" "distinct fs" using applied Cons.prems(3) by simp_all
    from Cons.IH [OF run this] obtain rest ready where IH:
      "filter (\<lambda>g. g \<notin> set (vs @ [f])) fs = ready @ rest" "cat_versions (sw_db w') = Some ((vs @ [f]) @ ready)"
      "run_scripts lib ready (cat_schema (sw_db w1)) = Inr (cat_schema (sw_db w'))"
      "sw_printed w' = sw_printed w1 @ ready" "r = Inr () \<longrightarrow> rest = []"
      by blast
    have "filter (\<lambda>g. g \<notin> set (vs @ [f])) fs = filter (\<lambda>g. g \<notin> set vs) fs"
      using Cons.prems(3) by (intro filter_cong) auto
    then show ?thesis
      using IH applied by (intro exI [of _ "f # ready"] exI [of _ rest]) (simp add: and_then_def)
  qed
qed

definition pending :: "(string \<times> bool) list \<Rightarrow> 's catalog \<Rightarrow> string list" where
  "pending entries d = filter (\<lambda>f. f \<notin> set (versions d)) (up_files entries)"

lemma distinct_up_files: "distinct (map fst entries) \<Longrightarrow> distinct (up_files entries)"
  by (simp add: up_files_def distinct_map_filter)

lemma run_migrations_cases:
  assumes "run_migrations lib True dir w = (r, w')" "ml_entries lib = Inr entries" "distinct (map fst entries)"
  shows "\<exists>ready rest. pending entries (sw_db w) = ready @ rest \<and> versions (sw_db w') = versions (sw_db w) @ ready \<and>
    run_scripts lib ready (cat_schema (sw_db w)) = Inr (cat_schema (sw_db w')) \<and>
    sw_printed w' = sw_printed w @ ready \<and> (r = Inr () \<longrightarrow> rest = []) \<and>
    (r = Inr () \<or> cat_versions (sw_db w) \<noteq> None \<longrightarrow> cat_versions (sw_db w') \<noteq> None)"
proof -
  obtain q w1 where q: "request lib create_versions w = (q, w1)" by fastforce
  show ?thesis
  proof (cases q)
    case (Inl e)
    then have "r \<noteq> Inr ()" "w' = w1" using assms(1) q by (auto simp: run_migrations_def bind_setup_def setup_error_def)
    then show ?thesis using request_frame [OF q] Inl
      by (intro exI [of _ "[]"] exI [of _ "pending entries (sw_db w)"]) simp
  next
    case (Inr u)
    then have created: "sw_db w1 = (sw_db w)\<lparr>cat_versions := Some (versions (sw_db w))\<rparr>" "sw_printed w1 = sw_printed w"
      using request_Inr [of lib create_versions w u w1] q by (auto simp: create_versions_def versions_def)
    have "migrate_files lib (up_files entries) w1 = (r, w')"
      using assms(1,2) q Inr by (simp add: run_migrations_def bind_setup_def setup_error_def lift_setup_def)
    from migrate_files_run [OF this _ distinct_up_files [OF assms(3)], of "versions (sw_db w)"]
    show ?thesis using created by (auto simp: pending_def versions_def)
  qed
qed

text \<open>
  C32. What \<open>RunMigrations\<close> does, whatever statement fails: of the up-scripts of the directory that are not
  recorded yet, in the order of their names, it commits an initial part, each script together with its
  record; the schema is what these scripts make of it one after the other, and the command has printed
  exactly their names. Success means that none is left.
\<close>

theorem migrations_exact:
  assumes "run_migrations lib True dir w = (r, w')" "ml_entries lib = Inr entries" "distinct (map fst entries)"
  shows "sorted (up_files entries) \<and>
    (\<exists>ready rest. pending entries (sw_db w) = ready @ rest \<and> versions (sw_db w') = versions (sw_db w) @ ready \<and>
       run_scripts lib ready (cat_schema (sw_db w)) = Inr (cat_schema (sw_db w')) \<and>
       sw_printed w' = sw_printed w @ ready \<and> (r = Inr () \<longrightarrow> rest = []))"
  using run_migrations_cases [OF assms] by (auto simp: up_files_def)

text \<open>The migrations of the repository, whose scripts append a letter; the third commit fails.\<close>

definition sample_entries :: "(string \<times> bool) list" where
  "sample_entries = [(''000003_api_indexes.up.sql'', False), (''000001_initial_schema.down.sql'', False),
     (''000001_initial_schema.up.sql'', False), (''archive.up.sql'', True),
     (''000002_token_transfers_and_checkpoints.up.sql'', False)]"

definition sample_migrations :: "string migration_lib" where
  "sample_migrations = \<lparr>ml_entries = Inr sample_entries, ml_read = (\<lambda>f. Inr [f ! 5]), ml_exec = (\<lambda>c s. Inr (s @ c)),
     ml_fault = (\<lambda>n. if n = 15 then Some (new_error ''connection reset'') else None)\<rparr>"

definition fresh_setup :: "string setup_world" where
  "fresh_setup = \<lparr>sw_db = \<lparr>cat_versions = None, cat_schema = []\<rparr>, sw_printed = [], sw_tick = 0\<rparr>"

lemma sample_entries_distinct: "distinct (map fst sample_entries)"
  by (simp add: sample_entries_def)

theorem migrations_exact_witness:
  "let w' = snd (run_migrations sample_migrations True ''migrations'' fresh_setup) in
     versions (sw_db w') = [''000001_initial_schema.up.sql'', ''000002_token_transfers_and_checkpoints.up.sql''] \<and>
     cat_schema (sw_db w') = ''12'' \<and>
     (\<exists>ready. versions (sw_db w') = versions (sw_db fresh_setup) @ ready \<and>
        run_scripts sample_migrations ready [] = Inr ''12'')"
proof -
  obtain r w' where run: "run_migrations sample_migrations True ''migrations'' fresh_setup = (r, w')" by fastforce
  have "(versions (sw_db (snd (run_migrations sample_migrations True ''migrations'' fresh_setup))),
      cat_schema (sw_db (snd (run_migrations sample_migrations True ''migrations'' fresh_setup)))) =
    ([''000001_initial_schema.up.sql'', ''000002_token_transfers_and_checkpoints.up.sql''], ''12'')"
    by code_simp
  then have state: "versions (sw_db w') = [''000001_initial_schema.up.sql'', ''000002_token_transfers_and_checkpoints.up.sql'']"
    "cat_schema (sw_db w') = ''12''" by (simp_all add: run)
  have "ml_entries sample_migrations = Inr sample_entries" by (simp add: sample_migrations_def)
  from migrations_exact [OF run this sample_entries_distinct] obtain ready where
    "versions (sw_db w') = versions (sw_db fresh_setup) @ ready"
    "run_scripts sample_migrations ready (cat_schema (sw_db fresh_setup)) = Inr (cat_schema (sw_db w'))"
    by blast
  moreover have "cat_schema (sw_db fresh_setup) = []" by (simp add: fresh_setup_def)
  ultimately show ?thesis unfolding Let_def run snd_conv using state by metis
qed

text \<open>
  C33. Interruption and repetition. After a run that was stopped by any fault, a second run that succeeds
  leaves the database one undisturbed run would have left, and a third run applies nothing.
\<close>

theorem migrations_resume:
  assumes "run_migrations (lib\<lparr>ml_fault := f1\<rparr>) True dir w = (r1, w1)"
    and "run_migrations (lib\<lparr>ml_fault := f2\<rparr>) True dir w1 = (Inr (), w2)"
    and "run_migrations (lib\<lparr>ml_fault := f3\<rparr>) True dir w = (Inr (), w3)"
    and "run_migrations (lib\<lparr>ml_fault := f4\<rparr>) True dir w2 = (r4, w4)"
    and "ml_entries lib = Inr entries" "distinct (map fst entries)"
  shows "sw_db w2 = sw_db w3 \<and> sw_printed w4 = sw_printed w2 \<and> sw_db w4 = sw_db w2"
proof -
  have entries: "ml_entries (lib\<lparr>ml_fault := f\<rparr>) = Inr entries" for f using assms(5) by simp
  obtain d1 rest1 where one: "pending entries (sw_db w) = d1 @ rest1" "versions (sw_db w1) = versions (sw_db w) @ d1"
      "run_scripts lib d1 (cat_schema (sw_db w)) = Inr (cat_schema (sw_db w1))"
    using run_migrations_cases [OF assms(1) entries assms(6)] by auto
  have two: "versions (sw_db w2) = versions (sw_db w1) @ pending entries (sw_db w1)" "cat_versions (sw_db w2) \<noteq> None"
      "run_scripts lib (pending entries (sw_db w1)) (cat_schema (sw_db w1)) = Inr (cat_schema (sw_db w2))"
    using run_migrations_cases [OF assms(2) entries assms(6)] by auto
  have three: "versions (sw_db w3) = versions (sw_db w) @ pending entries (sw_db w)" "cat_versions (sw_db w3) \<noteq> None"
      "run_scripts lib (pending entries (sw_db w)) (cat_schema (sw_db w)) = Inr (cat_schema (sw_db w3))"
    using run_migrations_cases [OF assms(3) entries assms(6)] by auto
  have "distinct (pending entries (sw_db w))"
    by (simp add: pending_def distinct_up_files [OF assms(6)])
  have "pending entries (sw_db w1) = filter (\<lambda>f. f \<notin> set d1) (pending entries (sw_db w))"
    by (simp add: pending_def one(2) filter_filter conj_commute)
  also have "\<dots> = rest1" using \<open>distinct (pending entries (sw_db w))\<close> unfolding one(1)
    by (auto simp: filter_id_conv filter_empty_conv)
  finally have rest: "pending entries (sw_db w1) = rest1" .
  have "versions (sw_db w2) = versions (sw_db w3)" using one(1,2) two(1) three(1) rest by simp
  moreover have "cat_schema (sw_db w2) = cat_schema (sw_db w3)"
    using two(3) three(3) one(1,3) rest by (simp add: run_scripts_append and_then_def)
  ultimately have same: "sw_db w2 = sw_db w3"
    using two(2) three(2) by (cases "sw_db w2"; cases "sw_db w3") (auto simp: versions_def)
  have none: "pending entries (sw_db w2) = []"
    using two(1) by (auto simp: pending_def filter_empty_conv)
  obtain d4 rest4 where four: "pending entries (sw_db w2) = d4 @ rest4" "versions (sw_db w4) = versions (sw_db w2) @ d4"
      "run_scripts lib d4 (cat_schema (sw_db w2)) = Inr (cat_schema (sw_db w4))" "sw_printed w4 = sw_printed w2 @ d4"
      "cat_versions (sw_db w4) \<noteq> None"
    using run_migrations_cases [OF assms(4) entries assms(6)] two(2) by auto
  have "sw_db w4 = sw_db w2"
    using four none two(2) by (cases "sw_db w2"; cases "sw_db w4") (auto simp: versions_def)
  then show ?thesis using same four none by simp
qed

text \<open>The run above resumed.\<close>

definition calm_migrations :: "string migration_lib" where
  "calm_migrations = sample_migrations\<lparr>ml_fault := (\<lambda>_. None)\<rparr>"

theorem migrations_resume_witness:
  "let w1 = snd (run_migrations sample_migrations True ''migrations'' fresh_setup);
       w2 = snd (run_migrations calm_migrations True ''migrations'' w1);
       w3 = snd (run_migrations calm_migrations True ''migrations'' fresh_setup);
       w4 = snd (run_migrations calm_migrations True ''migrations'' w2)
   in cat_schema (sw_db w1) = ''12'' \<and> cat_schema (sw_db w2) = ''123'' \<and> sw_db w2 = sw_db w3 \<and>
      sw_printed w4 = sw_printed w2"
proof -
  let ?f = "\<lambda>n::nat. if n = 15 then Some (new_error ''connection reset'') else None"
  let ?w1 = "snd (run_migrations sample_migrations True ''migrations'' fresh_setup)"
  let ?w2 = "snd (run_migrations calm_migrations True ''migrations'' ?w1)"
  have eval: "(cat_schema (sw_db ?w1), cat_schema (sw_db ?w2)) = (''12'', ''123'')"
    "fst (run_migrations calm_migrations True ''migrations'' ?w1) = Inr ()"
    "fst (run_migrations calm_migrations True ''migrations'' fresh_setup) = Inr ()"
    by code_simp+
  have libs: "sample_migrations = sample_migrations\<lparr>ml_fault := ?f\<rparr>" "ml_entries sample_migrations = Inr sample_entries"
    by (simp_all add: sample_migrations_def)
  have run: "y = (fst y, snd y)" for y :: "(goerror + unit) \<times> string setup_world" by simp
  have "sw_db ?w2 = sw_db (snd (run_migrations calm_migrations True ''migrations'' fresh_setup)) \<and>
      sw_printed (snd (run_migrations calm_migrations True ''migrations'' ?w2)) = sw_printed ?w2 \<and>
      sw_db (snd (run_migrations calm_migrations True ''migrations'' ?w2)) = sw_db ?w2"
    by (rule migrations_resume [where lib = sample_migrations and ?f1.0 = ?f and ?f2.0 = "\<lambda>_. None" and
          ?f3.0 = "\<lambda>_. None" and ?f4.0 = "\<lambda>_. None" and dir = "''migrations''" and w = fresh_setup and ?w1.0 = ?w1 and
          entries = sample_entries])
      (use eval libs sample_entries_distinct in \<open>simp_all add: calm_migrations_def [symmetric] prod_eq_iff\<close>)
  then show ?thesis using eval(1) by (simp add: Let_def)
qed

end
