(* ===== verification/Api_Command.thy ===== *)
theory Api_Command
  imports Api_Router Database_Setup
begin

text \<open>
  \<open>cmd/api/main.go\<close> up to the router it serves, and \<open>cmd/inspect-schema/main.go\<close>. The API starts when its
  configuration loads and the database can be reached; failing migrations and a missing Redis are only
  logged. Whatever is asked of a running API, only a signed webhook changes something.
\<close>

section \<open>Start\<close>

text \<open>What \<open>os.Stat\<close> finds.\<close>

datatype stat_result = Present | Absent | Unreadable

definition migrations_dir :: "(string \<Rightarrow> stat_result) \<Rightarrow> string option" where
  "migrations_dir stat =
     (let dir = (if stat ''./migrations'' = Absent then ''../../migrations'' else ''./migrations'') in
      if stat dir = Present then Some dir else None)"

definition redis_client :: "(string \<Rightarrow> goerror option) \<Rightarrow> string \<Rightarrow> goerror + string" where
  "redis_client ping addr =
     (let addr = (if addr = [] then ''localhost:6379'' else addr) in
      case ping addr of
        None \<Rightarrow> Inr addr
      | Some e \<Rightarrow> Inl (wrap_error (''failed to connect to Redis at '' @ addr) e))"

definition try_migrations ::
  "(string \<Rightarrow> stat_result) \<Rightarrow> (string \<Rightarrow> 's migration_lib) \<Rightarrow> ('s, unit) setup_step" where
  "try_migrations stat ml = (case migrations_dir stat of
       None \<Rightarrow> lift_setup (Inr ()) | Some dir \<Rightarrow> run_migrations (ml dir) True dir)"

text \<open>A warning is logged and the start goes on.\<close>

definition only_warned :: "('s, unit) setup_step \<Rightarrow> ('s, unit) setup_step" where
  "only_warned m = (\<lambda>w. (Inr (), snd (m w)))"

text \<open>The libraries: parsing of floats, pgx, the file system, the scripts, Redis, and those of the router.\<close>

record 's api_lib =
  pb_parse_float :: "string \<Rightarrow> rat option"
  pb_pgx :: pgx_lib
  pb_stat :: "string \<Rightarrow> stat_result"
  pb_scripts :: "string \<Rightarrow> 's migration_lib"
  pb_redis_ping :: "string \<Rightarrow> goerror option"
  pb_router :: api_server

text \<open>The router and the address it listens on.\<close>

definition api_command :: "'s api_lib \<Rightarrow> query \<Rightarrow> ('s, api_server \<times> string) setup_step" where
  "api_command lib getenv =
     bind_setup (setup_error ''configuration loading failed'' (lift_setup (load (pb_parse_float lib) getenv))) (\<lambda>cfg.
     bind_setup (setup_error ''database connection failed''
       (lift_setup (new_postgres (pb_pgx lib) getenv (cfg_database_url cfg)))) (\<lambda>db.
     bind_setup (only_warned (try_migrations (pb_stat lib) (pb_scripts lib))) (\<lambda>_.
     let redis = cfg_redis_url cfg \<noteq> [] \<and>
           (case redis_client (pb_redis_ping lib) (cfg_redis_url cfg) of Inl e \<Rightarrow> False | Inr a \<Rightarrow> True) in
     lift_setup (Inr (new_router (pb_router lib) cfg redis,
       cfg_api_host cfg @ '':'' @ dec_int (cfg_api_port cfg))))))"

text \<open>
  \<open>inspect-schema\<close>, which returns what it prints: the tables and the foreign keys PostgreSQL's catalogue
  lists for the schema.
\<close>

definition catalog_query :: "'s migration_lib \<Rightarrow> ('s \<Rightarrow> 'a list) \<Rightarrow> ('s, 'a list) setup_step" where
  "catalog_query ml f = request ml (\<lambda>d. Inr (f (cat_schema d), d))"

definition inspect_schema ::
  "'s api_lib \<Rightarrow> 's migration_lib \<Rightarrow> (string \<Rightarrow> 's \<Rightarrow> string list) \<Rightarrow> (string \<Rightarrow> 's \<Rightarrow> (string \<times> string \<times> string) list) \<Rightarrow>
     query \<Rightarrow> ('s, string \<times> string list \<times> (string \<times> string \<times> string) list \<times> nat) setup_step" where
  "inspect_schema lib db tables foreign_keys getenv =
     bind_setup (lift_setup (new_postgres (pb_pgx lib) getenv (getenv ''DATABASE_URL''))) (\<lambda>pg.
     bind_setup (setup_error ''failed to run migrations'' (try_migrations (pb_stat lib) (pb_scripts lib))) (\<lambda>_.
     bind_setup (catalog_query db (tables (pg_schema pg))) (\<lambda>ts.
     bind_setup (catalog_query db (foreign_keys (pg_schema pg))) (\<lambda>ks.
     lift_setup (Inr (pg_schema pg, ts, ks, length ks))))))"

lemma lift_setup_eq: "lift_setup r w = (z, w') \<longleftrightarrow> r = z \<and> w' = w"
  by (auto simp: lift_setup_def)

lemma api_command_Inr:
  assumes "api_command lib getenv sw = (Inr (srv, listen), sw')"
  obtains cfg redis where "load (pb_parse_float lib) getenv = Inr cfg" "srv = new_router (pb_router lib) cfg redis"
  using assms that by (auto simp: api_command_def bind_setup_Inr setup_error_Inr lift_setup_eq Let_def)

text \<open>
  The API starts whenever its configuration loads and the database can be reached, whatever becomes of the
  migrations and of Redis; without Redis its webhook handler neither claims nor announces.
\<close>

lemma api_starts:
  assumes "load (pb_parse_float lib) getenv = Inr cfg" "new_postgres (pb_pgx lib) getenv (cfg_database_url cfg) = Inr pg"
  shows "\<exists>srv listen sw'. api_command lib getenv sw = (Inr (srv, listen), sw') \<and> as_cfg srv = cfg \<and>
    (wh_redis (as_webhook srv) \<longrightarrow> pb_redis_ping lib (cfg_redis_url cfg) = None)"
  using assms by (auto simp: api_command_def bind_setup_def setup_error_def lift_setup_def only_warned_def new_router_def
      redis_client_def Let_def split: option.splits)

section \<open>What a client can change\<close>

text \<open>The body of a request carries the hexadecimal text of its MAC.\<close>

definition signed_with :: "webhook_handler \<Rightarrow> string \<Rightarrow> http_request \<Rightarrow> string \<Rightarrow> bool" where
  "signed_with h key rq body \<longleftrightarrow> ht_body rq = Inr body \<and>
     hex_decode (to_lower (trim_prefix ''0X'' (trim_prefix ''0x''
       (trim_space (ht_header rq ''X-Alchemy-Signature''))))) = Some (wh_hmac h key body)"

text \<open>
  C6. What a client can change through the API. Whatever environment \<open>cmd/api\<close> was started with, every
  request gets an answer, and either database, Redis and channels are as before, or the request was a
  \<open>POST\<close> to the webhook that carried the MAC of exactly its body under the configured signing key, which is
  neither empty nor, outside development, the public dummy key; the answer is then 200.
\<close>

theorem api_changes_authenticated:
  assumes "api_command lib getenv sw = (Inr (srv, listen), sw')" "serve env srv rq w = (r, w')"
  shows "\<exists>rp cfg. r = Inr rp \<and> load (pb_parse_float lib) getenv = Inr cfg \<and>
    (same_state w w' \<or>
      (answer_status (rp_answer rp) = 200 \<and> ht_method rq = ''POST'' \<and>
       request_segments (ht_path rq) = [''api'', ''indexer'', ''webhook''] \<and> cfg_webhook_signing_key cfg \<noteq> [] \<and>
       (equal_fold (cfg_deployment_environment cfg) ''development'' \<or> cfg_webhook_signing_key cfg \<noteq> dummy_key) \<and>
       (\<exists>body. signed_with (as_webhook (pb_router lib)) (cfg_webhook_signing_key cfg) rq body)))"
proof -
  obtain cfg redis where cfg: "load (pb_parse_float lib) getenv = Inr cfg" "srv = new_router (pb_router lib) cfg redis"
    using api_command_Inr [OF assms(1)] .
  obtain rp where rp: "r = Inr rp"
    using answers_serve [of env srv rq] assms(2) unfolding answers_def by (metis prod.inject)
  have key: "cfg_webhook_signing_key cfg \<noteq> [] \<and>
      (equal_fold (cfg_deployment_environment cfg) ''development'' \<or> cfg_webhook_signing_key cfg \<noteq> dummy_key)"
    using cfg(1) load_parts(4) by (auto simp: load_def and_then_Inr Let_def)
  have srv: "signing_key (as_webhook srv) = cfg_webhook_signing_key cfg" "wh_hmac (as_webhook srv) = wh_hmac (as_webhook (pb_router lib))"
    by (simp_all add: cfg(2) new_router_def signing_key_def webhook_config_of_def)
  show ?thesis
  proof (cases "same_state w w'")
    case False
    then obtain v a where a: "route (ht_method rq) (ht_path rq) = Handled Alchemy_Webhook v" "rp_answer rp = Webhook_Answer a"
      "handle_alchemy_webhook env (as_webhook srv)
        \<lparr>rq_body = ht_body rq, rq_signature = ht_header rq ''X-Alchemy-Signature''\<rparr> w = (Inr a, w')"
      using serve_cases assms(2) rp by metis
    from a(3) have "fst a = 200 \<and> (\<exists>body. signed_with (as_webhook (pb_router lib)) (cfg_webhook_signing_key cfg) rq body)"
    proof (cases rule: handle_cases)
      case rejected
      then show ?thesis using False by (simp add: same_state_def)
    next
      case (accepted body p)
      then show ?thesis using verify_mac [OF accepted(2)] srv by (auto simp: signed_with_def)
    qed
    then show ?thesis using cfg(1) rp key a route_webhook by auto
  qed (use cfg(1) rp in auto)
qed

text \<open>An API of the sample configuration, with Redis, and a delivery to it.\<close>

definition sample_api :: "string api_lib" where
  "sample_api = \<lparr>pb_parse_float = (\<lambda>_. None),
     pb_pgx = \<lparr>pl_parse = (\<lambda>_. None), pl_connect = None, pl_exec = (\<lambda>_. None), pl_pool = None, pl_ping = None\<rparr>,
     pb_stat = (\<lambda>_. Present), pb_scripts = (\<lambda>_. sample_migrations), pb_redis_ping = (\<lambda>_. None),
     pb_router = \<lparr>as_pool = True, as_cfg = sample_config, as_webhook = sample_handler,
       as_plan = \<lparr>pl_fundings = id, pl_claims = id, pl_transfers = id, pl_escrow = id, pl_events = id, pl_collate = id\<rparr>,
       as_hex = \<lparr>hl_is_address = (\<lambda>_. False), hl_address = (\<lambda>_. 0), hl_hash = (\<lambda>_. 0)\<rparr>,
       as_decode = (\<lambda>_. Inl (new_error ''EOF''))\<rparr>\<rparr>"

definition delivery :: http_request where
  "delivery = \<lparr>ht_method = ''POST'', ht_path = ''/api/indexer/web%68ook'', ht_query = (\<lambda>_. []),
     ht_header = (\<lambda>k. if k = ''X-Alchemy-Signature'' then ''0x0b'' else []), ht_body = Inr ''body'', ht_random = [1]\<rparr>"

definition sample_server :: api_server where
  "sample_server = new_router (pb_router sample_api) sample_config True"

lemma sample_settings:
  "cfg_database_url sample_config = ''postgres://db''" "cfg_redis_url sample_config = ''localhost:6379''"
  "webhook_config_of sample_config = \<lparr>wc_key = ''whsec_1'', wc_escrow = [], wc_wtf_escrow = [], wc_chain = 5\<rparr>"
  by code_simp+

lemma sample_connects: "\<exists>pg. new_postgres (pb_pgx sample_api) sample_getenv (cfg_database_url sample_config) = Inr pg"
proof -
  have "\<not> isl (new_postgres (pb_pgx sample_api) sample_getenv ''postgres://db'')" by code_simp
  then show ?thesis unfolding sample_settings by (metis sum.collapse(2))
qed

lemma sample_api_starts: "\<exists>listen sw'. api_command sample_api sample_getenv fresh_setup = (Inr (sample_server, listen), sw')"
proof -
  have "pb_parse_float sample_api = (\<lambda>_. None)" "pb_redis_ping sample_api = (\<lambda>_. None)"
    by (simp_all add: sample_api_def)
  then show ?thesis using sample_load sample_connects sample_settings(2)
    by (auto simp: api_command_def bind_setup_def setup_error_def lift_setup_def only_warned_def sample_server_def
      redis_client_def Let_def)
qed

lemma delivery_run:
  "\<exists>rp w'. serve short_env sample_server delivery empty_world = (Inr rp, w') \<and> length (escrow_events (w_db w')) = 1"
proof -
  let ?h = "sample_handler\<lparr>wh_cfg := Some \<lparr>wc_key = ''whsec_1'', wc_escrow = [], wc_wtf_escrow = [], wc_chain = 5\<rparr>,
    wh_repo := True, wh_redis := True\<rparr>"
  let ?y = "handle_alchemy_webhook short_env ?h \<lparr>rq_body = Inr ''body'', rq_signature = ''0x0b''\<rparr> empty_world"
  have "fst ?y = Inr (200, ''ok'')" "length (escrow_events (w_db (snd ?y))) = 1" by code_simp+
  then obtain w' where y: "?y = (Inr (200, ''ok''), w')" "length (escrow_events (w_db w')) = 1" by (metis prod.collapse)
  have h: "as_webhook sample_server = ?h"
    by (simp add: sample_server_def new_router_def sample_settings sample_api_def)
  have "route ''POST'' ''/api/indexer/web%68ook'' = Handled Alchemy_Webhook []" by code_simp
  then have "serve_mux short_env sample_server delivery empty_world = (Inr (Webhook_Answer (200, ''ok'')), w')"
    using y(1) by (simp add: serve_mux_def delivery_def answering_def h bind_go_def ret_def)
  then show ?thesis using y(2) by (simp add: serve_def logged_def bind_go_def ret_def delivery_def)
qed

theorem api_changes_authenticated_witness:
  "\<exists>rp w'. serve short_env sample_server delivery empty_world = (Inr rp, w') \<and> \<not> same_state empty_world w' \<and>
     answer_status (rp_answer rp) = 200 \<and> cfg_webhook_signing_key sample_config \<noteq> dummy_key"
proof -
  obtain listen sw' where start: "api_command sample_api sample_getenv fresh_setup = (Inr (sample_server, listen), sw')"
    using sample_api_starts by blast
  obtain rp w' where run: "serve short_env sample_server delivery empty_world = (Inr rp, w')"
    and "length (escrow_events (w_db w')) = 1" using delivery_run by blast
  then have changed: "\<not> same_state empty_world w'" by (auto simp: same_state_def empty_world_def empty_database_def)
  obtain cfg where cfg: "load (pb_parse_float sample_api) sample_getenv = Inr cfg" "answer_status (rp_answer rp) = 200"
      "equal_fold (cfg_deployment_environment cfg) ''development'' \<or> cfg_webhook_signing_key cfg \<noteq> dummy_key"
    using api_changes_authenticated [OF start run] changed by blast
  have "pb_parse_float sample_api = (\<lambda>_. None)" by (simp add: sample_api_def)
  then have "cfg = sample_config" using cfg(1) sample_load by simp
  moreover have "\<not> equal_fold (cfg_deployment_environment sample_config) ''development''" by code_simp
  ultimately show ?thesis using run changed cfg(2,3) by blast
qed

end
