(* ===== verification/Deployment.thy ===== *)
theory Deployment
  imports Command_Properties Api_Command
begin

text \<open>
  The processes of a deployment on one database: what the reconciler command may write, in one pass
  and in its loop, and that checkpoint safety of the live monitor survives any interleaving of its
  polls with passes of the reconciler and with requests to the API. A step is a whole poll, pass or
  request, each with faults of its own.
\<close>

section \<open>What the reconciler may write\<close>

definition recon_cursors :: "config \<Rightarrow> (int \<times> string) set" where
  "recon_cursors c = Pair (cfg_chain_id c) ` {cfg_reconciliation_stream_id c, cfg_reconciliation_salary_claim_stream_id c,
     cfg_reconciliation_token_stream_id c, cfg_reconciliation_token_balance_stream_id c}"

text \<open>Only the exceptions and the checkpoints in \<open>S\<close>.\<close>

definition booked :: "(int \<times> string) set \<Rightarrow> database \<Rightarrow> database \<Rightarrow> bool" where
  "booked S d d' \<longleftrightarrow>
     d'\<lparr>exceptions := [], sync_checkpoints := []\<rparr> = d\<lparr>exceptions := [], sync_checkpoints := []\<rparr> \<and>
     (\<forall>c s. (c, s) \<notin> S \<longrightarrow> checkpoint_of d' c s = checkpoint_of d c s)"

interpretation booked: db_relation "booked S" for S
  by unfold_locales (auto simp: booked_def)

lemma bookkeeping_booked: "bookkeeping c s d d' \<Longrightarrow> (c, s) \<in> S \<Longrightarrow> booked S d d'"
  unfolding bookkeeping_def booked_def by auto

lemma booked_undisturbed:
  assumes "booked S d d'"
  shows "undisturbed S d d'"
proof -
  have tables: "d'\<lparr>exceptions := [], sync_checkpoints := []\<rparr> = d\<lparr>exceptions := [], sync_checkpoints := []\<rparr>"
    and cp: "\<forall>c s. (c, s) \<notin> S \<longrightarrow> checkpoint_of d' c s = checkpoint_of d c s"
    using assms by (simp_all add: booked_def)
  have "chain_events d' = chain_events d" using arg_cong [OF tables, of chain_events] by simp
  moreover have "token_transfers d' = token_transfers d" using arg_cong [OF tables, of token_transfers] by simp
  moreover have "escrow_events d' = escrow_events d" using arg_cong [OF tables, of escrow_events] by simp
  ultimately show ?thesis using cp by (simp add: undisturbed_def)
qed

lemma books_booked: "books.keeps c s m \<Longrightarrow> (c, s) \<in> S \<Longrightarrow> booked.keeps S m"
  unfolding books.keeps_def booked.keeps_def using bookkeeping_booked by blast

lemma exceptions_booked: "exceptions_only d d' \<Longrightarrow> booked S d d'"
  by (auto simp: exceptions_only_def booked_def checkpoint_of_def)

lemma recon_booked: "recon.keeps m \<Longrightarrow> booked.keeps S m"
  unfolding recon.keeps_def booked.keeps_def using exceptions_booked by blast

lemmas worker_booked = recon_keeps_window [THEN recon_booked] recon_keeps_range [THEN recon_booked]
  target_keeps(1) [THEN recon_booked]

lemma batch_books:
  "books.keeps (rc_chain r) (rc_stream r) (payroll_reconcile_next_batch env abi r n)"
  "books.keeps (rc_chain r) (rc_stream r) (claim_reconcile_next_batch env abi r n)"
  "books.keeps (rc_chain r) (rc_stream r) (transfer_reconcile_next_batch env f r n)"
  "books.keeps (bc_chain b) (bc_stream b) (balance_next_batch env b n)"
  unfolding payroll_reconcile_next_batch_def claim_reconcile_next_batch_def transfer_reconcile_next_batch_def
    balance_next_batch_def get_checkpoint_def
  by (auto intro!: funding.next_batch_keeps claims.next_batch_keeps transfers.next_batch_keeps books.keeps_rules
      recon_books [OF target_keeps(1)] checkpoint_books split: prod.split)

lemma batch_oks:
  "oks.keeps (payroll_reconcile_next_batch env abi r n)" "oks.keeps (claim_reconcile_next_batch env abi r n)"
  "oks.keeps (transfer_reconcile_next_batch env f r n)" "oks.keeps (balance_next_batch env b n)"
  unfolding payroll_reconcile_next_batch_def claim_reconcile_next_batch_def transfer_reconcile_next_batch_def
    balance_next_batch_def get_checkpoint_def
  by (auto intro!: funding.next_batch_keeps claims.next_batch_keeps transfers.next_batch_keeps oks.keeps_rules
      target_keeps(2) checkpoint_oks split: prod.split)

lemma window_oks:
  "oks.keeps (payroll_reconcile_recent_window env abi r n)" "oks.keeps (claim_reconcile_recent_window env abi r n)"
  "oks.keeps (transfer_reconcile_recent_window env f r n)" "oks.keeps (balance_recent_window env b n)"
  "oks.keeps (payroll_reconcile_range env abi r lo hi)" "oks.keeps (claim_reconcile_range env abi r lo hi)"
  "oks.keeps (transfer_reconcile_range env f r lo hi)"
  unfolding payroll_reconcile_recent_window_def claim_reconcile_recent_window_def transfer_reconcile_recent_window_def
    balance_recent_window_def reconcile_recent_window_def Let_def balance_latest_def call_with_retry_view
    payroll_reconcile_range_def claim_reconcile_range_def transfer_reconcile_range_def
  by (auto intro!: oks.keeps_rules keeps_recon_call funding.range_keeps claims.range_keeps transfers.range_keeps
      target_keeps)

text \<open>The cursors of the reconcilers a command has built.\<close>

definition cursors_in :: "(int \<times> string) set \<Rightarrow> reconcilers \<Rightarrow> bool" where
  "cursors_in S rs \<longleftrightarrow>
     (\<forall>r. rs_payroll rs = Some r \<or> rs_claims rs = Some r \<or> (\<exists>f. rs_transfers rs = Some (f, r)) \<longrightarrow>
        (rc_chain r, rc_stream r) \<in> S) \<and>
     (\<forall>b. rs_balance rs = Some b \<longrightarrow> (bc_chain b, bc_stream b) \<in> S)"

context effect_relation
begin

lemma keeps_when_built: "(\<And>r. x = Some r \<Longrightarrow> keeps (m r)) \<Longrightarrow> keeps (when_built x m)"
  unfolding when_built_def by (auto intro!: keeps_bind keeps_ret split: option.split)

lemma keeps_event_pass:
  "\<lbrakk>\<And>n. keeps (by_window n); \<And>lo hi. keeps (by_range lo hi); \<And>n. keeps (by_batch n)\<rbrakk> \<Longrightarrow>
   keeps (event_pass fl c by_window by_range by_batch)"
  by (simp add: event_pass_def)

end

lemma pass_books:
  assumes "cursors_in S rs"
  shows "booked.keeps S (execute_pass env abi fl c rs)"
  unfolding execute_pass_def balance_pass_def
  using assms
  by (auto simp: cursors_in_def intro!: booked.keeps_rules booked.keeps_when_built booked.keeps_event_pass
      worker_booked books_booked [OF batch_books(1)]
      books_booked [OF batch_books(2)] books_booked [OF batch_books(3)] books_booked [OF batch_books(4)] split: prod.split)

lemma pass_oks: "oks.keeps (execute_pass env abi fl c rs)"
  unfolding execute_pass_def balance_pass_def
  by (auto intro!: oks.keeps_rules oks.keeps_when_built oks.keeps_event_pass batch_oks window_oks target_keeps split: prod.split)

lemma load_cursors:
  assumes "load parse_float getenv = Inr c"
  shows "cfg_reconciliation_stream_id c \<noteq> []" "cfg_reconciliation_salary_claim_stream_id c \<noteq> []"
    "cfg_reconciliation_token_stream_id c \<noteq> []" "cfg_reconciliation_token_balance_stream_id c \<noteq> []"
proof -
  have ids: "cfg_reconciliation_stream_id c = or_default (getenv ''RECONCILIATION_STREAM_ID'') ''reconciliation_payroll_funding''"
    "cfg_reconciliation_salary_claim_stream_id c =
       or_default (getenv ''RECONCILIATION_SALARY_CLAIM_STREAM_ID'') ''reconciliation_salary_claim''"
    "cfg_reconciliation_token_stream_id c =
       load_token_cursor getenv ''RECONCILIATION_TOKEN_STREAM_ID'' ''reconciliation_erc20_transfers''"
    "cfg_reconciliation_token_balance_stream_id c =
       load_token_cursor getenv ''RECONCILIATION_TOKEN_BALANCE_STREAM_ID'' ''reconciliation_token_balance''"
    using assms by (auto simp: load_def and_then_Inr Let_def)
  show "cfg_reconciliation_stream_id c \<noteq> []" "cfg_reconciliation_salary_claim_stream_id c \<noteq> []"
    "cfg_reconciliation_token_stream_id c \<noteq> []" "cfg_reconciliation_token_balance_stream_id c \<noteq> []"
    unfolding ids by (simp_all add: or_default_def load_token_cursor_def Let_def)
qed

lemma built_cursors:
  assumes "reconciler_setup env lib getenv fl = Inr (c, rs)"
  shows "cursors_in (recon_cursors c) rs"
proof -
  from assms obtain kind where "load (cl_float lib) getenv = Inr c" and built: "build_reconcilers env lib kind c = Inr rs"
    by (auto simp: reconciler_setup_def and_then_Inr wrap_sum_Inr)
  note set_ids = load_cursors [OF this(1)]
  have pay: "rc_chain r = cfg_chain_id c \<and> rc_stream r = cfg_reconciliation_stream_id c"
    if "build_payroll lib c start = Inr r" for r start
    using that set_ids(1) by (auto simp: build_payroll_def and_then_Inr wrap_sum_Inr new_payroll_reconciler_def
        payroll_recon_config_def set_recon_policy_def)
  have claim: "rc_chain r = cfg_chain_id c \<and> rc_stream r = cfg_reconciliation_salary_claim_stream_id c"
    if "build_claims lib c start = Inr r" for r start
    using that set_ids(2) by (auto simp: build_claims_def and_then_Inr wrap_sum_Inr new_claim_reconciler_def
        payroll_recon_config_def set_recon_policy_def)
  have transfer: "rc_chain r = cfg_chain_id c \<and> rc_stream r = cfg_reconciliation_token_stream_id c"
    if "build_transfers env lib c = Inr (f, r)" for f r
    using that set_ids(3) by (auto simp: build_transfers_def and_then_Inr wrap_sum_Inr new_transfer_reconciler_def
        transfer_recon_config_def set_recon_policy_def dest!: validate_keeps)
  have balance: "bc_chain b = cfg_chain_id c \<and> bc_stream b = cfg_reconciliation_token_balance_stream_id c"
    if "build_balance env lib c = Inr b" for b
    using that set_ids(4) by (auto simp: build_balance_def and_then_Inr wrap_sum_Inr new_balance_reconciler_def
        balance_recon_config_def set_balance_policy_def split: option.splits dest!: validate_keeps)
  from built obtain p s t b where
    "optional (wants kind ReconPayroll) (build_payroll lib c (cfg_start_block c)) = Inr p"
    "optional (wants kind ReconClaims) (build_claims lib c (cfg_start_block c)) = Inr s"
    "optional (wants kind ReconTransfers) (build_transfers env lib c) = Inr t"
    "optional (wants kind ReconBalance) (build_balance env lib c) = Inr b"
    "rs = \<lparr>rs_payroll = p, rs_claims = s, rs_transfers = t, rs_balance = b\<rparr>"
    by (auto simp: build_reconcilers_def and_then_Inr)
  then show ?thesis
    unfolding cursors_in_def recon_cursors_def
    using pay claim transfer balance
    by (auto simp: optional_def and_then_Inr split: if_splits)
qed

section \<open>The reconciler command\<close>

lemma once_pass: "w_db (snd (reconciler_once env abi fl c rs w)) = w_db (snd (execute_pass env abi fl c rs w))"
  by (simp add: reconciler_once_def wrapping_def split: prod.split sum.split)

text \<open>Every state of a run keeps what a pass keeps.\<close>

lemma recon_reaches_keeps:
  assumes "recon_reaches env abi fl c rs w w'" "P (w_db w)"
    and pass: "\<And>w. P (w_db w) \<Longrightarrow> P (w_db (snd (execute_pass env abi fl c rs w)))"
  shows "P (w_db w')"
proof (cases "rf_loop fl")
  case True
  then have "recon_loop env abi fl c rs w w'" using assms(1) by (simp add: recon_reaches_def)
  then show ?thesis by induction (use assms(2) pass in simp_all)
next
  case False
  then show ?thesis using assms(1,2) pass [of w] once_pass by (simp add: recon_reaches_def)
qed

text \<open>
  C7. What the reconciler command may write. At every moment of a run of \<open>cmd/reconciler\<close>, once or in its
  loop, on every path and under every fault, the indexed tables and every checkpoint but the cursors of
  its four reconcilers are those of the start, and there is at most one open exception for a reference.
\<close>

theorem reconciler_only_books:
  assumes "reconciler_setup env lib getenv fl = Inr (c, rs)" "recon_reaches env abi fl c rs w w'"
    and "exceptions_ok (w_db w)"
  shows "booked (recon_cursors c) (w_db w) (w_db w') \<and> exceptions_ok (w_db w')"
proof -
  have "booked (recon_cursors c) (w_db w) (w_db (snd (execute_pass env abi fl c rs v))) \<and>
      exceptions_ok (w_db (snd (execute_pass env abi fl c rs v)))"
    if "booked (recon_cursors c) (w_db w) (w_db v) \<and> exceptions_ok (w_db v)" for v
  proof -
    obtain r v' where run: "execute_pass env abi fl c rs v = (r, v')" by fastforce
    have "booked (recon_cursors c) (w_db v) (w_db v')"
      by (rule booked.keepsD [OF pass_books [OF built_cursors [OF assms(1)]] run])
    moreover have "exceptions_ok (w_db v')"
      using oks.keepsD [OF pass_oks run] that by blast
    ultimately show ?thesis using that booked.D_trans run by auto
  qed
  then show ?thesis
    using recon_reaches_keeps [where P = "\<lambda>d. booked (recon_cursors c) (w_db w) d \<and> exceptions_ok d", OF assms(2)]
      assms(3) booked.D_refl by blast
qed

text \<open>A pass of the payroll reconciler over an empty chain.\<close>

definition command_passes :: recon_flags where
  "command_passes = \<lparr>rf_type = ''payroll'', rf_from = 0, rf_to = 0, rf_window = 0, rf_batch = 0, rf_loop = True,
     rf_interval = 0\<rparr>"

definition recon_config :: config where
  "recon_config = projr (load (\<lambda>_. None) command_getenv)"

definition built_reconcilers :: reconcilers where
  "built_reconcilers = \<lparr>rs_payroll = Some (set_recon_policy (retry_policy_of recon_config)
       (projr (new_payroll_reconciler False True True True True
          (payroll_recon_config sample_lib recon_config (cfg_start_block recon_config)
             (cfg_reconciliation_stream_id recon_config))))),
     rs_claims = None, rs_transfers = None, rs_balance = None\<rparr>"

lemma recon_setup: "reconciler_setup env sample_lib command_getenv command_passes = Inr (recon_config, built_reconcilers)"
proof -
  have load: "load (cl_float sample_lib) command_getenv = Inr recon_config" "cfg_payroll_contract recon_config \<noteq> []"
    using loaded_values by (auto simp: recon_config_def sample_lib_def split: sum.splits)
  have kind: "normalise_type ''payroll'' = Inr ReconPayroll" by code_simp
  show ?thesis
    by (simp add: reconciler_setup_def command_passes_def kind load and_then_def wrap_sum_def required_addresses_def
        reached_def sample_lib_def [THEN arg_cong, of cl_dial] sample_lib_def [THEN arg_cong, of cl_connect]
        build_reconcilers_def optional_def wants_def build_payroll_def built_reconcilers_def new_payroll_reconciler_def)
qed

theorem reconciler_only_books_witness:
  "let w' = next_tick (snd (execute_pass live_env sample_abi command_passes recon_config built_reconcilers empty_world))
   in booked (recon_cursors recon_config) empty_database (w_db w') \<and> exceptions_ok (w_db w')"
proof -
  have "recon_reaches live_env sample_abi command_passes recon_config built_reconcilers empty_world
      (next_tick (snd (execute_pass live_env sample_abi command_passes recon_config built_reconcilers empty_world)))"
    by (simp add: recon_reaches_def command_passes_def recon_loop.intros)
  from reconciler_only_books [OF recon_setup this] show ?thesis
    by (simp add: Let_def no_exceptions_ok empty_world_def empty_database_def)
qed

section \<open>The processes together\<close>

lemma legal_undisturbed: "legal d d' \<Longrightarrow> same_checkpoints d d' \<Longrightarrow> undisturbed S d d'"
  by (simp add: legal_def db_grows_def undisturbed_def checkpoint_of_same)

lemma law_frame_undisturbed: "law.keeps m \<Longrightarrow> frame.keeps m \<Longrightarrow> undisturbed.keeps S m"
  unfolding law.keeps_def frame.keeps_def undisturbed.keeps_def using legal_undisturbed by blast

lemma webhook_undisturbed: "undisturbed.keeps S (handle_alchemy_webhook env h rq)"
proof -
  have nx: "undisturbed.keeps S (set_nx env key ttl)" for key ttl
    by (auto simp: undisturbed.keeps_def set_nx_def undisturbed.D_refl split: option.split)
  have pub: "undisturbed.keeps S (publish env ch msg)" for ch msg
    by (auto simp: undisturbed.keeps_def publish_def undisturbed.D_refl split: option.split)
  have store: "undisturbed.keeps S (repo_save_escrow_event env ev)" for ev
    by (rule law_frame_undisturbed) (rule law_keeps frame_keeps)+
  show ?thesis
    unfolding handle_alchemy_webhook_def webhook_logs_def webhook_log_def webhook_store_def claim_log_def Let_def
    by (auto intro!: undisturbed.keeps_rules nx pub store split: sum.split)
qed

lemma serve_undisturbed: "undisturbed.keeps S (serve env srv rq)"
  unfolding undisturbed.keeps_def
proof
  fix w
  obtain rp w' where run: "serve env srv rq w = (Inr rp, w')" using answers_serve unfolding answers_def by blast
  from serve_cases [OF run] show "undisturbed S (w_db w) (w_db (snd (serve env srv rq w)))"
  proof
    assume "same_state w w'"
    then show ?thesis by (simp add: run same_state_def undisturbed.D_refl)
  next
    assume "\<exists>v a. route (ht_method rq) (ht_path rq) = Handled Alchemy_Webhook v \<and> rp_answer rp = Webhook_Answer a \<and>
      handle_alchemy_webhook env (as_webhook srv)
        \<lparr>rq_body = ht_body rq, rq_signature = ht_header rq ''X-Alchemy-Signature''\<rparr> w = (Inr a, w')"
    then show ?thesis using undisturbed.keepsD [OF webhook_undisturbed] run by fastforce
  qed
qed

text \<open>
  The indexer in live mode, the reconciler and the API on one database; \<open>m\<close>, \<open>fl\<close>, \<open>rs\<close> and \<open>srv\<close> are
  what the three were started with.
\<close>

inductive deployed ::
  "env \<Rightarrow> live_monitor \<Rightarrow> payroll_abi \<Rightarrow> recon_flags \<Rightarrow> config \<Rightarrow> reconcilers \<Rightarrow> api_server \<Rightarrow> world \<Rightarrow> world \<Rightarrow> bool"
  for env m abi fl c rs srv w where
  begun: "deployed env m abi fl c rs srv w w"
| polled: "deployed env m abi fl c rs srv w w1 \<Longrightarrow> deployed env m abi fl c rs srv w (snd (poll_once env m w1))"
| reconciled: "deployed env m abi fl c rs srv w w1 \<Longrightarrow>
    deployed env m abi fl c rs srv w (snd (execute_pass env abi fl c rs w1))"
| served: "deployed env m abi fl c rs srv w w1 \<Longrightarrow>
    deployed env m abi fl c rs srv w (snd (serve env srv rq w1))"
| waited: "deployed env m abi fl c rs srv w w1 \<Longrightarrow> deployed env m abi fl c rs srv w (next_tick w1)"

lemma services_streams:
  assumes "build_services env lib fl c = Inr sv" "named_streams c" "(chain, s) \<in> live_streams (live_config lib fl c sv)"
  shows "prefix ''monthly_payroll'' s \<or> prefix ''erc20_transfers'' s \<or> prefix ''wtf_escrow'' s"
proof -
  have tok: "token_service env lib fl c = Inr (sv_token sv)" and esc: "escrow_service lib fl c = Inr (sv_escrow sv)"
    using assms(1) by (auto simp: build_services_def and_then_Inr)
  have t: "prefix ''erc20_transfers'' (ti_stream ti)" if "sv_token sv = Some ti" for ti
    using token_service_facts(2) [of env lib fl c ti] tok that assms(2) by (simp add: named_streams_def)
  have e: "prefix ''wtf_escrow'' (ei_stream ei)" if "sv_escrow sv = Some ei" for ei
    using escrow_service_facts(2) [of lib fl c ei] esc that assms(2) by (simp add: named_streams_def)
  show ?thesis using assms(2,3) t e by (auto simp: live_streams_def named_streams_def)
qed

lemma streams_apart:
  assumes "build_services env lib fl c = Inr sv" "named_streams c" "named_streams c'"
  shows "live_streams (live_config lib fl c sv) \<inter> recon_cursors c' = {}"
proof -
  have "prefix ''reconciliation'' s" if "(chain, s) \<in> recon_cursors c'" for chain s
  proof -
    have "prefix ''reconciliation_payroll'' s \<or> prefix ''reconciliation_salary'' s \<or>
        prefix ''reconciliation_erc20'' s \<or> prefix ''reconciliation_token'' s"
      using that assms(3) by (auto simp: recon_cursors_def named_streams_def)
    then show ?thesis by (auto elim!: disjE prefix_order.trans [rotated])
  qed
  moreover have "\<not> prefix ''reconciliation'' s" if "(chain, s) \<in> live_streams (live_config lib fl c sv)" for chain s
    using services_streams [OF assms(1,2) that] by (auto simp: prefix_def)
  ultimately show ?thesis by fast
qed

lemma deployed_safe:
  assumes "honest_node env m lp lt le" "distinct_streams m" "cursors_in S rs" "live_streams m \<inter> S = {}"
    "deployed env m abi fl c rs srv w w'" "monitor_safe env m lp lt le (w_db w)"
  shows "monitor_safe env m lp lt le (w_db w')"
  using assms(5)
proof induction
  case (polled w1)
  then show ?case using poll_once_safe [OF assms(1,2)] by simp
next
  case (reconciled w1)
  obtain r w2 where run: "execute_pass env abi fl c rs w1 = (r, w2)" by fastforce
  show ?case
    using undisturbed_safe [OF booked_undisturbed [OF booked.keepsD [OF pass_books [OF assms(3)] run]] assms(4) reconciled.IH]
    by (simp add: run)
next
  case (served w1 rq)
  obtain r w2 where run: "serve env srv rq w1 = (r, w2)" by fastforce
  show ?case
    using undisturbed_safe [OF undisturbed.keepsD [OF serve_undisturbed run] _ served.IH, of "{}"] by (simp add: run)
qed (use assms(6) in simp_all)

text \<open>
  C5. Checkpoint safety of the whole deployment. With the default stream ids and a node whose log
  answers are right when it gives any, the monitor of the indexer, the reconciler and the API, whatever
  it is asked, may take turns on one database in any order, and any of their calls may fail: at every
  moment every log of the payroll stream and of the token stream up to its checkpoint is recorded, and
  every escrow log up to the escrow checkpoint provided the node answers every timestamp request.
  The cursors of the reconciler are other rows than the checkpoints of the monitor.
\<close>

theorem deployment_safe:
  assumes "load_flagged lib getenv fl = Inr c" "build_services env lib fl c = Inr sv" "default_streams getenv"
    and "new_live_monitor True True (live_config lib fl c sv) = Inr m"
    and "reconciler_setup env lib getenv rf = Inr (c', rs)"
    and "honest_node env m lp lt le" "monitor_safe env m lp lt le (w_db w)"
    and "deployed env m abi rf c' rs srv w w'"
  shows "monitor_safe env m lp lt le (w_db w')"
proof -
  note names = loaded_names [OF assms(1,3)]
  have ids: "lm_payroll_stream (live_config lib fl c sv) \<noteq> []" using names(2) by simp
  note same = new_live_monitor_keeps [OF assms(4) ids]
  have "load (cl_float lib) getenv = Inr c'"
    using assms(5) by (auto simp: reconciler_setup_def and_then_Inr wrap_sum_Inr)
  then have "named_streams c'" by (rule load_named_streams [OF _ assms(3)])
  note apart = streams_apart [OF assms(2) names(1) this]
  have "live_streams m = live_streams (live_config lib fl c sv)"
    using assms(4) ids by (auto simp: new_live_monitor_def live_streams_def)
  then show ?thesis
    using deployed_safe [OF assms(6) _ built_cursors [OF assms(5)] _ assms(8,7)] apart
      services_distinct [OF assms(2) names(1)] same(3) by simp
qed

text \<open>A poll, a pass and a delivery to the webhook one after the other.\<close>

theorem deployment_safe_witness:
  "\<exists>m w1 w2 w3. new_live_monitor True True (live_config sample_lib sample_flags command_config command_services) = Inr m \<and>
     w1 = snd (poll_once live_env m empty_world) \<and>
     w2 = snd (execute_pass live_env sample_abi command_passes recon_config built_reconcilers w1) \<and>
     w3 = snd (serve live_env sample_server delivery w2) \<and> timestamps_answered live_env \<and>
     monitor_safe live_env m [sample_log 0] [] [sample_escrow_log] (w_db w3)"
proof -
  obtain m where m: "new_live_monitor True True (live_config sample_lib sample_flags command_config command_services) = Inr m"
    by (simp add: new_live_monitor_def)
  have ids: "lm_payroll_stream (live_config sample_lib sample_flags command_config command_services) \<noteq> []"
    by (simp add: command_values)
  have node: "honest_node live_env m [sample_log 0] [] [sample_escrow_log]"
    using command_node new_live_monitor_keeps(2) [OF m ids] by simp
  have start: "monitor_safe live_env m [sample_log 0] [] [sample_escrow_log] (w_db empty_world)"
    by (simp add: monitor_safe_def payroll_safe_def token_safe_def escrow_safe_def empty_world_def
        empty_database_def checkpoint_of_def)
  show ?thesis
    using m live_timestamps deployment_safe [OF command_load command_built command_streams m recon_setup node start
        deployed.served [OF deployed.reconciled [OF deployed.polled [OF deployed.begun]]]]
    by blast
qed

end
