(* ===== verification/Payroll_Service.thy ===== *)
theory Payroll_Service
  imports Command_Facts
begin

text \<open>
  How the MonthlyPayroll indexer comes about: the constructors of \<open>internal/indexer/indexer.go\<close>,
  \<open>internal/decoder/decoder.go\<close> and \<open>internal/abi/abi.go\<close>, with \<open>UnpackMethodIntoInterface\<close>. The command
  model takes the service for granted; here it is what the constructors return when the constant ABI parses,
  which is the parameter \<open>parsed\<close>.
\<close>

definition new_main_filterer :: "goerror + payroll_abi \<Rightarrow> goerror + payroll_abi" where
  "new_main_filterer parsed = (case parsed of Inl e \<Rightarrow> Inl e | Inr abi \<Rightarrow> Inr abi)"

definition new_payroll_decoder :: "goerror + payroll_abi \<Rightarrow> goerror + payroll_abi" where
  "new_payroll_decoder parsed = wrap_sum ''create ABI filterer'' (new_main_filterer parsed)"

text \<open>The decoder and the retry policy of a service; \<open>client\<close> and \<open>db\<close> say whether they are not nil.\<close>

definition new_service ::
  "bool \<Rightarrow> bool \<Rightarrow> goerror + payroll_abi \<Rightarrow> bool \<Rightarrow> goerror + payroll_abi \<times> retry_policy" where
  "new_service under_test client parsed db =
     (if \<not> client then Inl (new_error ''blockchain client is nil'')
      else if \<not> db then Inl (new_error ''persistence layer is nil'')
      else and_then (wrap_sum ''create event decoder'' (new_payroll_decoder parsed)) (\<lambda>d.
             Inr (d, new_retryer (default_retry_policy under_test))))"

definition new_with_decoder ::
  "bool \<Rightarrow> bool \<Rightarrow> payroll_abi option \<Rightarrow> bool \<Rightarrow> goerror + payroll_abi \<times> retry_policy" where
  "new_with_decoder under_test client decoder db =
     (if \<not> client then Inl (new_error ''blockchain client is nil'')
      else case decoder of
        None \<Rightarrow> Inl (new_error ''event decoder is nil'')
      | Some d \<Rightarrow>
          if \<not> db then Inl (new_error ''persistence layer is nil'')
          else Inr (d, new_retryer (default_retry_policy under_test)))"

definition set_service_policy :: "retry_policy \<Rightarrow> payroll_abi \<times> retry_policy \<Rightarrow> payroll_abi \<times> retry_policy" where
  "set_service_policy pol s = (fst s, new_retryer pol)"

text \<open>\<open>inputs\<close> gives the arguments of a method as go-ethereum unpacks them, None for an unknown method.\<close>

definition unpack_method :: "(string \<Rightarrow> (bytes \<Rightarrow> goerror + 'v) option) \<Rightarrow> string \<Rightarrow> bytes \<Rightarrow> goerror + 'v" where
  "unpack_method inputs name data = (case inputs name of
       None \<Rightarrow> Inl (new_error ''method not found'')
     | Some unpack \<Rightarrow>
         if length data < 4 then Inl (new_error ''method ID is missing'')
         else unpack (drop 4 data))"

text \<open>The command gets the service it configures, with its own policy, through either constructor.\<close>

lemma service_constructed:
  assumes "payroll_service lib fl c = Some s" "parsed = Inr (cl_payroll_abi lib)"
  shows "\<exists>s0. new_service t True parsed True = Inr s0 \<and> set_service_policy (retry_policy_of c) s0 = s"
    and "\<exists>s0. new_with_decoder t True (Some (cl_payroll_abi lib)) True = Inr s0 \<and>
      set_service_policy (retry_policy_of c) s0 = s"
  using assms by (auto simp: payroll_service_def new_service_def new_with_decoder_def new_payroll_decoder_def
      new_main_filterer_def wrap_sum_def and_then_def set_service_policy_def split: if_splits)

lemma service_needs_parts:
  "new_service t client parsed db = Inr s \<Longrightarrow> client \<and> db \<and> parsed = Inr (fst s)"
  by (auto simp: new_service_def new_payroll_decoder_def new_main_filterer_def wrap_sum_def and_then_def
      split: if_splits sum.splits)

end
