(* ===== verification/Maintenance.thy ===== *)
theory Maintenance
  imports Configuration Payroll_Indexer
begin

text \<open>
  \<open>cmd/clear-checkpoint/main.go\<close>, which deletes checkpoints so that the indexer starts afresh: which rows
  it deletes, and that it misses the checkpoint of a payroll stream with the default id.
\<close>

section \<open>The command\<close>

text \<open>SQL \<open>LIKE\<close>: an underscore stands for any character, a percent sign for any text.\<close>

fun sql_like :: "string \<Rightarrow> string \<Rightarrow> bool" where
  "sql_like [] s = (s = [])"
| "sql_like (p # ps) [] = (p = CHR ''%'' \<and> sql_like ps [])"
| "sql_like (p # ps) (c # s) =
     (if p = CHR ''%'' then sql_like ps (c # s) \<or> sql_like (p # ps) s
      else (p = CHR ''_'' \<or> p = c) \<and> sql_like ps s)"

definition delete_checkpoints :: "env \<Rightarrow> (string \<Rightarrow> bool) \<Rightarrow> unit go" where
  "delete_checkpoints env gone = exec_sql env (\<lambda>d.
     Inr (d\<lparr>sync_checkpoints := filter (\<lambda>r. \<not> gone (cp_stream r)) (sync_checkpoints d)\<rparr>))"

text \<open>The rows listed at the end: stream, block and hash; no statement of the program stores a NULL hash.\<close>

definition remaining_checkpoints :: "env \<Rightarrow> (string \<times> int \<times> string) list go" where
  "remaining_checkpoints env = query_sql env (\<lambda>d.
     map (\<lambda>r. (cp_stream r, cp_block r, cp_hash r)) (sync_checkpoints d))"

definition clear_checkpoint :: "env \<Rightarrow> (string \<Rightarrow> goerror + unit) \<Rightarrow> query \<Rightarrow> (string \<times> int \<times> string) list go" where
  "clear_checkpoint env connect getenv =
     (if getenv ''DATABASE_URL'' = [] then fail (new_error ''DATABASE_URL not set'')
      else
        bind_go (wrapping ''failed to connect to database'' (of_sum (connect (getenv ''DATABASE_URL'')))) (\<lambda>_.
        bind_go (wrapping ''failed to delete payroll checkpoint''
          (delete_checkpoints env (\<lambda>s. s = ''monthly_payroll''))) (\<lambda>_.
        bind_go (wrapping ''failed to delete token checkpoint''
          (delete_checkpoints env (sql_like ''erc20_transfers_%''))) (\<lambda>_.
        wrapping ''failed to query checkpoints'' (remaining_checkpoints env)))))"

section \<open>What it deletes\<close>

definition cleared :: "string \<Rightarrow> bool" where
  "cleared s \<longleftrightarrow> s = ''monthly_payroll'' \<or> sql_like ''erc20_transfers_%'' s"

lemma find_filter_row:
  "find_row cp_key (c, s) (filter (\<lambda>r. \<not> gone (cp_stream r)) t) =
     (if gone s then None else find_row cp_key (c, s) t)"
proof -
  have "cp_key r = (c, s) \<longleftrightarrow> cp_chain r = c \<and> cp_stream r = s" for r by (simp add: cp_key_def)
  then show ?thesis by (induction t) auto
qed

lemma delete_checkpoints_Inr:
  assumes "delete_checkpoints env gone w = (Inr (), w')"
  shows "checkpoint_of (w_db w') c s = (if gone s then None else checkpoint_of (w_db w) c s) \<and>
    (w_db w')\<lparr>sync_checkpoints := []\<rparr> = (w_db w)\<lparr>sync_checkpoints := []\<rparr>"
  using assms by (auto simp: delete_checkpoints_def exec_sql_Inr checkpoint_of_def find_filter_row)

lemma clear_checkpoint_Inr:
  assumes "clear_checkpoint env connect getenv w = (Inr rows, w')"
  shows "checkpoint_of (w_db w') c s = (if cleared s then None else checkpoint_of (w_db w) c s) \<and>
    (w_db w')\<lparr>sync_checkpoints := []\<rparr> = (w_db w)\<lparr>sync_checkpoints := []\<rparr>"
proof -
  from assms obtain w0 w1 w2 where "w_db w0 = w_db w" and
    one: "delete_checkpoints env (\<lambda>s. s = ''monthly_payroll'') w0 = (Inr (), w1)" and
    two: "delete_checkpoints env (sql_like ''erc20_transfers_%'') w1 = (Inr (), w2)" and
    "w_db w' = w_db w2"
    by (auto simp: clear_checkpoint_def bind_Inr wrapping_Inr of_sum_def remaining_checkpoints_def
        query_sql_Inr fail_eq split: if_splits dest!: query_sql_db)
  then show ?thesis
    using delete_checkpoints_Inr [OF one] delete_checkpoints_Inr [OF two] by (simp add: cleared_def)
qed

lemma like_any [simp]: "sql_like ''%'' s"
  by (induction s) simp_all

text \<open>The ids \<open>Load\<close> forms from the addresses of the contracts.\<close>

lemma cleared_defaults:
  "cleared (''erc20_transfers_'' @ a)" "\<not> cleared (''monthly_payroll_'' @ a)" "cleared ''monthly_payroll''"
  by (simp_all add: cleared_def)

text \<open>
  C36. The effect of \<open>clear-checkpoint\<close>, and where it falls short of its message that the indexer starts
  afresh. When it succeeds, exactly the checkpoints of the id \<open>monthly_payroll\<close> and of the ids that start
  with \<open>erc20_transfers_\<close> are gone. A payroll stream whose id \<open>Load\<close> forms from the contract address, as it
  does unless another id is set, is not among them: its next backfill resumes after the old checkpoint.
\<close>

theorem clear_misses_payroll:
  assumes "load parse_float getenv = Inr cfg" "getenv ''PAYROLL_STREAM_ID'' = []"
    and "getenv ''PAYROLL_CONTRACT_ADDRESS'' \<noteq> []"
    and "clear_checkpoint env connect getenv w = (Inr rows, w1)"
    and "checkpoint_of (w_db w) (cfg_chain_id cfg) (cfg_payroll_stream_id cfg) = Some b"
    and "effective_start_block env (cfg_chain_id cfg) (cfg_payroll_stream_id cfg) (cfg_start_block cfg) w1 = (Inr lo, w2)"
  shows "(\<forall>c s. checkpoint_of (w_db w1) c s = (if cleared s then None else checkpoint_of (w_db w) c s)) \<and>
    (w_db w1)\<lparr>sync_checkpoints := []\<rparr> = (w_db w)\<lparr>sync_checkpoints := []\<rparr> \<and> lo = b + 1"
proof -
  have "cfg_payroll_stream_id cfg = load_payroll_stream getenv"
    using assms(1) by (auto simp: load_def and_then_Inr Let_def)
  then have "\<not> cleared (cfg_payroll_stream_id cfg)"
    using assms(2,3) by (simp add: load_payroll_stream_def payroll_stream_id_def cleared_def Let_def)
  then have "checkpoint_of (w_db w1) (cfg_chain_id cfg) (cfg_payroll_stream_id cfg) = Some b"
    using clear_checkpoint_Inr [OF assms(4)] assms(5) by simp
  then show ?thesis
    using clear_checkpoint_Inr [OF assms(4)] effective_start_Inr [OF assms(6)] by simp
qed

definition stale_variables :: "(string \<times> string) list" where
  "stale_variables = (''PAYROLL_CONTRACT_ADDRESS'', ''0xAB'') # sample_variables"

definition stale_getenv :: query where
  "stale_getenv k = (case map_of stale_variables k of None \<Rightarrow> [] | Some v \<Rightarrow> v)"

definition stale_world :: world where
  "stale_world = empty_world\<lparr>w_db := empty_database\<lparr>sync_checkpoints :=
     [\<lparr>cp_chain = 5, cp_stream = ''monthly_payroll_0xab'', cp_block = 40, cp_hash = []\<rparr>,
      \<lparr>cp_chain = 5, cp_stream = ''erc20_transfers_0xcd'', cp_block = 40, cp_hash = []\<rparr>]\<rparr>\<rparr>"

theorem clear_misses_payroll_witness:
  "\<exists>w1 w2. clear_checkpoint calm_env (\<lambda>_. Inr ()) stale_getenv stale_world = (Inr [(''monthly_payroll_0xab'', 40, [])], w1) \<and>
     effective_start_block calm_env 5 ''monthly_payroll_0xab'' 9 w1 = (Inr 41, w2)"
proof -
  let ?y = "clear_checkpoint calm_env (\<lambda>_. Inr ()) stale_getenv stale_world"
  have cfg: "case load (\<lambda>_. None) stale_getenv of Inl e \<Rightarrow> False
     | Inr c \<Rightarrow> cfg_payroll_stream_id c = ''monthly_payroll_0xab'' \<and> cfg_chain_id c = 5 \<and> cfg_start_block c = 9"
    by code_simp
  then obtain c where c: "load (\<lambda>_. None) stale_getenv = Inr c" "cfg_payroll_stream_id c = ''monthly_payroll_0xab''"
    "cfg_chain_id c = 5" "cfg_start_block c = 9"
    by (auto split: sum.splits)
  have rows: "fst ?y = Inr [(''monthly_payroll_0xab'', 40, [])]" by code_simp
  then obtain w1 where y: "?y = (Inr [(''monthly_payroll_0xab'', 40, [])], w1)" by (metis prod.collapse)
  have start: "fst (effective_start_block calm_env 5 ''monthly_payroll_0xab'' 9 (snd ?y)) = Inr 41" by code_simp
  then obtain w2 where lo: "effective_start_block calm_env 5 ''monthly_payroll_0xab'' 9 w1 = (Inr 41, w2)"
    unfolding y snd_conv by (metis prod.collapse)
  have "checkpoint_of (w_db stale_world) 5 ''monthly_payroll_0xab'' = Some 40"
    by (simp add: stale_world_def checkpoint_of_def cp_key_def)
  moreover have "stale_getenv ''PAYROLL_STREAM_ID'' = []" "stale_getenv ''PAYROLL_CONTRACT_ADDRESS'' \<noteq> []"
    by code_simp+
  ultimately have "(41 :: u64) = 40 + 1"
    using clear_misses_payroll [OF c(1) _ _ y, of 40 41 w2] c(2-4) lo by simp
  then show ?thesis using y lo by blast
qed

end
