(* ===== verification/Stored_Reads.thy ===== *)
theory Stored_Reads
  imports Read_Api
begin

text \<open>
  The readers of \<open>internal/persistence\<close>: \<open>GetEscrowEventsByEscrowID\<close> and \<open>GetEscrowEventByTxAndLogIndex\<close> of
  \<open>escrow_events.go\<close> and \<open>GetTokenTransfers\<close> of \<open>token_transfers.go\<close>; what is saved is read back.
\<close>

section \<open>The readers\<close>

definition pg_escrow_events_by_id :: "env \<Rightarrow> plan \<Rightarrow> string \<Rightarrow> (int \<times> escrow_event) list go" where
  "pg_escrow_events_by_id env plan s =
     wrapping ''query escrow events by escrow_id'' (query_sql env (\<lambda>d.
       map escrow_event_of (sort_key (\<lambda>(_, r). (es_block r, es_index r)) (pl_escrow plan
         (filter (\<lambda>(_, r). same_numeric (es_id r) s) (enumerate 1 (escrow_events d)))))))"

definition pg_escrow_event_by_tx :: "env \<Rightarrow> plan \<Rightarrow> hash \<Rightarrow> int \<Rightarrow> (int \<times> escrow_event) option go" where
  "pg_escrow_event_by_tx env plan h i =
     wrapping ''query escrow event by tx and log index'' (query_sql env (\<lambda>d.
       case pl_escrow plan (filter (\<lambda>(_, r). es_tx r = h \<and> es_index r = i) (enumerate 1 (escrow_events d))) of
         [] \<Rightarrow> None | r # _ \<Rightarrow> Some (escrow_event_of r)))"

definition transfer_of_row :: "nat \<times> transfer_row \<Rightarrow> int \<times> token_transfer" where
  "transfer_of_row = (\<lambda>(i, r). (int i, \<lparr>tt_chain = tr_chain r, tt_token = tr_token r, tt_from = tr_from r,
     tt_to = tr_to r, tt_amount = tr_amount r, tt_tx = tr_tx r, tt_block = word_of_int (tr_block r),
     tt_time = tr_time r, tt_index = word_of_int (tr_index r), tt_removed = tr_removed r\<rparr>))"

definition transfers_of :: "int \<Rightarrow> address \<Rightarrow> database \<Rightarrow> (nat \<times> transfer_row) list" where
  "transfers_of chain token d =
     filter (\<lambda>(_, r). tr_chain r = chain \<and> tr_token r = token) (enumerate 1 (token_transfers d))"

definition get_token_transfers ::
  "env \<Rightarrow> plan \<Rightarrow> int \<Rightarrow> address \<Rightarrow> int \<Rightarrow> (int \<times> token_transfer) list go" where
  "get_token_transfers env plan chain token limit =
     wrapping ''failed to query token transfers'' (query_sql env (\<lambda>d.
       map transfer_of_row (take (nat (if limit \<le> 0 then 100 else limit))
         (sort_key (\<lambda>(_, r). (tr_block r, tr_index r)) (pl_transfers plan (transfers_of chain token d))))))"

section \<open>Reading back what was saved\<close>

lemma upsert_absent: "\<not> has_row key (key r) t \<Longrightarrow> upsert key merge r t = t @ [r]"
  by (induction t) auto

lemma filter_enumerate_none: "\<forall>x \<in> set t. \<not> P x \<Longrightarrow> filter (\<lambda>(_, x). P x) (enumerate n t) = []"
  by (induction t arbitrary: n) auto

lemma enumerate_snoc: "enumerate n (t @ [r]) = enumerate n t @ [(n + length t, r)]"
  by (induction t arbitrary: n) auto

text \<open>
  C34. Round trip of an escrow event. After \<open>SaveEscrowEvent\<close> of an event that was not stored yet, the
  lookup by transaction and log index, whichever way the database plans it, returns that event with
  its escrow id and amount in the canonical decimal form of their NUMERIC(78,0) columns, so exactly
  that event when they are canonical, as those the decoders produce are (\<open>escrow_numbers_exact\<close>).
\<close>

theorem escrow_read_back:
  assumes "save_escrow_event env (Some ev) w = (Inr (), w1)"
    and "\<not> has_row es_key (es_key (escrow_row_of ev)) (escrow_events (w_db w))"
    and "pg_escrow_event_by_tx env plan (e_tx ev) (sint (e_index ev)) w1 = (Inr found, w2)"
    and "\<And>rows. mset (pl_escrow plan rows) = mset rows"
  shows "\<exists>i. found = Some (i, ev\<lparr>e_id := numeric_canonical (e_id ev), e_amount := numeric_canonical (e_amount ev)\<rparr>) \<and>
    (e_id ev \<in> range (map_option dec_int) \<and> e_amount ev \<in> range (map_option dec_int) \<longrightarrow> found = Some (i, ev))"
proof -
  let ?r = "escrow_row_of ev" and ?t = "escrow_events (w_db w)"
  let ?s = "stored_escrow ?r"
  have saved: "stmt_escrow es_merge_single ?r (w_db w) = Inr (w_db w1)"
    using assms(1) by (auto simp: save_escrow_event_def wrapping_Inr exec_sql_Inr)
  have absent: "\<not> has_row es_key (es_key ?s) ?t" using assms(2) by simp
  from saved have db: "(w_db w)\<lparr>escrow_events := ?t @ [?s]\<rparr> = w_db w1"
    and fresh: "\<not> (\<exists>x \<in> set ?t. es_tx x = es_tx ?r \<and> es_index x = es_index ?r)"
    using assms(2) by (auto simp: stmt_escrow_def upsert_absent [OF absent] split: if_splits)
  have table: "escrow_events (w_db w1) = ?t @ [?s]" unfolding db [symmetric] by simp
  have none: "filter (\<lambda>(_, r). es_tx r = e_tx ev \<and> es_index r = sint (e_index ev)) (enumerate 1 ?t) = []"
    using fresh by (intro filter_enumerate_none) (auto simp: escrow_row_of_def)
  have "es_tx ?s = e_tx ev \<and> es_index ?s = sint (e_index ev)" by (simp add: escrow_row_of_def)
  then have rows: "filter (\<lambda>(_, r). es_tx r = e_tx ev \<and> es_index r = sint (e_index ev)) (enumerate 1 (?t @ [?s])) =
      [(Suc (length ?t), ?s)]"
    using none by (simp add: enumerate_snoc)
  have "pl_escrow plan [(Suc (length ?t), ?s)] = [(Suc (length ?t), ?s)]"
    using assms(4) [of "[(Suc (length ?t), ?s)]"] by simp
  then have "found = Some (escrow_event_of (Suc (length ?t), ?s))"
    using assms(3) rows by (simp add: pg_escrow_event_by_tx_def wrapping_Inr query_sql_Inr table)
  then show ?thesis by (auto simp: escrow_event_of_def escrow_row_of_def stored_escrow_def)
qed

definition stored_event :: escrow_event where
  "stored_event = \<lparr>e_chain = 1, e_contract = 9, e_type = ''EscrowCreated'', e_tx = 77, e_block = 10, e_time = 1000,
     e_index = 3, e_removed = False, e_id = Some ''31'', e_amount = Some ''7'', e_raw = []\<rparr>"

definition plain_plan :: plan where
  "plain_plan = \<lparr>pl_fundings = id, pl_claims = id, pl_transfers = rev, pl_escrow = rev, pl_events = id, pl_collate = id\<rparr>"

theorem escrow_read_back_witness:
  "\<exists>w1 w2 i. save_escrow_event calm_env (Some (stored_event\<lparr>e_amount := Some ''007''\<rparr>)) empty_world = (Inr (), w1) \<and>
     pg_escrow_event_by_tx calm_env plain_plan 77 3 w1 = (Inr (Some (i, stored_event)), w2)"
proof -
  let ?ev = "stored_event\<lparr>e_amount := Some ''007''\<rparr>"
  let ?s = "save_escrow_event calm_env (Some ?ev) empty_world"
  have "fst ?s = Inr ()" by code_simp
  then obtain w1 where s: "?s = (Inr (), w1)" by (metis prod.collapse)
  obtain found w2 where f: "pg_escrow_event_by_tx calm_env plain_plan (e_tx ?ev) (sint (e_index ?ev)) w1 =
      (Inr found, w2)"
    by (simp add: pg_escrow_event_by_tx_def wrapping_def query_sql_def)
  have fresh: "\<not> has_row es_key (es_key (escrow_row_of ?ev)) (escrow_events (w_db empty_world))"
    by (simp add: empty_world_def empty_database_def)
  have plan: "mset (pl_escrow plain_plan rows) = mset rows" for rows by (simp add: plain_plan_def)
  have texts: "numeric_canonical (Some ''007'') = Some ''7''" "numeric_canonical (Some ''31'') = Some ''31''" by code_simp+
  from escrow_read_back [OF s fresh f plan] obtain i where
    "found = Some (i, ?ev\<lparr>e_id := numeric_canonical (e_id ?ev), e_amount := numeric_canonical (e_amount ?ev)\<rparr>)" by blast
  moreover have "?ev\<lparr>e_id := numeric_canonical (e_id ?ev), e_amount := numeric_canonical (e_amount ?ev)\<rparr> = stored_event"
    by (simp add: stored_event_def texts)
  ultimately show ?thesis using s f by (auto simp: stored_event_def)
qed

text \<open>
  Round trip of a transfer: after \<open>SaveTokenTransfer\<close> of a transfer that was not stored yet, reading the
  transfers of its token with room for all of them returns the rows of the token, that transfer among them.
\<close>

theorem transfer_read_back:
  assumes "save_token_transfer env (Some t) w = (Inr (), w1)"
    and "\<not> has_row tr_key (tr_key (transfer_row_of t)) (token_transfers (w_db w))"
    and "get_token_transfers env plan (tt_chain t) (tt_token t) limit w1 = (Inr found, w2)"
    and "\<And>rows. mset (pl_transfers plan rows) = mset rows"
    and "length (transfers_of (tt_chain t) (tt_token t) (w_db w1)) \<le> nat (if limit \<le> 0 then 100 else limit)"
  shows "mset found = mset (map transfer_of_row (transfers_of (tt_chain t) (tt_token t) (w_db w1))) \<and>
    (\<exists>i. (i, t) \<in> set found)"
proof -
  let ?r = "transfer_row_of t" and ?t = "token_transfers (w_db w)"
  let ?rows = "transfers_of (tt_chain t) (tt_token t) (w_db w1)"
  have "stmt_transfer ?r (w_db w) = Inr (w_db w1)"
    using assms(1) by (auto simp: save_token_transfer_def wrapping_Inr exec_sql_Inr)
  then have db: "(w_db w)\<lparr>token_transfers := ?t @ [?r]\<rparr> = w_db w1"
    using assms(2) by (auto simp: stmt_transfer_def upsert_absent split: if_splits)
  have "token_transfers (w_db w1) = ?t @ [?r]" unfolding db [symmetric] by simp
  then have member: "(Suc (length ?t), ?r) \<in> set ?rows"
    by (simp add: transfers_of_def enumerate_snoc transfer_row_of_def)
  let ?sorted = "sort_key (\<lambda>(_, r). (tr_block r, tr_index r)) (pl_transfers plan ?rows)"
  have mset: "mset ?sorted = mset ?rows" using assms(4) by simp
  then have "length ?sorted = length ?rows" by (metis size_mset)
  then have found: "found = map transfer_of_row ?sorted"
    using assms(3,5) by (simp add: get_token_transfers_def wrapping_Inr query_sql_Inr)
  then have all: "mset found = mset (map transfer_of_row ?rows)" using mset by simp
  have "transfer_of_row (Suc (length ?t), ?r) = (int (Suc (length ?t)), t)"
    by (simp add: transfer_of_row_def transfer_row_of_def)
  then have "(int (Suc (length ?t)), t) \<in> transfer_of_row ` set ?rows" using member by force
  then have "(int (Suc (length ?t)), t) \<in> set found" using mset_eq_setD [OF all] by simp
  then show ?thesis using all by blast
qed

end
