(* ===== verification/Chain_Events_Repository.thy ===== *)
theory Chain_Events_Repository
  imports Configuration Payroll_Indexer
begin

text \<open>
  \<open>internal/repository/chain_events_repo.go\<close>, which the router constructs and does not use. What PostgreSQL
  does with a statement whose names it can resolve is a parameter; the names are resolved against the
  catalogue the migrations leave, and none of the three statements gets past that. PostgreSQL's messages are
  abbreviated.
\<close>

section \<open>The catalogue\<close>

record table_def =
  td_columns :: "string list"
  td_unique :: "string list list"

text \<open>Tables by qualified name.\<close>

type_synonym table_catalogue = "string \<Rightarrow> table_def option"

text \<open>\<open>chain_events\<close> as created by the first migration; no later one adds a column or a unique key.\<close>

definition chain_events_table :: table_def where
  "chain_events_table = \<lparr>td_columns = [''event_id'', ''chain_id'', ''contract_address'', ''event_name'', ''tx_hash'',
       ''block_number'', ''block_timestamp'', ''log_index'', ''removed'', ''raw_data'', ''created_at''],
     td_unique = [[''event_id''], [''chain_id'', ''contract_address'', ''tx_hash'', ''log_index'']]\<rparr>"

datatype sql_value = Null | Number int | Words string | Moment int

record insert_stmt =
  in_table :: string
  in_columns :: "string list"
  in_values :: "sql_value list"
  in_conflict :: "string list"
  in_returning :: string

record select_stmt =
  sl_table :: string
  sl_columns :: "string list"
  sl_filters :: "string list"
  sl_order :: "string list"
  sl_args :: "sql_value list"

definition unknown_column :: "table_def \<Rightarrow> string list \<Rightarrow> string option" where
  "unknown_column t cs = find (\<lambda>c. c \<notin> set (td_columns t)) cs"

definition in_catalogue ::
  "table_catalogue \<Rightarrow> string \<Rightarrow> string list \<Rightarrow> (table_def \<Rightarrow> goerror + unit) \<Rightarrow> goerror + unit" where
  "in_catalogue cat name cs k = (case cat name of
       None \<Rightarrow> Inl (new_error (''relation '' @ quote name @ '' does not exist''))
     | Some t \<Rightarrow> (case unknown_column t cs of
           Some c \<Rightarrow> Inl (new_error (''column '' @ quote c @ '' does not exist''))
         | None \<Rightarrow> k t))"

definition resolve_insert :: "table_catalogue \<Rightarrow> insert_stmt \<Rightarrow> goerror + unit" where
  "resolve_insert cat s = in_catalogue cat (in_table s) (in_columns s @ in_conflict s @ [in_returning s]) (\<lambda>t.
     if list_ex (\<lambda>u. set u = set (in_conflict s)) (td_unique t) then Inr ()
     else Inl (new_error ''there is no unique or exclusion constraint matching the ON CONFLICT specification''))"

definition resolve_select :: "table_catalogue \<Rightarrow> select_stmt \<Rightarrow> goerror + unit" where
  "resolve_select cat s = in_catalogue cat (sl_table s) (sl_columns s @ sl_filters s @ sl_order s) (\<lambda>t. Inr ())"

text \<open>One statement: a fault, a name that does not resolve, or what the database does with it.\<close>

definition resolved :: "env \<Rightarrow> goerror + unit \<Rightarrow> 'a go \<Rightarrow> 'a go" where
  "resolved env names run = (\<lambda>w. case db_fault env (w_tick w) of
       Some e \<Rightarrow> (Inl e, next_tick w)
     | None \<Rightarrow> (case names of Inl e \<Rightarrow> (Inl e, next_tick w) | Inr _ \<Rightarrow> run w))"

section \<open>The repository\<close>

text \<open>\<open>models.ChainEvent\<close>; \<open>ce_indexed_at\<close> is None for the zero time.\<close>

record chain_event_model =
  ce_id :: int
  ce_chain :: int
  ce_contract :: string
  ce_name :: string
  ce_tx :: string
  ce_block :: int
  ce_block_hash :: string
  ce_index :: int
  ce_tx_index :: int
  ce_time :: int
  ce_escrow :: string
  ce_buyer :: string
  ce_seller :: string
  ce_amount :: string
  ce_webhook :: string
  ce_payload :: string
  ce_indexed_at :: "int option"

definition or_null :: "string \<Rightarrow> sql_value" where
  "or_null s = (if s = [] then Null else Words s)"

definition insert_event_stmt :: "int \<Rightarrow> chain_event_model \<Rightarrow> insert_stmt" where
  "insert_event_stmt t ev = \<lparr>in_table = ''indexer.chain_events'',
     in_columns = [''chain_id'', ''contract_address'', ''event_name'', ''tx_hash'', ''block_number'', ''block_hash'',
       ''log_index'', ''tx_index'', ''block_timestamp'', ''escrow_id'', ''buyer'', ''seller'', ''amount'',
       ''alchemy_webhook_id'', ''raw_payload'', ''indexed_at''],
     in_values = [Number (ce_chain ev), Words (ce_contract ev), Words (ce_name ev), Words (ce_tx ev),
       Number (ce_block ev), Words (ce_block_hash ev), Number (ce_index ev), Number (ce_tx_index ev),
       Moment (if ce_time ev = 0 then t else ce_time ev), or_null (ce_escrow ev), or_null (ce_buyer ev),
       or_null (ce_seller ev), or_null (ce_amount ev), or_null (ce_webhook ev), or_null (ce_payload ev),
       Moment (case ce_indexed_at ev of None \<Rightarrow> t | Some x \<Rightarrow> x)],
     in_conflict = [''tx_hash'', ''log_index''], in_returning = ''event_id''\<rparr>"

text \<open>
  \<open>run\<close> returns the id of the new row, or None for \<open>pgx.ErrNoRows\<close>, when the conflict clause skipped it. The
  result is the event, whose id the method sets.
\<close>

definition insert_chain_event ::
  "env \<Rightarrow> table_catalogue \<Rightarrow> (insert_stmt \<Rightarrow> int option go) \<Rightarrow> chain_event_model option \<Rightarrow> chain_event_model go" where
  "insert_chain_event env cat run event = (case event of
       None \<Rightarrow> fail (new_error ''event is nil'')
     | Some ev \<Rightarrow> with_now env (\<lambda>t. let s = insert_event_stmt t ev in
         bind_go (wrapping ''failed to insert chain event'' (resolved env (resolve_insert cat s) (run s))) (\<lambda>row.
         ret (case row of None \<Rightarrow> ev | Some i \<Rightarrow> ev\<lparr>ce_id := i\<rparr>))))"

definition event_columns :: "string list" where
  "event_columns = [''event_id'', ''chain_id'', ''contract_address'', ''event_name'', ''tx_hash'', ''block_number'',
     ''block_hash'', ''log_index'', ''tx_index'', ''block_timestamp'', ''escrow_id'', ''buyer'', ''seller'', ''amount'',
     ''alchemy_webhook_id'', ''raw_payload'', ''indexed_at'', ''created_at'']"

text \<open>A scanned row: the event with its timestamp in microseconds, which \<open>Unix\<close> turns into seconds.\<close>

definition event_of_scan :: "chain_event_model \<times> int \<Rightarrow> chain_event_model" where
  "event_of_scan = (\<lambda>(e, micros). e\<lparr>ce_time := micros div 1000000\<rparr>)"

definition events_by_escrow_stmt :: "string \<Rightarrow> select_stmt" where
  "events_by_escrow_stmt escrow = \<lparr>sl_table = ''indexer.chain_events'', sl_columns = event_columns,
     sl_filters = [''escrow_id''], sl_order = [''block_number'', ''log_index''], sl_args = [Words escrow]\<rparr>"

definition get_events_by_escrow_id ::
  "env \<Rightarrow> table_catalogue \<Rightarrow> (select_stmt \<Rightarrow> (chain_event_model \<times> int) list go) \<Rightarrow> string \<Rightarrow> chain_event_model list go" where
  "get_events_by_escrow_id env cat run escrow = (let s = events_by_escrow_stmt escrow in
     bind_go (wrapping ''failed to query chain events by escrow_id'' (resolved env (resolve_select cat s) (run s)))
       (\<lambda>rows. ret (map event_of_scan rows)))"

definition event_by_tx_stmt :: "string \<Rightarrow> int \<Rightarrow> select_stmt" where
  "event_by_tx_stmt tx i = \<lparr>sl_table = ''indexer.chain_events'', sl_columns = event_columns,
     sl_filters = [''tx_hash'', ''log_index''], sl_order = [], sl_args = [Words tx, Number i]\<rparr>"

definition get_event_by_tx ::
  "env \<Rightarrow> table_catalogue \<Rightarrow> (select_stmt \<Rightarrow> (chain_event_model \<times> int) option go) \<Rightarrow> string \<Rightarrow> int \<Rightarrow>
     chain_event_model option go" where
  "get_event_by_tx env cat run tx i = (let s = event_by_tx_stmt tx i in
     bind_go (wrapping ''failed to query chain event by tx and log index'' (resolved env (resolve_select cat s) (run s)))
       (\<lambda>row. ret (map_option event_of_scan row)))"

section \<open>No statement resolves\<close>

lemma resolved_Inl: "\<exists>e. resolved env (Inl x) run w = (Inl e, next_tick w)"
  by (auto simp: resolved_def split: option.split)

lemma wrapped_failure:
  "\<exists>e. m w = (Inl e, w') \<Longrightarrow> \<exists>e. bind_go (wrapping msg m) k w = (Inl e, w')"
  by (auto simp: bind_go_def wrapping_def)

text \<open>The migrations ran in the schema \<open>indexer\<close>, or in another one.\<close>

definition migrated_catalogue :: "table_catalogue \<Rightarrow> bool" where
  "migrated_catalogue cat \<longleftrightarrow> (case cat ''indexer.chain_events'' of None \<Rightarrow> True | Some t \<Rightarrow> t = chain_events_table)"

lemma resolve_insert_fails:
  "migrated_catalogue cat \<Longrightarrow> \<exists>e. resolve_insert cat (insert_event_stmt t ev) = Inl e"
  by (auto simp: migrated_catalogue_def resolve_insert_def insert_event_stmt_def in_catalogue_def unknown_column_def chain_events_table_def
      split: option.splits)

lemma resolve_select_fails:
  "migrated_catalogue cat \<Longrightarrow> sl_table s = ''indexer.chain_events'' \<Longrightarrow>
     sl_columns s = event_columns \<Longrightarrow> \<exists>e. resolve_select cat s = Inl e"
  by (auto simp: migrated_catalogue_def resolve_select_def in_catalogue_def unknown_column_def chain_events_table_def event_columns_def
      split: option.splits)

text \<open>
  C35. The repository of chain events cannot work. In a database the migrations have created, or one whose
  tables live in another schema than \<open>indexer\<close>, every insert and both lookups end with an error after one
  statement, whatever the arguments, and change nothing.
\<close>

theorem chain_events_unusable:
  assumes "migrated_catalogue cat"
  shows "(\<exists>e. insert_chain_event env cat run_insert (Some ev) w = (Inl e, next_tick w)) \<and>
    (\<exists>e. get_events_by_escrow_id env cat run_list escrow w = (Inl e, next_tick w)) \<and>
    (\<exists>e. get_event_by_tx env cat run_one tx i w = (Inl e, next_tick w))"
proof -
  have stmt: "\<exists>e. resolved env names run w = (Inl e, next_tick w)" if "\<exists>e. names = Inl e" for names and run :: "'x go"
    using that resolved_Inl by fast
  have "\<exists>e. insert_chain_event env cat run_insert (Some ev) w = (Inl e, next_tick w)"
    unfolding insert_chain_event_def Let_def option.case with_now_eq
    by (intro wrapped_failure stmt resolve_insert_fails [OF assms])
  moreover have "\<exists>e. get_events_by_escrow_id env cat run_list escrow w = (Inl e, next_tick w)"
    unfolding get_events_by_escrow_id_def Let_def
    by (intro wrapped_failure stmt resolve_select_fails [OF assms]) (simp_all add: events_by_escrow_stmt_def)
  moreover have "\<exists>e. get_event_by_tx env cat run_one tx i w = (Inl e, next_tick w)"
    unfolding get_event_by_tx_def Let_def
    by (intro wrapped_failure stmt resolve_select_fails [OF assms]) (simp_all add: event_by_tx_stmt_def)
  ultimately show ?thesis by blast
qed

definition migrated :: table_catalogue where
  "migrated = (\<lambda>t. if t = ''indexer.chain_events'' then Some chain_events_table else None)"

definition funded_event :: chain_event_model where
  "funded_event = \<lparr>ce_id = 0, ce_chain = 1, ce_contract = ''0xab'', ce_name = ''EscrowFunded'', ce_tx = ''0x01'',
     ce_block = 10, ce_block_hash = ''0x02'', ce_index = 3, ce_tx_index = 0, ce_time = 1000, ce_escrow = ''7'',
     ce_buyer = [], ce_seller = [], ce_amount = ''5'', ce_webhook = [], ce_payload = [], ce_indexed_at = None\<rparr>"

theorem chain_events_unusable_witness:
  "(\<exists>e. insert_chain_event calm_env migrated (\<lambda>_. ret (Some 1)) (Some funded_event) empty_world =
      (Inl e, next_tick empty_world)) \<and>
   (case fst (insert_chain_event calm_env migrated (\<lambda>_. ret (Some 1)) (Some funded_event) empty_world) of
      Inl e \<Rightarrow> emsg e = ''failed to insert chain event: column \"block_hash\" does not exist'' | Inr _ \<Rightarrow> False)"
proof -
  have "migrated_catalogue migrated" by (simp add: migrated_catalogue_def migrated_def)
  from chain_events_unusable [OF this]
  have fails: "\<exists>e. insert_chain_event calm_env migrated (\<lambda>_. ret (Some 1)) (Some funded_event) empty_world =
      (Inl e, next_tick empty_world)" by blast
  have "case fst (insert_chain_event calm_env migrated (\<lambda>_. ret (Some 1)) (Some funded_event) empty_world) of
      Inl e \<Rightarrow> emsg e = ''failed to insert chain event: column \"block_hash\" does not exist'' | Inr _ \<Rightarrow> False"
    by code_simp
  then show ?thesis using fails by (rule conjI [rotated])
qed

end
