(* ===== verification/Api_Properties.thy ===== *)
theory Api_Properties
  imports Read_Api
begin

text \<open>
  Properties of the listings: the pages of a request cover the matching rows, what happens when the
  sort is not total or the page number is huge, and the lookup of escrow events by id.
\<close>

section \<open>A listing on a healthy database\<close>

definition healthy :: "env \<Rightarrow> bool" where
  "healthy env \<longleftrightarrow> (\<forall>n. db_fault env n = None)"

lemma healthy_query: "healthy env \<Longrightarrow> query_sql env f w = (Inr (f (w_db w)), next_tick w)"
  by (simp add: healthy_def query_sql_def)

lemma healthy_queried:
  assumes "m w = (Inr x, w')"
  shows "queried msg m k w = k x w'"
  using assms by (simp add: queried_def bind_go_def attempt_def)

lemma list_fundings_healthy:
  assumes "healthy env"
  shows "list_fundings env plan f w =
    (Inr (map listed_funding_of (page_of f (ordered_fundings f (pl_fundings plan (matching_fundings f (w_db w))))),
          int (length (matching_fundings f (w_db w)))), next_tick (next_tick w))"
  by (simp add: list_fundings_def bind_go_def wrapping_def healthy_query [OF assms] ret_def)

text \<open>The filter of a request, up to the offset of its page.\<close>

definition funding_request :: "hex_lib \<Rightarrow> config \<Rightarrow> query \<Rightarrow> int \<Rightarrow> funding_filter \<Rightarrow> bool" where
  "funding_request lib cfg q s f \<longleftrightarrow> parse_page_size q = Inr s \<and>
     (\<exists>blocks dates employer employee srt. parse_block_range q = Inr blocks \<and> parse_date_range q = Inr dates \<and>
        optional_address lib q ''employer'' = Inr employer \<and> optional_address lib q ''employee'' = Inr employee \<and>
        parse_sort q (own_names [''block_number'', ''block_timestamp'', ''amount_paid'', ''amount_credited''])
          ''block_number'' ''DESC'' = Inr srt \<and>
        f = \<lparr>lf_limit = s, lf_offset = 0, lf_sort_by = so_by srt, lf_direction = so_direction srt,
             ff_chain = cfg_chain_id cfg, ff_employer = employer, ff_employee = employee,
             ff_blocks = blocks, ff_dates = dates\<rparr>)"

definition with_page :: "query \<Rightarrow> int \<Rightarrow> query" where
  "with_page q p = q(''page'' := dec_int p)"

lemma with_page_keys:
  "parse_block (with_page q p) ''from_block'' = parse_block q ''from_block''"
  "parse_block (with_page q p) ''to_block'' = parse_block q ''to_block''"
  "parse_date (with_page q p) ''from_date'' = parse_date q ''from_date''"
  "parse_date (with_page q p) ''to_date'' = parse_date q ''to_date''"
  "parse_sort_field (with_page q p) cols c = parse_sort_field q cols c"
  "first_nonblank (with_page q p) [''order'', ''sort_dir'', ''sort_direction''] =
     first_nonblank q [''order'', ''sort_dir'', ''sort_direction'']"
  by (simp_all add: with_page_def parse_block_def parse_date_def parse_sort_field_def Let_def)

lemma with_page_others:
  "parse_page_size (with_page q p) = parse_page_size q" "parse_block_range (with_page q p) = parse_block_range q"
  "parse_date_range (with_page q p) = parse_date_range q"
  "optional_address lib (with_page q p) ''employer'' = optional_address lib q ''employer''"
  "optional_address lib (with_page q p) ''employee'' = optional_address lib q ''employee''"
  "parse_sort (with_page q p) cols c d = parse_sort q cols c d"
  unfolding parse_block_range_def parse_date_range_def parse_sort_def with_page_keys
  by (simp_all add: with_page_def parse_page_size_def optional_address_def)

lemma dec_int_nonempty [simp]: "dec_int i \<noteq> []"
  by (simp add: dec_int_def)

lemma parse_page_with: "1 \<le> p \<Longrightarrow> p < 2 ^ 63 \<Longrightarrow> parse_page (with_page q p) = Inr p"
  using parse_int_dec [of p] by (simp add: parse_page_def with_page_def)

lemma page_size_bounds: "parse_page_size q = Inr s \<Longrightarrow> 1 \<le> s \<and> s \<le> 100"
  by (auto simp: parse_page_size_def default_page_size_def max_page_size_def split: if_splits option.splits)

lemma wrap_int_small: "- (2 ^ 63) \<le> i \<Longrightarrow> i < 2 ^ 63 \<Longrightarrow> wrap_int i = i"
  by (simp add: wrap_int_def signed_take_bit_int_eq_self signed_of_int)

lemma wrap_int_over:
  assumes "2 ^ 63 \<le> i" "i < 2 ^ 64"
  shows "wrap_int i = i - 2 ^ 64"
proof -
  have zero: "(word_of_int (2 ^ 64) :: u64) = 0" by simp
  have "(word_of_int (i - 2 ^ 64) :: u64) = word_of_int i - word_of_int (2 ^ 64)" by (rule wi_hom_sub [symmetric])
  then have "(word_of_int (i - 2 ^ 64) :: u64) = word_of_int i" unfolding zero by (simp only: diff_zero)
  then have "wrap_int i = wrap_int (i - 2 ^ 64)" by (simp only: wrap_int_def)
  then show ?thesis using assms by (simp add: wrap_int_small)
qed

lemma offset_irrelevant [simp]:
  "matching_fundings (f\<lparr>lf_offset := k\<rparr>) = matching_fundings f"
  "ordered_fundings (f\<lparr>lf_offset := k\<rparr>) = ordered_fundings f"
  by (simp_all add: matching_fundings_def ordered_fundings_def fun_eq_iff)

definition funding_page ::
  "env \<Rightarrow> plan \<Rightarrow> hex_lib \<Rightarrow> config \<Rightarrow> query \<Rightarrow> world \<Rightarrow> int \<Rightarrow> goerror + listed_funding list response" where
  "funding_page env plan lib cfg q w p =
     fst (payroll_fundings_handler env plan lib cfg (with_page q p) w)"

lemma funding_page_run:
  assumes "funding_request lib cfg q s f" "healthy env" "1 \<le> p" "p < 2 ^ 63"
  shows "funding_page env plan lib cfg q w p = Inr (write_list
     (map listed_funding_of (page_of (f\<lparr>lf_offset := wrap_int ((p - 1) * s)\<rparr>)
        (ordered_fundings f (pl_fundings plan (matching_fundings f (w_db w))))))
     p s (int (length (matching_fundings f (w_db w)))))"
proof -
  let ?f = "f\<lparr>lf_offset := wrap_int ((p - 1) * s)\<rparr>"
  have pag: "parse_pagination (with_page q p) = Inr \<lparr>pg_page = p, pg_size = s, pg_offset = wrap_int ((p - 1) * s)\<rparr>"
    using assms(1) parse_page_with [OF assms(3,4)]
    by (simp add: parse_pagination_def funding_request_def with_page_others)
  note run = list_fundings_healthy [OF assms(2), of plan ?f w, unfolded offset_irrelevant]
  show ?thesis
    using assms(1) run unfolding funding_page_def payroll_fundings_handler_def funding_request_def
    by (auto simp: checked_def with_page_others pag healthy_queried ret_def)
qed

text \<open>The rows of an answer, and whether it announces another page.\<close>

definition listed :: "goerror + 'a list response \<Rightarrow> 'a list" where
  "listed r = (case r of Inr (Listing rows _) \<Rightarrow> rows | _ \<Rightarrow> [])"

definition announces_next :: "goerror + 'a response \<Rightarrow> bool" where
  "announces_next r \<longleftrightarrow> (case r of Inr (Listing _ m) \<Rightarrow> pm_has_next m | _ \<Rightarrow> False)"

lemma page_of_page:
  assumes "lf_limit f = s" "1 \<le> s"
  shows "page_of f rows = take (nat s) (drop (nat (effective_offset (lf_offset f))) rows)"
  using assms by (simp add: page_of_def effective_limit_def)

lemma request_limit: "funding_request lib cfg q s f \<Longrightarrow> lf_limit f = s \<and> 1 \<le> s \<and> s \<le> 100"
  using page_size_bounds by (auto simp: funding_request_def)

lemma funding_page_rows:
  assumes "funding_request lib cfg q s f" "healthy env" "1 \<le> p" "p * s < 2 ^ 63"
  shows "listed (funding_page env plan lib cfg q w p) = map listed_funding_of (take (nat s) (drop (nat ((p - 1) * s))
      (ordered_fundings f (pl_fundings plan (matching_fundings f (w_db w))))))" (is ?rows)
    and "announces_next (funding_page env plan lib cfg q w p) \<longleftrightarrow>
      p * s < int (length (matching_fundings f (w_db w)))" (is ?more)
proof -
  have s: "lf_limit f = s" "1 \<le> s" "s \<le> 100" using request_limit [OF assms(1)] by auto
  have "p * 1 \<le> p * s" using s assms(3) by (intro mult_left_mono) auto
  then have p: "p < 2 ^ 63" using assms(4) by simp
  have "0 \<le> (p - 1) * s" "(p - 1) * s \<le> p * s" using s assms(3) by (auto simp: mult_right_mono)
  then have off: "wrap_int ((p - 1) * s) = (p - 1) * s" "effective_offset ((p - 1) * s) = (p - 1) * s"
    "wrap_int (p * s) = p * s"
    using assms(4) by (auto simp: effective_offset_def intro!: wrap_int_small)
  note run = funding_page_run [OF assms(1-3) p, of plan w]
  show ?rows using s off by (simp add: run listed_def write_list_def page_of_page)
  show ?more using off by (simp add: run announces_next_def write_list_def)
qed

section \<open>A sample table\<close>

definition sample_funding :: "hash \<Rightarrow> int \<Rightarrow> funding_row" where
  "sample_funding h b = \<lparr>pf_chain = 5, pf_employer = 7, pf_employee = 8, pf_paid = 10, pf_fee = 1,
     pf_credited = 9, pf_tx = h, pf_block = b, pf_time = 1000 + b, pf_index = 0\<rparr>"

definition api_world :: world where
  "api_world = \<lparr>w_db = empty_database\<lparr>payroll_fundings := [sample_funding 1 3, sample_funding 2 4]\<rparr>,
     w_redis = (\<lambda>_. None), w_trace = [], w_tick = 0\<rparr>"

definition sample_lib :: hex_lib where
  "sample_lib = \<lparr>hl_is_address = (\<lambda>_. True), hl_address = (\<lambda>_. 7), hl_hash = (\<lambda>_. 1)\<rparr>"

definition sample_plan :: "((nat \<times> funding_row) list \<Rightarrow> (nat \<times> funding_row) list) \<Rightarrow> plan" where
  "sample_plan scan = \<lparr>pl_fundings = scan, pl_claims = id, pl_transfers = id, pl_escrow = rev, pl_events = id,
     pl_collate = id\<rparr>"

definition sample_query :: "string \<Rightarrow> string \<Rightarrow> query" where
  "sample_query psize col k = (if k = ''page_size'' then psize else if k = ''sort'' then col else [])"

definition sample_filter :: "int \<Rightarrow> funding_filter" where
  "sample_filter s = \<lparr>lf_limit = s, lf_offset = 0, lf_sort_by = ''block_number'', lf_direction = ''DESC'',
     ff_chain = 5, ff_employer = None, ff_employee = None, ff_blocks = \<lparr>br_from = None, br_to = None\<rparr>,
     ff_dates = \<lparr>dr_from = None, dr_to = None\<rparr>\<rparr>"

lemma sample_healthy: "healthy calm_env"
  by (simp add: healthy_def calm_env_def)

lemma sample_request:
  assumes "parse_page_size (sample_query psize []) = Inr s"
  shows "funding_request sample_lib sample_config (sample_query psize []) s (sample_filter s)"
proof -
  let ?q = "sample_query psize []"
  have "cfg_chain_id sample_config = 5" by code_simp
  moreover have "parse_block_range ?q = Inr \<lparr>br_from = None, br_to = None\<rparr>"
    "parse_date_range ?q = Inr \<lparr>dr_from = None, dr_to = None\<rparr>"
    "optional_address sample_lib ?q ''employer'' = Inr None" "optional_address sample_lib ?q ''employee'' = Inr None"
    by (simp_all add: sample_query_def parse_block_range_def parse_block_def parse_date_range_def parse_date_def
        optional_address_def)
  moreover have "parse_sort ?q (own_names [''block_number'', ''block_timestamp'', ''amount_paid'', ''amount_credited''])
      ''block_number'' ''DESC'' = Inr \<lparr>so_by = ''block_number'', so_direction = ''DESC''\<rparr>"
    by (simp add: sample_query_def parse_sort_def parse_sort_field_def own_names_def trim_space_def to_upper_def)
  ultimately show ?thesis using assms unfolding funding_request_def sample_filter_def by simp
qed

section \<open>Pages\<close>

lemma ordered_determined:
  assumes "inj_on (\<lambda>x. (funding_sort_key (sort_column funding_columns (lf_sort_by f)) x, pf_index (snd x))) (set rows)"
    and "mset rows' = mset rows"
  shows "ordered_fundings f rows' = ordered_fundings f rows"
  unfolding ordered_fundings_def case_prod_beta by (rule order_rows_determined [OF assms])

text \<open>
  C37. Walking the pages of \<open>GET /v1/payroll/fundings\<close>. When no two matching fundings agree on the
  chosen column and the log index, the pages 1, 2, ... of a valid request put together are exactly
  the matching fundings, each once, in the requested order, even if the database plans every page
  differently; a page announces another one exactly when rows are left.
\<close>

theorem funding_pages_cover:
  assumes "funding_request lib cfg q s f" "healthy env"
    and "\<And>p xs. mset (pl_fundings (plans p) xs) = mset xs"
    and "inj_on (\<lambda>x. (funding_sort_key (sort_column funding_columns (lf_sort_by f)) x, pf_index (snd x)))
           (set (matching_fundings f (w_db w)))"
    and "int (length (matching_fundings f (w_db w))) \<le> int n * s" "int n * s < 2 ^ 63"
  shows "concat (map (\<lambda>p. listed (funding_page env (plans p) lib cfg q w (int p))) [1..<Suc n]) =
       map listed_funding_of (ordered_fundings f (matching_fundings f (w_db w))) \<and>
     mset (ordered_fundings f (matching_fundings f (w_db w))) = mset (matching_fundings f (w_db w)) \<and>
     (\<forall>p \<in> {1..n}. announces_next (funding_page env (plans p) lib cfg q w (int p)) \<longleftrightarrow>
        p * nat s < length (matching_fundings f (w_db w)))"
proof (intro conjI ballI)
  let ?all = "matching_fundings f (w_db w)" and ?t = "nat s"
  have s: "1 \<le> s" using request_limit [OF assms(1)] by simp
  have small: "int p * s < 2 ^ 63" if "p \<le> n" for p
  proof -
    have "int p * s \<le> int n * s" using that s by (intro mult_right_mono) auto
    then show ?thesis using assms(6) by (rule order_le_less_trans)
  qed
  have page: "listed (funding_page env (plans p) lib cfg q w (int p)) =
      map listed_funding_of (take ?t (drop ((p - 1) * ?t) (ordered_fundings f ?all)))" if "p \<in> {1..n}" for p
  proof -
    have "nat ((int p - 1) * s) = (p - 1) * ?t" using that s by (simp add: nat_mult_distrib nat_diff_distrib)
    then show ?thesis
      using funding_page_rows(1) [OF assms(1,2), of "int p"] that small [of p] ordered_determined [OF assms(4,3)] by simp
  qed
  have "map (\<lambda>p. listed (funding_page env (plans p) lib cfg q w (int p))) [1..<Suc n] =
      map (\<lambda>p. map listed_funding_of (take ?t (drop (p * ?t) (ordered_fundings f ?all)))) [0..<n]"
    unfolding map_Suc_upt [symmetric] One_nat_def map_map by (intro map_cong refl) (use page [of "Suc _"] in \<open>simp del: of_nat_Suc\<close>)
  then have "concat (map (\<lambda>p. listed (funding_page env (plans p) lib cfg q w (int p))) [1..<Suc n]) =
      map listed_funding_of (concat (map (\<lambda>p. take ?t (drop (p * ?t) (ordered_fundings f ?all))) [0..<n]))"
    by (simp add: map_concat comp_def)
  also have "concat (map (\<lambda>p. take ?t (drop (p * ?t) (ordered_fundings f ?all))) [0..<n]) = ordered_fundings f ?all"
  proof -
    have "length ?all \<le> n * ?t" using assms(5) s by (simp add: nat_le_iff [symmetric] nat_mult_distrib zle_int [symmetric])
    then show ?thesis by (simp add: pages_tile ordered_fundings_def)
  qed
  finally show "concat (map (\<lambda>p. listed (funding_page env (plans p) lib cfg q w (int p))) [1..<Suc n]) =
      map listed_funding_of (ordered_fundings f ?all)" .
  show "mset (ordered_fundings f ?all) = mset ?all" by (simp add: ordered_fundings_def)
  fix p assume p: "p \<in> {1..n}"
  have eq: "int p * s = int (p * ?t)" using s by simp
  show "announces_next (funding_page env (plans p) lib cfg q w (int p)) \<longleftrightarrow> p * ?t < length ?all"
    using funding_page_rows(2) [OF assms(1,2), of "int p" "plans p" w] p small [of p] unfolding eq of_nat_less_iff
    by simp
qed

theorem funding_pages_cover_witness:
  "concat (map (\<lambda>p. listed (funding_page calm_env (sample_plan (if p = 1 then rev else id)) sample_lib sample_config
       (sample_query ''1'' []) api_world (int p))) [1..<Suc 2]) =
     map listed_funding_of [(2, sample_funding 2 4), (1, sample_funding 1 3)]"
proof -
  let ?q = "sample_query ''1'' []"
  have req: "funding_request sample_lib sample_config ?q 1 (sample_filter 1)"
    by (rule sample_request) code_simp
  have all: "matching_fundings (sample_filter 1) (w_db api_world) = [(1, sample_funding 1 3), (2, sample_funding 2 4)]"
    by code_simp
  have ordered: "ordered_fundings (sample_filter 1) [(1, sample_funding 1 3), (2, sample_funding 2 4)] =
      [(2, sample_funding 2 4), (1, sample_funding 1 3)]" by code_simp
  have col: "sort_column funding_columns (lf_sort_by (sample_filter 1)) = ''block_number''" by code_simp
  have perm: "mset (pl_fundings (sample_plan (if p = 1 then rev else id)) xs) = mset xs" for p :: nat and xs
    by (simp add: sample_plan_def)
  have inj: "inj_on (\<lambda>x. (funding_sort_key (sort_column funding_columns (lf_sort_by (sample_filter 1))) x, pf_index (snd x)))
      (set (matching_fundings (sample_filter 1) (w_db api_world)))"
    unfolding all col by (simp add: funding_sort_key_def sample_funding_def)
  have "int (length (matching_fundings (sample_filter 1) (w_db api_world))) \<le> int 2 * 1" "int 2 * (1 :: int) < 2 ^ 63"
    unfolding all by simp_all
  from funding_pages_cover [OF req sample_healthy perm inj this] show ?thesis unfolding all ordered by (rule conjunct1)
qed

text \<open>
  Ties. With a column on which fundings agree, such as the amount, the \<open>ORDER BY\<close> of the repository is not
  a total order: two matching fundings, two page requests answered with different plans, and both pages
  show the same funding while the other is never shown.
\<close>

theorem tied_pages_repeat:
  "mset (pl_fundings (sample_plan rev) rows) = mset rows \<and> mset (pl_fundings (sample_plan id) rows) = mset rows \<and>
   listed (funding_page calm_env (sample_plan id) sample_lib sample_config (sample_query ''1'' ''amount_paid'') api_world 1) =
     [listed_funding_of (1, sample_funding 1 3)] \<and>
   listed (funding_page calm_env (sample_plan rev) sample_lib sample_config (sample_query ''1'' ''amount_paid'') api_world 2) =
     [listed_funding_of (1, sample_funding 1 3)] \<and>
   length (matching_fundings (sample_filter 1) (w_db api_world)) = 2"
proof (intro conjI)
  show "mset (pl_fundings (sample_plan rev) rows) = mset rows" "mset (pl_fundings (sample_plan id) rows) = mset rows"
    by (simp_all add: sample_plan_def)
  show "length (matching_fundings (sample_filter 1) (w_db api_world)) = 2" by code_simp
  show "listed (funding_page calm_env (sample_plan id) sample_lib sample_config (sample_query ''1'' ''amount_paid'') api_world 1) =
     [listed_funding_of (1, sample_funding 1 3)]" by code_simp
  show "listed (funding_page calm_env (sample_plan rev) sample_lib sample_config (sample_query ''1'' ''amount_paid'') api_world 2) =
     [listed_funding_of (1, sample_funding 1 3)]" by code_simp
qed

text \<open>
  A page number so large that \<open>(page - 1) * pageSize\<close> overflows is accepted: the offset wraps to
  a negative number, which the repository replaces by 0, so the answer labelled with that page holds
  the rows of the first page.
\<close>

theorem huge_page_is_first_page:
  assumes "funding_request lib cfg q s f" "healthy env" "p < 2 ^ 63"
    and "2 ^ 63 \<le> (p - 1) * s" "(p - 1) * s < 2 ^ 64"
  shows "listed (funding_page env plan lib cfg q w p) = listed (funding_page env plan lib cfg q w 1)"
proof -
  have s: "lf_limit f = s" "1 \<le> s" "s \<le> 100" using request_limit [OF assms(1)] by auto
  have "1 \<le> p"
  proof (rule ccontr)
    assume "\<not> 1 \<le> p"
    then have "(p - 1) * s \<le> 0" using s by (simp add: mult_nonpos_nonneg)
    then show False using assms(4) by simp
  qed
  have "wrap_int ((p - 1) * s) = (p - 1) * s - 2 ^ 64" by (rule wrap_int_over [OF assms(4,5)])
  then have off: "effective_offset (wrap_int ((p - 1) * s)) = 0" using assms(5) by (simp add: effective_offset_def)
  have one: "effective_offset (wrap_int 0) = 0" by (simp add: effective_offset_def wrap_int_def)
  show ?thesis
    using funding_page_run [OF assms(1,2) \<open>1 \<le> p\<close> assms(3), of plan w]
      funding_page_run [OF assms(1,2), of 1 plan w] off one s
    by (simp add: listed_def write_list_def page_of_page)
qed

theorem huge_page_is_first_page_witness:
  "listed (funding_page calm_env (sample_plan id) sample_lib sample_config (sample_query ''2'' []) api_world (2 ^ 62 + 1)) =
     listed (funding_page calm_env (sample_plan id) sample_lib sample_config (sample_query ''2'' []) api_world 1)"
proof -
  have req: "funding_request sample_lib sample_config (sample_query ''2'' []) 2 (sample_filter 2)"
    by (rule sample_request) code_simp
  show ?thesis by (rule huge_page_is_first_page [OF req sample_healthy]) simp_all
qed

section \<open>Escrow events by id\<close>

lemma digit_not_space: "digit_of c \<noteq> None \<Longrightarrow> \<not> is_space c"
  by (auto simp: digit_of_def is_space_def Let_def split: if_splits)

lemma digits_not_space: "digits_from b 0 s = Some n \<Longrightarrow> c \<in> set s \<Longrightarrow> \<not> is_space c"
  using digits_from_members digit_not_space by fastforce

lemma dec_not_0x: "\<not> prefix ''0x'' (dec_nat n)"
proof
  assume "prefix ''0x'' (dec_nat n)"
  then obtain r where "dec_nat n = CHR ''0'' # CHR ''x'' # r" by (auto simp: prefix_def)
  then have "CHR ''x'' \<in> set (dec_nat n)" by simp
  then have "is_digit (CHR ''x'')" by (rule dec_nat_digits)
  then show False by (simp add: is_digit_def)
qed

text \<open>The three ways of writing an id.\<close>

lemma parse_escrow_id_texts:
  "parse_escrow_id (dec_nat n) = Inr (dec_nat n)"
  "parse_escrow_id (''0x'' @ hex_nat n) = Inr (dec_nat n)"
  "parse_escrow_id (''0X'' @ hex_nat n) = Inr (dec_nat n)"
proof -
  have "trim_space (dec_nat n) = dec_nat n" by (rule trim_space_id) (rule digits_not_space [OF digits_dec_nat])
  then show "parse_escrow_id (dec_nat n) = Inr (dec_nat n)"
    using parse_big_dec [of "int n"] by (simp add: parse_escrow_id_def Let_def dec_not_0x dec_int_def)
  have trim: "trim_space (pre @ hex_nat n) = pre @ hex_nat n" if "\<forall>c \<in> set pre. \<not> is_space c" for pre
    by (rule trim_space_id) (use that digits_not_space [OF digits_hex_nat] in auto)
  have low: "lower_char (CHR ''0'') = CHR ''0''" "lower_char (CHR ''x'') = CHR ''x''" "lower_char (CHR ''X'') = CHR ''x''"
    by code_simp+
  show "parse_escrow_id (''0x'' @ hex_nat n) = Inr (dec_nat n)"
    using trim [of "''0x''"] by (simp add: parse_escrow_id_def Let_def is_space_def low dec_int_def)
  show "parse_escrow_id (''0X'' @ hex_nat n) = Inr (dec_nat n)"
    using trim [of "''0X''"] by (simp add: parse_escrow_id_def Let_def is_space_def low dec_int_def)
qed

definition canonical_ids :: "database \<Rightarrow> bool" where
  "canonical_ids d \<longleftrightarrow> (\<forall>r \<in> set (escrow_events d). \<forall>t. es_id r = Some t \<longrightarrow> (\<exists>i. t = dec_int i))"

lemma same_numeric_canonical:
  "es_id r \<noteq> None \<Longrightarrow> es_id r = Some (dec_int i) \<Longrightarrow> same_numeric (es_id r) (dec_nat n) \<longleftrightarrow> i = int n"
  using parse_big_dec [of "int n"] by (simp add: same_numeric_def dec_int_def [of "int n"])

text \<open>
  C39. Looking up an escrow. \<open>GET /v1/escrow/{id}/events\<close> gives the same answer for the decimal and the two
  hexadecimal spellings of an id; on a healthy database whose ids are the canonical texts the indexers
  write, it holds exactly the stored events of that id, ordered by block and log index.
\<close>

theorem escrow_lookup:
  assumes "healthy env" "\<And>xs. mset (pl_escrow plan xs) = mset xs" "canonical_ids (w_db w)"
    and "s \<in> {dec_nat n, ''0x'' @ hex_nat n, ''0X'' @ hex_nat n}"
  shows "\<exists>rows. fst (escrow_events_handler env plan s w) =
       Inr (Success \<lparr>el_events = map escrow_event_of rows, el_total = int (length rows), el_id = dec_nat n\<rparr>) \<and>
     mset rows = filter_mset (\<lambda>(_, r). es_id r = Some (dec_nat n)) (mset (enumerate 1 (escrow_events (w_db w)))) \<and>
     sorted (map (\<lambda>(_, r). (es_block r, es_index r)) rows)"
proof -
  let ?t = "enumerate 1 (escrow_events (w_db w))"
  let ?rows = "sort_key (\<lambda>(_, r). (es_block r, es_index r))
    (pl_escrow plan (filter (\<lambda>(_, r). same_numeric (es_id r) (dec_nat n)) ?t))"
  have id: "parse_escrow_id s = Inr (dec_nat n)" using assms(4) parse_escrow_id_texts by auto
  have same: "same_numeric (es_id r) (dec_nat n) \<longleftrightarrow> es_id r = Some (dec_nat n)" if "(i, r) \<in> set ?t" for i r
  proof (cases "es_id r")
    case None
    then show ?thesis by (simp add: same_numeric_def)
  next
    case (Some t)
    have "r \<in> set (escrow_events (w_db w))" using that by (auto simp: in_set_enumerate_eq)
    then obtain j where "es_id r = Some (dec_int j)" using assms(3) Some unfolding canonical_ids_def by blast
    then show ?thesis using same_numeric_canonical [of r j n] dec_int_inj [of j "int n"] by (simp add: dec_int_def [of "int n"])
  qed
  have rows: "mset ?rows = filter_mset (\<lambda>(_, r). es_id r = Some (dec_nat n)) (mset ?t)"
  proof -
    have "filter (\<lambda>(_, r). same_numeric (es_id r) (dec_nat n)) ?t = filter (\<lambda>(_, r). es_id r = Some (dec_nat n)) ?t"
      by (rule filter_cong) (use same in \<open>auto simp del: in_set_enumerate_eq simp: same_numeric_def\<close>)
    then show ?thesis by (simp only: mset_sort assms(2) mset_filter)
  qed
  have "fst (escrow_events_handler env plan s w) =
      Inr (Success \<lparr>el_events = map escrow_event_of ?rows, el_total = int (length ?rows), el_id = dec_nat n\<rparr>)"
    unfolding escrow_events_handler_def id checked_def get_escrow_events_by_id_def
    by (simp add: queried_def bind_go_def attempt_def wrapping_def healthy_query [OF assms(1)] ret_def)
  then show ?thesis using rows by (intro exI [of _ ?rows]) simp
qed

definition sample_escrow :: "hash \<Rightarrow> int \<Rightarrow> string option \<Rightarrow> escrow_row" where
  "sample_escrow h b i = \<lparr>es_chain = 5, es_contract = 9, es_type = ''EscrowCreated'', es_tx = h, es_block = b,
     es_time = 1000, es_index = 0, es_removed = False, es_id = i, es_amount = None, es_raw = []\<rparr>"

definition escrow_world :: world where
  "escrow_world = api_world\<lparr>w_db := empty_database\<lparr>escrow_events :=
     [sample_escrow 1 4 (Some ''31''), sample_escrow 2 5 None, sample_escrow 3 2 (Some ''31'')]\<rparr>\<rparr>"

theorem escrow_lookup_witness:
  "\<exists>rows. fst (escrow_events_handler calm_env (sample_plan id) ''0x1f'' escrow_world) =
       Inr (Success \<lparr>el_events = map escrow_event_of rows, el_total = int (length rows), el_id = ''31''\<rparr>) \<and>
     length rows = 2"
proof -
  have texts: "dec_nat 31 = ''31''" "''0x'' @ hex_nat 31 = ''0x1f''" "dec_int 31 = ''31''" by code_simp+
  have canonical: "canonical_ids (w_db escrow_world)"
    using texts(3) by (auto simp: canonical_ids_def escrow_world_def sample_escrow_def intro: exI [of _ "31 :: int"])
  have two: "filter_mset (\<lambda>(_, r). es_id r = Some ''31'') (mset (enumerate 1 (escrow_events (w_db escrow_world)))) =
      {#(1, sample_escrow 1 4 (Some ''31'')), (3, sample_escrow 3 2 (Some ''31''))#}"
    by (simp add: escrow_world_def sample_escrow_def)
  obtain rows where "fst (escrow_events_handler calm_env (sample_plan id) ''0x1f'' escrow_world) =
       Inr (Success \<lparr>el_events = map escrow_event_of rows, el_total = int (length rows), el_id = dec_nat 31\<rparr>)"
    "mset rows = filter_mset (\<lambda>(_, r). es_id r = Some (dec_nat 31)) (mset (enumerate 1 (escrow_events (w_db escrow_world))))"
    using escrow_lookup [OF sample_healthy _ canonical, of "sample_plan id" "''0x1f''" 31] texts
    by (auto simp: sample_plan_def)
  then show ?thesis using two texts by (intro exI [of _ rows]) (simp flip: size_mset)
qed

end
