(* ===== verification/Spec2Isabelle.thy ===== *)
theory Spec2Isabelle
  imports Deployment Payroll_Service Maintenance Stored_Reads Chain_Events_Repository Projection_Replay Sweep_Properties
    Api_Properties
begin

text \<open>
  Verification of the WTF on-chain monitor (\<open>src/indexer\<close>), a Go service that copies the events of
  three Ethereum contracts into PostgreSQL.

  Parts and how they interact. An indexer asks the node for the logs of a block range, decodes
  them, stores them through the persistence layer and moves the checkpoint of its stream; a
  backfill or the live monitor drives an indexer chunk by chunk, every chunk under the retry
  policy. MonthlyPayroll events are also projected into domain tables. Escrow events also arrive
  by a signed webhook, which claims each log in Redis before storing and announcing it. The
  reconciliation workers read the chain again and compare it with the stored rows; they write
  exceptions and their own cursor only.

  Theories, in dependency order:
  \<^item> \<open>Prelude\<close>: machine types, the string and number formatting the code uses, Go errors.
  \<^item> \<open>Tables\<close>: SQL tables with a unique key and upserts; the contract \<open>sql_table\<close> and the replay
    contract \<open>replay_table\<close>.
  \<^item> \<open>Chain\<close>: logs, metadata, headers; \<open>internal/decoder\<close> and the parsers of \<open>internal/abi\<close>.
  \<^item> \<open>Database\<close>: the schema of \<open>indexer/migrations\<close> and every statement of the write path.
  \<^item> \<open>World\<close>: effects with faults, and the rules that lift invariants through them.
  \<^item> \<open>Retry\<close>: \<open>internal/indexer/retry.go\<close>.
  \<^item> \<open>Persistence\<close>: the write methods of \<open>internal/persistence\<close>.
  \<^item> \<open>Payroll_Projection\<close>, \<open>Projection_Replay\<close>: \<open>internal/persistence/payroll.go\<close>, its abstract
    specification and replay.
  \<^item> \<open>Backfill\<close>: the chunk loops and the contract \<open>indexed_stream\<close> from which checkpoint safety follows.
  \<^item> \<open>Payroll_Indexer\<close>: \<open>internal/indexer/indexer.go\<close>.
  \<^item> \<open>Escrow_Indexer\<close>, \<open>Escrow_Properties\<close>: \<open>internal/indexer/escrow_indexer.go\<close>.
  \<^item> \<open>Token_Indexer\<close>, \<open>Token_Properties\<close>: \<open>internal/indexer/token_indexer.go\<close>.
  \<^item> \<open>Live_Monitor\<close>: \<open>internal/indexer/live_monitor.go\<close>; one poll cycle as a function, the runs of
    \<open>Start\<close> as a step relation.
  \<^item> \<open>Go_Text\<close>: the text functions of Go's standard library (trimming, parsing, hexadecimal).
  \<^item> \<open>Webhook\<close>, \<open>Webhook_Properties\<close>: \<open>internal/api/handlers/webhook.go\<close> and
    \<open>internal/api/middleware/alchemy_auth.go\<close>.
  \<^item> \<open>Recon_Store\<close>: the exceptions of \<open>internal/repository/reconciliation_repo.go\<close> and the range
    queries of \<open>payroll_repo.go\<close> and \<open>tokens_repo.go\<close>.
  \<^item> \<open>Event_Reconciler\<close>, \<open>Reconciler_Facts\<close>: what the three event workers of
    \<open>internal/reconciliation\<close> share, and its contract \<open>event_worker\<close>.
  \<^item> \<open>Event_Workers\<close>: \<open>payroll_worker.go\<close>, \<open>salary_claim_worker.go\<close>, \<open>token_transfer_worker.go\<close>.
  \<^item> \<open>Recon_Properties\<close>, \<open>Sweep_Properties\<close>: what passes and sweeps do to the open exceptions.
  \<^item> \<open>Balance_Worker\<close>, \<open>Balance_Facts\<close>, \<open>Balance_Properties\<close>: \<open>balance_worker.go\<close>, the queries of
    balances and profiles, and the contract \<open>reference_check\<close> of one comparison.
  \<^item> \<open>Request_Validation\<close>: \<open>internal/api/validation\<close>, with \<open>time.Parse\<close> for the layouts it uses.
  \<^item> \<open>Configuration\<close>: \<open>internal/config/config.go\<close> and the loading of the token ABI in
    \<open>internal/abi/erc20.go\<close>.
  \<^item> \<open>List_Queries\<close>: the paginated listings of \<open>internal/repository\<close>; the order in which the database
    returns rows that \<open>ORDER BY\<close> does not separate is a parameter (record \<open>plan\<close>).
  \<^item> \<open>Read_Api\<close>, \<open>Api_Properties\<close>: the handlers of \<open>internal/api/handlers\<close> with their responses and
    queries, and what a client sees when it walks through pages or looks up an escrow.

  \<^item> \<open>Blockchain_Client\<close>: \<open>internal/blockchain/client.go\<close>; what a call of the client
    returns over a node that answers from the chain, in terms of the chain (\<open>faithful_node\<close>), and its bounds.
  \<^item> \<open>Reconciler_Command\<close>: \<open>cmd/reconciler/main.go\<close>; \<open>Indexer_Command\<close>: \<open>cmd/indexer/main.go\<close>. What both obtain
    from libraries is the record \<open>command_lib\<close>.
  \<^item> \<open>Payroll_Service\<close>: the constructors of the MonthlyPayroll indexer, its decoder and the ABI filterer.
  \<^item> \<open>Command_Facts\<close>, \<open>Command_Properties\<close>: the streams of a configuration are different rows, safety and
    termination of the indexer command in each mode.
  \<^item> \<open>Maintenance\<close>: \<open>cmd/clear-checkpoint/main.go\<close>.
  \<^item> \<open>Stored_Reads\<close>: the readers of \<open>internal/persistence\<close>.
  \<^item> \<open>Database_Setup\<close>: \<open>internal/persistence/postgres.go\<close> and the runner of \<open>migrations.go\<close>, with faults
    between any two statements.
  \<^item> \<open>Chain_Events_Repository\<close>: \<open>internal/repository/chain_events_repo.go\<close>, against the catalogue the
    migrations leave.
  \<^item> \<open>Api_Router\<close>: \<open>internal/api/router.go\<close>, the choice of \<open>http.ServeMux\<close> and the middleware;
    \<open>Api_Command\<close>: \<open>cmd/api/main.go\<close> up to the router, \<open>cmd/inspect-schema/main.go\<close>.
  \<^item> \<open>Deployment\<close>: indexer, reconciler and API taking turns on one database.

  State and operations. The database is a record of tables, each a list of rows in insertion
  order with a unique key; a statement is a total function that either fails on a constraint or
  returns the new database. Around it, a \<open>world\<close> holds the schedule of faults: every
  statement and every request to the node consumes one entry, so that a theorem over all worlds
  covers every pattern of database, network and cancellation faults. Block numbers are 64-bit
  words and wrap as Go's do.

  Properties. Checkpoint safety (nothing below a saved checkpoint is missing) is proved once in
  the contract \<open>indexed_stream\<close> and obtained for each indexer, backfill and poll by interpretation. It holds
  against a node whose log answers are right when it gives any (\<open>honest_node\<close>), under every pattern of
  faults for the payroll and the token stream; for the escrow stream only when the node answers every
  timestamp request (\<open>timestamps_answered\<close>), since \<open>escrow_timestamp_failure_loses_events\<close> shows that
  the code loses events otherwise;
  the projection refines an abstract specification by per-table upserts; the retry policy is
  bounded; nothing but a signed webhook request changes anything through the API; the webhook is idempotent and agrees with the indexer's decoding. A reconciliation
  pass is specified by the exceptions it leaves open (\<open>pass_spec\<close>); from that follow that agreeing
  tables raise no alarm, that missing facts do, and that a repeated pass changes nothing. A configuration
  that loads satisfies what the services assume of it (\<open>config_ok\<close>); the pages of a listing tile the
  matching rows when the sort is total, and a theorem shows what happens when it is not.

  Termination and fuel. The chunk loops are measured by the blocks left below the target (the
  backfill of a target below \<open>2 ^ 64 - 1\<close> ends, which is a theorem); the retry loop
  counts down its attempts. \<open>Start\<close> of the monitor and the loop of the reconciler run until they are
  cancelled, so they are step relations. The indexer command may run a loop that does not end; a command is a
  function into \<open>option\<close> (type \<open>run\<close>), and that it returns is a theorem.

  Commands. A run of the indexer is one function from flags, environment variables and database to the
  outcome, composed of the services as the code composes them. The interleaving of processes is one of whole
  polls, passes and requests: statements of two processes do not mix, and a process that dies half-way
  is covered by the faults inside a step.

  Not under \<open>src/\<close>, hence parameters: go-ethereum's ABI unpacking and address and hexadecimal
  conversions, the HMAC of the webhook signature, JSON decoding, what pgx answers when it
  connects, and what a migration script does. Text is ASCII. The order in which Go iterates over a map is a parameter. Numbers
  in stored JSON documents are read back as \<open>float64\<close>, rounded to 53 bits. The id sequence of
  the exceptions is the next free number.

  Simplifications: a statement or commit that reports a failure has not taken effect; backoff waits and
  durations are exact numbers, not \<open>float64\<close> products in 64 bits; \<open>ParseFloat\<close> gives finite numbers
  only; the NUMERIC columns that are sent as text take integers and keep their canonical form.

  Not modelled: the JSON encoding of responses, panics and their recovery, the HTTP server and its
  shutdown in \<open>cmd/api\<close>, the text of the contract ABIs, and what the
  commands print.
\<close>

end
